(* ===== verification/Coin_Nonce.thy ===== *)
theory Coin_Nonce
  imports Prelude
begin

text \<open>
  \<^verbatim>\<open>Coin\<close> (\<^verbatim>\<open>common/src/coin.rs\<close>, limits in \<^verbatim>\<open>common/src/constants.rs\<close>) and \<^verbatim>\<open>Nonce\<close>
  (\<^verbatim>\<open>common/src/nonce.rs\<close>).  A coin wraps a \<^verbatim>\<open>u128\<close> and every checked operation keeps it within
  \<^verbatim>\<open>MAX_COIN\<close>; the lemmas give the exact condition under which each operation succeeds and its
  value as a natural number, which is how the ledger theorems of the later theories count coins.
  Plain \<^verbatim>\<open>+\<close> and \<^verbatim>\<open>*\<close> on integers are the release profile's wrapping operations.
\<close>

section \<open>Definitions\<close>

definition MAX_COIN_DECIMALS :: u128 where "MAX_COIN_DECIMALS = 1000000"
definition MAX_COIN_UNITS :: u128 where "MAX_COIN_UNITS = 1000000000"
definition MAX_COIN :: u128 where "MAX_COIN = MAX_COIN_DECIMALS * MAX_COIN_UNITS"

datatype coin = Coin (amount: u128)

definition coin_new :: "u128 \<Rightarrow> coin res" where
  "coin_new a = (if a > MAX_COIN then Err CoinError else Ok (Coin a))"

definition coin_max :: coin where "coin_max = Coin MAX_COIN"
definition coin_zero :: coin where "coin_zero = Coin 0"
definition coin_unit :: coin where "coin_unit = Coin 1"
definition coin_one :: coin where "coin_one = Coin MAX_COIN_DECIMALS"

definition coin_is_zero :: "coin \<Rightarrow> bool" where
  "coin_is_zero c = (amount c = 0)"

definition coin_checked_add :: "coin \<Rightarrow> coin \<Rightarrow> coin option" where
  "coin_checked_add c d =
     (case checked_add (amount c) (amount d) of None \<Rightarrow> None | Some v \<Rightarrow> res_ok (coin_new v))"

definition coin_add :: "coin \<Rightarrow> coin \<Rightarrow> coin res" where
  "coin_add c d =
     (case checked_add (amount c) (amount d) of None \<Rightarrow> Err CoinError | Some v \<Rightarrow> coin_new v)"

definition coin_sub :: "coin \<Rightarrow> coin \<Rightarrow> coin res" where
  "coin_sub c d =
     (case checked_sub (amount c) (amount d) of None \<Rightarrow> Err CoinError | Some v \<Rightarrow> coin_new v)"

definition coin_result_sub :: "coin res \<Rightarrow> coin \<Rightarrow> coin res" where
  "coin_result_sub r d = and_then r (\<lambda>c.
     if amount d > amount c then Err CoinError else Ok (Coin (amount c - amount d)))"

definition coin_mul_u128 :: "coin \<Rightarrow> u128 \<Rightarrow> coin res" where
  "coin_mul_u128 c m = and_then (ok_or CoinError (checked_mul (amount c) m)) coin_new"

definition coin_mul :: "coin \<Rightarrow> coin \<Rightarrow> coin res" where
  "coin_mul c d = and_then (ok_or CoinError (checked_mul (amount c) (amount d))) coin_new"

definition coin_div_u128 :: "coin \<Rightarrow> u128 \<Rightarrow> coin res" where
  "coin_div_u128 c m = and_then (ok_or CoinError (checked_div (amount c) m)) (\<lambda>v. Ok (Coin v))"

definition coin_div :: "coin \<Rightarrow> coin \<Rightarrow> coin res" where
  "coin_div c d = (if amount d = 0 then Err CoinError else Ok (Coin (amount c div amount d)))"

definition coin_rem :: "coin \<Rightarrow> u128 \<Rightarrow> coin res" where
  "coin_rem c m = and_then (ok_or CoinError (checked_rem (amount c) m)) (\<lambda>v. Ok (Coin v))"

fun sum_coins_from :: "coin \<Rightarrow> coin list \<Rightarrow> coin res" where
  "sum_coins_from acc [] = Ok acc"
| "sum_coins_from acc (c # cs) = and_then (coin_add acc c) (\<lambda>acc'. sum_coins_from acc' cs)"

definition sum_coins :: "coin list \<Rightarrow> coin res" where
  "sum_coins cs = sum_coins_from coin_zero cs"

text \<open>Serde form: the decimal string of the amount; deserialisation re-checks the bound.\<close>

definition coin_serialize :: "coin \<Rightarrow> string" where
  "coin_serialize c = show_nat (unat (amount c))"

definition coin_deserialize :: "string \<Rightarrow> coin res" where
  "coin_deserialize s = and_then (ok_or CoinError (parse_uint s)) coin_new"

definition coin_from_str :: "string \<Rightarrow> coin res" where
  "coin_from_str s = (case parse_uint s of None \<Rightarrow> Err CoinError | Some v \<Rightarrow> coin_new v)"

text \<open>SCALE decoding: \<^verbatim>\<open>u128::decode\<close> belongs to the codec crate, so its result is the argument.\<close>

definition coin_decode :: "u128 option \<Rightarrow> coin option" where
  "coin_decode r = (case r of None \<Rightarrow> None | Some n \<Rightarrow> if n > MAX_COIN then None else Some (Coin n))"

definition coin_to_decimal_string :: "coin \<Rightarrow> string" where
  "coin_to_decimal_string c =
     (let whole = amount c div MAX_COIN_DECIMALS; dec = amount c mod MAX_COIN_DECIMALS in
      if dec = 0 then show_nat (unat whole)
      else show_nat (unat whole) @ CHR ''.'' # pad_zero 6 (show_nat (unat dec)))"

definition coin_display :: "coin \<Rightarrow> string" where
  "coin_display c =
     show_nat (unat (amount c div MAX_COIN_DECIMALS)) @ CHR ''.'' #
     pad_zero 6 (show_nat (unat (amount c mod MAX_COIN_DECIMALS)))"

fun split_on :: "char \<Rightarrow> string \<Rightarrow> string list" where
  "split_on d [] = [[]]"
| "split_on d (c # cs) = (if c = d then [] # split_on d cs
     else (case split_on d cs of [] \<Rightarrow> [[c]] | w # ws \<Rightarrow> (c # w) # ws))"

text \<open>\<^verbatim>\<open>Coin::from_string\<close>.  The slice \<^verbatim>\<open>&decimal[..9]\<close> panics when byte 9 is not a character boundary
  (a UTF-8 continuation byte); the panic is the value \<^term>\<open>None\<close>.\<close>

definition is_char_boundary_byte :: "char \<Rightarrow> bool" where
  "is_char_boundary_byte c = (let v = (of_char c :: nat) in v < 128 \<or> 192 \<le> v)"

definition coin_from_string :: "string \<Rightarrow> coin res option" where
  "coin_from_string s = (case split_on CHR ''.'' s of
      [whole] \<Rightarrow> Some (case parse_uint whole of None \<Rightarrow> Err CoinError
                       | Some w \<Rightarrow> coin_new (w * MAX_COIN_DECIMALS))
    | [whole, decimal] \<Rightarrow>
        (case parse_uint whole of None \<Rightarrow> Some (Err CoinError)
         | Some w \<Rightarrow>
            (if length decimal > 9 \<and> \<not> is_char_boundary_byte (decimal ! 9) then None
             else (let ds = (if length decimal > 9 then take 9 decimal else decimal) in
                   Some (case parse_uint ds of None \<Rightarrow> Err CoinError
                         | Some d \<Rightarrow> coin_new (w * MAX_COIN_DECIMALS + d * 10 ^ (9 - length ds))))))
    | _ \<Rightarrow> Some (Err CoinError))"

datatype nonce = Nonce (nonce_value: u32)

definition nonce_zero :: nonce where "nonce_zero = Nonce 0"

definition nonce_next :: "nonce \<Rightarrow> nonce option" where
  "nonce_next n = map_option Nonce (checked_add (nonce_value n) 1)"

section \<open>The bound and the exact arithmetic\<close>

definition coin_ok :: "coin \<Rightarrow> bool" where
  "coin_ok c = (amount c \<le> MAX_COIN)"

abbreviation coins :: "coin \<Rightarrow> nat" where
  "coins c \<equiv> unat (amount c)"

lemma MAX_COIN_val: "MAX_COIN = 1000000000000000"
  by (simp add: MAX_COIN_def MAX_COIN_DECIMALS_def MAX_COIN_UNITS_def)

lemma unat_MAX_COIN [simp]: "unat MAX_COIN = 1000000000000000"
  by (simp add: MAX_COIN_val)

lemma coin_ok_unat: "coin_ok c \<longleftrightarrow> coins c \<le> 1000000000000000"
  by (simp add: coin_ok_def word_le_nat_alt)

lemma coin_eq_iff: "c = d \<longleftrightarrow> coins c = coins d"
  by (cases c; cases d) (simp add: word_unat_eq_iff)

lemma coin_new_Inr: "coin_new a = Inr c \<longleftrightarrow> c = Coin a \<and> a \<le> MAX_COIN"
  by (auto simp: coin_new_def)

lemma coin_new_ok: "coin_new a = Inr c \<Longrightarrow> coin_ok c"
  by (auto simp: coin_new_Inr coin_ok_def)

lemma coin_zero_ok [simp]: "coin_ok coin_zero" "coins coin_zero = 0"
  by (simp_all add: coin_ok_unat coin_zero_def)

lemma coin_is_zero_iff: "coin_is_zero c \<longleftrightarrow> coins c = 0"
  by (simp add: coin_is_zero_def unat_eq_zero)

lemma coin_add_eq:
  "coin_add c d = (if coins c + coins d \<le> 1000000000000000
     then Inr (Coin (amount c + amount d)) else Inl CoinError)"
  using unat_add_lem [of "amount c" "amount d"]
  by (auto simp: coin_add_def checked_add_unat coin_new_def word_less_nat_alt)

lemma unat_coin_add:
  "coins c + coins d \<le> 1000000000000000 \<Longrightarrow> unat (amount c + amount d) = coins c + coins d"
  using unat_add_lem [of "amount c" "amount d"] by simp

lemma coin_sub_eq:
  "coin_ok c \<Longrightarrow> coin_sub c d = (if coins d \<le> coins c
     then Inr (Coin (amount c - amount d)) else Inl CoinError)"
  by (auto simp: coin_sub_def checked_sub_def coin_new_def word_less_nat_alt word_le_nat_alt
      unat_sub coin_ok_unat)

lemma coin_add_Inr:
  "coin_add c d = Inr e \<longleftrightarrow> coins e = coins c + coins d \<and> coins e \<le> 1000000000000000"
  by (auto simp: coin_add_eq unat_coin_add coin_eq_iff)

lemma coin_add_Inl:
  "coin_add c d = Inl err \<longleftrightarrow> err = CoinError \<and> coins c + coins d > 1000000000000000"
  by (auto simp: coin_add_eq)

lemma coin_sub_Inr:
  "coin_ok c \<Longrightarrow> coin_sub c d = Inr e \<longleftrightarrow> coins d \<le> coins c \<and> coins e = coins c - coins d"
  by (auto simp: coin_sub_eq coin_eq_iff unat_sub word_le_nat_alt)

lemma coin_sub_Inl:
  "coin_ok c \<Longrightarrow> coin_sub c d = Inl err \<longleftrightarrow> err = CoinError \<and> coins c < coins d"
  by (auto simp: coin_sub_eq)

lemma coin_add_ok: "coin_add c d = Inr e \<Longrightarrow> coin_ok e"
  by (simp add: coin_add_Inr coin_ok_unat)

lemma coin_sub_ok: "coin_sub c d = Inr e \<Longrightarrow> coin_ok e"
  by (auto simp: coin_sub_def coin_new_ok split: option.splits)

lemma coin_result_sub_ok:
  "coin_result_sub r d = Inr e \<Longrightarrow> (\<And>c. r = Inr c \<Longrightarrow> coin_ok c) \<Longrightarrow> coin_ok e"
  by (auto simp: coin_result_sub_def result_simps coin_ok_unat word_less_nat_alt unat_sub word_le_nat_alt
      split: if_splits)

lemma coin_result_sub_eq_coin_sub:
  "coin_ok c \<Longrightarrow> coin_result_sub (Inr c) d = coin_sub c d"
  by (auto simp: coin_result_sub_def coin_sub_def checked_sub_def coin_new_def coin_ok_unat
      word_less_nat_alt word_le_nat_alt unat_sub)

lemma coin_mul_u128_ok: "coin_mul_u128 c m = Inr e \<Longrightarrow> coin_ok e"
  by (auto simp: coin_mul_u128_def result_simps coin_new_ok)

lemma coin_mul_ok: "coin_mul c d = Inr e \<Longrightarrow> coin_ok e"
  by (auto simp: coin_mul_def result_simps coin_new_ok)

lemma coin_div_u128_ok: "coin_ok c \<Longrightarrow> coin_div_u128 c m = Inr e \<Longrightarrow> coin_ok e"
  by (auto simp: coin_div_u128_def checked_div_def result_simps coin_ok_unat unat_div
      intro: order_trans [OF div_le_dividend] split: if_splits)

lemma coin_div_ok: "coin_ok c \<Longrightarrow> coin_div c d = Inr e \<Longrightarrow> coin_ok e"
  by (auto simp: coin_div_def coin_ok_unat unat_div intro: order_trans [OF div_le_dividend]
      split: if_splits)

lemma coin_rem_ok: "coin_ok c \<Longrightarrow> coin_rem c m = Inr e \<Longrightarrow> coin_ok e"
  by (auto simp: coin_rem_def checked_rem_def result_simps coin_ok_unat unat_mod
      intro: order_trans [OF mod_less_eq_dividend] split: if_splits)

lemma coin_decode_ok: "coin_decode r = Some c \<Longrightarrow> coin_ok c"
  by (auto simp: coin_decode_def coin_ok_def split: option.splits if_splits)

lemma coin_deserialize_ok: "coin_deserialize s = Inr c \<Longrightarrow> coin_ok c"
  by (auto simp: coin_deserialize_def result_simps coin_new_ok)

lemma nonce_next_Some: "nonce_next n = Some m \<longleftrightarrow> unat (nonce_value m) = Suc (unat (nonce_value n))"
  by (cases m) (auto simp: nonce_next_def word_facts)

lemma sum_coins_from_Inr:
  assumes "coin_ok acc"
  shows "sum_coins_from acc cs = Inr e \<longleftrightarrow>
    coins e = coins acc + sum_list (map coins cs) \<and> coins e \<le> 1000000000000000"
  using assms
proof (induction cs arbitrary: acc)
  case Nil
  then show ?case by (auto simp: coin_eq_iff coin_ok_unat)
next
  case (Cons c cs)
  show ?case
  proof (cases "coin_add acc c")
    case (Inl err)
    then have "coins acc + coins c > 1000000000000000"
      by (simp add: coin_add_Inl)
    with Inl show ?thesis by auto
  next
    case (Inr a)
    then have "coins a = coins acc + coins c"
      by (simp add: coin_add_Inr)
    with Inr show ?thesis
      using Cons.IH [of a] coin_add_ok [OF Inr] by (simp add: add.assoc)
  qed
qed

section \<open>Text forms\<close>

lemma split_on_single: "d \<notin> set s \<Longrightarrow> split_on d s = [s]"
  by (induction s) auto

lemma split_on_append: "d \<notin> set s \<Longrightarrow> split_on d (s @ d # t) = s # split_on d t"
  by (induction s) auto

lemma dot_notin_show_nat [simp]: "CHR ''.'' \<notin> set (show_nat n)"
proof
  assume "CHR ''.'' \<in> set (show_nat n)"
  then obtain d where "d < 10" "digit_char d = CHR ''.''"
    by (metis set_show_nat)
  then have "digit_val CHR ''.'' = Some d"
    using digit_val_digit_char by metis
  then show False by (simp add: digit_val_def)
qed

lemma dot_notin_pad_zero [simp]: "CHR ''.'' \<notin> set (pad_zero k (show_nat n))"
  by (auto simp: pad_zero_def)

lemma coin_from_string_parts:
  assumes "CHR ''.'' \<notin> set ws" "CHR ''.'' \<notin> set ds" "length ds \<le> 9"
    and "parse_uint ws = Some w" "parse_uint ds = Some d"
  shows "coin_from_string (ws @ CHR ''.'' # ds) =
    Some (coin_new (w * MAX_COIN_DECIMALS + d * 10 ^ (9 - length ds)))"
  using assms by (simp add: coin_from_string_def split_on_append split_on_single)

lemma unat_coin_fraction_lt: "unat (a mod MAX_COIN_DECIMALS) < 1000000"
  by (simp add: MAX_COIN_DECIMALS_def unat_mod)

section \<open>Properties\<close>

text \<open>folding coins with the checked addition succeeds exactly when the true total is within
  \<^verbatim>\<open>MAX_COIN\<close>, and the coin returned then is the true total.\<close>

lemma sum_coins_exact:
  "sum_coins cs = Inr c \<longleftrightarrow>
     coins c = sum_list (map coins cs) \<and> sum_list (map coins cs) \<le> 1000000000000000"
  by (auto simp: sum_coins_def sum_coins_from_Inr)

text \<open>Every checked operation on coins within the supply bound returns a coin within it, so the
  bound is a type invariant of \<^verbatim>\<open>Coin\<close>.\<close>

lemma coin_ops_bounded:
  assumes "coin_ok c"
    and "r \<in> {coin_add c d, coin_sub c d, coin_result_sub (Ok c) d, coin_mul_u128 c m, coin_mul c d,
              coin_div_u128 c m, coin_div c d, coin_rem c m, coin_deserialize s, coin_from_str s}"
    and "r = Ok e"
  shows "coin_ok e"
  using assms
  by (auto simp: coin_from_str_def split: option.splits intro: coin_add_ok coin_sub_ok
      coin_result_sub_ok coin_mul_u128_ok coin_mul_ok coin_div_u128_ok coin_div_ok coin_rem_ok
      coin_deserialize_ok coin_new_ok)

text \<open>The serde form of a coin within the bound is read back as the same coin.\<close>

lemma coin_serde_roundtrip:
  assumes "coin_ok c"
  shows "coin_deserialize (coin_serialize c) = Ok c"
  using assms by (cases c) (simp add: coin_deserialize_def coin_serialize_def coin_new_def coin_ok_def)

text \<open>\<^verbatim>\<open>Coin::from_string\<close> reads a decimal fraction at nine digits while
  \<^verbatim>\<open>to_decimal_string\<close> prints it at six: reading back a printed amount with a fraction multiplies
  the fraction by one thousand.\<close>

lemma coin_decimal_string_scale:
  assumes "amount c mod MAX_COIN_DECIMALS \<noteq> 0"
  shows "coin_from_string (coin_to_decimal_string c) =
    Some (coin_new (amount c div MAX_COIN_DECIMALS * MAX_COIN_DECIMALS
                    + amount c mod MAX_COIN_DECIMALS * 1000))"
proof -
  let ?d = "amount c mod MAX_COIN_DECIMALS"
  have len: "length (pad_zero 6 (show_nat (unat ?d))) = 6"
    using length_show_nat_le [of "unat ?d" 6] unat_coin_fraction_lt [of "amount c"]
    by (simp add: pad_zero_def)
  then show ?thesis
    using assms by (simp add: coin_to_decimal_string_def Let_def coin_from_string_parts)
qed

theorem coin_decimal_string_scale_witness:
  "coin_from_string (coin_to_decimal_string (Coin 1500000)) = Some (Ok (Coin 501000000))"
  using coin_decimal_string_scale [of "Coin 1500000"]
  by (simp add: MAX_COIN_DECIMALS_def coin_new_def MAX_COIN_val)

end
