(* ===== verification/Hex_Ids.thy ===== *)
theory Hex_Ids
  imports Prelude
begin

text \<open>
  The fixed-width identifiers of \<^verbatim>\<open>common\<close>: \<^verbatim>\<open>Address\<close> (20 bytes), \<^verbatim>\<open>ChallengeId\<close>,
  \<^verbatim>\<open>CapacitySeed\<close>, \<^verbatim>\<open>CapacityMerkleRoot\<close>, \<^verbatim>\<open>ContentId\<close>, \<^verbatim>\<open>ManifestId\<close> and \<^verbatim>\<open>PublicKey\<close>
  (32 bytes), all parsed by \<^verbatim>\<open>hex_encoding.rs\<close>.  The \<^verbatim>\<open>hex\<close> crate is a parameter, a record of its
  \<^verbatim>\<open>encode\<close> and \<^verbatim>\<open>decode\<close>; what the sources rely on is the predicate \<open>hex_documented\<close>, shown to
  hold of an executable instance.  The locale \<open>hex_id\<close> states what each identifier type promises
  its clients, and is interpreted on every one of them.
\<close>

section \<open>The hex crate\<close>

record hex_lib =
  hex_encode :: "bytes \<Rightarrow> string"
  hex_decode :: "string \<Rightarrow> bytes option"

definition is_lower_hex :: "char \<Rightarrow> bool" where
  "is_lower_hex c = (let v = (of_char c :: nat) in (48 \<le> v \<and> v \<le> 57) \<or> (97 \<le> v \<and> v \<le> 102))"

definition is_hex_digit :: "char \<Rightarrow> bool" where
  "is_hex_digit c = (let v = (of_char c :: nat) in
     (48 \<le> v \<and> v \<le> 57) \<or> (97 \<le> v \<and> v \<le> 102) \<or> (65 \<le> v \<and> v \<le> 70))"

definition upper_char :: "char \<Rightarrow> char" where
  "upper_char c = (let v = (of_char c :: nat) in if 97 \<le> v \<and> v \<le> 122 then char_of (v - 32) else c)"

definition lower_char :: "char \<Rightarrow> char" where
  "lower_char c = (let v = (of_char c :: nat) in if 65 \<le> v \<and> v \<le> 90 then char_of (v + 32) else c)"

text \<open>Documented behaviour: encoding yields two lowercase digits per byte, decoding inverts it,
  accepts only hexadecimal digits, yields half as many bytes as there are characters, and does not
  look at the case of a digit.\<close>

definition hex_documented :: "hex_lib \<Rightarrow> bool" where
  "hex_documented hx \<longleftrightarrow>
     (\<forall>bs. hex_decode hx (hex_encode hx bs) = Some bs) \<and>
     (\<forall>bs. length (hex_encode hx bs) = 2 * length bs) \<and>
     (\<forall>bs. list_all is_lower_hex (hex_encode hx bs)) \<and>
     (\<forall>s bs. hex_decode hx s = Some bs \<longrightarrow> length s = 2 * length bs \<and> list_all is_hex_digit s) \<and>
     (\<forall>s. hex_decode hx (map upper_char s) = hex_decode hx s)"

section \<open>Definitions\<close>

definition strip_optional_hex_prefix :: "string \<Rightarrow> string" where
  "strip_optional_hex_prefix s = (case s of
      c # d # rest \<Rightarrow> if c = CHR ''0'' \<and> (d = CHR ''x'' \<or> d = CHR ''X'') then rest else s
    | _ \<Rightarrow> s)"

definition decode_fixed_hex :: "hex_lib \<Rightarrow> nat \<Rightarrow> string \<Rightarrow> string \<Rightarrow> bytes res" where
  "decode_fixed_hex hx n s field =
     (let body = strip_optional_hex_prefix s in
      if body = [] then Err (ValidationError field)
      else (case hex_decode hx body of
              None \<Rightarrow> Err (ValidationError field)
            | Some bs \<Rightarrow> if length bs = n then Ok bs else Err (ValidationError field)))"

datatype address = Address (address_bytes: bytes)
datatype challenge_id = ChallengeId (challenge_id_bytes: bytes)
datatype capacity_seed = CapacitySeed (seed_bytes: bytes)
datatype capacity_merkle_root = CapacityMerkleRoot (root_bytes: bytes)
datatype content_id = ContentId (content_id_bytes: bytes)
datatype manifest_id = ManifestId (manifest_id_bytes: bytes)
datatype public_key = PublicKey (public_key_bytes: bytes)

definition address_parse :: "hex_lib \<Rightarrow> string \<Rightarrow> address res" where
  "address_parse hx s = and_then (decode_fixed_hex hx 20 s ''address'') (\<lambda>v. Ok (Address v))"

definition address_hex :: "hex_lib \<Rightarrow> address \<Rightarrow> string" where
  "address_hex hx a = hex_encode hx (address_bytes a)"

definition hex_with_prefix :: "hex_lib \<Rightarrow> address \<Rightarrow> string" where
  "hex_with_prefix hx a = ''0x'' @ hex_encode hx (address_bytes a)"

definition address_from_slice :: "bytes \<Rightarrow> address res" where
  "address_from_slice bs = (if length bs \<noteq> 20 then Err (ValidationError ''address'') else Ok (Address bs))"

definition address_from_public_key :: "(bytes \<Rightarrow> bytes) \<Rightarrow> bytes \<Rightarrow> address res" where
  "address_from_public_key sha256 pk = address_from_slice (take 20 (sha256 pk))"

definition is_from_public_key :: "(bytes \<Rightarrow> bytes) \<Rightarrow> address \<Rightarrow> bytes \<Rightarrow> bool" where
  "is_from_public_key sha256 a pk = (address_bytes a = take 20 (sha256 pk))"

definition address_matches_str :: "hex_lib \<Rightarrow> address \<Rightarrow> string \<Rightarrow> bool" where
  "address_matches_str hx a s = (address_parse hx s = Ok a)"

definition verify_derives_from_pubkey_hex ::
    "hex_lib \<Rightarrow> (bytes \<Rightarrow> bytes) \<Rightarrow> address \<Rightarrow> string \<Rightarrow> unit res" where
  "verify_derives_from_pubkey_hex hx sha256 a pk_hex =
     (case hex_decode hx pk_hex of
        None \<Rightarrow> Err (ValidationError ''public_key'')
      | Some pk \<Rightarrow>
          if length pk \<noteq> 32 then Err (ValidationError ''public_key'')
          else if is_from_public_key sha256 a pk then Ok ()
          else Err (ValidationError ''address''))"

definition challenge_id_parse_hex :: "hex_lib \<Rightarrow> string \<Rightarrow> challenge_id res" where
  "challenge_id_parse_hex hx s =
     and_then (decode_fixed_hex hx 32 s ''challenge ID'') (\<lambda>v. Ok (ChallengeId v))"

definition challenge_id_to_hex :: "hex_lib \<Rightarrow> challenge_id \<Rightarrow> string" where
  "challenge_id_to_hex hx i = hex_encode hx (challenge_id_bytes i)"

definition capacity_seed_parse_hex :: "hex_lib \<Rightarrow> string \<Rightarrow> capacity_seed res" where
  "capacity_seed_parse_hex hx s =
     and_then (decode_fixed_hex hx 32 s ''capacity seed'') (\<lambda>v. Ok (CapacitySeed v))"

definition capacity_seed_to_hex :: "hex_lib \<Rightarrow> capacity_seed \<Rightarrow> string" where
  "capacity_seed_to_hex hx i = hex_encode hx (seed_bytes i)"

definition capacity_merkle_root_parse_hex :: "hex_lib \<Rightarrow> string \<Rightarrow> capacity_merkle_root res" where
  "capacity_merkle_root_parse_hex hx s =
     and_then (decode_fixed_hex hx 32 s ''capacity merkle root'') (\<lambda>v. Ok (CapacityMerkleRoot v))"

definition capacity_merkle_root_to_hex :: "hex_lib \<Rightarrow> capacity_merkle_root \<Rightarrow> string" where
  "capacity_merkle_root_to_hex hx i = hex_encode hx (root_bytes i)"

definition content_id_parse_hex :: "hex_lib \<Rightarrow> string \<Rightarrow> content_id res" where
  "content_id_parse_hex hx s =
     and_then (decode_fixed_hex hx 32 s ''content ID'') (\<lambda>v. Ok (ContentId v))"

definition content_id_hex_with_prefix :: "hex_lib \<Rightarrow> content_id \<Rightarrow> string" where
  "content_id_hex_with_prefix hx i = ''0x'' @ hex_encode hx (content_id_bytes i)"

definition manifest_id_parse_hex :: "hex_lib \<Rightarrow> string \<Rightarrow> manifest_id res" where
  "manifest_id_parse_hex hx s =
     and_then (decode_fixed_hex hx 32 s ''manifest ID'') (\<lambda>v. Ok (ManifestId v))"

definition manifest_id_hex_with_prefix :: "hex_lib \<Rightarrow> manifest_id \<Rightarrow> string" where
  "manifest_id_hex_with_prefix hx i = ''0x'' @ hex_encode hx (manifest_id_bytes i)"

text \<open>\<^verbatim>\<open>PublicKey::new\<close> asks \<^verbatim>\<open>ed25519_dalek\<close> whether the bytes are a curve point.\<close>

definition public_key_new :: "(bytes \<Rightarrow> bool) \<Rightarrow> bytes \<Rightarrow> public_key res" where
  "public_key_new valid_key bs =
     (if valid_key bs then Ok (PublicKey bs) else Err (ValidationError ''public_key''))"

definition public_key_from_hex :: "hex_lib \<Rightarrow> (bytes \<Rightarrow> bool) \<Rightarrow> string \<Rightarrow> public_key res" where
  "public_key_from_hex hx valid_key s =
     and_then (decode_fixed_hex hx 32 s ''public_key'') (public_key_new valid_key)"

definition public_key_display :: "hex_lib \<Rightarrow> public_key \<Rightarrow> string" where
  "public_key_display hx k = hex_encode hx (public_key_bytes k)"

text \<open>The derived order of \<^verbatim>\<open>Address\<close> is the lexicographic order of its bytes.\<close>

instantiation address :: linorder
begin

definition less_eq_address :: "address \<Rightarrow> address \<Rightarrow> bool" where
  "less_eq_address a b = (address_bytes a \<le> address_bytes b)"

definition less_address :: "address \<Rightarrow> address \<Rightarrow> bool" where
  "less_address a b = (address_bytes a < address_bytes b)"

instance
  by standard (auto simp: less_eq_address_def less_address_def less_le_not_le address.expand)

end

section \<open>An executable hex codec\<close>

definition nibble_char :: "nat \<Rightarrow> char" where
  "nibble_char n = char_of (if n < 10 then 48 + n else 87 + n)"

definition nibble_val :: "char \<Rightarrow> nat option" where
  "nibble_val c = (let v = (of_char c :: nat) in
     if 48 \<le> v \<and> v \<le> 57 then Some (v - 48)
     else if 97 \<le> v \<and> v \<le> 102 then Some (v - 87)
     else if 65 \<le> v \<and> v \<le> 70 then Some (v - 55) else None)"

fun std_hex_encode :: "bytes \<Rightarrow> string" where
  "std_hex_encode [] = []"
| "std_hex_encode (b # bs) =
     nibble_char (unat b div 16) # nibble_char (unat b mod 16) # std_hex_encode bs"

fun std_hex_decode :: "string \<Rightarrow> bytes option" where
  "std_hex_decode [] = Some []"
| "std_hex_decode [c] = None"
| "std_hex_decode (c # d # s) = (case (nibble_val c, nibble_val d, std_hex_decode s) of
     (Some h, Some l, Some bs) \<Rightarrow> Some (of_nat (16 * h + l) # bs) | _ \<Rightarrow> None)"

definition std_hex :: hex_lib where
  "std_hex = \<lparr>hex_encode = std_hex_encode, hex_decode = std_hex_decode\<rparr>"

lemma std_hex_sel [simp]: "hex_encode std_hex = std_hex_encode" "hex_decode std_hex = std_hex_decode"
  by (simp_all add: std_hex_def)

lemma nibble_val_char [simp]: "n < 16 \<Longrightarrow> nibble_val (nibble_char n) = Some n"
  by (auto simp: nibble_val_def nibble_char_def Let_def)

lemma nibble_char_lower: "n < 16 \<Longrightarrow> is_lower_hex (nibble_char n)"
  by (auto simp: is_lower_hex_def nibble_char_def Let_def)

lemma nibble_val_upper [simp]: "nibble_val (upper_char c) = nibble_val c"
  by (auto simp: nibble_val_def upper_char_def Let_def)

lemma unat_u8_div_16: "unat (b :: u8) div 16 < 16"
  using unsigned_less [of b, where ?'a = nat] by simp

lemma std_hex_roundtrip: "std_hex_decode (std_hex_encode bs) = Some bs"
  by (induction bs) (simp_all add: unat_u8_div_16)

lemma std_hex_length: "length (std_hex_encode bs) = 2 * length bs"
  by (induction bs) simp_all

lemma std_hex_lower: "list_all is_lower_hex (std_hex_encode bs)"
  by (induction bs) (simp_all add: nibble_char_lower unat_u8_div_16)

lemma std_hex_decode_length: "std_hex_decode s = Some bs \<Longrightarrow> length s = 2 * length bs"
  by (induction s arbitrary: bs rule: std_hex_decode.induct) (auto split: option.splits)

lemma nibble_val_digit: "nibble_val c = Some n \<Longrightarrow> is_hex_digit c"
  by (auto simp: nibble_val_def is_hex_digit_def Let_def split: if_splits)

lemma std_hex_decode_digits: "std_hex_decode s = Some bs \<Longrightarrow> list_all is_hex_digit s"
  by (induction s arbitrary: bs rule: std_hex_decode.induct)
     (auto split: option.splits dest: nibble_val_digit)

lemma std_hex_decode_upper: "std_hex_decode (map upper_char s) = std_hex_decode s"
  by (induction s rule: std_hex_decode.induct) simp_all

lemma std_hex_documented: "hex_documented std_hex"
  unfolding hex_documented_def
  using std_hex_roundtrip std_hex_length std_hex_lower std_hex_decode_length std_hex_decode_upper
    std_hex_decode_digits
  by simp

section \<open>Parsing and printing\<close>

lemma hex_documentedD:
  assumes "hex_documented hx"
  shows "hex_decode hx (hex_encode hx bs) = Some bs"
    and "length (hex_encode hx bs) = 2 * length bs"
    and "list_all is_lower_hex (hex_encode hx bs)"
    and "hex_decode hx s = Some bs \<Longrightarrow> length s = 2 * length bs"
    and "hex_decode hx s = Some bs \<Longrightarrow> list_all is_hex_digit s"
    and "hex_decode hx (map upper_char s) = hex_decode hx s"
  using assms unfolding hex_documented_def by auto

text \<open>An encoder of \<open>n\<close> bytes into \<open>2 * n\<close> lowercase digits with a left inverse reaches every such text.\<close>

lemma hex_decode_lower:
  assumes "hex_documented hx" "list_all is_lower_hex s" "even (length s)"
  shows "\<exists>bs. hex_decode hx s = Some bs \<and> length bs = length s div 2"
proof -
  let ?n = "length s div 2"
  let ?B = "{bs :: bytes. set bs \<subseteq> UNIV \<and> length bs = ?n}"
  let ?S = "{t. set t \<subseteq> {c. is_lower_hex c} \<and> length t = 2 * ?n}"
  have digits: "{c. is_lower_hex c} = char_of ` ({48..57} \<union> {97..102} :: nat set)"
    by (auto simp: is_lower_hex_def Let_def image_iff intro!: bexI [of _ "of_char _ :: nat"])
  have "inj_on (char_of :: nat \<Rightarrow> char) ({48..57} \<union> {97..102})"
    by (rule inj_on_inverseI [of _ of_char]) auto
  then have c16: "card {c. is_lower_hex c} = 16"
    unfolding digits by (subst card_image, assumption, subst card_Un_disjoint) auto
  then have fin: "finite {c. is_lower_hex c}" using card.infinite by force
  have "inj_on (hex_encode hx) ?B"
    using assms(1) by (intro inj_onI) (metis hex_documentedD(1) option.inject)
  moreover have sub: "hex_encode hx ` ?B \<subseteq> ?S"
    using assms(1) by (auto simp: hex_documented_def list_all_iff)
  moreover have "card ?B = 256 ^ ?n" by (subst card_lists_length_eq) (simp_all add: card_word)
  moreover have "card ?S = 16 ^ (2 * ?n)" by (subst card_lists_length_eq [OF fin]) (simp add: c16)
  ultimately have "hex_encode hx ` ?B = ?S"
    by (intro card_subset_eq) (simp_all add: card_image finite_lists_length_eq fin power_mult)
  moreover have "s \<in> ?S" using assms(2,3) by (auto simp: list_all_iff)
  ultimately have "s \<in> hex_encode hx ` ?B" by blast
  then obtain bs where "s = hex_encode hx bs" "length bs = ?n" by blast
  then show ?thesis using assms(1) by (auto simp: hex_documented_def)
qed


lemma lower_hex_not_x: "is_lower_hex c \<Longrightarrow> c \<noteq> CHR ''x'' \<and> c \<noteq> CHR ''X''"
  by (auto simp: is_lower_hex_def Let_def)

lemma strip_lower_hex: "list_all is_lower_hex s \<Longrightarrow> strip_optional_hex_prefix s = s"
  by (cases s rule: list.exhaust; cases "tl s")
     (auto simp: strip_optional_hex_prefix_def dest: lower_hex_not_x)

lemma strip_prefix_simps [simp]:
  "strip_optional_hex_prefix (CHR ''0'' # CHR ''x'' # s) = s"
  "strip_optional_hex_prefix (CHR ''0'' # CHR ''X'' # s) = s"
  by (simp_all add: strip_optional_hex_prefix_def)

lemma decode_fixed_hex_Inr:
  "decode_fixed_hex hx n s field = Inr bs \<longleftrightarrow>
     strip_optional_hex_prefix s \<noteq> [] \<and> hex_decode hx (strip_optional_hex_prefix s) = Some bs
     \<and> length bs = n"
  by (auto simp: decode_fixed_hex_def Let_def split: option.splits)

lemma decode_fixed_hex_encode:
  assumes "hex_documented hx" "length bs = n" "0 < n"
  shows "decode_fixed_hex hx n (hex_encode hx bs) field = Inr bs"
    and "decode_fixed_hex hx n (CHR ''0'' # CHR ''x'' # hex_encode hx bs) field = Inr bs"
    and "decode_fixed_hex hx n (CHR ''0'' # CHR ''X'' # hex_encode hx bs) field = Inr bs"
proof -
  have ne: "hex_encode hx bs \<noteq> []"
    using hex_documentedD(2) [OF assms(1), of bs] assms(2,3) by auto
  note facts = decode_fixed_hex_Inr hex_documentedD(1) [OF assms(1)] assms(2) ne
    strip_lower_hex [OF hex_documentedD(3) [OF assms(1)]]
  show "decode_fixed_hex hx n (hex_encode hx bs) field = Inr bs"
    and "decode_fixed_hex hx n (CHR ''0'' # CHR ''x'' # hex_encode hx bs) field = Inr bs"
    and "decode_fixed_hex hx n (CHR ''0'' # CHR ''X'' # hex_encode hx bs) field = Inr bs"
    by (simp_all add: facts)
qed

text \<open>What an identifier type promises: printing and reading back is the identity on well-formed
  identifiers, and whatever is read is well formed.\<close>

locale hex_id =
  fixes parse :: "hex_lib \<Rightarrow> string \<Rightarrow> 'i res"
    and show_id :: "hex_lib \<Rightarrow> 'i \<Rightarrow> string"
    and wf_id :: "'i \<Rightarrow> bool"
  assumes parse_show: "hex_documented hx \<Longrightarrow> wf_id i \<Longrightarrow> parse hx (show_id hx i) = Inr i"
    and parse_wf: "parse hx s = Inr i \<Longrightarrow> wf_id i"
begin

lemma show_inj:
  "hex_documented hx \<Longrightarrow> wf_id i \<Longrightarrow> wf_id j \<Longrightarrow> show_id hx i = show_id hx j \<Longrightarrow> i = j"
  using parse_show by (metis sum.inject(2))

lemma parse_canonical:
  "hex_documented hx \<Longrightarrow> parse hx s = Inr i \<Longrightarrow> parse hx (show_id hx i) = parse hx s"
  using parse_show parse_wf by simp

end

abbreviation wf_address :: "address \<Rightarrow> bool" where
  "wf_address a \<equiv> length (address_bytes a) = 20"

lemma hex_id_fixedI:
  assumes "\<And>hx s. parse hx s = and_then (decode_fixed_hex hx n s f) (\<lambda>v. Inr (mk v))"
    and "\<And>hx i. show_id hx i = p @ hex_encode hx (un i)" "p \<in> {[], ''0x''}"
    and "\<And>i. mk (un i) = i" "\<And>v. un (mk v) = v" "0 < n"
  shows "hex_id parse show_id (\<lambda>i. length (un i) = n)"
proof
  fix hx i
  assume hx: "hex_documented hx" and len: "length (un i) = n"
  note dec = decode_fixed_hex_encode [OF hx len assms(6), of f]
  from assms(3) consider "p = []" | "p = ''0x''" by auto
  then show "parse hx (show_id hx i) = Inr i"
    by cases (simp_all add: assms(1,2,4) dec)
next
  fix hx s i
  assume "parse hx s = Inr i"
  then show "length (un i) = n"
    by (auto simp: assms(1,5) decode_fixed_hex_Inr result_simps)
qed

lemmas id_defs = address_parse_def hex_with_prefix_def challenge_id_parse_hex_def
  challenge_id_to_hex_def capacity_seed_parse_hex_def capacity_seed_to_hex_def
  capacity_merkle_root_parse_hex_def capacity_merkle_root_to_hex_def content_id_parse_hex_def
  content_id_hex_with_prefix_def manifest_id_parse_hex_def manifest_id_hex_with_prefix_def

interpretation addr: hex_id address_parse hex_with_prefix wf_address
  by (rule hex_id_fixedI [where mk = Address and p = "''0x''"]) (simp_all add: id_defs)

interpretation chid: hex_id challenge_id_parse_hex challenge_id_to_hex
    "\<lambda>i. length (challenge_id_bytes i) = 32"
  by (rule hex_id_fixedI [where mk = ChallengeId and p = "[]"]) (simp_all add: id_defs)

interpretation seed: hex_id capacity_seed_parse_hex capacity_seed_to_hex
    "\<lambda>i. length (seed_bytes i) = 32"
  by (rule hex_id_fixedI [where mk = CapacitySeed and p = "[]"]) (simp_all add: id_defs)

interpretation mroot: hex_id capacity_merkle_root_parse_hex capacity_merkle_root_to_hex
    "\<lambda>i. length (root_bytes i) = 32"
  by (rule hex_id_fixedI [where mk = CapacityMerkleRoot and p = "[]"]) (simp_all add: id_defs)

interpretation cid: hex_id content_id_parse_hex content_id_hex_with_prefix
    "\<lambda>i. length (content_id_bytes i) = 32"
  by (rule hex_id_fixedI [where mk = ContentId and p = "''0x''"]) (simp_all add: id_defs)

interpretation mid: hex_id manifest_id_parse_hex manifest_id_hex_with_prefix
    "\<lambda>i. length (manifest_id_bytes i) = 32"
  by (rule hex_id_fixedI [where mk = ManifestId and p = "''0x''"]) (simp_all add: id_defs)

section \<open>Properties\<close>

text \<open>An address printed in its canonical form is read back as the same address, and every
  string that parses as an address has the same canonical form as the address it denotes.\<close>

lemma address_roundtrip:
  assumes "hex_documented hx"
  shows "(wf_address a \<longrightarrow> address_parse hx (hex_with_prefix hx a) = Ok a) \<and>
    (address_parse hx s = Ok a \<longrightarrow>
       wf_address a \<and> address_matches_str hx a (hex_with_prefix hx a))"
  using assms addr.parse_show addr.parse_wf by (auto simp: address_matches_str_def)

theorem address_roundtrip_witness:
  "address_parse std_hex (hex_with_prefix std_hex (Address (replicate 20 7))) = Ok (Address (replicate 20 7))"
  using address_roundtrip [OF std_hex_documented, of "Address (replicate 20 7)"] by simp

end
