(* ===== verification/Cado.thy ===== *)
theory Cado
  imports Coin_Nonce Hex_Ids
begin

text \<open>
  Content-addressed objects (\<^verbatim>\<open>common/src/cado.rs\<close>), the constants of
  \<^verbatim>\<open>common/src/constants.rs\<close> they use and the namespace slugs of \<^verbatim>\<open>common/src/namespace.rs\<close>:
  path kinds and scopes, the typed and the string constructor of \<^verbatim>\<open>CadoPath\<close>, deletion policy,
  immutable and mutable bodies, epoch-record names.  The properties are the agreement of the two
  path constructors, the absence of path collisions, and the round trip of epoch names.
\<close>

section \<open>Text helpers of the standard library\<close>

definition starts_with :: "string \<Rightarrow> string \<Rightarrow> bool" where
  "starts_with p s = (take (length p) s = p)"

definition ends_with :: "string \<Rightarrow> string \<Rightarrow> bool" where
  "ends_with p s = starts_with (rev p) (rev s)"

fun contains_str :: "string \<Rightarrow> string \<Rightarrow> bool" where
  "contains_str p [] = (p = [])"
| "contains_str p (c # s) = (starts_with p (c # s) \<or> contains_str p s)"

text \<open>\<^verbatim>\<open>str::trim\<close> removes Unicode white space; these are the UTF-8 encodings of the code points with
  the \<^verbatim>\<open>White_Space\<close> property.\<close>

definition ws_seqs :: "string list" where
  "ws_seqs = map (map (char_of :: nat \<Rightarrow> char))
     ([[9], [10], [11], [12], [13], [32], [194, 133], [194, 160], [225, 154, 128],
       [226, 128, 168], [226, 128, 169], [226, 128, 175], [226, 129, 159], [227, 128, 128]]
      @ map (\<lambda>k. [226, 128, 128 + k]) [0..<11])"

fun strip_seqs :: "nat \<Rightarrow> string list \<Rightarrow> string \<Rightarrow> string" where
  "strip_seqs 0 ws s = s"
| "strip_seqs (Suc n) ws s = (case List.find (\<lambda>w. starts_with w s) ws of
     None \<Rightarrow> s | Some w \<Rightarrow> strip_seqs n ws (drop (length w) s))"

definition trim_start :: "string \<Rightarrow> string" where
  "trim_start s = strip_seqs (length s) ws_seqs s"

definition trim_end :: "string \<Rightarrow> string" where
  "trim_end s = rev (strip_seqs (length s) (map rev ws_seqs) (rev s))"

definition trim :: "string \<Rightarrow> string" where
  "trim s = trim_end (trim_start s)"

definition to_ascii_lowercase :: "string \<Rightarrow> string" where
  "to_ascii_lowercase s = map lower_char s"

definition is_ascii_lowercase :: "char \<Rightarrow> bool" where
  "is_ascii_lowercase c = (let v = (of_char c :: nat) in 97 \<le> v \<and> v \<le> 122)"

definition is_ascii_digit :: "char \<Rightarrow> bool" where
  "is_ascii_digit c = (let v = (of_char c :: nat) in 48 \<le> v \<and> v \<le> 57)"

fun splitn :: "nat \<Rightarrow> char \<Rightarrow> string \<Rightarrow> string list" where
  "splitn 0 d s = []"
| "splitn (Suc 0) d s = [s]"
| "splitn (Suc (Suc n)) d s = (if d \<in> set s
     then takeWhile (\<lambda>c. c \<noteq> d) s # splitn (Suc n) d (tl (dropWhile (\<lambda>c. c \<noteq> d) s))
     else [s])"

section \<open>Namespace slugs\<close>

definition SLUG_MIN_LEN :: nat where "SLUG_MIN_LEN = 3"
definition SLUG_MAX_LEN :: nat where "SLUG_MAX_LEN = 32"

definition validate_namespace_slug :: "string \<Rightarrow> unit res" where
  "validate_namespace_slug slug =
    (if length slug < SLUG_MIN_LEN \<or> length slug > SLUG_MAX_LEN then Err (ValidationError ''namespace_slug'')
     else if starts_with ''-'' slug \<or> ends_with ''-'' slug then Err (ValidationError ''namespace_slug'')
     else if contains_str ''--'' slug then Err (ValidationError ''namespace_slug'')
     else if \<not> list_all (\<lambda>c. is_ascii_lowercase c \<or> is_ascii_digit c \<or> c = CHR ''-'') slug
       then Err (ValidationError ''namespace_slug'')
     else Ok ())"

definition normalize_namespace_slug :: "string \<Rightarrow> string res" where
  "normalize_namespace_slug input = (let slug = to_ascii_lowercase (trim input) in
     and_then (validate_namespace_slug slug) (\<lambda>_. Ok slug))"

definition validate_content_upload_namespace_slug :: "string \<Rightarrow> unit res" where
  "validate_content_upload_namespace_slug slug =
    (if length slug < SLUG_MIN_LEN \<or> length slug > SLUG_MAX_LEN then Err (ValidationError ''namespace'')
     else if \<not> list_all is_ascii_lowercase slug then Err (ValidationError ''namespace'')
     else Ok ())"

definition normalize_content_upload_namespace :: "string \<Rightarrow> string" where
  "normalize_content_upload_namespace input = to_ascii_lowercase (trim input)"

definition resolve_optional_namespace :: "string option \<Rightarrow> string option res" where
  "resolve_optional_namespace input = (case input of
      None \<Rightarrow> Ok None
    | Some s \<Rightarrow> if trim s = [] then Ok None
        else (let n = normalize_content_upload_namespace s in
              and_then (validate_content_upload_namespace_slug n) (\<lambda>_. Ok (Some n))))"

record namespace_record =
  namespace_slug :: string
  ns_owner :: address
  registered_height :: u64

definition validate_namespace_upload_authorization ::
    "string option \<Rightarrow> address \<Rightarrow> (string \<Rightarrow> namespace_record option res) \<Rightarrow> string option res" where
  "validate_namespace_upload_authorization namespace signer lookup =
     and_then (resolve_optional_namespace namespace) (\<lambda>r. case r of
        None \<Rightarrow> Ok None
      | Some canonical \<Rightarrow>
          and_then (lookup canonical) (\<lambda>found.
          and_then (ok_or (ValidationError ''namespace'') found) (\<lambda>rec.
            if ns_owner rec \<noteq> signer then Err (ValidationError ''namespace'')
            else Ok (Some canonical))))"

definition RESERVED_NAMESPACE_SLUGS :: "string list" where
  "RESERVED_NAMESPACE_SLUGS = [''eld'', ''user'', ''public'', ''contract'', ''test'', ''other'',
     ''pinboard'', ''admin'', ''namespace'']"

definition is_reserved_namespace_slug :: "string \<Rightarrow> bool" where
  "is_reserved_namespace_slug slug = (slug \<in> set RESERVED_NAMESPACE_SLUGS)"

section \<open>Types, scopes and paths\<close>

datatype cado_type =
    AccountType
  | StakingAccountType
  | StorageStakingAccountType
  | CadoMapType
  | AppStateTipType
  | SnapshotMetadataType
  | SnapshotChunkType
  | ChunkReferenceType
  | AppStateSnapshotType
  | EpochRecordType
  | NamespaceType

datatype cado_scope = EldRoot | UserScope | PublicScope | TestScope | OtherScope | EldScope

definition SCOPE_ELD_ROOT :: string where "SCOPE_ELD_ROOT = ''@eld''"

fun cado_type_as_str :: "cado_type \<Rightarrow> string" where
  "cado_type_as_str AccountType = ''account''"
| "cado_type_as_str StakingAccountType = ''staking_account''"
| "cado_type_as_str StorageStakingAccountType = ''storage_staking_account''"
| "cado_type_as_str CadoMapType = ''cado_map''"
| "cado_type_as_str AppStateTipType = ''app_state_tip''"
| "cado_type_as_str SnapshotMetadataType = ''snapshot_metadata''"
| "cado_type_as_str SnapshotChunkType = ''snapshot_chunk''"
| "cado_type_as_str ChunkReferenceType = ''chunk_reference''"
| "cado_type_as_str AppStateSnapshotType = ''app_state_snapshot''"
| "cado_type_as_str EpochRecordType = ''epoch_record''"
| "cado_type_as_str NamespaceType = ''namespace''"

definition all_cado_types :: "cado_type list" where
  "all_cado_types = [AccountType, StakingAccountType, StorageStakingAccountType, CadoMapType,
     AppStateTipType, SnapshotMetadataType, SnapshotChunkType, ChunkReferenceType,
     AppStateSnapshotType, EpochRecordType, NamespaceType]"

definition cado_type_from_str :: "string \<Rightarrow> cado_type option" where
  "cado_type_from_str s = List.find (\<lambda>t. cado_type_as_str t = s) all_cado_types"

definition is_address_type :: "cado_type \<Rightarrow> bool" where
  "is_address_type t = (t \<in> {AccountType, StakingAccountType, StorageStakingAccountType})"

definition expected_hex_length :: "cado_type \<Rightarrow> nat" where
  "expected_hex_length t = (if is_address_type t then 20 else 32)"

definition cado_type_is_user_deletable :: "cado_type \<Rightarrow> bool" where
  "cado_type_is_user_deletable t = False"

definition cado_type_is_system_deletable :: "cado_type \<Rightarrow> bool" where
  "cado_type_is_system_deletable t = (t \<in> {ChunkReferenceType, SnapshotChunkType, SnapshotMetadataType})"

definition cado_type_is_deletable :: "cado_type \<Rightarrow> bool" where
  "cado_type_is_deletable t = (cado_type_is_user_deletable t \<or> cado_type_is_system_deletable t)"

fun cado_scope_as_str :: "cado_scope \<Rightarrow> string" where
  "cado_scope_as_str EldRoot = ''@eld''"
| "cado_scope_as_str UserScope = ''@user''"
| "cado_scope_as_str PublicScope = ''@public''"
| "cado_scope_as_str TestScope = ''@test''"
| "cado_scope_as_str OtherScope = ''@other''"
| "cado_scope_as_str EldScope = ''@eld''"

definition cado_scope_from_str :: "string \<Rightarrow> cado_scope option" where
  "cado_scope_from_str s =
    (if s = ''@eld'' then Some EldRoot else if s = ''@user'' then Some UserScope
     else if s = ''@public'' then Some PublicScope else if s = ''@test'' then Some TestScope
     else if s = ''@other'' then Some OtherScope else None)"

definition VALID_TYPES :: "string list" where
  "VALID_TYPES = [''account'', ''staking_account'', ''storage_staking_account'', ''cado_map'',
     ''app_state_tip'', ''epoch_record'', ''snapshot_metadata'', ''snapshot_chunk'',
     ''chunk_reference'', ''app_state_snapshot'', ''namespace'']"

definition FOUR_PART_PATH_TYPES :: "string list" where "FOUR_PART_PATH_TYPES = []"
definition USER_DELETABLE_TYPES :: "string list" where "USER_DELETABLE_TYPES = []"

definition SYSTEM_DELETABLE_TYPES :: "string list" where
  "SYSTEM_DELETABLE_TYPES = [''chunk_reference'', ''snapshot_chunk'', ''snapshot_metadata'']"

definition INFRASTRUCTURE_CADO_TYPES :: "string list" where
  "INFRASTRUCTURE_CADO_TYPES =
     [''app_state_tip'', ''app_state_snapshot'', ''snapshot_metadata'', ''snapshot_chunk'']"

record cado_path =
  path_str :: string
  path_scope :: string
  path_type :: string
  path_name :: string

datatype cado_path_key =
    KeyName string
  | KeyNameAndId string string
  | KeyAddress address
  | KeyAddressAndId address string
  | KeyNamespaceSlug string

definition path_validate_hex :: "hex_lib \<Rightarrow> string \<Rightarrow> nat \<Rightarrow> string \<Rightarrow> unit res" where
  "path_validate_hex hx s expected_len field_name =
    (if \<not> starts_with ''0x'' s then Err (ValidationError field_name)
     else (case hex_decode hx (drop 2 s) of
        None \<Rightarrow> Err (ValidationError field_name)
      | Some bs \<Rightarrow> if length bs \<noteq> expected_len then Err (ValidationError field_name) else Ok ()))"

definition slash_join :: "string list \<Rightarrow> string" where
  "slash_join parts = concat (map (\<lambda>p. CHR ''/'' # p) parts)"

definition cado_path_new :: "hex_lib \<Rightarrow> cado_type \<Rightarrow> cado_path_key \<Rightarrow> cado_path res" where
  "cado_path_new hx ty key =
    (let scope = SCOPE_ELD_ROOT; type_str = cado_type_as_str ty;
         four = (type_str \<in> set FOUR_PART_PATH_TYPES);
         twenty = (ty = AccountType \<or> ty = StakingAccountType \<or> ty = StorageStakingAccountType) in
     if ty = NamespaceType then
       (case key of
          KeyNamespaceSlug slug \<Rightarrow>
            and_then (validate_namespace_slug slug) (\<lambda>_.
              Ok \<lparr>path_str = slash_join [scope, type_str, slug], path_scope = scope,
                  path_type = type_str, path_name = slug\<rparr>)
        | _ \<Rightarrow> Err (ValidationError ''path''))
     else if four then
       and_then (case key of
           KeyNameAndId name i \<Rightarrow> Ok (name, i)
         | KeyAddressAndId a i \<Rightarrow> Ok (hex_with_prefix hx a, i)
         | _ \<Rightarrow> Err (ValidationError ''path'')) (\<lambda>(name, i).
       and_then (path_validate_hex hx name 20 ''sender address'') (\<lambda>_.
       and_then (path_validate_hex hx i 32 ''chunk or record ID'') (\<lambda>_.
         Ok \<lparr>path_str = slash_join [scope, type_str, name, i], path_scope = scope,
             path_type = type_str, path_name = name @ CHR ''/'' # i\<rparr>)))
     else
       and_then (case key of
           KeyName name \<Rightarrow> Ok name
         | KeyAddress a \<Rightarrow> if \<not> twenty then Err (ValidationError ''path'') else Ok (hex_with_prefix hx a)
         | _ \<Rightarrow> Err (ValidationError ''path'')) (\<lambda>name.
       and_then (path_validate_hex hx name (if twenty then 20 else 32) ''name'') (\<lambda>_.
         Ok \<lparr>path_str = slash_join [scope, type_str, name], path_scope = scope,
             path_type = type_str, path_name = name\<rparr>)))"

definition cado_path_parse :: "hex_lib \<Rightarrow> string \<Rightarrow> cado_path res" where
  "cado_path_parse hx path =
    (if \<not> starts_with ''/'' path then Err (ValidationError ''path'')
     else (let parts = splitn 4 CHR ''/'' (drop 1 path) in
      if length parts < 3 then Err (ValidationError ''path'')
      else (let scope = parts ! 0; ty = parts ! 1 in
        if \<not> starts_with ''@'' scope \<or> length scope \<le> 1 then Err (ValidationError ''scope'')
        else if ty \<notin> set VALID_TYPES then Err (ValidationError ''type'')
        else
          and_then
            (if ty \<in> set FOUR_PART_PATH_TYPES then
               (if length parts \<noteq> 4 then Err (ValidationError ''path'')
                else and_then (path_validate_hex hx (parts ! 2) 20 ''sender address'') (\<lambda>_.
                     and_then (path_validate_hex hx (parts ! 3) 32 ''chunk or record ID'') (\<lambda>_.
                       Ok (parts ! 2 @ CHR ''/'' # parts ! 3))))
             else if length parts \<noteq> 3 then Err (ValidationError ''path'')
             else (let expected_len = (if ty = ''account'' \<or> ty = ''staking_account''
                                          \<or> ty = ''storage_staking_account'' then 20 else 32) in
               if ty = ''namespace'' then
                 and_then (validate_namespace_slug (parts ! 2)) (\<lambda>_. Ok (parts ! 2))
               else
                 and_then (path_validate_hex hx (parts ! 2) expected_len ''name'') (\<lambda>_. Ok (parts ! 2))))
            (\<lambda>name. Ok \<lparr>path_str = path, path_scope = scope, path_type = ty, path_name = name\<rparr>))))"

definition path_is_user_deletable :: "cado_path \<Rightarrow> bool" where
  "path_is_user_deletable p = (path_type p \<in> set USER_DELETABLE_TYPES)"

definition path_is_system_deletable :: "cado_path \<Rightarrow> bool" where
  "path_is_system_deletable p = (path_type p \<in> set SYSTEM_DELETABLE_TYPES)"

definition path_is_infrastructure :: "cado_path \<Rightarrow> bool" where
  "path_is_infrastructure p = (path_type p \<in> set INFRASTRUCTURE_CADO_TYPES)"

definition validate_user_deletion :: "cado_path \<Rightarrow> unit res" where
  "validate_user_deletion p =
     (if \<not> path_is_user_deletable p then Err (ValidationError ''cado_type'') else Ok ())"

definition validate_system_deletion :: "cado_path \<Rightarrow> unit res" where
  "validate_system_deletion p =
     (if \<not> path_is_system_deletable p then Err (ValidationError ''cado_type'')
      else if path_scope p \<noteq> SCOPE_ELD_ROOT then Err (ValidationError ''cado_scope'')
      else Ok ())"

definition validate_deletion :: "cado_path \<Rightarrow> bool \<Rightarrow> unit res" where
  "validate_deletion p is_system_operation =
     (if is_system_operation then validate_system_deletion p else validate_user_deletion p)"

definition slug_to_namespace_cadopath :: "hex_lib \<Rightarrow> string \<Rightarrow> cado_path res" where
  "slug_to_namespace_cadopath hx slug =
     and_then (normalize_namespace_slug slug) (\<lambda>canonical.
       if is_reserved_namespace_slug canonical then Err (ValidationError ''namespace_slug'')
       else cado_path_new hx NamespaceType (KeyNamespaceSlug canonical))"

section \<open>Bodies\<close>

record cado_metadata =
  meta_type :: string
  meta_owner :: string

definition cado_metadata_new :: "cado_type \<Rightarrow> string \<Rightarrow> cado_metadata" where
  "cado_metadata_new ty owner = \<lparr>meta_type = cado_type_as_str ty, meta_owner = owner\<rparr>"

datatype cado_body =
    Immutable (body_hash: bytes) (body_data: bytes) (body_metadata: cado_metadata)
  | Mutable (body_hash: bytes) (body_data: bytes) (body_metadata: cado_metadata) (body_latest: bytes)

definition cado_immutable :: "(bytes \<Rightarrow> bytes) \<Rightarrow> bytes \<Rightarrow> cado_metadata \<Rightarrow> cado_body" where
  "cado_immutable sha256 d m = Immutable (sha256 d) d m"

definition cado_mutable_new :: "(bytes \<Rightarrow> bytes) \<Rightarrow> bytes \<Rightarrow> cado_metadata \<Rightarrow> cado_body" where
  "cado_mutable_new sha256 d m = Mutable (sha256 d) d m (sha256 d)"

definition cado_mutable_updated ::
    "(bytes \<Rightarrow> bytes) \<Rightarrow> bytes \<Rightarrow> bytes \<Rightarrow> cado_metadata \<Rightarrow> cado_body" where
  "cado_mutable_updated sha256 original_hash d m = Mutable original_hash d m (sha256 d)"

definition content_hash :: "cado_body \<Rightarrow> bytes" where
  "content_hash b = body_hash b"

definition latest_hash :: "cado_body \<Rightarrow> bytes option" where
  "latest_hash b = (case b of Immutable _ _ _ \<Rightarrow> None | Mutable _ _ _ l \<Rightarrow> Some l)"

record cado_marked_for_deletion =
  del_owner :: string
  del_path :: cado_path

section \<open>Epoch record names\<close>

fun show_hex :: "nat \<Rightarrow> string" where
  "show_hex n = (if n < 16 then [nibble_char n] else show_hex (n div 16) @ [nibble_char (n mod 16)])"

declare show_hex.simps [simp del]

fun hex_val :: "nat \<Rightarrow> string \<Rightarrow> nat option" where
  "hex_val acc [] = Some acc"
| "hex_val acc (c # cs) = (case nibble_val c of None \<Rightarrow> None | Some d \<Rightarrow> hex_val (16 * acc + d) cs)"

definition epoch_record_path_name :: "int \<Rightarrow> string res" where
  "epoch_record_path_name epoch =
     (if epoch < 0 then Err (ValidationError ''epoch'')
      else Ok (''0x'' @ pad_zero 64 (show_hex (unat (word_of_int epoch :: u64)))))"

definition epoch_from_record_path_name :: "string \<Rightarrow> int option" where
  "epoch_from_record_path_name name =
     (if \<not> starts_with ''0x'' name \<or> length name \<noteq> 66 then None
      else if \<not> list_all is_hex_digit (drop 2 name) then None
      else (case hex_val 0 (drop 2 name) of None \<Rightarrow> None
            | Some n \<Rightarrow> if n < 2 ^ 64 \<and> n < 2 ^ 63 then Some (int n) else None))"

definition LATEST :: string where
  "LATEST = ''0x5e1e2bcac305958b27077ca136f35f0abae7cf38c9af678f7d220ed0cb51d4f8''"

section \<open>Paths\<close>

lemma hex_digit_not_slash: "is_hex_digit c \<Longrightarrow> c \<noteq> CHR ''/''"
  by (auto simp: is_hex_digit_def Let_def)

lemma path_validate_hex_Inr:
  "path_validate_hex hx s n f = Inr u \<longleftrightarrow>
     starts_with ''0x'' s \<and> (\<exists>bs. hex_decode hx (drop 2 s) = Some bs \<and> length bs = n)"
  by (auto simp: path_validate_hex_def split: option.splits)

lemma path_validate_hex_no_slash:
  assumes "hex_documented hx" "path_validate_hex hx s n f = Inr u"
  shows "CHR ''/'' \<notin> set s"
proof -
  from assms(2) obtain bs where pre: "take 2 s = ''0x''" and dec: "hex_decode hx (drop 2 s) = Some bs"
    by (auto simp: path_validate_hex_Inr starts_with_def numeral_2_eq_2)
  have "list_all is_hex_digit (drop 2 s)"
    using hex_documentedD(5) [OF assms(1) dec] .
  then have "CHR ''/'' \<notin> set (drop 2 s)"
    using hex_digit_not_slash by (auto simp: list_all_iff)
  moreover have "set s = set (take 2 s) \<union> set (drop 2 s)"
    by (metis append_take_drop_id set_append)
  ultimately show ?thesis using pre by auto
qed

lemma path_validate_hex_prefix [simp]:
  "hex_documented hx \<Longrightarrow> wf_address a \<Longrightarrow> path_validate_hex hx (hex_with_prefix hx a) 20 f = Inr ()"
  by (auto simp: path_validate_hex_Inr hex_with_prefix_def starts_with_def hex_documentedD)

lemma validate_namespace_slug_no_slash:
  "validate_namespace_slug s = Inr u \<Longrightarrow> CHR ''/'' \<notin> set s"
  by (auto simp: validate_namespace_slug_def list_all_iff is_ascii_lowercase_def is_ascii_digit_def
      Let_def split: if_splits)

lemma slug_no_slash_cado_type: "CHR ''/'' \<notin> set (cado_type_as_str ty)"
  by (cases ty) simp_all

lemma cado_type_as_str_inj [simp]: "cado_type_as_str t = cado_type_as_str t' \<longleftrightarrow> t = t'"
  by (cases t; cases t') simp_all

lemma cado_type_as_str_valid: "cado_type_as_str ty \<in> set VALID_TYPES"
  by (cases ty) (simp_all add: VALID_TYPES_def)

lemma takeWhile_no_sep: "d \<notin> set a \<Longrightarrow> takeWhile (\<lambda>c. c \<noteq> d) (a @ d # b) = a"
  by (induction a) auto

lemma dropWhile_no_sep: "d \<notin> set a \<Longrightarrow> dropWhile (\<lambda>c. c \<noteq> d) (a @ d # b) = d # b"
  by (induction a) auto

lemma splitn_cons:
  "d \<notin> set a \<Longrightarrow> splitn (Suc (Suc n)) d (a @ d # b) = a # splitn (Suc n) d b"
  by (simp add: takeWhile_no_sep dropWhile_no_sep)

lemma splitn_last: "d \<notin> set a \<Longrightarrow> splitn (Suc (Suc n)) d a = [a]"
  by simp

lemma splitn_three:
  assumes "CHR ''/'' \<notin> set a" "CHR ''/'' \<notin> set b" "CHR ''/'' \<notin> set c"
  shows "splitn 4 CHR ''/'' (drop 1 (slash_join [a, b, c])) = [a, b, c]"
  using assms by (simp add: slash_join_def numeral_eq_Suc splitn_cons splitn_last del: splitn.simps)

text \<open>Every path the typed constructor builds has three segments.\<close>

lemma cado_path_new_shape:
  assumes "cado_path_new hx ty key = Inr p"
  shows "path_str p = slash_join [SCOPE_ELD_ROOT, cado_type_as_str ty, path_name p] \<and>
      path_scope p = SCOPE_ELD_ROOT \<and> path_type p = cado_type_as_str ty"
    and "if ty = NamespaceType then validate_namespace_slug (path_name p) = Inr ()
         else path_validate_hex hx (path_name p) (expected_hex_length ty) ''name'' = Inr ()"
  using assms
  by (auto simp: cado_path_new_def Let_def FOUR_PART_PATH_TYPES_def result_simps
      expected_hex_length_def is_address_type_def split: cado_path_key.splits if_splits)

lemma cado_path_new_no_slash:
  assumes "hex_documented hx" "cado_path_new hx ty key = Inr p"
  shows "CHR ''/'' \<notin> set (path_name p)"
  using cado_path_new_shape(2) [OF assms(2)] validate_namespace_slug_no_slash
    path_validate_hex_no_slash [OF assms(1)] by (auto split: if_splits)

lemma cado_path_new_split:
  assumes "hex_documented hx" "cado_path_new hx ty key = Inr p"
  shows "splitn 4 CHR ''/'' (drop 1 (path_str p)) = [SCOPE_ELD_ROOT, cado_type_as_str ty, path_name p]"
  using splitn_three slug_no_slash_cado_type cado_path_new_no_slash [OF assms]
    cado_path_new_shape(1) [OF assms(2)] by (simp add: SCOPE_ELD_ROOT_def)

lemma cado_path_new_determines:
  assumes "hex_documented hx" "cado_path_new hx ty key = Inr p" "cado_path_new hx ty' key' = Inr p'"
    and "path_str p = path_str p'"
  shows "ty = ty' \<and> p = p'"
proof -
  have "[SCOPE_ELD_ROOT, cado_type_as_str ty, path_name p] =
        [SCOPE_ELD_ROOT, cado_type_as_str ty', path_name p']"
    using cado_path_new_split [OF assms(1,2)] cado_path_new_split [OF assms(1,3)] assms(4) by simp
  then show ?thesis
    using cado_path_new_shape(1) [OF assms(2)] cado_path_new_shape(1) [OF assms(3)]
    by (cases p; cases p') simp
qed

lemma address_path_Inr:
  assumes "hex_documented hx" "is_address_type ty"
  shows "(\<exists>p. cado_path_new hx ty (KeyAddress a) = Inr p) \<longleftrightarrow> wf_address a"
proof -
  have "hex_decode hx (hex_encode hx (address_bytes a)) = Some (address_bytes a)"
    by (rule hex_documentedD(1) [OF assms(1)])
  then have "(\<exists>u. path_validate_hex hx (hex_with_prefix hx a) 20 f = Inr u) \<longleftrightarrow> wf_address a" for f
    by (auto simp: path_validate_hex_Inr hex_with_prefix_def starts_with_def)
  then show ?thesis
    using assms(2) by (auto simp: cado_path_new_def Let_def FOUR_PART_PATH_TYPES_def result_simps
        is_address_type_def)
qed

lemma address_path_inj:
  assumes "hex_documented hx"
    and "cado_path_new hx ty (KeyAddress a) = Inr p" "cado_path_new hx ty' (KeyAddress b) = Inr p'"
    and "path_str p = path_str p'"
  shows "ty = ty' \<and> a = b"
proof -
  have eq: "ty = ty'" "p = p'"
    using cado_path_new_determines [OF assms(1,2,3,4)] by auto
  have "path_name p = hex_with_prefix hx a" "path_name p' = hex_with_prefix hx b"
    using assms(2,3) by (auto simp: cado_path_new_def Let_def FOUR_PART_PATH_TYPES_def result_simps
        split: if_splits)
  then have "hex_encode hx (address_bytes a) = hex_encode hx (address_bytes b)"
    using eq by (simp add: hex_with_prefix_def)
  then have "address_bytes a = address_bytes b"
    using hex_documentedD(1) [OF assms(1)] by (metis option.inject)
  then show ?thesis using eq by (simp add: address.expand)
qed

lemma epoch_hex_val_append:
  "hex_val a (xs @ ys) = (case hex_val a xs of None \<Rightarrow> None | Some b \<Rightarrow> hex_val b ys)"
  by (induction xs arbitrary: a) (auto split: option.splits)

lemma hex_val_show_hex: "hex_val 0 (show_hex n) = Some n"
proof (induction n rule: show_hex.induct)
  case (1 n)
  then show ?case
    by (cases "n < 16") (simp_all add: show_hex.simps [of n] epoch_hex_val_append)
qed

lemma hex_val_zeros: "hex_val 0 (replicate k CHR ''0'' @ s) = hex_val 0 s"
  by (induction k) (simp_all add: nibble_val_def Let_def)

lemma show_hex_digits: "list_all is_hex_digit (show_hex n)"
proof (induction n rule: show_hex.induct)
  case (1 n)
  then show ?case
    by (cases "n < 16") (auto simp: show_hex.simps [of n] intro!: nibble_val_digit nibble_val_char)
qed

lemma length_show_hex_le: "n < 16 ^ k \<Longrightarrow> 0 < k \<Longrightarrow> length (show_hex n) \<le> k"
proof (induction k arbitrary: n)
  case (Suc k)
  show ?case
  proof (cases "n < 16")
    case False
    then have "k > 0" using Suc.prems by (cases k) auto
    moreover have "n div 16 < 16 ^ k" using Suc.prems by (simp add: less_mult_imp_div_less)
    ultimately show ?thesis using Suc.IH False by (simp add: show_hex.simps [of n])
  qed (simp add: show_hex.simps [of n])
qed simp

lemma length_show_hex_64: "length (show_hex (unat (w :: u64))) \<le> 64"
proof -
  have "unat w < 16 ^ 16" using unsigned_less [of w, where ?'a = nat] by simp
  then show ?thesis using length_show_hex_le [of "unat w" 16] by simp
qed

section \<open>Properties\<close>

lemma show_hex_lower: "list_all is_lower_hex (show_hex n)"
proof (induction n rule: show_hex.induct)
  case (1 n)
  then show ?case
    by (cases "n < 16") (auto simp: show_hex.simps [of n] intro!: nibble_char_lower)
qed

lemma epoch_name_lower: "list_all is_lower_hex (pad_zero 64 (show_hex n))"
  using show_hex_lower [of n] by (auto simp: pad_zero_def list_all_iff is_lower_hex_def)

lemma hex_name_path:
  assumes "hex_documented hx" "list_all is_lower_hex s" "length s = 64" "ty \<noteq> NamespaceType" "\<not> is_address_type ty"
  shows "\<exists>p. cado_path_new hx ty (KeyName (''0x'' @ s)) = Ok p \<and> path_type p = cado_type_as_str ty"
proof -
  obtain bs where "hex_decode hx s = Some bs" "length bs = 32"
    using hex_decode_lower [OF assms(1,2)] assms(3) by auto
  then show ?thesis
    using assms(4,5) by (auto simp: cado_path_new_def Let_def FOUR_PART_PATH_TYPES_def is_address_type_def
        path_validate_hex_def starts_with_def)
qed

text \<open>The typed path constructor and the string parser agree: a path the constructor builds is
  parsed back to the same path.\<close>

lemma cado_path_new_parse:
  assumes "hex_documented hx" "cado_path_new hx ty key = Ok p"
  shows "cado_path_parse hx (path_str p) = Ok p"
proof -
  have starts: "starts_with ''/'' (path_str p)"
    using cado_path_new_shape(1) [OF assms(2)] by (simp add: slash_join_def starts_with_def)
  have nslug: "cado_type_as_str ty = ''namespace'' \<longleftrightarrow> ty = NamespaceType"
    using cado_type_as_str_inj [of ty NamespaceType] by simp
  show ?thesis
    unfolding cado_path_parse_def Let_def cado_path_new_split [OF assms]
    using starts cado_path_new_shape [OF assms(2)] cado_type_as_str_valid [of ty] nslug
    by (cases ty; cases p) (auto simp: FOUR_PART_PATH_TYPES_def SCOPE_ELD_ROOT_def starts_with_def
        expected_hex_length_def is_address_type_def)
qed

text \<open>An epoch number in the \<^verbatim>\<open>i64\<close> range is recovered from the name of its record, and the name
  has the 66 characters a path name needs.\<close>

lemma epoch_name_roundtrip:
  assumes "0 \<le> e" "e < 2 ^ 63"
  shows "\<exists>name. epoch_record_path_name e = Ok name \<and> length name = 66 \<and>
     epoch_from_record_path_name name = Some e"
proof -
  let ?w = "word_of_int e :: u64"
  have w: "unat ?w = nat e"
    using assms by (simp add: unat_eq_nat_uint uint_word_of_int take_bit_int_eq_self)
  have "list_all is_hex_digit (pad_zero 64 (show_hex (unat ?w)))"
    using show_hex_digits by (auto simp: pad_zero_def list_all_iff is_hex_digit_def)
  moreover have "length (pad_zero 64 (show_hex (unat ?w))) = 64"
    using length_show_hex_64 [of ?w] by (simp add: pad_zero_def)
  moreover have "hex_val 0 (pad_zero 64 (show_hex (unat ?w))) = Some (nat e)"
    by (simp add: pad_zero_def hex_val_zeros hex_val_show_hex w)
  ultimately show ?thesis
    using assms by (simp add: epoch_record_path_name_def epoch_from_record_path_name_def starts_with_def
        nat_less_iff)
qed

end
