(* ===== verification/Tx.thy ===== *)
theory Tx
  imports Cado
begin

text \<open>
  Ledger objects and transactions: accounts (\<^verbatim>\<open>account.rs\<close>, \<^verbatim>\<open>staking_account.rs\<close>), validators and
  epoch records (\<^verbatim>\<open>validator.rs\<close>), chunk proofs (\<^verbatim>\<open>capacity_proof.rs\<close>), the payload types and
  their validating constructors (\<^verbatim>\<open>tx/payloads/*.rs\<close>), the payload enumeration
  (\<^verbatim>\<open>tx/payload.rs\<close>), keys and signatures (\<^verbatim>\<open>tx/parts/keys.rs\<close>) and the signed envelope
  (\<^verbatim>\<open>tx/envelope.rs\<close>).  The crates the envelope calls (SHA-256, Ed25519, the JSON printer) are
  fields of the record \<open>crates\<close>.
\<close>

section \<open>Ledger objects\<close>

record account =
  acc_address :: address
  acc_balance :: coin
  acc_nonce :: nonce

record staking_account =
  sa_address :: address
  stake_balance :: coin
  originator :: address

record storage_staking_account =
  ssa_address :: address
  ssa_stake_balance :: coin
  ssa_originator :: address
  ssa_storage_capacity :: u64

record validator_info =
  vi_address :: address
  vi_stake :: coin
  vi_public_key :: bytes

record capacity_validator_info =
  cv_address :: address
  cv_stake :: coin
  cv_public_key :: public_key
  storage_capacity :: u64
  merkle_root :: "bytes option"
  cv_seed :: "bytes option"
  chunk_count :: "u32 option"
  registered_at :: "u64 option"
  last_merkle_root_update :: "u64 option"
  registered_block :: u64
  registration_duration :: u64

record active_capacity_validator =
  validator_address :: address
  acv_epoch :: int
  challenged_providers :: "address list"
  subscribed_topics :: "string list"

record epoch_record =
  er_epoch :: int
  start_block :: int
  er_active_validators :: "validator_info list"
  er_active_capacity_validator :: "active_capacity_validator option"
  challenged_capacity_validators :: "capacity_validator_info list"

datatype slot_state = SlotProof | SlotOpen | SlotContent (deal_id: string) (committed_hash: bytes)

record chunk_proof =
  chunk_index :: nat
  chunk_data :: bytes
  chunk_hash :: bytes
  cp_merkle_proof :: "bytes list"
  cp_slot_state :: slot_state

section \<open>Payloads and their constructors\<close>

record transfer_tx =
  tr_sender :: address
  tr_recipient :: address
  tr_amount :: u128

definition transfer_tx_new :: "address \<Rightarrow> address \<Rightarrow> u128 \<Rightarrow> transfer_tx res" where
  "transfer_tx_new sender recipient amt =
    (if sender = recipient then Err (ValidationError ''transfer transaction'')
     else and_then (map_err (\<lambda>_. ValidationError ''transfer amount'') (coin_new amt)) (\<lambda>c.
       if amount c = 0 then Err (ValidationError ''transfer amount'')
       else Ok \<lparr>tr_sender = sender, tr_recipient = recipient, tr_amount = amt\<rparr>))"

record stake_tx =
  st_sender :: address
  st_amount :: u128
  st_public_key :: "string option"

definition stake_validate_public_key :: "string \<Rightarrow> nat \<Rightarrow> unit res" where
  "stake_validate_public_key pk expected_len =
    (if length pk \<noteq> expected_len then Err (ValidationError ''public key'')
     else if \<not> list_all is_hex_digit pk then Err (ValidationError ''public key'')
     else Ok ())"

definition stake_tx_new :: "address \<Rightarrow> u128 \<Rightarrow> string option \<Rightarrow> stake_tx res" where
  "stake_tx_new sender amt pk =
    (if amt = 0 then Err (ValidationError ''stake amount'')
     else and_then (coin_new amt) (\<lambda>_.
       and_then (case pk of None \<Rightarrow> Ok () | Some k \<Rightarrow> stake_validate_public_key k 64) (\<lambda>_.
         Ok \<lparr>st_sender = sender, st_amount = amt, st_public_key = pk\<rparr>)))"

record unstake_tx =
  un_sender :: address
  un_amount :: u128

definition unstake_tx_new :: "address \<Rightarrow> u128 \<Rightarrow> unstake_tx res" where
  "unstake_tx_new sender amt =
    (if amt = 0 then Err (ValidationError ''unstake amount'')
     else and_then (coin_new amt) (\<lambda>c.
       if amount c > amount coin_max then Err (ValidationError ''unstake amount'')
       else Ok \<lparr>un_sender = sender, un_amount = amt\<rparr>))"

record register_capacity_tx =
  rc_sender :: address
  rc_capacity_bytes :: u64
  rc_merkle_root :: bytes
  rc_seed :: bytes
  rc_chunk_count :: u32

definition register_capacity_tx_new ::
    "address \<Rightarrow> u64 \<Rightarrow> bytes \<Rightarrow> bytes \<Rightarrow> u32 \<Rightarrow> register_capacity_tx res" where
  "register_capacity_tx_new sender cap root sd cc =
    (if cap = 0 then Err (ValidationError ''capacity_bytes'')
     else Ok \<lparr>rc_sender = sender, rc_capacity_bytes = cap, rc_merkle_root = root, rc_seed = sd,
             rc_chunk_count = cc\<rparr>)"

record unregister_capacity_tx =
  uc_sender :: address
  unregister :: bool

definition unregister_capacity_tx_new :: "address \<Rightarrow> bool \<Rightarrow> unregister_capacity_tx res" where
  "unregister_capacity_tx_new sender unreg =
    (if \<not> unreg then Err (ValidationError ''unregister'')
     else Ok \<lparr>uc_sender = sender, unregister = unreg\<rparr>)"

record update_capacity_merkle_root_tx =
  um_sender :: address
  um_merkle_root :: bytes

definition update_capacity_merkle_root_tx_new ::
    "address \<Rightarrow> bytes \<Rightarrow> update_capacity_merkle_root_tx res" where
  "update_capacity_merkle_root_tx_new sender root = Ok \<lparr>um_sender = sender, um_merkle_root = root\<rparr>"

record add_namespace_tx =
  an_sender :: address
  an_namespace_slug :: string
  an_registration_fee :: u128

definition add_namespace_tx_new :: "address \<Rightarrow> string \<Rightarrow> u128 \<Rightarrow> add_namespace_tx res" where
  "add_namespace_tx_new sender slug fee =
     and_then (normalize_namespace_slug slug) (\<lambda>canonical.
       if is_reserved_namespace_slug canonical then Err (ValidationError ''namespace_slug'')
       else if fee = 0 then Err (ValidationError ''registration_fee'')
       else and_then (coin_new fee) (\<lambda>_.
         Ok \<lparr>an_sender = sender, an_namespace_slug = canonical, an_registration_fee = fee\<rparr>))"

record verified_proof_tx =
  vp_sender :: address
  vp_capacity_provider :: address
  vp_challenge_id :: string
  vp_block_height :: int
  vp_verified_at_block :: int
  vp_verified_at_timestamp :: u64
  vp_proofs :: "chunk_proof list"
  vp_generated_at :: u64
  vp_provider_pubkey :: string
  vp_provider_signature :: string
  vp_failed :: bool

text \<open>\<^verbatim>\<open>char::is_control\<close>: the C0 and C1 control characters and delete, on UTF-8 bytes.\<close>

fun has_control :: "string \<Rightarrow> bool" where
  "has_control [] = False"
| "has_control (c # cs) = (let v = (of_char c :: nat) in v < 32 \<or> v = 127 \<or>
     (v = 194 \<and> (case cs of [] \<Rightarrow> False | d # _ \<Rightarrow> (let u = (of_char d :: nat) in 128 \<le> u \<and> u \<le> 159)))
     \<or> has_control cs)"

definition dangerous_chars :: string where
  "dangerous_chars = map (char_of :: nat \<Rightarrow> char) [60, 62, 34, 39, 38, 59, 124, 96, 36, 40, 41, 123, 125]"

definition validate_verified_proof_challenge_id :: "string \<Rightarrow> unit res" where
  "validate_verified_proof_challenge_id s =
    (if s = [] then Err (ValidationError ''string'')
     else if length s > 100 then Err (ValidationError ''string'')
     else if list_ex (\<lambda>ch. ch \<in> set s) dangerous_chars then Err (ValidationError ''string'')
     else if has_control s then Err (ValidationError ''string'')
     else Ok ())"

definition MIN_TIMESTAMP :: u64 where "MIN_TIMESTAMP = 1577836800"
definition MAX_TIMESTAMP :: u64 where "MAX_TIMESTAMP = 4102444800"

definition timestamp_ok :: "u64 \<Rightarrow> bool" where
  "timestamp_ok t = (MIN_TIMESTAMP \<le> t \<and> t \<le> MAX_TIMESTAMP)"

definition verified_proof_tx_new ::
    "address \<Rightarrow> address \<Rightarrow> string \<Rightarrow> int \<Rightarrow> int \<Rightarrow> u64 \<Rightarrow> chunk_proof list \<Rightarrow> u64 \<Rightarrow> string \<Rightarrow> string
     \<Rightarrow> verified_proof_tx res" where
  "verified_proof_tx_new sender provider cid bh vab vat prf gen pk sig =
     and_then (validate_verified_proof_challenge_id cid) (\<lambda>_.
       if bh \<le> 0 then Err (ValidationError ''block_height'')
       else if vab \<le> 0 then Err (ValidationError ''verified_at_block'')
       else if vab < bh then Err (ValidationError ''verified_at_block'')
       else if \<not> timestamp_ok vat then Err (ValidationError ''verified_at_timestamp'')
       else if prf = [] then Err (ValidationError ''proofs'')
       else if \<not> timestamp_ok gen then Err (ValidationError ''generated_at'')
       else if pk = [] then Err (ValidationError ''provider_pubkey'')
       else if sig = [] then Err (ValidationError ''provider_signature'')
       else Ok \<lparr>vp_sender = sender, vp_capacity_provider = provider, vp_challenge_id = cid,
               vp_block_height = bh, vp_verified_at_block = vab, vp_verified_at_timestamp = vat,
               vp_proofs = prf, vp_generated_at = gen, vp_provider_pubkey = pk,
               vp_provider_signature = sig, vp_failed = False\<rparr>)"

record post_message_tx =
  pm_sender :: address
  pm_original_signer :: address
  pm_original_signer_pubkey :: string
  pm_content_key :: string
  pm_message_id :: string
  pm_expires_height :: u64
  pm_visibility :: string
  pm_topic :: "string option"
  pm_tags :: "string list"
  pm_content_type :: string
  pm_fee_amount :: u128
  pm_received_timestamp :: u64
  pm_user_signature :: string
  pm_namespace :: "string option"

definition POST_MESSAGE_MAX_TAGS :: nat where "POST_MESSAGE_MAX_TAGS = 4"
definition POST_MESSAGE_MAX_TAG_UTF8_BYTES :: nat where "POST_MESSAGE_MAX_TAG_UTF8_BYTES = 64"

definition canonicalize_tag :: "hex_lib \<Rightarrow> string \<Rightarrow> string res" where
  "canonicalize_tag hx tag =
    (if length tag > POST_MESSAGE_MAX_TAG_UTF8_BYTES then Err (ValidationError ''tags'')
     else (let n = (case address_parse hx tag of Inr a \<Rightarrow> hex_with_prefix hx a | Inl _ \<Rightarrow> tag) in
           if length n > POST_MESSAGE_MAX_TAG_UTF8_BYTES then Err (ValidationError ''tags'') else Ok n))"

fun canonicalize_tags_loop :: "hex_lib \<Rightarrow> string list \<Rightarrow> string list res" where
  "canonicalize_tags_loop hx [] = Ok []"
| "canonicalize_tags_loop hx (t # ts) = and_then (canonicalize_tag hx t) (\<lambda>n.
     and_then (canonicalize_tags_loop hx ts) (\<lambda>ns. Ok (n # ns)))"

definition canonicalize_post_message_tags :: "hex_lib \<Rightarrow> string list \<Rightarrow> string list res" where
  "canonicalize_post_message_tags hx tags =
    (if length tags > POST_MESSAGE_MAX_TAGS then Err (ValidationError ''tags'')
     else canonicalize_tags_loop hx tags)"

definition POST_MESSAGE_ALLOWED_CONTENT_TYPES :: "string list" where
  "POST_MESSAGE_ALLOWED_CONTENT_TYPES = [''text/plain'', ''application/json'', ''image/png'']"

definition validate_post_message_content_type :: "string \<Rightarrow> unit res" where
  "validate_post_message_content_type ct =
    (if trim ct = [] then Err (ValidationError ''content_type'')
     else if trim ct \<notin> set POST_MESSAGE_ALLOWED_CONTENT_TYPES then Err (ValidationError ''content_type'')
     else Ok ())"

text \<open>\<^verbatim>\<open>PostMessageTx::new\<close>: the unchecked fields are those of the argument record.\<close>

definition post_message_tx_new :: "hex_lib \<Rightarrow> post_message_tx \<Rightarrow> post_message_tx res" where
  "post_message_tx_new hx u =
     and_then (validate_post_message_content_type (pm_content_type u)) (\<lambda>_.
     and_then (canonicalize_post_message_tags hx (pm_tags u)) (\<lambda>tags.
     and_then (resolve_optional_namespace (pm_namespace u)) (\<lambda>ns.
       Ok (u\<lparr>pm_tags := tags, pm_namespace := ns\<rparr>))))"

section \<open>The payload enumeration\<close>

datatype payload_inner =
    Transfer transfer_tx
  | Unstake unstake_tx
  | Stake stake_tx
  | VerifiedProof verified_proof_tx
  | RegisterCapacity register_capacity_tx
  | UnregisterCapacity unregister_capacity_tx
  | UpdateCapacityMerkleRoot update_capacity_merkle_root_tx
  | PostMessage post_message_tx
  | AddNamespace add_namespace_tx

fun payload_tx_type :: "payload_inner \<Rightarrow> string" where
  "payload_tx_type (Transfer _) = ''Transfer''"
| "payload_tx_type (Unstake _) = ''Unstake''"
| "payload_tx_type (Stake _) = ''Stake''"
| "payload_tx_type (VerifiedProof _) = ''VerifiedProof''"
| "payload_tx_type (RegisterCapacity _) = ''RegisterCapacity''"
| "payload_tx_type (UnregisterCapacity _) = ''UnregisterCapacity''"
| "payload_tx_type (UpdateCapacityMerkleRoot _) = ''UpdateCapacityMerkleRoot''"
| "payload_tx_type (PostMessage _) = ''PostMessage''"
| "payload_tx_type (AddNamespace _) = ''AddNamespace''"

fun payload_sender :: "payload_inner \<Rightarrow> address" where
  "payload_sender (Transfer t) = tr_sender t"
| "payload_sender (Stake t) = st_sender t"
| "payload_sender (Unstake t) = un_sender t"
| "payload_sender (RegisterCapacity t) = rc_sender t"
| "payload_sender (UnregisterCapacity t) = uc_sender t"
| "payload_sender (UpdateCapacityMerkleRoot t) = um_sender t"
| "payload_sender (PostMessage t) = pm_sender t"
| "payload_sender (VerifiedProof t) = vp_sender t"
| "payload_sender (AddNamespace t) = an_sender t"

fun payload_amount :: "payload_inner \<Rightarrow> u128" where
  "payload_amount (Transfer t) = tr_amount t"
| "payload_amount (Stake t) = st_amount t"
| "payload_amount (Unstake t) = un_amount t"
| "payload_amount (RegisterCapacity _) = 0"
| "payload_amount (UnregisterCapacity _) = 0"
| "payload_amount (UpdateCapacityMerkleRoot _) = 0"
| "payload_amount (PostMessage _) = 0"
| "payload_amount (VerifiedProof _) = 0"
| "payload_amount (AddNamespace t) = an_registration_fee t"

record payload =
  payload_type :: string
  inner :: payload_inner

definition payload_new :: "payload_inner \<Rightarrow> payload" where
  "payload_new i = \<lparr>payload_type = payload_tx_type i, inner = i\<rparr>"

record tx =
  tx_sig :: string
  tx_nonce :: nonce
  tx_payload :: payload
  tx_public_key :: string
  tx_fee :: u128

section \<open>Keys, signatures, verification\<close>

text \<open>The crates behind the envelope: \<^verbatim>\<open>hex\<close>, \<^verbatim>\<open>sha2\<close>, \<^verbatim>\<open>ed25519_dalek\<close> (is a 32-byte string a
  verifying key; does a signature verify under a key) and \<^verbatim>\<open>serde_json\<close> (the printed transaction,
  or nothing when serialisation fails).\<close>

record crates =
  hex :: hex_lib
  sha256 :: "bytes \<Rightarrow> bytes"
  ed_valid_key :: "bytes \<Rightarrow> bool"
  ed_verify :: "bytes \<Rightarrow> bytes \<Rightarrow> bytes \<Rightarrow> bool"
  tx_to_json :: "tx \<Rightarrow> string option"

definition str_bytes :: "string \<Rightarrow> bytes" where
  "str_bytes s = map (\<lambda>c. of_nat (of_char c)) s"

text \<open>\<^verbatim>\<open>String::from_utf8\<close>: the well-formed byte sequences of the Unicode standard.\<close>

definition is_cont :: "u8 \<Rightarrow> bool" where "is_cont b = (0x80 \<le> b \<and> b \<le> 0xBF)"

fun utf8_valid :: "bytes \<Rightarrow> bool" where
  "utf8_valid [] = True"
| "utf8_valid (a # r) =
    (if a \<le> 0x7F then utf8_valid r
     else if 0xC2 \<le> a \<and> a \<le> 0xDF then (case r of b # r' \<Rightarrow> is_cont b \<and> utf8_valid r' | _ \<Rightarrow> False)
     else if 0xE0 \<le> a \<and> a \<le> 0xEF then
       (case r of b # c # r' \<Rightarrow> is_cont b \<and> (a = 0xE0 \<longrightarrow> 0xA0 \<le> b) \<and> (a = 0xED \<longrightarrow> b \<le> 0x9F) \<and>
                               is_cont c \<and> utf8_valid r' | _ \<Rightarrow> False)
     else if 0xF0 \<le> a \<and> a \<le> 0xF4 then
       (case r of b # c # d # r' \<Rightarrow> is_cont b \<and> (a = 0xF0 \<longrightarrow> 0x90 \<le> b) \<and> (a = 0xF4 \<longrightarrow> b \<le> 0x8F) \<and>
                               is_cont c \<and> is_cont d \<and> utf8_valid r' | _ \<Rightarrow> False)
     else False)"

definition from_utf8 :: "bytes \<Rightarrow> string option" where
  "from_utf8 bs = (if utf8_valid bs then Some (map (\<lambda>b. char_of (unat b)) bs) else None)"

lemma from_utf8_ascii: "list_all (\<lambda>c. (of_char c :: nat) < 128) s \<Longrightarrow> from_utf8 (str_bytes s) = Some s"
proof -
  have b: "unat (of_nat (of_char c) :: u8) = of_char c" for c
    by (simp add: unat_of_nat)
  assume a: "list_all (\<lambda>c. (of_char c :: nat) < 128) s"
  then have "utf8_valid (str_bytes s)"
    by (induction s) (auto simp: str_bytes_def word_le_nat_alt b)
  moreover have "map (\<lambda>b. char_of (unat b)) (str_bytes s) = s"
    by (simp add: str_bytes_def b map_idI)
  ultimately show ?thesis by (simp add: from_utf8_def)
qed

definition tx_public_key_new :: "('e) crates_scheme \<Rightarrow> string \<Rightarrow> string res" where
  "tx_public_key_new cr v = (case hex_decode (hex cr) v of
      None \<Rightarrow> Err (ValidationError ''public_key'')
    | Some bs \<Rightarrow> if length bs \<noteq> 32 then Err (ValidationError ''public_key'')
        else if \<not> ed_valid_key cr bs then Err (ValidationError ''public_key'')
        else Ok v)"

definition to_verifying_key :: "('e) crates_scheme \<Rightarrow> string \<Rightarrow> bytes res" where
  "to_verifying_key cr v = (case hex_decode (hex cr) v of
      None \<Rightarrow> Err (ValidationError ''public_key'')
    | Some bs \<Rightarrow> if length bs \<noteq> 32 then Err (ValidationError ''public_key'')
        else if \<not> ed_valid_key cr bs then Err (ValidationError ''public_key'')
        else Ok bs)"

definition tx_sig_new :: "('e) crates_scheme \<Rightarrow> string \<Rightarrow> string res" where
  "tx_sig_new cr v = (case hex_decode (hex cr) v of
      None \<Rightarrow> Err (ValidationError ''sig'')
    | Some bs \<Rightarrow> if length bs \<noteq> 64 then Err (ValidationError ''sig'') else Ok v)"

definition to_signature :: "('e) crates_scheme \<Rightarrow> string \<Rightarrow> bytes res" where
  "to_signature cr v = (case hex_decode (hex cr) v of
      None \<Rightarrow> Err (ValidationError ''sig'')
    | Some bs \<Rightarrow> if length bs \<noteq> 64 then Err (ValidationError ''sig'') else Ok bs)"

definition tx_new :: "nonce \<Rightarrow> payload \<Rightarrow> string \<Rightarrow> tx" where
  "tx_new n p pk = \<lparr>tx_sig = [], tx_nonce = n, tx_payload = p, tx_public_key = pk, tx_fee = 0\<rparr>"

definition signing_bytes :: "('e) crates_scheme \<Rightarrow> tx \<Rightarrow> string \<Rightarrow> bytes option" where
  "signing_bytes cr t chain_id =
     map_option (\<lambda>json. str_bytes json @ str_bytes chain_id) (tx_to_json cr (t\<lparr>tx_sig := []\<rparr>))"

definition tx_sign :: "('e) crates_scheme \<Rightarrow> (bytes \<Rightarrow> bytes) \<Rightarrow> tx \<Rightarrow> string \<Rightarrow> tx res" where
  "tx_sign cr sign_with t chain_id = (case signing_bytes cr t chain_id of
      None \<Rightarrow> Err (TransactionError ''sign'')
    | Some m \<Rightarrow> Ok (t\<lparr>tx_sig := hex_encode (hex cr) (sign_with m)\<rparr>))"

definition tx_verify :: "('e) crates_scheme \<Rightarrow> tx \<Rightarrow> string \<Rightarrow> bool res" where
  "tx_verify cr t chain_id = (case signing_bytes cr t chain_id of
      None \<Rightarrow> Err (TransactionError ''verify'')
    | Some m \<Rightarrow>
        and_then (to_verifying_key cr (tx_public_key t)) (\<lambda>pk.
        and_then (to_signature cr (tx_sig t)) (\<lambda>sig.
          if \<not> ed_verify cr pk m sig then Ok False
          else and_then (address_from_public_key (sha256 cr) pk) (\<lambda>derived.
            Ok (payload_sender (inner (tx_payload t)) = derived)))))"

section \<open>What the constructors guarantee\<close>

text \<open>Serde decodes each payload through its validating constructor (\<^verbatim>\<open>try_from\<close>), so a decoded
  payload is one the constructor returns on its own fields.\<close>

fun wf_payload :: "hex_lib \<Rightarrow> payload_inner \<Rightarrow> bool" where
  "wf_payload hx (Transfer t) =
     (transfer_tx_new (tr_sender t) (tr_recipient t) (tr_amount t) = Ok t)"
| "wf_payload hx (Unstake t) = (unstake_tx_new (un_sender t) (un_amount t) = Ok t)"
| "wf_payload hx (Stake t) = (stake_tx_new (st_sender t) (st_amount t) (st_public_key t) = Ok t)"
| "wf_payload hx (VerifiedProof t) =
     (verified_proof_tx_new (vp_sender t) (vp_capacity_provider t) (vp_challenge_id t)
        (vp_block_height t) (vp_verified_at_block t) (vp_verified_at_timestamp t) (vp_proofs t)
        (vp_generated_at t) (vp_provider_pubkey t) (vp_provider_signature t)
      = Ok (t\<lparr>vp_failed := False\<rparr>))"
| "wf_payload hx (RegisterCapacity t) =
     (register_capacity_tx_new (rc_sender t) (rc_capacity_bytes t) (rc_merkle_root t) (rc_seed t)
        (rc_chunk_count t) = Ok t)"
| "wf_payload hx (UnregisterCapacity t) =
     (unregister_capacity_tx_new (uc_sender t) (unregister t) = Ok t)"
| "wf_payload hx (UpdateCapacityMerkleRoot t) =
     (update_capacity_merkle_root_tx_new (um_sender t) (um_merkle_root t) = Ok t)"
| "wf_payload hx (PostMessage t) = (post_message_tx_new hx t = Ok t)"
| "wf_payload hx (AddNamespace t) =
     (add_namespace_tx_new (an_sender t) (an_namespace_slug t) (an_registration_fee t) = Ok t)"

lemma transfer_tx_new_Inr:
  "transfer_tx_new s r a = Inr t \<longleftrightarrow>
     s \<noteq> r \<and> a \<noteq> 0 \<and> a \<le> MAX_COIN \<and> t = \<lparr>tr_sender = s, tr_recipient = r, tr_amount = a\<rparr>"
  by (auto simp: transfer_tx_new_def result_simps coin_new_Inr split: if_splits)

lemma stake_tx_new_Inr:
  "stake_tx_new s a k = Inr t \<longleftrightarrow>
     a \<noteq> 0 \<and> a \<le> MAX_COIN \<and> (\<forall>x. k = Some x \<longrightarrow> length x = 64 \<and> list_all is_hex_digit x) \<and>
     t = \<lparr>st_sender = s, st_amount = a, st_public_key = k\<rparr>"
  by (auto simp: stake_tx_new_def stake_validate_public_key_def result_simps coin_new_Inr
      split: option.splits if_splits)

lemma unstake_tx_new_Inr:
  "unstake_tx_new s a = Inr t \<longleftrightarrow>
     a \<noteq> 0 \<and> a \<le> MAX_COIN \<and> t = \<lparr>un_sender = s, un_amount = a\<rparr>"
  by (auto simp: unstake_tx_new_def result_simps coin_new_Inr coin_max_def split: if_splits)

lemma strip_seqs_none:
  "(\<And>w. w \<in> set ws \<Longrightarrow> \<not> starts_with w s) \<Longrightarrow> strip_seqs n ws s = s"
  by (cases n) (auto split: option.splits simp: find_Some_iff)

lemma ws_seqs_ends:
  "list_all (\<lambda>w. list_all (\<lambda>c. \<not> (is_ascii_lowercase c \<or> is_ascii_digit c \<or> c = CHR ''-''))
     [hd w, last w]) ws_seqs"
  by code_simp

lemma not_starts_with_ws:
  assumes "w \<in> set ws_seqs" "c = last w \<or> c = hd w"
  shows "\<not> (is_ascii_lowercase c \<or> is_ascii_digit c \<or> c = CHR ''-'')"
  using assms ws_seqs_ends by (auto simp: list_all_iff)

lemma starts_with_hd: "starts_with w s \<Longrightarrow> w \<noteq> [] \<Longrightarrow> s \<noteq> [] \<and> hd s = hd w"
  by (cases w; cases s) (auto simp: starts_with_def)

lemma ws_seqs_not_Nil: "w \<in> set ws_seqs \<Longrightarrow> w \<noteq> []"
  by (auto simp: ws_seqs_def)

lemma trim_slug:
  assumes "list_all (\<lambda>c. is_ascii_lowercase c \<or> is_ascii_digit c \<or> c = CHR ''-'') s"
  shows "trim s = s"
proof -
  have P: "s \<noteq> [] \<Longrightarrow> is_ascii_lowercase (hd s) \<or> is_ascii_digit (hd s) \<or> hd s = CHR ''-''"
    "s \<noteq> [] \<Longrightarrow> is_ascii_lowercase (last s) \<or> is_ascii_digit (last s) \<or> last s = CHR ''-''"
    using assms by (auto simp: list_all_iff)
  have "trim_start s = s"
    unfolding trim_start_def
    by (rule strip_seqs_none) (metis P(1) not_starts_with_ws starts_with_hd ws_seqs_not_Nil)
  moreover have "\<not> starts_with (rev w) (rev s)" if "w \<in> set ws_seqs" for w
    using P(2) not_starts_with_ws [OF that, of "last w"] starts_with_hd [of "rev w" "rev s"]
      ws_seqs_not_Nil [OF that] by (auto simp: hd_rev)
  then have "strip_seqs (length s) (map rev ws_seqs) (rev s) = rev s"
    by (intro strip_seqs_none) auto
  ultimately show ?thesis by (simp add: trim_def trim_end_def)
qed

lemma lower_char_slug:
  "is_ascii_lowercase c \<or> is_ascii_digit c \<or> c = CHR ''-'' \<Longrightarrow> lower_char c = c"
  by (auto simp: is_ascii_lowercase_def is_ascii_digit_def lower_char_def Let_def)

lemma to_ascii_lowercase_slug:
  assumes "list_all (\<lambda>c. is_ascii_lowercase c \<or> is_ascii_digit c \<or> c = CHR ''-'') s"
  shows "to_ascii_lowercase s = s"
  unfolding to_ascii_lowercase_def
  by (rule map_idI) (use assms lower_char_slug in \<open>auto simp: list_all_iff\<close>)

lemma canonicalize_tag_idem:
  assumes "hex_documented hx" "canonicalize_tag hx t = Inr n"
  shows "canonicalize_tag hx n = Inr n"
proof (cases "address_parse hx t")
  case (Inl e)
  then show ?thesis using assms(2) by (auto simp: canonicalize_tag_def Let_def split: if_splits)
next
  case (Inr a)
  then have "n = hex_with_prefix hx a" "length n \<le> POST_MESSAGE_MAX_TAG_UTF8_BYTES"
    using assms(2) by (auto simp: canonicalize_tag_def Let_def split: if_splits)
  then show ?thesis
    using addr.parse_canonical [OF assms(1) Inr] Inr by (simp add: canonicalize_tag_def Let_def)
qed

lemma canonicalize_tags_loop_idem:
  assumes "hex_documented hx"
  shows "canonicalize_tags_loop hx ts = Inr ns \<Longrightarrow>
    length ns = length ts \<and> canonicalize_tags_loop hx ns = Inr ns"
  using canonicalize_tag_idem [OF assms]
  by (induction ts arbitrary: ns) (auto simp: result_simps)

lemma wf_payload_amount:
  "wf_payload hx p \<Longrightarrow> p = Transfer t \<or> p = Stake st \<or> p = Unstake un \<Longrightarrow>
     0 < unat (payload_amount p) \<and> unat (payload_amount p) \<le> 1000000000000000 \<and>
     (p = Transfer t \<longrightarrow> tr_sender t \<noteq> tr_recipient t)"
  by (auto simp: transfer_tx_new_Inr stake_tx_new_Inr unstake_tx_new_Inr word_le_nat_alt
      simp flip: unat_gt_0)

lemma canonicalize_tags_idem:
  assumes "hex_documented hx" "canonicalize_post_message_tags hx tags = Ok out"
  shows "canonicalize_post_message_tags hx out = Ok out \<and> length out = length tags"
  using assms canonicalize_tags_loop_idem [OF assms(1)]
  by (auto simp: canonicalize_post_message_tags_def split: if_splits)

lemma normalize_slug_idem:
  assumes "normalize_namespace_slug s = Ok c"
  shows "normalize_namespace_slug c = Ok c \<and> slug_to_namespace_cadopath hx c = slug_to_namespace_cadopath hx s"
proof -
  have v: "validate_namespace_slug c = Inr ()"
    using assms by (auto simp: normalize_namespace_slug_def Let_def result_simps)
  then have "list_all (\<lambda>c. is_ascii_lowercase c \<or> is_ascii_digit c \<or> c = CHR ''-'') c"
    by (auto simp: validate_namespace_slug_def split: if_splits)
  then have "normalize_namespace_slug c = Ok c"
    using v by (simp add: normalize_namespace_slug_def trim_slug to_ascii_lowercase_slug)
  then show ?thesis using assms by (simp add: slug_to_namespace_cadopath_def)
qed

lemma resolve_optional_namespace_idem:
  assumes "resolve_optional_namespace ns = Ok r"
  shows "resolve_optional_namespace r = Ok r"
proof (cases r)
  case (Some n)
  then have n: "validate_content_upload_namespace_slug n = Ok ()"
    using assms by (auto simp: resolve_optional_namespace_def Let_def result_simps split: option.splits if_splits)
  then have "list_all (\<lambda>c. is_ascii_lowercase c \<or> is_ascii_digit c \<or> c = CHR ''-'') n" "n \<noteq> []"
    by (auto simp: validate_content_upload_namespace_slug_def list_all_iff SLUG_MIN_LEN_def split: if_splits)
  then show ?thesis
    using n Some by (simp add: resolve_optional_namespace_def normalize_content_upload_namespace_def
        trim_slug to_ascii_lowercase_slug)
qed (simp add: resolve_optional_namespace_def)

lemma add_namespace_tx_new_idem:
  assumes "add_namespace_tx_new s slug fee = Ok t"
  shows "add_namespace_tx_new (an_sender t) (an_namespace_slug t) (an_registration_fee t) = Ok t"
  using assms normalize_slug_idem
  by (auto simp: add_namespace_tx_new_def result_simps split: if_splits)

lemma post_message_tx_new_idem:
  assumes "hex_documented hx" "post_message_tx_new hx u = Ok t"
  shows "post_message_tx_new hx t = Ok t"
  using assms(2) canonicalize_tags_idem [OF assms(1)] resolve_optional_namespace_idem
  by (auto simp: post_message_tx_new_def result_simps)

section \<open>Properties\<close>

text \<open>C18: a transaction that verifies was signed, over its own JSON without the signature followed
  by the chain id, with the key it carries, and its sender is the address of that key.\<close>

theorem tx_verify_sound:
  assumes "tx_verify cr t chain_id = Ok True"
  shows "\<exists>json pk sig. tx_to_json cr (t\<lparr>tx_sig := []\<rparr>) = Some json \<and>
    hex_decode (hex cr) (tx_public_key t) = Some pk \<and> length pk = 32 \<and>
    hex_decode (hex cr) (tx_sig t) = Some sig \<and>
    ed_verify cr pk (str_bytes json @ str_bytes chain_id) sig \<and>
    payload_sender (inner (tx_payload t)) = Address (take 20 (sha256 cr pk)) \<and>
    wf_address (payload_sender (inner (tx_payload t)))"
  using assms
  by (auto simp: tx_verify_def signing_bytes_def to_verifying_key_def to_signature_def result_simps
      address_from_public_key_def address_from_slice_def
      split: option.splits if_splits) (metis address.sel length_take)

definition demo_crates :: crates where
  "demo_crates = \<lparr>hex = std_hex, sha256 = (\<lambda>bs. take 32 (bs @ replicate 32 0)),
     ed_valid_key = (\<lambda>k. length k = 32), ed_verify = (\<lambda>k m s. s = take 64 (k @ m @ replicate 64 0)),
     tx_to_json = (\<lambda>t. Some (payload_type (tx_payload t)))\<rparr>"

definition demo_address :: "nat \<Rightarrow> address" where
  "demo_address n = Address (replicate 20 (of_nat n))"

definition demo_transfer :: tx where
  "demo_transfer = \<lparr>tx_sig = std_hex_encode (take 64 (replicate 32 1 @ str_bytes ''Transfer'' @ replicate 64 0)),
     tx_nonce = Nonce 1, tx_payload = payload_new (Transfer \<lparr>tr_sender = demo_address 1,
       tr_recipient = demo_address 2, tr_amount = 5\<rparr>),
     tx_public_key = std_hex_encode (replicate 32 1), tx_fee = 30000\<rparr>"

theorem tx_verify_sound_witness:
  "wf_address (payload_sender (inner (tx_payload demo_transfer)))"
proof -
  have "tx_verify demo_crates demo_transfer [] = Ok True" by code_simp
  from tx_verify_sound [OF this] show ?thesis by blast
qed

end
