(* ===== verification/Fees.thy ===== *)
theory Fees
  imports Tx
begin

text \<open>
  Dynamic fees (\<^verbatim>\<open>common/src/fee.rs\<close>) and the genesis protocol constants
  (\<^verbatim>\<open>common/src/protocol_constants.rs\<close>).  A binary64 value is a pair of a mantissa and an exponent
  of two; every arithmetic operation of the source is the exact operation followed by rounding to 53
  significant bits, ties to even, which is the hardware's result as long as the exponent stays in
  the normal range, as it does for the operands here.  Casts from \<^verbatim>\<open>f64\<close> to \<^verbatim>\<open>u128\<close> truncate and
  saturate.
\<close>

section \<open>Binary64 arithmetic\<close>

type_synonym f64 = "int \<times> int"

function bit_len :: "int \<Rightarrow> nat" where
  "bit_len n = (if n \<le> 0 then 0 else Suc (bit_len (n div 2)))"
  by auto
termination by (relation "measure nat") auto

declare bit_len.simps [simp del]

definition round_shift :: "int \<Rightarrow> nat \<Rightarrow> int" where
  "round_shift m s = (if s = 0 then m else
     (let q = m div 2 ^ s; r = m mod 2 ^ s; half = 2 ^ (s - 1) in
      if r < half then q else if r > half then q + 1 else if even q then q else q + 1))"

definition f64_round :: "int \<Rightarrow> int \<Rightarrow> f64" where
  "f64_round m e = (let s = bit_len \<bar>m\<bar> - 53 in
     (if m < 0 then - round_shift (- m) s else round_shift m s, e + int s))"

definition f64_of_int :: "int \<Rightarrow> f64" where "f64_of_int n = f64_round n 0"

definition f64_mul :: "f64 \<Rightarrow> f64 \<Rightarrow> f64" where
  "f64_mul a b = f64_round (fst a * fst b) (snd a + snd b)"

definition f64_sub :: "f64 \<Rightarrow> f64 \<Rightarrow> f64" where
  "f64_sub a b = (let e = min (snd a) (snd b) in
     f64_round (fst a * 2 ^ nat (snd a - e) - fst b * 2 ^ nat (snd b - e)) e)"

text \<open>Quotient of two positive integers: 64 extra bits and a sticky bit decide the rounding.\<close>

definition f64_div_ints :: "int \<Rightarrow> int \<Rightarrow> f64" where
  "f64_div_ints n d = (let k = 64 + bit_len d; x = n * 2 ^ k in
     f64_round (2 * (x div d) + (if x mod d = 0 then 0 else 1)) (- int k - 1))"

definition f64_nonpos :: "f64 \<Rightarrow> bool" where "f64_nonpos a = (fst a \<le> 0)"

definition f64_as_u128 :: "f64 \<Rightarrow> u128" where
  "f64_as_u128 a = (if fst a \<le> 0 then 0 else
     (let v = (if 0 \<le> snd a then fst a * 2 ^ nat (snd a) else fst a div 2 ^ nat (- snd a)) in
      if v \<ge> 2 ^ 128 then - 1 else word_of_int v))"

section \<open>Fee configuration\<close>

record fee_config =
  base_fee :: u128
  size_fee_per_kb :: u128
  gas_price :: u128
  transfer_multiplier :: f64
  stake_multiplier :: f64
  content_manifest_multiplier :: f64
  verified_proof_multiplier :: f64
  device_operation_multiplier :: f64

definition fee_config_default :: fee_config where
  "fee_config_default = \<lparr>base_fee = 1000, size_fee_per_kb = 100, gas_price = 1,
     transfer_multiplier = f64_div_ints 1 1, stake_multiplier = f64_div_ints 15 10,
     content_manifest_multiplier = f64_div_ints 25 10, verified_proof_multiplier = f64_div_ints 2 1,
     device_operation_multiplier = f64_div_ints 18 10\<rparr>"

definition fee_config_validate :: "fee_config \<Rightarrow> unit res" where
  "fee_config_validate c =
    (if base_fee c = 0 then Err (ValidationError ''base_fee'')
     else if size_fee_per_kb c = 0 then Err (ValidationError ''size_fee_per_kb'')
     else if gas_price c = 0 then Err (ValidationError ''gas_price'')
     else if f64_nonpos (transfer_multiplier c) then Err (ValidationError ''transfer_multiplier'')
     else if f64_nonpos (stake_multiplier c) then Err (ValidationError ''stake_multiplier'')
     else if f64_nonpos (content_manifest_multiplier c) then Err (ValidationError ''content_manifest_multiplier'')
     else if f64_nonpos (verified_proof_multiplier c) then Err (ValidationError ''verified_proof_multiplier'')
     else if f64_nonpos (device_operation_multiplier c) then Err (ValidationError ''device_operation_multiplier'')
     else Ok ())"

definition MAX_TRANSACTION_SIZE_BYTES :: u64 where "MAX_TRANSACTION_SIZE_BYTES = 10 * 1024 * 1024"
definition MAX_GAS_USAGE :: u64 where "MAX_GAS_USAGE = 110000000"
definition MAX_FEE :: u128 where "MAX_FEE = (- 1) div 4"

section \<open>Fee calculation\<close>

definition estimate_transaction_size :: "('e) crates_scheme \<Rightarrow> tx \<Rightarrow> u64 res" where
  "estimate_transaction_size cr t = (case tx_to_json cr t of
      None \<Rightarrow> Err (FeeError ''size_estimation'')
    | Some json \<Rightarrow> (let sz = (of_nat (length json) :: u64) in
        if sz > MAX_TRANSACTION_SIZE_BYTES then Err (FeeError ''size_validation'')
        else if sz = 0 then Ok 1024 else Ok sz))"

definition calculate_size_fee :: "u64 \<Rightarrow> u128 \<Rightarrow> u128 res" where
  "calculate_size_fee sz per_kb =
     (let kb = (ucast (if sz mod 1024 = 0 then sz div 1024 else sz div 1024 + 1) :: u128) in
      ok_or (FeeError ''size_fee_calculation'') (checked_mul kb per_kb))"

definition calculate_complexity_fee :: "u128 \<Rightarrow> f64 \<Rightarrow> u128 res" where
  "calculate_complexity_fee base m =
    (if f64_nonpos m then Err (FeeError ''complexity_multiplier'')
     else (let total =
        (if base \<le> 2 ^ 64 - 1 then f64_as_u128 (f64_mul (f64_of_int (uint base)) m)
         else base + f64_as_u128 (f64_mul (f64_of_int (uint base)) (f64_sub m (1, 0)))) in
      ok_or (FeeError ''complexity_fee_calculation'') (checked_sub total base)))"

definition calculate_gas_fee :: "u64 \<Rightarrow> u128 \<Rightarrow> u128 res" where
  "calculate_gas_fee gas price =
    (if gas > MAX_GAS_USAGE then Err (FeeError ''gas_validation'')
     else ok_or (FeeError ''gas_fee_calculation'') (checked_mul (ucast gas) price))"

fun get_complexity_multiplier :: "payload_inner \<Rightarrow> fee_config \<Rightarrow> f64" where
  "get_complexity_multiplier (Transfer _) c = transfer_multiplier c"
| "get_complexity_multiplier (Stake _) c = stake_multiplier c"
| "get_complexity_multiplier (Unstake _) c = stake_multiplier c"
| "get_complexity_multiplier (RegisterCapacity _) c = device_operation_multiplier c"
| "get_complexity_multiplier (UnregisterCapacity _) c = device_operation_multiplier c"
| "get_complexity_multiplier (UpdateCapacityMerkleRoot _) c = device_operation_multiplier c"
| "get_complexity_multiplier (VerifiedProof _) c = verified_proof_multiplier c"
| "get_complexity_multiplier (PostMessage _) c = content_manifest_multiplier c"
| "get_complexity_multiplier (AddNamespace _) c = transfer_multiplier c"

fun gas_table :: "payload_inner \<Rightarrow> u64" where
  "gas_table (Transfer _) = 21000"
| "gas_table (Stake _) = 50000"
| "gas_table (Unstake _) = 50000"
| "gas_table (PostMessage _) = 120000"
| "gas_table (VerifiedProof _) = 50000"
| "gas_table (RegisterCapacity _) = 60000"
| "gas_table (UnregisterCapacity _) = 40000"
| "gas_table (UpdateCapacityMerkleRoot _) = 40000"
| "gas_table (AddNamespace _) = 40000"

definition estimate_gas_usage :: "payload_inner \<Rightarrow> u64 res" where
  "estimate_gas_usage p =
     (if gas_table p > MAX_GAS_USAGE then Err (FeeError ''gas_estimation'') else Ok (gas_table p))"

definition calculate_dynamic_fee :: "('e) crates_scheme \<Rightarrow> tx \<Rightarrow> fee_config \<Rightarrow> coin res" where
  "calculate_dynamic_fee cr t c =
     and_then (estimate_transaction_size cr t) (\<lambda>sz.
     and_then (calculate_size_fee sz (size_fee_per_kb c)) (\<lambda>size_fee.
     and_then (calculate_complexity_fee (base_fee c)
                 (get_complexity_multiplier (inner (tx_payload t)) c)) (\<lambda>complexity_fee.
     and_then (estimate_gas_usage (inner (tx_payload t))) (\<lambda>gas.
     and_then (calculate_gas_fee gas (gas_price c)) (\<lambda>gas_fee.
     and_then (ok_or (FeeError ''fee_calculation'') (checked_add (base_fee c) size_fee)) (\<lambda>s1.
     and_then (ok_or (FeeError ''fee_calculation'') (checked_add s1 complexity_fee)) (\<lambda>s2.
     and_then (ok_or (FeeError ''fee_calculation'') (checked_add s2 gas_fee)) (\<lambda>total_fee.
       if total_fee > MAX_FEE then Err (FeeError ''fee_validation'')
       else coin_new total_fee))))))))"

section \<open>Protocol constants\<close>

record protocol_fees =
  pf_base_fee :: coin
  pf_size_fee_per_kb :: coin
  pf_gas_price :: coin
  transfer_multiplier_bps :: u32
  stake_multiplier_bps :: u32
  content_manifest_multiplier_bps :: u32
  verified_proof_multiplier_bps :: u32
  device_operation_multiplier_bps :: u32

definition bps_to_multiplier :: "u32 \<Rightarrow> f64" where
  "bps_to_multiplier bps = f64_div_ints (uint bps) 10000"

definition to_fee_config :: "protocol_fees \<Rightarrow> fee_config" where
  "to_fee_config f = \<lparr>base_fee = amount (pf_base_fee f), size_fee_per_kb = amount (pf_size_fee_per_kb f),
     gas_price = amount (pf_gas_price f),
     transfer_multiplier = bps_to_multiplier (transfer_multiplier_bps f),
     stake_multiplier = bps_to_multiplier (stake_multiplier_bps f),
     content_manifest_multiplier = bps_to_multiplier (content_manifest_multiplier_bps f),
     verified_proof_multiplier = bps_to_multiplier (verified_proof_multiplier_bps f),
     device_operation_multiplier = bps_to_multiplier (device_operation_multiplier_bps f)\<rparr>"

record protocol_constants =
  params_version :: u32
  min_stake_amount :: coin
  validators_per_epoch :: nat
  blocks_per_epoch :: int
  active_storage_validators_per_epoch :: nat
  challenges_per_epoch :: nat
  chunks_per_challenge :: nat
  registration_duration_blocks :: u64
  verified_proof_reward_base_amount :: coin
  failed_proofs_before_slash :: u32
  default_pinboard_post_ttl_blocks :: u64
  max_pinboard_message_bytes :: u64
  max_tx_bytes :: u64
  pc_fees :: protocol_fees

definition PARAMS_VERSION :: u32 where "PARAMS_VERSION = 1"

definition local_dev :: protocol_constants where
  "local_dev = \<lparr>params_version = PARAMS_VERSION, min_stake_amount = Coin 5, validators_per_epoch = 4,
     blocks_per_epoch = 20, active_storage_validators_per_epoch = 1, challenges_per_epoch = 5,
     chunks_per_challenge = 10, registration_duration_blocks = 1000000,
     verified_proof_reward_base_amount = Coin 1000, failed_proofs_before_slash = 3,
     default_pinboard_post_ttl_blocks = 1000, max_pinboard_message_bytes = 1024 * 1024,
     max_tx_bytes = 10 * 1024 * 1024,
     pc_fees = \<lparr>pf_base_fee = Coin 1000, pf_size_fee_per_kb = Coin 100, pf_gas_price = Coin 1,
       transfer_multiplier_bps = 10000, stake_multiplier_bps = 15000,
       content_manifest_multiplier_bps = 25000, verified_proof_multiplier_bps = 20000,
       device_operation_multiplier_bps = 18000\<rparr>\<rparr>"

definition pc_fee_config :: "protocol_constants \<Rightarrow> fee_config" where
  "pc_fee_config pc = to_fee_config (pc_fees pc)"

definition require_positive_u128 :: "string \<Rightarrow> u128 \<Rightarrow> unit res" where
  "require_positive_u128 field v = (if v = 0 then Err (ValidationError field) else Ok ())"

definition require_positive_usize :: "string \<Rightarrow> nat \<Rightarrow> unit res" where
  "require_positive_usize field v = (if v = 0 then Err (ValidationError field) else Ok ())"

definition require_positive_bytes :: "string \<Rightarrow> u64 \<Rightarrow> unit res" where
  "require_positive_bytes field v = (if v = 0 then Err (ValidationError field) else Ok ())"

definition protocol_constants_validate :: "protocol_constants \<Rightarrow> unit res" where
  "protocol_constants_validate pc =
    (if params_version pc \<noteq> PARAMS_VERSION then Err (ValidationError ''params_version'')
     else
      and_then (require_positive_u128 ''min_stake_amount'' (amount (min_stake_amount pc))) (\<lambda>_.
      and_then (require_positive_usize ''validators_per_epoch'' (validators_per_epoch pc)) (\<lambda>_.
      and_then (ensure (0 < blocks_per_epoch pc) (ValidationError ''blocks_per_epoch'')) (\<lambda>_.
      and_then (require_positive_usize ''active_storage_validators_per_epoch''
                  (active_storage_validators_per_epoch pc)) (\<lambda>_.
      and_then (require_positive_usize ''challenges_per_epoch'' (challenges_per_epoch pc)) (\<lambda>_.
      and_then (require_positive_usize ''chunks_per_challenge'' (chunks_per_challenge pc)) (\<lambda>_.
      and_then (ensure (registration_duration_blocks pc \<noteq> 0)
                  (ValidationError ''registration_duration_blocks'')) (\<lambda>_.
      and_then (require_positive_u128 ''verified_proof_reward_base_amount''
                  (amount (verified_proof_reward_base_amount pc))) (\<lambda>_.
      and_then (ensure (failed_proofs_before_slash pc \<noteq> 0)
                  (ValidationError ''failed_proofs_before_slash'')) (\<lambda>_.
      and_then (ensure (default_pinboard_post_ttl_blocks pc \<noteq> 0)
                  (ValidationError ''default_pinboard_post_ttl_blocks'')) (\<lambda>_.
      and_then (require_positive_bytes ''max_pinboard_message_bytes'' (max_pinboard_message_bytes pc)) (\<lambda>_.
      and_then (require_positive_bytes ''max_tx_bytes'' (max_tx_bytes pc)) (\<lambda>_.
        fee_config_validate (pc_fee_config pc))))))))))))))"

text \<open>\<^verbatim>\<open>from_app_state_bytes\<close>: the JSON parser is the argument \<open>parse_genesis\<close>.\<close>

definition from_app_state_bytes ::
    "(bytes \<Rightarrow> protocol_constants option) \<Rightarrow> bytes \<Rightarrow> protocol_constants res" where
  "from_app_state_bytes parse_genesis bs =
    (if bs = [] then Err (InitializationError ''protocol_constants'')
     else and_then (ok_or (InitializationError ''protocol_constants'') (parse_genesis bs)) (\<lambda>pc.
       and_then (protocol_constants_validate pc) (\<lambda>_. Ok pc)))"

text \<open>\<^verbatim>\<open>ProtocolHandle\<close>: a cell that is written once; a second write returns the rejected value.\<close>

definition protocol_handle_set ::
    "protocol_constants option \<Rightarrow> protocol_constants \<Rightarrow>
     (protocol_constants + unit) \<times> protocol_constants option" where
  "protocol_handle_set h pc = (case h of None \<Rightarrow> (Ok (), Some pc) | Some old \<Rightarrow> (Err pc, Some old))"

section \<open>Lemmas\<close>

lemma estimate_transaction_size_small:
  assumes "tx_to_json cr t = Some json" "0 < length json" "length json \<le> 10485760"
  shows "\<exists>sz. estimate_transaction_size cr t = Inr sz \<and> unat sz = length json"
proof -
  have "unat (of_nat (length json) :: u64) = length json"
    using assms(3) by (simp add: unat_of_nat_small)
  then show ?thesis
    using assms by (auto simp: estimate_transaction_size_def MAX_TRANSACTION_SIZE_BYTES_def Let_def
        word_less_nat_alt simp flip: unat_gt_0)
qed

lemma unat_div_ceil:
  fixes sz :: u64
  shows "unat (if sz mod 1024 = 0 then sz div 1024 else sz div 1024 + 1) = (unat sz + 1023) div 1024"
proof -
  have lt: "unat (sz div 1024) < 2 ^ 54"
    using unsigned_less [of sz, where ?'a = nat] by (simp add: unat_div)
  then have "unat (sz div 1024 + 1) = unat (sz div 1024) + 1"
    using unat_add_lem [of "sz div 1024" 1] by simp
  moreover have "sz mod 1024 = 0 \<longleftrightarrow> unat sz mod 1024 = 0"
    using unat_eq_zero [of "sz mod 1024"] by (simp add: unat_mod)
  ultimately show ?thesis
    by (simp add: unat_div nat_div_ceil_1024)
qed

lemma calculate_size_fee_Inr:
  "calculate_size_fee sz per_kb = Inr f \<Longrightarrow> unat f = (unat sz + 1023) div 1024 * unat per_kb"
  by (auto simp: calculate_size_fee_def Let_def result_simps word_facts unat_div_ceil [symmetric]
      unat_ucast_up simp del: One_nat_def)

lemma calculate_size_fee_small:
  assumes "unat sz \<le> 10485760" "unat per_kb \<le> 1000000000000000"
  shows "\<exists>f. calculate_size_fee sz per_kb = Inr f"
proof -
  let ?kb = "ucast (if sz mod 1024 = 0 then sz div 1024 else sz div 1024 + 1) :: u128"
  have "unat ?kb = (unat sz + 1023) div 1024"
    by (simp add: unat_ucast_up unat_div_ceil)
  then have "unat ?kb * unat per_kb \<le> 10241 * 1000000000000000"
    using assms by (intro mult_le_mono) auto
  then show ?thesis
    by (auto simp: calculate_size_fee_def Let_def checked_mul_unat)
qed

lemma gas_table_bound: "gas_table p \<le> MAX_GAS_USAGE"
  by (cases p) (simp_all add: MAX_GAS_USAGE_def)

lemma estimate_gas_usage_eq [simp]: "estimate_gas_usage p = Inr (gas_table p)"
  using gas_table_bound [of p] by (simp add: estimate_gas_usage_def not_less [symmetric])

lemma calculate_gas_fee_Inr:
  "calculate_gas_fee g price = Inr f \<Longrightarrow> unat f = unat g * unat price"
  by (auto simp: calculate_gas_fee_def result_simps word_facts unat_ucast_up split: if_splits)

text \<open>The total is the exact sum of its four parts.\<close>

lemma calculate_dynamic_fee_parts:
  assumes "calculate_dynamic_fee cr t c = Inr f"
  obtains sz cf where "estimate_transaction_size cr t = Inr sz"
    and "calculate_complexity_fee (base_fee c) (get_complexity_multiplier (inner (tx_payload t)) c) = Inr cf"
    and "coins f = unat (base_fee c) + (unat sz + 1023) div 1024 * unat (size_fee_per_kb c) + unat cf
           + unat (gas_table (inner (tx_payload t))) * unat (gas_price c)"
    and "coin_ok f"
proof -
  from assms obtain sz sf cf gf s1 s2 s3 where
    "estimate_transaction_size cr t = Inr sz"
    "calculate_size_fee sz (size_fee_per_kb c) = Inr sf"
    "calculate_complexity_fee (base_fee c) (get_complexity_multiplier (inner (tx_payload t)) c) = Inr cf"
    "calculate_gas_fee (gas_table (inner (tx_payload t))) (gas_price c) = Inr gf"
    "checked_add (base_fee c) sf = Some s1" "checked_add s1 cf = Some s2" "checked_add s2 gf = Some s3"
    "coin_new s3 = Inr f"
    by (auto simp: calculate_dynamic_fee_def result_simps split: if_splits)
  moreover from this have "coins f = unat s3" "coin_ok f"
    by (auto simp: coin_new_Inr coin_ok_def)
  ultimately show ?thesis
    using that [of sz cf] calculate_size_fee_Inr calculate_gas_fee_Inr
    by (auto simp: word_facts)
qed

lemma calculate_dynamic_fee_complexity_error:
  assumes "calculate_complexity_fee (base_fee c) (get_complexity_multiplier (inner (tx_payload t)) c) = Inl e"
  shows "\<exists>e'. calculate_dynamic_fee cr t c = Inl e'"
proof (cases "calculate_dynamic_fee cr t c")
  case (Inr f)
  then show ?thesis by (rule calculate_dynamic_fee_parts) (simp add: assms)
qed simp

lemma local_dev_config:
  "pc_fee_config local_dev = \<lparr>base_fee = 1000, size_fee_per_kb = 100, gas_price = 1,
     transfer_multiplier = f64_div_ints 10000 10000, stake_multiplier = f64_div_ints 15000 10000,
     content_manifest_multiplier = f64_div_ints 25000 10000,
     verified_proof_multiplier = f64_div_ints 20000 10000,
     device_operation_multiplier = f64_div_ints 18000 10000\<rparr>"
  by (simp add: pc_fee_config_def local_dev_def to_fee_config_def bps_to_multiplier_def)

fun complexity_surcharge :: "payload_inner \<Rightarrow> nat" where
  "complexity_surcharge (Transfer _) = 0"
| "complexity_surcharge (AddNamespace _) = 0"
| "complexity_surcharge (Stake _) = 500"
| "complexity_surcharge (Unstake _) = 500"
| "complexity_surcharge (VerifiedProof _) = 1000"
| "complexity_surcharge (PostMessage _) = 1500"
| "complexity_surcharge _ = 800"

lemma local_dev_complexity_values:
  "calculate_complexity_fee 1000 (f64_div_ints 10000 10000) = Inr 0"
  "calculate_complexity_fee 1000 (f64_div_ints 15000 10000) = Inr 500"
  "calculate_complexity_fee 1000 (f64_div_ints 25000 10000) = Inr 1500"
  "calculate_complexity_fee 1000 (f64_div_ints 20000 10000) = Inr 1000"
  "calculate_complexity_fee 1000 (f64_div_ints 18000 10000) = Inr 800"
  by code_simp+

lemma local_dev_complexity:
  "calculate_complexity_fee 1000 (get_complexity_multiplier p (pc_fee_config local_dev))
     = Inr (of_nat (complexity_surcharge p))"
  by (cases p) (simp_all add: local_dev_config local_dev_complexity_values)

section \<open>Properties\<close>

text \<open>the fee a transaction must pay is exactly the base fee, plus the size in kibibytes rounded up
  times the size fee, plus the complexity part, plus gas times gas price: no part is lost to
  overflow, and the result is within the coin bound and never below the base fee plus gas.\<close>

lemma dynamic_fee_exact:
  assumes "calculate_dynamic_fee cr t c = Ok f"
  shows "\<exists>sz cf. estimate_transaction_size cr t = Ok sz \<and>
    calculate_complexity_fee (base_fee c) (get_complexity_multiplier (inner (tx_payload t)) c) = Ok cf \<and>
    coins f = unat (base_fee c) + (unat sz + 1023) div 1024 * unat (size_fee_per_kb c) + unat cf
      + unat (gas_table (inner (tx_payload t))) * unat (gas_price c) \<and> coin_ok f"
  using calculate_dynamic_fee_parts [OF assms] by metis

theorem dynamic_fee_exact_witness:
  "coin_ok (Coin 22100)"
proof -
  have "calculate_dynamic_fee demo_crates demo_transfer fee_config_default = Ok (Coin 22100)"
    by code_simp
  from dynamic_fee_exact [OF this] show ?thesis by blast
qed

text \<open>Under the local-dev constants every transaction of at most ten mebibytes has a fee, and it is
  1000 plus 100 per started kibibyte plus the surcharge and the gas of its kind.\<close>

lemma local_dev_fee_table:
  assumes "tx_to_json cr t = Some json" "0 < length json" "length json \<le> 10485760"
  shows "\<exists>f. calculate_dynamic_fee cr t (pc_fee_config local_dev) = Ok f \<and>
    coins f = 1000 + 100 * ((length json + 1023) div 1024)
      + complexity_surcharge (inner (tx_payload t)) + unat (gas_table (inner (tx_payload t)))"
proof -
  let ?p = "inner (tx_payload t)" and ?c = "pc_fee_config local_dev"
  obtain sz where sz: "estimate_transaction_size cr t = Inr sz" "unat sz = length json"
    using estimate_transaction_size_small [OF assms] by blast
  obtain sf where sf: "calculate_size_fee sz 100 = Inr sf"
    using calculate_size_fee_small [of sz 100] sz assms(3) by auto
  have usf: "unat sf = (length json + 1023) div 1024 * 100"
    using calculate_size_fee_Inr [OF sf] sz by simp
  have gas: "unat (gas_table ?p) \<le> 120000" "complexity_surcharge ?p \<le> 1500"
    by (cases ?p; simp)+
  have ucf: "unat (of_nat (complexity_surcharge ?p) :: u128) = complexity_surcharge ?p"
    using gas by (simp add: unat_of_nat_small)
  obtain gf where gf: "calculate_gas_fee (gas_table ?p) 1 = Inr gf" "unat gf = unat (gas_table ?p)"
    using gas gas_table_bound [of ?p]
    by (auto simp: calculate_gas_fee_def checked_mul_unat unat_ucast_up not_less [symmetric])
  let ?n = "1000 + unat sf + complexity_surcharge ?p + unat gf"
  have small: "?n \<le> 3000000"
    using usf gas gf assms(3) by simp
  obtain s1 s2 s3 where s: "checked_add 1000 sf = Some s1"
      "checked_add s1 (of_nat (complexity_surcharge ?p)) = Some s2" "checked_add s2 gf = Some s3"
    and us: "unat s3 = ?n"
    using small ucf checked_add_small3 [of 1000 sf "of_nat (complexity_surcharge ?p)" gf] by auto
  have le: "s3 \<le> MAX_COIN" "\<not> s3 > MAX_FEE"
    using us small by (simp_all add: word_le_nat_alt word_less_nat_alt MAX_FEE_def)
  have "calculate_dynamic_fee cr t ?c = Inr (Coin s3)"
    using sz sf gf s le
    by (simp add: calculate_dynamic_fee_def local_dev_complexity [unfolded local_dev_config, simplified]
        local_dev_config coin_new_def not_less)
  then show ?thesis using us usf gf by auto
qed

text \<open>A fee configuration whose transfer multiplier lies strictly between zero and one passes
  validation, and then no transfer at all has a fee: the complexity part underflows.\<close>

lemma sub_unit_multiplier_blocks_transfers:
  "\<exists>c. fee_config_validate c = Ok () \<and> f64_nonpos (transfer_multiplier c) = False \<and>
     (\<forall>cr :: crates. \<forall>t tr. \<exists>e.
        calculate_dynamic_fee cr (t\<lparr>tx_payload := payload_new (Transfer tr)\<rparr>) c = Err e)"
proof -
  let ?c = "fee_config_default\<lparr>transfer_multiplier := f64_div_ints 5000 10000\<rparr>"
  have base: "base_fee ?c = 1000" "transfer_multiplier ?c = f64_div_ints 5000 10000"
    by (simp_all add: fee_config_default_def)
  have bad: "calculate_complexity_fee 1000 (f64_div_ints 5000 10000)
      = Inl (FeeError ''complexity_fee_calculation'')"
    by code_simp
  have "\<exists>e. calculate_dynamic_fee cr (t\<lparr>tx_payload := payload_new (Transfer tr)\<rparr>) ?c = Inl e"
    for cr :: crates and t tr
    by (rule calculate_dynamic_fee_complexity_error) (simp add: payload_new_def base bad)
  moreover have "fee_config_validate ?c = Inr ()" "f64_nonpos (transfer_multiplier ?c) = False"
    by code_simp+
  ultimately show ?thesis by metis
qed

end
