(* ===== verification/App_State.thy ===== *)
theory App_State
  imports Fees
begin

text \<open>
  The in-memory application state (\<^verbatim>\<open>node_app/src/app_state\<close>): the envelope with its staged and
  committed object caches, the layered lookup (staged, then committed, then database), the account
  accessors, the namespace registry and the application hash.  What the state needs of the storage
  layer is the record \<open>store_view\<close>, the read side of the trait
  \<^verbatim>\<open>ConsensusConnectionStorage\<close>.  Two locales state the contracts the transaction handlers use:
  \<open>working_set\<close> (read your own writes) and \<open>ledger\<close> (balances and stakes of separate addresses
  do not interfere); both are interpreted on the definitions below.
\<close>

section \<open>Crates and storage interface\<close>

text \<open>\<^verbatim>\<open>bincode\<close> encoders and decoders for the stored types, the root of the Merkle Patricia trie of
  a set of entries (\<^verbatim>\<open>trie-db\<close>), and the byte stream of \<^verbatim>\<open>std::hash::Hash\<close> over the hashed fields.\<close>

record app_hash_view =
  ah_block_height :: int
  ah_current_epoch :: int
  ah_trie_root :: bytes
  ah_validators :: "validator_info list"
  ah_active_validators :: "validator_info list"
  ah_capacity_validators :: "capacity_validator_info list"
  ah_active_capacity_validator :: "active_capacity_validator option"
  ah_failed_proof_counts :: "(address \<times> u32) list"

record node_crates = crates +
  enc_account :: "account \<Rightarrow> bytes option"
  dec_account :: "bytes \<Rightarrow> account option"
  enc_staking :: "staking_account \<Rightarrow> bytes option"
  dec_staking :: "bytes \<Rightarrow> staking_account option"
  enc_epoch :: "epoch_record \<Rightarrow> bytes option"
  dec_epoch :: "bytes \<Rightarrow> epoch_record option"
  enc_namespace :: "namespace_record \<Rightarrow> bytes option"
  dec_namespace :: "bytes \<Rightarrow> namespace_record option"
  trie_root :: "(string \<times> bytes) list \<Rightarrow> bytes"
  hash_stream :: "app_hash_view \<Rightarrow> bytes"

record store_view =
  sv_get_cado :: "cado_path \<Rightarrow> cado_body option res"
  sv_proof_rewarded :: "string \<Rightarrow> bool res"
  sv_proof_failed :: "string \<Rightarrow> bool res"
  sv_temp_blob :: "string \<Rightarrow> bytes option res"

section \<open>Envelope\<close>

record pinboard_metadata =
  pb_message_id :: string
  pb_original_signer :: address
  pb_content_key :: string
  pb_content_type :: string
  pb_expires_height :: u64
  pb_visibility :: string
  pb_topic :: "string option"
  pb_tags :: "string list"
  pb_committed_height :: u64
  pb_received_timestamp :: u64
  pb_namespace :: "string option"

record envelope =
  cado_cache :: "(string \<times> cado_body) list"
  cado_cache_to_delete :: "cado_marked_for_deletion list"
  pinboard_meta_cache :: "(string \<times> pinboard_metadata) list"
  pinboard_refcount_deltas :: "(string \<times> int) list"
  pinboard_idx_wallet_add :: "(string \<times> u64 \<times> string) list"
  pinboard_idx_tag_add :: "(string \<times> u64 \<times> string) list"
  pinboard_idx_expiry_add :: "(u64 \<times> string) list"
  pinboard_idx_commit_add :: "(u64 \<times> string) list"
  verified_proof_rewarded_cache :: "string list"
  failed_proof_counted_cache :: "string list"
  namespace_registry_cache :: "(string \<times> namespace_record) list"
  namespace_registry_index :: "(string \<times> namespace_record) list"
  pending_fee_rewards :: coin
  block_height :: int
  current_epoch :: int
  committed_cado_cache :: "(string \<times> cado_body) list"
  epoch_records_index :: "int list"
  state_trie :: "(string \<times> bytes) list"
  validators :: "validator_info list"
  active_validators :: "validator_info list"
  capacity_validators :: "capacity_validator_info list"
  active_capacity_validator :: "active_capacity_validator option"
  failed_proof_counts :: "(address \<times> u32) list"

record app_state =
  app_hash :: "bytes option"
  app_envelope :: envelope
  chain_id :: string

section \<open>Lookup and staging\<close>

definition update_cado_cache :: "envelope \<Rightarrow> cado_path \<Rightarrow> cado_body \<Rightarrow> envelope" where
  "update_cado_cache e p b =
     (if path_is_infrastructure p then e else e\<lparr>cado_cache := bt_insert (path_str p) b (cado_cache e)\<rparr>)"

definition has_cado_in_working_set :: "envelope \<Rightarrow> cado_path \<Rightarrow> bool" where
  "has_cado_in_working_set e p =
     (map_of (cado_cache e) (path_str p) \<noteq> None \<or> map_of (committed_cado_cache e) (path_str p) \<noteq> None)"

definition lookup_cado :: "store_view \<Rightarrow> envelope \<Rightarrow> cado_path \<Rightarrow> cado_body option" where
  "lookup_cado st e p = (case map_of (cado_cache e) (path_str p) of
      Some b \<Rightarrow> Some b
    | None \<Rightarrow> (case map_of (committed_cado_cache e) (path_str p) of
        Some b \<Rightarrow> Some b
      | None \<Rightarrow> (case sv_get_cado st p of Inr r \<Rightarrow> r | Inl _ \<Rightarrow> None)))"

definition safe_bincode_deserialize :: "(bytes \<Rightarrow> 'a option) \<Rightarrow> bytes \<Rightarrow> int \<Rightarrow> 'a res" where
  "safe_bincode_deserialize dec data max_size =
    (if data = [] then Err (ValidationError ''data'')
     else if int (length data) > max_size then Err (ValidationError ''data size'')
     else (case dec data of None \<Rightarrow> Err (ValidationError ''deserialization'') | Some x \<Rightarrow> Ok x))"

definition safe_deserialize_account_data :: "(bytes \<Rightarrow> 'a option) \<Rightarrow> bytes \<Rightarrow> 'a res" where
  "safe_deserialize_account_data dec data = safe_bincode_deserialize dec data 10240"

definition safe_deserialize_cado_data :: "(bytes \<Rightarrow> 'a option) \<Rightarrow> bytes \<Rightarrow> 'a res" where
  "safe_deserialize_cado_data dec data = safe_bincode_deserialize dec data 1048576"

definition get_cado_instance ::
    "store_view \<Rightarrow> envelope \<Rightarrow> (bytes \<Rightarrow> 'a option) \<Rightarrow> cado_path \<Rightarrow> ('a \<times> bytes) option" where
  "get_cado_instance st e dec p = (case lookup_cado st e p of
      None \<Rightarrow> None
    | Some b \<Rightarrow> (case safe_deserialize_cado_data dec (body_data b) of
        Inr x \<Rightarrow> Some (x, body_hash b) | Inl _ \<Rightarrow> None))"

definition get_staking_account_from_cado ::
    "node_crates \<Rightarrow> store_view \<Rightarrow> envelope \<Rightarrow> cado_path \<Rightarrow> (staking_account \<times> bytes) option" where
  "get_staking_account_from_cado cr st e p = (case lookup_cado st e p of
      Some (Mutable h d m l) \<Rightarrow>
        (case safe_deserialize_account_data (dec_staking cr) d of Inr a \<Rightarrow> Some (a, h) | Inl _ \<Rightarrow> None)
    | _ \<Rightarrow> None)"

definition get_account_from_cado ::
    "node_crates \<Rightarrow> store_view \<Rightarrow> envelope \<Rightarrow> cado_path \<Rightarrow> (account \<times> bytes) option" where
  "get_account_from_cado cr st e p = (case lookup_cado st e p of
      Some (Mutable h d m l) \<Rightarrow>
        (case safe_deserialize_account_data (dec_account cr) d of Inr a \<Rightarrow> Some (a, h) | Inl _ \<Rightarrow> None)
    | _ \<Rightarrow> None)"

definition get_epoch_record ::
    "node_crates \<Rightarrow> store_view \<Rightarrow> envelope \<Rightarrow> int \<Rightarrow> epoch_record option res" where
  "get_epoch_record cr st e epoch =
     and_then (epoch_record_path_name epoch) (\<lambda>key.
     and_then (cado_path_new (hex cr) EpochRecordType (KeyName key)) (\<lambda>p.
       case lookup_cado st e p of
         None \<Rightarrow> Ok None
       | Some b \<Rightarrow> (case dec_epoch cr (body_data b) of
             None \<Rightarrow> Err (StorageError ''deserialize_epoch_record'') | Some r \<Rightarrow> Ok (Some r))))"

definition is_verified_proof_challenge_rewarded :: "store_view \<Rightarrow> envelope \<Rightarrow> string \<Rightarrow> bool res" where
  "is_verified_proof_challenge_rewarded st e cid =
     (if cid \<in> set (verified_proof_rewarded_cache e) then Ok True else sv_proof_rewarded st cid)"

definition is_verified_proof_challenge_failed :: "store_view \<Rightarrow> envelope \<Rightarrow> string \<Rightarrow> bool res" where
  "is_verified_proof_challenge_failed st e cid =
     (if cid \<in> set (failed_proof_counted_cache e) then Ok True else sv_proof_failed st cid)"

section \<open>Indexes rebuilt from the committed cache\<close>

definition PATH_PREFIX_EPOCH_RECORD :: string where "PATH_PREFIX_EPOCH_RECORD = ''/@eld/epoch_record/''"
definition PATH_PREFIX_NAMESPACE_REGISTRY :: string where
  "PATH_PREFIX_NAMESPACE_REGISTRY = ''/@eld/namespace/''"

definition epoch_number_from_record_path :: "string \<Rightarrow> int option" where
  "epoch_number_from_record_path p =
     (if starts_with PATH_PREFIX_EPOCH_RECORD p
      then epoch_from_record_path_name (drop (length PATH_PREFIX_EPOCH_RECORD) p) else None)"

definition epoch_numbers_from_committed_cache :: "(string \<times> cado_body) list \<Rightarrow> int list" where
  "epoch_numbers_from_committed_cache c =
     fold (\<lambda>(p, b) es. case epoch_number_from_record_path p of None \<Rightarrow> es | Some n \<Rightarrow> List.insert n es) c []"

definition rebuild_epoch_records_index :: "envelope \<Rightarrow> envelope" where
  "rebuild_epoch_records_index e =
     e\<lparr>epoch_records_index := epoch_numbers_from_committed_cache (committed_cado_cache e)\<rparr>"

definition insert_epoch_records_index_from_path :: "envelope \<Rightarrow> string \<Rightarrow> envelope" where
  "insert_epoch_records_index_from_path e p = (case epoch_number_from_record_path p of
      None \<Rightarrow> e | Some n \<Rightarrow> e\<lparr>epoch_records_index := List.insert n (epoch_records_index e)\<rparr>)"

definition collect_epoch_numbers :: "envelope \<Rightarrow> envelope option \<Rightarrow> int list" where
  "collect_epoch_numbers e cur =
    (let base = (if epoch_records_index e = [] \<and> committed_cado_cache e \<noteq> []
                 then epoch_numbers_from_committed_cache (committed_cado_cache e)
                 else epoch_records_index e) in
     (case cur of None \<Rightarrow> base
      | Some c \<Rightarrow> fold (\<lambda>(p, b) es. case epoch_number_from_record_path p of
                        None \<Rightarrow> es | Some n \<Rightarrow> List.insert n es) (cado_cache c) base))"

definition namespace_slug_from_registry_path :: "string \<Rightarrow> string option" where
  "namespace_slug_from_registry_path p =
     (if starts_with PATH_PREFIX_NAMESPACE_REGISTRY p
      then (let s = drop (length PATH_PREFIX_NAMESPACE_REGISTRY) p in if s = [] then None else Some s)
      else None)"

fun namespace_index_loop :: "node_crates \<Rightarrow> (string \<times> cado_body) list \<Rightarrow>
    (string \<times> namespace_record) list \<Rightarrow> (string \<times> namespace_record) list res" where
  "namespace_index_loop cr [] idx = Ok idx"
| "namespace_index_loop cr ((p, b) # c) idx =
     (case (namespace_slug_from_registry_path p, b) of
        (Some slug, Immutable h d m) \<Rightarrow>
          (case dec_namespace cr d of
             None \<Rightarrow> Err (StorageError ''deserialize_namespace_record'')
           | Some r \<Rightarrow> namespace_index_loop cr c (bt_insert slug r idx))
      | _ \<Rightarrow> namespace_index_loop cr c idx)"

definition rebuild_namespace_registry_index :: "node_crates \<Rightarrow> envelope \<Rightarrow> envelope res" where
  "rebuild_namespace_registry_index cr e =
     and_then (namespace_index_loop cr (committed_cado_cache e) [])
       (\<lambda>idx. Ok (e\<lparr>namespace_registry_index := idx\<rparr>))"

definition collect_namespace_records ::
    "node_crates \<Rightarrow> envelope \<Rightarrow> envelope option \<Rightarrow> namespace_record list res" where
  "collect_namespace_records cr e cur =
     and_then (if namespace_registry_index e = [] \<and> committed_cado_cache e \<noteq> []
               then namespace_index_loop cr (committed_cado_cache e) []
               else Ok (namespace_registry_index e)) (\<lambda>idx.
       Ok (map snd (case cur of None \<Rightarrow> idx
          | Some c \<Rightarrow> fold (\<lambda>(s, r) i. bt_insert s r i) (namespace_registry_cache c) idx)))"

definition rebuild_state_trie_from_cache :: "envelope \<Rightarrow> envelope" where
  "rebuild_state_trie_from_cache e =
     e\<lparr>state_trie := fold (\<lambda>(p, b) t. bt_insert p (content_hash b) t) (committed_cado_cache e) []\<rparr>"

section \<open>Namespace registry\<close>

definition is_namespace_registered_on_chain :: "node_crates \<Rightarrow> envelope \<Rightarrow> string \<Rightarrow> bool res" where
  "is_namespace_registered_on_chain cr e slug =
     and_then (slug_to_namespace_cadopath (hex cr) slug)
       (\<lambda>p. Ok (map_of (committed_cado_cache e) (path_str p) \<noteq> None))"

definition validate_add_namespace_not_taken :: "node_crates \<Rightarrow> envelope \<Rightarrow> string \<Rightarrow> unit res" where
  "validate_add_namespace_not_taken cr e slug =
     and_then (normalize_namespace_slug slug) (\<lambda>canonical.
       if map_of (namespace_registry_cache e) canonical \<noteq> None then Err (ValidationError ''namespace_slug'')
       else and_then (is_namespace_registered_on_chain cr e canonical) (\<lambda>taken.
         if taken then Err (ValidationError ''namespace_slug'') else Ok ()))"

definition is_namespace_registered :: "node_crates \<Rightarrow> envelope \<Rightarrow> string \<Rightarrow> bool res" where
  "is_namespace_registered cr e slug =
     and_then (normalize_namespace_slug slug) (\<lambda>canonical.
       if map_of (namespace_registry_cache e) canonical \<noteq> None then Ok True
       else is_namespace_registered_on_chain cr e canonical)"

definition resolve_namespace :: "node_crates \<Rightarrow> envelope \<Rightarrow> string \<Rightarrow> namespace_record option res" where
  "resolve_namespace cr e slug =
     and_then (normalize_namespace_slug slug) (\<lambda>canonical.
       case map_of (namespace_registry_cache e) canonical of
         Some r \<Rightarrow> Ok (Some r)
       | None \<Rightarrow> and_then (slug_to_namespace_cadopath (hex cr) canonical) (\<lambda>p.
           case map_of (committed_cado_cache e) (path_str p) of
             None \<Rightarrow> Ok None
           | Some b \<Rightarrow> (case dec_namespace cr (body_data b) of
               None \<Rightarrow> Err (StorageError ''deserialize_namespace_record'')
             | Some r \<Rightarrow> Ok (Some r))))"

section \<open>Application hash\<close>

definition app_hash_fields :: "node_crates \<Rightarrow> envelope \<Rightarrow> app_hash_view" where
  "app_hash_fields cr e = \<lparr>ah_block_height = block_height e, ah_current_epoch = current_epoch e,
     ah_trie_root = trie_root cr (state_trie e), ah_validators = validators e,
     ah_active_validators = active_validators e, ah_capacity_validators = capacity_validators e,
     ah_active_capacity_validator = active_capacity_validator e,
     ah_failed_proof_counts = failed_proof_counts e\<rparr>"

definition calculate_app_hash :: "node_crates \<Rightarrow> envelope \<Rightarrow> bytes" where
  "calculate_app_hash cr e = sha256 cr (hash_stream cr (app_hash_fields cr e))"

section \<open>What the state relies on\<close>

definition account_ok :: "account \<Rightarrow> bool" where
  "account_ok a = (wf_address (acc_address a) \<and> coin_ok (acc_balance a))"

definition staking_ok :: "staking_account \<Rightarrow> bool" where
  "staking_ok s = (wf_address (sa_address s) \<and> coin_ok (stake_balance s) \<and> wf_address (originator s))"

text \<open>\<^verbatim>\<open>bincode\<close> round trips on values of the stored types, in at most ten kibibytes for accounts; what it
  decodes satisfies the bounds because \<^verbatim>\<open>Coin\<close> and \<^verbatim>\<open>Address\<close> check them when deserialised.\<close>

definition codec_ok :: "('a \<Rightarrow> bool) \<Rightarrow> ('a \<Rightarrow> bytes option) \<Rightarrow> (bytes \<Rightarrow> 'a option) \<Rightarrow> bool" where
  "codec_ok ok enc dec \<longleftrightarrow>
     (\<forall>x. ok x \<longrightarrow> (\<exists>d. enc x = Some d \<and> dec d = Some x \<and> d \<noteq> [] \<and> int (length d) \<le> 10240)) \<and>
     (\<forall>d x. dec d = Some x \<longrightarrow> ok x)"

definition documented :: "node_crates \<Rightarrow> bool" where
  "documented cr \<longleftrightarrow> hex_documented (hex cr) \<and>
     codec_ok account_ok (enc_account cr) (dec_account cr) \<and>
     codec_ok staking_ok (enc_staking cr) (dec_staking cr)"

lemma documentedD:
  assumes "documented cr"
  shows "hex_documented (hex cr)" "codec_ok account_ok (enc_account cr) (dec_account cr)"
    "codec_ok staking_ok (enc_staking cr) (dec_staking cr)"
  using assms by (auto simp: documented_def)

lemma safe_deserialize_Inr:
  "safe_deserialize_account_data dec d = Inr x \<Longrightarrow> dec d = Some x"
  by (auto simp: safe_deserialize_account_data_def safe_bincode_deserialize_def split: if_splits option.splits)

lemma codec_okI:
  assumes "\<And>x. ok x \<Longrightarrow> enc x = Some (f x)" "\<And>x. ok x \<Longrightarrow> dec (f x) = Some x"
    and "\<And>x. ok x \<Longrightarrow> f x \<noteq> [] \<and> int (length (f x)) \<le> 10240" "\<And>d x. dec d = Some x \<Longrightarrow> ok x"
  shows "codec_ok ok enc dec"
  using assms unfolding codec_ok_def by blast

lemma codec_ok_enc:
  assumes "codec_ok ok enc dec" "ok x"
  shows "\<exists>d. enc x = Some d \<and> safe_deserialize_account_data dec d = Inr x"
proof -
  from assms obtain d where "enc x = Some d" "dec d = Some x" "d \<noteq> []" "int (length d) \<le> 10240"
    unfolding codec_ok_def by blast
  then show ?thesis
    by (auto simp: safe_deserialize_account_data_def safe_bincode_deserialize_def)
qed

lemma codec_ok_dec: "codec_ok ok enc dec \<Longrightarrow> dec d = Some x \<Longrightarrow> ok x"
  by (auto simp: codec_ok_def)

section \<open>The working set\<close>

text \<open>Read your own writes: after staging an object at a path, that path reads the staged object and
  every other path reads what it read before.\<close>

locale working_set =
  fixes look :: "'e \<Rightarrow> cado_path \<Rightarrow> cado_body option"
    and stage :: "'e \<Rightarrow> cado_path \<Rightarrow> cado_body \<Rightarrow> 'e"
  assumes look_stage: "\<not> path_is_infrastructure p \<Longrightarrow>
    look (stage e p b) q = (if path_str q = path_str p then Some b else look e q)"
begin

lemma look_same: "\<not> path_is_infrastructure p \<Longrightarrow> look (stage e p b) p = Some b"
  by (simp add: look_stage)

lemma look_two:
  "\<not> path_is_infrastructure p \<Longrightarrow> \<not> path_is_infrastructure q \<Longrightarrow> path_str p \<noteq> path_str q \<Longrightarrow>
   look (stage (stage e p b) q c) p = Some b \<and> look (stage (stage e p b) q c) q = Some c"
  by (simp add: look_stage)

end

interpretation ws: working_set "lookup_cado st" update_cado_cache for st
  by unfold_locales (auto simp: lookup_cado_def update_cado_cache_def split: option.split)

lemma address_type_not_infrastructure:
  assumes "cado_path_new hx ty key = Inr p" "is_address_type ty"
  shows "\<not> path_is_infrastructure p"
  using cado_path_new_shape(1) [OF assms(1)] assms(2)
  by (auto simp: path_is_infrastructure_def INFRASTRUCTURE_CADO_TYPES_def is_address_type_def)

section \<open>Accounts and stakes by address\<close>

definition account_of :: "node_crates \<Rightarrow> store_view \<Rightarrow> envelope \<Rightarrow> address \<Rightarrow> (account \<times> bytes) option" where
  "account_of cr st e a = (case cado_path_new (hex cr) AccountType (KeyAddress a) of
      Inl _ \<Rightarrow> None | Inr p \<Rightarrow> get_account_from_cado cr st e p)"

definition staking_of :: "node_crates \<Rightarrow> store_view \<Rightarrow> envelope \<Rightarrow> address \<Rightarrow> (staking_account \<times> bytes) option" where
  "staking_of cr st e a = (case cado_path_new (hex cr) StakingAccountType (KeyAddress a) of
      Inl _ \<Rightarrow> None | Inr p \<Rightarrow> get_staking_account_from_cado cr st e p)"

definition balance_of :: "node_crates \<Rightarrow> store_view \<Rightarrow> envelope \<Rightarrow> address \<Rightarrow> nat" where
  "balance_of cr st e a = (case account_of cr st e a of None \<Rightarrow> 0 | Some (acc, _) \<Rightarrow> coins (acc_balance acc))"

definition stake_of :: "node_crates \<Rightarrow> store_view \<Rightarrow> envelope \<Rightarrow> address \<Rightarrow> nat" where
  "stake_of cr st e a = (case staking_of cr st e a of None \<Rightarrow> 0 | Some (s, _) \<Rightarrow> coins (stake_balance s))"

text \<open>Reading an account or a staking account in a handler: the outer \<^term>\<open>None\<close> is a failed
  \<^verbatim>\<open>expect\<close> on the path, the inner one an absent account.\<close>

definition load_account ::
    "node_crates \<Rightarrow> store_view \<Rightarrow> envelope \<Rightarrow> address \<Rightarrow> (account \<times> bytes) option option" where
  "load_account cr st e a = (case cado_path_new (hex cr) AccountType (KeyAddress a) of
      Inl _ \<Rightarrow> None | Inr p \<Rightarrow> Some (get_account_from_cado cr st e p))"

definition load_staking ::
    "node_crates \<Rightarrow> store_view \<Rightarrow> envelope \<Rightarrow> address \<Rightarrow> (staking_account \<times> bytes) option option" where
  "load_staking cr st e a = (case cado_path_new (hex cr) StakingAccountType (KeyAddress a) of
      Inl _ \<Rightarrow> None | Inr p \<Rightarrow> Some (get_staking_account_from_cado cr st e p))"

text \<open>The block of statements every handler uses to write an account or a staking account back: build
  the path, serialise, wrap as an updated mutable object, stage it.  \<^term>\<open>None\<close> is a failed
  \<^verbatim>\<open>expect\<close>.\<close>

definition stage_account :: "node_crates \<Rightarrow> envelope \<Rightarrow> address \<Rightarrow> bytes \<Rightarrow> account \<Rightarrow> envelope option" where
  "stage_account cr e a h acc = (case enc_account cr acc of
      None \<Rightarrow> None
    | Some d \<Rightarrow> (case cado_path_new (hex cr) AccountType (KeyAddress a) of
        Inl _ \<Rightarrow> None
      | Inr p \<Rightarrow> Some (update_cado_cache e p (cado_mutable_updated (sha256 cr) h d
                   (cado_metadata_new AccountType (hex_with_prefix (hex cr) a))))))"

definition stage_staking ::
    "node_crates \<Rightarrow> envelope \<Rightarrow> address \<Rightarrow> bytes \<Rightarrow> staking_account \<Rightarrow> envelope option" where
  "stage_staking cr e a h s = (case enc_staking cr s of
      None \<Rightarrow> None
    | Some d \<Rightarrow> (case cado_path_new (hex cr) StakingAccountType (KeyAddress a) of
        Inl _ \<Rightarrow> None
      | Inr p \<Rightarrow> Some (update_cado_cache e p (cado_mutable_updated (sha256 cr) h d
                   (cado_metadata_new StakingAccountType (hex_with_prefix (hex cr) a))))))"

lemma address_types [simp]: "is_address_type AccountType" "is_address_type StakingAccountType"
  by (simp_all add: is_address_type_def)

lemma load_account_eq:
  "documented cr \<Longrightarrow> load_account cr st e a = (if wf_address a then Some (account_of cr st e a) else None)"
  using address_path_Inr [OF documentedD(1), of cr AccountType a]
  by (auto simp: load_account_def account_of_def split: sum.splits)

lemma load_staking_eq:
  "documented cr \<Longrightarrow> load_staking cr st e a = (if wf_address a then Some (staking_of cr st e a) else None)"
  using address_path_Inr [OF documentedD(1), of cr StakingAccountType a]
  by (auto simp: load_staking_def staking_of_def split: sum.splits)

lemma stage_account_Some:
  assumes "documented cr" "wf_address a" "account_ok acc"
  obtains e' where "stage_account cr e a h acc = Some e'"
  using address_path_Inr [OF documentedD(1) [OF assms(1)], of AccountType a] assms(2)
    codec_ok_enc [OF documentedD(2) [OF assms(1)] assms(3)]
  by (force simp: stage_account_def)

lemma stage_staking_Some:
  assumes "documented cr" "wf_address a" "staking_ok s"
  obtains e' where "stage_staking cr e a h s = Some e'"
  using address_path_Inr [OF documentedD(1) [OF assms(1)], of StakingAccountType a] assms(2)
    codec_ok_enc [OF documentedD(3) [OF assms(1)] assms(3)]
  by (force simp: stage_staking_def)

lemma account_of_stage_account:
  assumes "documented cr" "account_ok acc" "stage_account cr e a h acc = Some e'"
  shows "account_of cr st e' b = (if b = a then Some (acc, h) else account_of cr st e b)"
proof -
  note hx = documentedD(1) [OF assms(1)]
  obtain d p where d: "enc_account cr acc = Some d" "safe_deserialize_account_data (dec_account cr) d = Inr acc"
    and p: "cado_path_new (hex cr) AccountType (KeyAddress a) = Inr p"
    and e': "e' = update_cado_cache e p (cado_mutable_updated (sha256 cr) h d
      (cado_metadata_new AccountType (hex_with_prefix (hex cr) a)))"
    using assms(3) codec_ok_enc [OF documentedD(2) [OF assms(1)] assms(2)]
    by (auto simp: stage_account_def split: option.splits sum.splits)
  note ni = address_type_not_infrastructure [OF p]
  show ?thesis
  proof (cases "cado_path_new (hex cr) AccountType (KeyAddress b)")
    case (Inl x)
    then show ?thesis using p by (auto simp: account_of_def)
  next
    case (Inr q)
    then have "path_str q = path_str p \<longleftrightarrow> b = a"
      using address_path_inj [OF hx Inr p] p by auto
    then show ?thesis
      using Inr p d ni by (simp add: account_of_def get_account_from_cado_def e' ws.look_stage
          cado_mutable_updated_def)
  qed
qed

lemma staking_of_stage_staking:
  assumes "documented cr" "staking_ok s" "stage_staking cr e a h s = Some e'"
  shows "staking_of cr st e' b = (if b = a then Some (s, h) else staking_of cr st e b)"
proof -
  note hx = documentedD(1) [OF assms(1)]
  obtain d p where d: "enc_staking cr s = Some d" "safe_deserialize_account_data (dec_staking cr) d = Inr s"
    and p: "cado_path_new (hex cr) StakingAccountType (KeyAddress a) = Inr p"
    and e': "e' = update_cado_cache e p (cado_mutable_updated (sha256 cr) h d
      (cado_metadata_new StakingAccountType (hex_with_prefix (hex cr) a)))"
    using assms(3) codec_ok_enc [OF documentedD(3) [OF assms(1)] assms(2)]
    by (auto simp: stage_staking_def split: option.splits sum.splits)
  note ni = address_type_not_infrastructure [OF p]
  show ?thesis
  proof (cases "cado_path_new (hex cr) StakingAccountType (KeyAddress b)")
    case (Inl x)
    then show ?thesis using p by (auto simp: staking_of_def)
  next
    case (Inr q)
    then have "path_str q = path_str p \<longleftrightarrow> b = a"
      using address_path_inj [OF hx Inr p] p by auto
    then show ?thesis
      using Inr p d ni by (simp add: staking_of_def get_staking_account_from_cado_def e' ws.look_stage
          cado_mutable_updated_def)
  qed
qed

lemma staking_of_stage_account:
  assumes "documented cr" "stage_account cr e a h acc = Some e'"
  shows "staking_of cr st e' b = staking_of cr st e b"
proof -
  obtain p bd where p: "cado_path_new (hex cr) AccountType (KeyAddress a) = Inr p"
    and e': "e' = update_cado_cache e p bd"
    using assms(2) by (auto simp: stage_account_def split: option.splits sum.splits)
  show ?thesis
  proof (cases "cado_path_new (hex cr) StakingAccountType (KeyAddress b)")
    case (Inr q)
    then have "path_str q \<noteq> path_str p"
      using address_path_inj [OF documentedD(1) [OF assms(1)] Inr p] by auto
    then show ?thesis
      using Inr address_type_not_infrastructure [OF p]
      by (simp add: staking_of_def get_staking_account_from_cado_def e' ws.look_stage)
  qed (simp add: staking_of_def)
qed

lemma account_of_stage_staking:
  assumes "documented cr" "stage_staking cr e a h s = Some e'"
  shows "account_of cr st e' b = account_of cr st e b"
proof -
  obtain p bd where p: "cado_path_new (hex cr) StakingAccountType (KeyAddress a) = Inr p"
    and e': "e' = update_cado_cache e p bd"
    using assms(2) by (auto simp: stage_staking_def split: option.splits sum.splits)
  show ?thesis
  proof (cases "cado_path_new (hex cr) AccountType (KeyAddress b)")
    case (Inr q)
    then have "path_str q \<noteq> path_str p"
      using address_path_inj [OF documentedD(1) [OF assms(1)] Inr p] by auto
    then show ?thesis
      using Inr address_type_not_infrastructure [OF p]
      by (simp add: account_of_def get_account_from_cado_def e' ws.look_stage)
  qed (simp add: account_of_def)
qed

lemma account_of_ok:
  assumes "documented cr" "account_of cr st e a = Some (acc, h)"
  shows "account_ok acc" "wf_address a"
proof -
  obtain p where p: "cado_path_new (hex cr) AccountType (KeyAddress a) = Inr p"
      "get_account_from_cado cr st e p = Some (acc, h)"
    using assms(2) by (auto simp: account_of_def split: sum.splits)
  then show "wf_address a"
    using address_path_Inr [OF documentedD(1) [OF assms(1)], of AccountType a] by auto
  from p(2) show "account_ok acc"
    by (auto simp: get_account_from_cado_def split: option.splits cado_body.splits sum.splits
        dest!: safe_deserialize_Inr intro: codec_ok_dec [OF documentedD(2) [OF assms(1)]])
qed

lemma staking_of_ok:
  assumes "documented cr" "staking_of cr st e a = Some (s, h)"
  shows "staking_ok s"
proof -
  obtain p where "get_staking_account_from_cado cr st e p = Some (s, h)"
    using assms(2) by (auto simp: staking_of_def split: sum.splits)
  then show ?thesis
    by (auto simp: get_staking_account_from_cado_def split: option.splits cado_body.splits sum.splits
        dest!: safe_deserialize_Inr intro: codec_ok_dec [OF documentedD(3) [OF assms(1)]])
qed

lemma stage_frame:
  "stage_account cr e a h acc = Some e' \<Longrightarrow> \<exists>c. e' = e\<lparr>cado_cache := c\<rparr>"
  "stage_staking cr e a h s = Some e' \<Longrightarrow> \<exists>c. e' = e\<lparr>cado_cache := c\<rparr>"
  by (auto simp: stage_account_def stage_staking_def update_cado_cache_def
      split: option.splits sum.splits if_splits intro: exI [of _ "cado_cache e"])

section \<open>The ledger contract\<close>

text \<open>What the coin-moving handlers rely on: writing the account of one address changes that balance
  only, writing a staking account changes that stake only.  \<open>ok\<close> collects the documented
  behaviour of the crates.\<close>

locale ledger =
  fixes ok :: bool
    and bal :: "'e \<Rightarrow> address \<Rightarrow> nat"
    and stk :: "'e \<Rightarrow> address \<Rightarrow> nat"
    and put_acc :: "'e \<Rightarrow> address \<Rightarrow> bytes \<Rightarrow> account \<Rightarrow> 'e option"
    and put_stk :: "'e \<Rightarrow> address \<Rightarrow> bytes \<Rightarrow> staking_account \<Rightarrow> 'e option"
  assumes bal_put_acc: "ok \<Longrightarrow> account_ok acc \<Longrightarrow> put_acc e a h acc = Some e' \<Longrightarrow>
      bal e' b = (if b = a then coins (acc_balance acc) else bal e b)"
    and stk_put_acc: "ok \<Longrightarrow> put_acc e a h acc = Some e' \<Longrightarrow> stk e' b = stk e b"
    and stk_put_stk: "ok \<Longrightarrow> staking_ok s \<Longrightarrow> put_stk e a h s = Some e' \<Longrightarrow>
      stk e' b = (if b = a then coins (stake_balance s) else stk e b)"
    and bal_put_stk: "ok \<Longrightarrow> put_stk e a h s = Some e' \<Longrightarrow> bal e' b = bal e b"
begin

lemma move_preserves_total:
  assumes "ok" "account_ok x" "account_ok y" "a \<noteq> b"
    and "put_acc e a h x = Some e1" "put_acc e1 b h' y = Some e2"
    and "coins (acc_balance x) + n = bal e a" "coins (acc_balance y) = bal e b + n"
    and "finite A" "a \<in> A" "b \<in> A"
  shows "(\<Sum>c\<in>A. bal e2 c + stk e2 c) = (\<Sum>c\<in>A. bal e c + stk e c)"
proof -
  have e2: "bal e2 c + stk e2 c = (if c = b then coins (acc_balance y) + stk e b
      else if c = a then coins (acc_balance x) + stk e a else bal e c + stk e c)" for c
    using bal_put_acc stk_put_acc assms(1-6) by simp
  have split: "(\<Sum>c\<in>A. f c) = f a + f b + (\<Sum>c\<in>A - {a} - {b}. f c)" for f :: "address \<Rightarrow> nat"
    using assms(4,9-11) by (simp add: sum.remove [of A a] sum.remove [of "A - {a}" b])
  show ?thesis
    using assms(4,7,8) by (simp add: split e2)
qed

lemma stake_preserves_total:
  assumes "ok" "account_ok x" "staking_ok s"
    and "put_acc e a h x = Some e1" "put_stk e1 a h' s = Some e2"
    and "coins (acc_balance x) + coins (stake_balance s) = bal e a + stk e a"
    and "finite A" "a \<in> A"
  shows "(\<Sum>c\<in>A. bal e2 c + stk e2 c) = (\<Sum>c\<in>A. bal e c + stk e c)"
proof (rule sum.cong [OF refl])
  fix c
  show "bal e2 c + stk e2 c = bal e c + stk e c"
    using bal_put_acc stk_put_acc stk_put_stk bal_put_stk assms(1-6) by simp
qed

lemma unstake_preserves_total:
  assumes "ok" "account_ok x" "staking_ok s"
    and "put_stk e a h' s = Some e1" "put_acc e1 a h x = Some e2"
    and "coins (acc_balance x) + coins (stake_balance s) = bal e a + stk e a"
    and "finite A" "a \<in> A"
  shows "(\<Sum>c\<in>A. bal e2 c + stk e2 c) = (\<Sum>c\<in>A. bal e c + stk e c)"
proof (rule sum.cong [OF refl])
  fix c
  show "bal e2 c + stk e2 c = bal e c + stk e c"
    using bal_put_acc stk_put_acc stk_put_stk bal_put_stk assms(1-6) by simp
qed

lemma burn_decreases_total:
  assumes "ok" "account_ok x" "put_acc e a h x = Some e1"
    and "coins (acc_balance x) + n = bal e a" "finite A" "a \<in> A"
  shows "(\<Sum>c\<in>A. bal e1 c + stk e1 c) + n = (\<Sum>c\<in>A. bal e c + stk e c)"
proof -
  have e1: "bal e1 c + stk e1 c = (if c = a then coins (acc_balance x) + stk e a else bal e c + stk e c)" for c
    using bal_put_acc stk_put_acc assms(1-3) by simp
  show ?thesis
    using assms(4-6) by (simp add: e1 sum.remove [of A a])
qed

end

interpretation led: ledger "documented cr" "balance_of cr st" "stake_of cr st"
    "stage_account cr" "stage_staking cr" for cr st
  by unfold_locales
    (simp_all add: balance_of_def stake_of_def account_of_stage_account account_of_stage_staking
      staking_of_stage_account staking_of_stage_staking)

definition total_supply :: "node_crates \<Rightarrow> store_view \<Rightarrow> envelope \<Rightarrow> address set \<Rightarrow> nat" where
  "total_supply cr st e A = (\<Sum>a\<in>A. balance_of cr st e a + stake_of cr st e a)"

section \<open>An executable instance of the crates\<close>

definition model_enc_account :: "account \<Rightarrow> bytes option" where
  "model_enc_account a = Some (address_bytes (acc_address a) @ le_bytes 16 (uint (amount (acc_balance a)))
     @ le_bytes 4 (uint (nonce_value (acc_nonce a))))"

definition model_dec_account :: "bytes \<Rightarrow> account option" where
  "model_dec_account d = (if length d \<noteq> 40 then None else
     (let a = \<lparr>acc_address = Address (take 20 d), acc_balance = Coin (word_of_int (le_val (take 16 (drop 20 d)))),
               acc_nonce = Nonce (word_of_int (le_val (drop 36 d)))\<rparr> in
      if coin_ok (acc_balance a) then Some a else None))"

definition model_enc_staking :: "staking_account \<Rightarrow> bytes option" where
  "model_enc_staking s = Some (address_bytes (sa_address s) @ le_bytes 16 (uint (amount (stake_balance s)))
     @ address_bytes (originator s))"

definition model_dec_staking :: "bytes \<Rightarrow> staking_account option" where
  "model_dec_staking d = (if length d \<noteq> 56 then None else
     (let s = \<lparr>sa_address = Address (take 20 d), stake_balance = Coin (word_of_int (le_val (take 16 (drop 20 d)))),
               originator = Address (drop 36 d)\<rparr> in
      if coin_ok (stake_balance s) then Some s else None))"

definition model_crates :: node_crates where
  "model_crates = \<lparr>hex = std_hex, sha256 = (\<lambda>bs. take 32 (bs @ replicate 32 0)),
     ed_valid_key = (\<lambda>k. length k = 32), ed_verify = (\<lambda>k m s. s = take 64 (k @ m @ replicate 64 0)),
     tx_to_json = (\<lambda>t. Some (payload_type (tx_payload t))),
     enc_account = model_enc_account, dec_account = model_dec_account,
     enc_staking = model_enc_staking, dec_staking = model_dec_staking,
     enc_epoch = (\<lambda>r. Some (le_bytes 8 (er_epoch r))), dec_epoch = (\<lambda>d. None),
     enc_namespace = (\<lambda>r. Some (address_bytes (ns_owner r))), dec_namespace = (\<lambda>d. None),
     trie_root = (\<lambda>t. concat (map snd t)), hash_stream = (\<lambda>v. ah_trie_root v)\<rparr>"

definition empty_store :: store_view where
  "empty_store = \<lparr>sv_get_cado = (\<lambda>p. Ok None), sv_proof_rewarded = (\<lambda>c. Ok False),
     sv_proof_failed = (\<lambda>c. Ok False), sv_temp_blob = (\<lambda>k. Ok None)\<rparr>"

definition empty_envelope :: envelope where
  "empty_envelope = \<lparr>cado_cache = [], cado_cache_to_delete = [], pinboard_meta_cache = [],
     pinboard_refcount_deltas = [], pinboard_idx_wallet_add = [], pinboard_idx_tag_add = [],
     pinboard_idx_expiry_add = [], pinboard_idx_commit_add = [], verified_proof_rewarded_cache = [],
     failed_proof_counted_cache = [], namespace_registry_cache = [], namespace_registry_index = [],
     pending_fee_rewards = coin_zero, block_height = 0, current_epoch = 0, committed_cado_cache = [],
     epoch_records_index = [], state_trie = [], validators = [], active_validators = [],
     capacity_validators = [], active_capacity_validator = None, failed_proof_counts = []\<rparr>"

lemma word_le_bytes_16: "word_of_int (le_val (le_bytes 16 (uint w))) = w" for w :: u128
  using uint_bounded [of w] by (simp add: le_val_le_bytes uint_nonnegative)

lemma word_le_bytes_4: "word_of_int (le_val (le_bytes 4 (uint w))) = w" for w :: u32
  using uint_bounded [of w] by (simp add: le_val_le_bytes uint_nonnegative)

lemma model_account_codec: "codec_ok account_ok model_enc_account model_dec_account"
proof (rule codec_okI)
  fix a assume "account_ok a"
  then have "length (address_bytes (acc_address a)) = 20" "coin_ok (acc_balance a)"
    by (simp_all add: account_ok_def)
  then show "model_dec_account (the (model_enc_account a)) = Some a"
    by (simp add: model_enc_account_def model_dec_account_def Let_def word_le_bytes_16 word_le_bytes_4)
next
  fix d a assume "model_dec_account d = Some a"
  then show "account_ok a"
    by (auto simp: model_dec_account_def account_ok_def Let_def split: if_splits)
qed (auto simp: model_enc_account_def account_ok_def)

lemma model_staking_codec: "codec_ok staking_ok model_enc_staking model_dec_staking"
proof (rule codec_okI)
  fix s assume "staking_ok s"
  then have "length (address_bytes (sa_address s)) = 20" "coin_ok (stake_balance s)"
      "length (address_bytes (originator s)) = 20"
    by (simp_all add: staking_ok_def)
  then show "model_dec_staking (the (model_enc_staking s)) = Some s"
    by (simp add: model_enc_staking_def model_dec_staking_def Let_def word_le_bytes_16)
next
  fix d s assume "model_dec_staking d = Some s"
  then show "staking_ok s"
    by (auto simp: model_dec_staking_def staking_ok_def Let_def split: if_splits)
qed (auto simp: model_enc_staking_def staking_ok_def)

lemma model_crates_documented: "documented model_crates"
  using std_hex_documented model_account_codec model_staking_codec
  by (simp add: documented_def model_crates_def)

definition demo_account :: "nat \<Rightarrow> u128 \<Rightarrow> u32 \<Rightarrow> account" where
  "demo_account n b k = \<lparr>acc_address = demo_address n, acc_balance = Coin b, acc_nonce = Nonce k\<rparr>"

text \<open>A small chain: addresses 1 and 2 hold 100000 and 50 coins.\<close>

definition demo_envelope :: envelope where
  "demo_envelope = the (stage_account model_crates
     (the (stage_account model_crates empty_envelope (demo_address 1) (replicate 32 0) (demo_account 1 100000 0)))
     (demo_address 2) (replicate 32 0) (demo_account 2 50 0))"

section \<open>Properties\<close>

text \<open>Read your own writes.  After an account is staged, its own address reads exactly that account
  and every other account and every staking account reads as before, whatever the committed cache
  and the database hold.\<close>

lemma stage_account_isolated:
  assumes "documented cr" "account_ok acc" "stage_account cr e a h acc = Some e'"
  shows "account_of cr st e' a = Some (acc, h) \<and> (\<forall>b. b \<noteq> a \<longrightarrow> account_of cr st e' b = account_of cr st e b)
    \<and> (\<forall>b. staking_of cr st e' b = staking_of cr st e b)"
  using account_of_stage_account [OF assms] staking_of_stage_account [OF assms(1,3)] by simp

lemma demo_account_ok: "b \<le> MAX_COIN \<Longrightarrow> account_ok (demo_account n b k)"
  by (simp add: account_ok_def demo_account_def demo_address_def coin_ok_def)

lemma demo_stage_Some:
  "b \<le> MAX_COIN \<Longrightarrow> \<exists>e'. stage_account model_crates e (demo_address n) h (demo_account n b k) = Some e'"
  using stage_account_Some [OF model_crates_documented _ demo_account_ok [of b n k], of "demo_address n" e h]
  by (auto simp: demo_address_def)

theorem stage_account_isolated_witness:
  "\<exists>e'. stage_account model_crates empty_envelope (demo_address 1) [] (demo_account 1 9 0) = Some e' \<and>
     account_of model_crates empty_store e' (demo_address 1) = Some (demo_account 1 9 0, [])"
proof -
  have b: "(9 :: u128) \<le> MAX_COIN" by (simp add: MAX_COIN_val)
  obtain e' where s: "stage_account model_crates empty_envelope (demo_address 1) [] (demo_account 1 9 0) = Some e'"
    using demo_stage_Some [OF b] by blast
  from s stage_account_isolated [OF model_crates_documented demo_account_ok [OF b] s, THEN conjunct1]
  show ?thesis by blast
qed



end
