(* ===== verification/Handlers.thy ===== *)
theory Handlers
  imports App_State
begin

text \<open>
  The transaction handlers of \<^verbatim>\<open>node_app/src/abci_interface/consensus/tx_processor\<close> for transfers,
  stakes, unstakes, capacity registration, pinboard posts and namespaces.  A handler reads the
  state the block has built so far and returns a response and the new state; \<^term>\<open>None\<close> is a
  panic (a failed \<^verbatim>\<open>expect\<close>).  The response keeps the ABCI code, the events and the gas fields; log
  texts are not kept.  A handler that fails late leaves what it staged before: the state is
  returned on every branch exactly as the code leaves it.

  The properties: coins are conserved by transfers, stakes and unstakes; each failure has the
  code of its cause and no handler panics; registration keeps one entry per address; a namespace
  is registered at most once.
\<close>

section \<open>Responses\<close>

type_synonym event = "string \<times> (string \<times> string) list"

record response =
  code :: nat
  events :: "event list"
  gas_wanted :: int
  gas_used :: int

definition fail :: "nat \<Rightarrow> response" where
  "fail c = \<lparr>code = c, events = [], gas_wanted = 0, gas_used = 0\<rparr>"

definition success :: "event list \<Rightarrow> response" where
  "success ev = \<lparr>code = 0, events = ev, gas_wanted = 0, gas_used = 0\<rparr>"

definition err_insufficient_stake :: response where "err_insufficient_stake = fail 1"
definition err_minimum_stake :: response where "err_minimum_stake = fail 2"
definition err_nonce_not_sequential :: response where "err_nonce_not_sequential = fail 3"
definition err_insufficient_funds :: response where "err_insufficient_funds = fail 5"
definition err_nonce_overflow :: response where "err_nonce_overflow = fail 6"
definition err_tx_too_large :: response where "err_tx_too_large = fail 8"
definition err_sender_doesnt_exist :: response where "err_sender_doesnt_exist = fail 9"
definition err_insufficient_fee :: response where "err_insufficient_fee = fail 12"
definition err_verification_failed :: response where "err_verification_failed = fail 13"
definition err_validation_failed :: response where "err_validation_failed = fail 51"
definition err_json_parsing_failed :: response where "err_json_parsing_failed = fail 52"
definition err_invalid_public_key_format :: response where "err_invalid_public_key_format = fail 56"
definition err_invalid_public_key_length :: response where "err_invalid_public_key_length = fail 57"
definition err_internal_lock_failed :: response where "err_internal_lock_failed = fail 61"
definition err_invalid_utf8_encoding :: response where "err_invalid_utf8_encoding = fail 62"
definition err_invalid_hex_encoding :: response where "err_invalid_hex_encoding = fail 63"
definition err_invalid_path_format :: response where "err_invalid_path_format = fail 64"
definition err_invalid_coin_amount :: response where "err_invalid_coin_amount = fail 65"
definition err_fee_validation_failed :: response where "err_fee_validation_failed = fail 66"
definition err_hex_validation_failed :: response where "err_hex_validation_failed = fail 71"
definition err_json_validation_failed :: response where "err_json_validation_failed = fail 72"
definition err_transaction_structure_invalid :: response where "err_transaction_structure_invalid = fail 73"
definition err_fee_calculation_failed :: response where "err_fee_calculation_failed = fail 74"

type_synonym outcome = "(response \<times> envelope) option"

definition new_account :: "address \<Rightarrow> account" where
  "new_account a = \<lparr>acc_address = a, acc_balance = coin_zero, acc_nonce = nonce_zero\<rparr>"

definition zero_hash :: bytes where "zero_hash = replicate 32 0"

section \<open>Transfer\<close>

definition process_transfer_tx ::
    "node_crates \<Rightarrow> store_view \<Rightarrow> envelope \<Rightarrow> transfer_tx \<Rightarrow> outcome" where
  "process_transfer_tx cr st e t = (case coin_new (tr_amount t) of
      Inl _ \<Rightarrow> Some (err_validation_failed, e)
    | Inr amt \<Rightarrow> (case load_account cr st e (tr_sender t) of
        None \<Rightarrow> None
      | Some None \<Rightarrow> Some (err_sender_doesnt_exist, e)
      | Some (Some (sacc, sh)) \<Rightarrow> (case load_account cr st e (tr_recipient t) of
          None \<Rightarrow> None
        | Some found \<Rightarrow>
           (case (case found of Some x \<Rightarrow> x | None \<Rightarrow> (new_account (tr_recipient t), zero_hash)) of
            (racc, rh) \<Rightarrow>
             (if amount (acc_balance sacc) < amount amt then Some (err_insufficient_funds, e)
              else (case coin_sub (acc_balance sacc) amt of
                Inl _ \<Rightarrow> Some (err_validation_failed, e)
              | Inr sbal \<Rightarrow>
                 (case stage_account cr e (tr_sender t) sh (sacc\<lparr>acc_balance := sbal\<rparr>) of
                    None \<Rightarrow> None
                  | Some e1 \<Rightarrow> (case coin_add (acc_balance racc) amt of
                      Inl _ \<Rightarrow> Some (err_validation_failed, e1)
                    | Inr rbal \<Rightarrow>
                       (case stage_account cr e1 (tr_recipient t) rh (racc\<lparr>acc_balance := rbal\<rparr>) of
                          None \<Rightarrow> None
                        | Some e2 \<Rightarrow> Some (success [(''Transfer'',
                            [(''sender'', hex_with_prefix (hex cr) (tr_sender t)),
                             (''recipient'', hex_with_prefix (hex cr) (tr_recipient t)),
                             (''amount'', show_nat (unat (tr_amount t)))])], e2))))))))))"

section \<open>Stake and unstake\<close>

definition upsert_validator :: "address \<Rightarrow> coin \<Rightarrow> bytes \<Rightarrow> validator_info list \<Rightarrow> validator_info list" where
  "upsert_validator a stake pk vs =
    (if \<not> list_ex (\<lambda>v. vi_address v = a) vs
     then vs @ [\<lparr>vi_address = a, vi_stake = stake, vi_public_key = pk\<rparr>]
     else update_first (\<lambda>v. vi_address v = a) (\<lambda>v. v\<lparr>vi_stake := stake, vi_public_key := pk\<rparr>) vs)"

definition new_staking_account :: "address \<Rightarrow> staking_account" where
  "new_staking_account a = \<lparr>sa_address = a, stake_balance = coin_zero, originator = a\<rparr>"

definition stake_amount_check :: "protocol_constants \<Rightarrow> coin \<Rightarrow> coin \<Rightarrow> response option" where
  "stake_amount_check pc existing_stake amt =
    (if coin_is_zero existing_stake then
       (case coin_new (amount (min_stake_amount pc)) of
          Inl _ \<Rightarrow> Some err_validation_failed
        | Inr m \<Rightarrow> if amount amt < amount m then Some err_minimum_stake else None)
     else if coin_is_zero amt then Some err_validation_failed else None)"

definition stake_public_key_step ::
    "node_crates \<Rightarrow> envelope \<Rightarrow> stake_tx \<Rightarrow> coin \<Rightarrow> response + envelope" where
  "stake_public_key_step cr e t stake = (case st_public_key t of
      None \<Rightarrow> Inr e
    | Some pk \<Rightarrow> (case hex_decode (hex cr) pk of
        None \<Rightarrow> Inl err_invalid_public_key_format
      | Some bs \<Rightarrow> if length bs \<noteq> 32 then Inl err_invalid_public_key_length
          else Inr (e\<lparr>validators := upsert_validator (st_sender t) stake bs (validators e)\<rparr>)))"

definition process_stake_tx ::
    "node_crates \<Rightarrow> protocol_constants \<Rightarrow> store_view \<Rightarrow> envelope \<Rightarrow> stake_tx \<Rightarrow> outcome" where
  "process_stake_tx cr pc st e t = (case coin_new (st_amount t) of
      Inl _ \<Rightarrow> Some (err_validation_failed, e)
    | Inr amt \<Rightarrow> (case load_account cr st e (st_sender t) of
        None \<Rightarrow> None
      | Some None \<Rightarrow> Some (err_sender_doesnt_exist, e)
      | Some (Some (sacc, sh)) \<Rightarrow>
         (if amount (acc_balance sacc) < amount amt then Some (err_insufficient_funds, e)
          else (case load_staking cr st e (st_sender t) of
            None \<Rightarrow> None
          | Some existing \<Rightarrow>
             (case stake_amount_check pc (case existing of None \<Rightarrow> coin_zero | Some (s, _) \<Rightarrow> stake_balance s) amt of
                Some r \<Rightarrow> Some (r, e)
              | None \<Rightarrow> (case coin_sub (acc_balance sacc) amt of
                  Inl _ \<Rightarrow> Some (err_validation_failed, e)
                | Inr sbal \<Rightarrow> (case stage_account cr e (st_sender t) sh (sacc\<lparr>acc_balance := sbal\<rparr>) of
                    None \<Rightarrow> None
                  | Some e1 \<Rightarrow>
                     (case (case existing of Some x \<Rightarrow> x
                             | None \<Rightarrow> (new_staking_account (st_sender t), zero_hash)) of
                       (sk, kh) \<Rightarrow>
                        (case coin_add (stake_balance sk) amt of
                           Inl _ \<Rightarrow> Some (err_validation_failed, e1)
                         | Inr stake \<Rightarrow>
                            (case stage_staking cr e1 (st_sender t) kh (sk\<lparr>stake_balance := stake\<rparr>) of
                               None \<Rightarrow> None
                             | Some e2 \<Rightarrow> (case stake_public_key_step cr e2 t stake of
                                 Inl r \<Rightarrow> Some (r, e2)
                               | Inr e3 \<Rightarrow> Some (success [(''Stake'',
                                   [(''sender'', hex_with_prefix (hex cr) (st_sender t)),
                                    (''amount'', show_nat (unat (st_amount t)))])], e3))))))))))))"

definition process_unstake_tx ::
    "node_crates \<Rightarrow> store_view \<Rightarrow> envelope \<Rightarrow> unstake_tx \<Rightarrow> outcome" where
  "process_unstake_tx cr st e t = (case coin_new (un_amount t) of
      Inl _ \<Rightarrow> Some (err_validation_failed, e)
    | Inr amt \<Rightarrow> (case load_account cr st e (un_sender t) of
        None \<Rightarrow> None
      | Some None \<Rightarrow> Some (err_sender_doesnt_exist, e)
      | Some (Some (sacc, sh)) \<Rightarrow> (case load_staking cr st e (un_sender t) of
          None \<Rightarrow> None
        | Some None \<Rightarrow> Some (err_insufficient_stake, e)
        | Some (Some (sk, kh)) \<Rightarrow>
           (if amount (stake_balance sk) < amount amt then Some (err_insufficient_stake, e)
            else (case coin_sub (stake_balance sk) amt of
              Inl _ \<Rightarrow> Some (err_validation_failed, e)
            | Inr stake \<Rightarrow> (case stage_staking cr e (un_sender t) kh (sk\<lparr>stake_balance := stake\<rparr>) of
                None \<Rightarrow> None
              | Some e1 \<Rightarrow> (case coin_add (acc_balance sacc) amt of
                  Inl _ \<Rightarrow> Some (err_validation_failed, e1)
                | Inr bal \<Rightarrow> (case stage_account cr e1 (un_sender t) sh (sacc\<lparr>acc_balance := bal\<rparr>) of
                    None \<Rightarrow> None
                  | Some e2 \<Rightarrow> Some (success [(''Unstake'',
                      [(''sender'', hex_with_prefix (hex cr) (un_sender t)),
                       (''amount'', show_nat (unat (un_amount t)))])], e2)))))))))"

section \<open>Capacity registration\<close>

definition register_entry ::
    "protocol_constants \<Rightarrow> envelope \<Rightarrow> register_capacity_tx \<Rightarrow> public_key \<Rightarrow> capacity_validator_info" where
  "register_entry pc e t pk = \<lparr>cv_address = rc_sender t, cv_stake = coin_zero, cv_public_key = pk,
     storage_capacity = rc_capacity_bytes t, merkle_root = Some (rc_merkle_root t),
     cv_seed = Some (rc_seed t), chunk_count = Some (rc_chunk_count t),
     registered_at = Some (word_of_int (block_height e)),
     last_merkle_root_update = Some (word_of_int (block_height e)),
     registered_block = word_of_int (block_height e + 1),
     registration_duration = registration_duration_blocks pc\<rparr>"

definition reregister_entry ::
    "protocol_constants \<Rightarrow> envelope \<Rightarrow> register_capacity_tx \<Rightarrow> capacity_validator_info \<Rightarrow> capacity_validator_info" where
  "reregister_entry pc e t p = p\<lparr>merkle_root := Some (rc_merkle_root t), cv_seed := Some (rc_seed t),
     chunk_count := Some (rc_chunk_count t), storage_capacity := rc_capacity_bytes t,
     registered_at := (case registered_at p of None \<Rightarrow> Some (word_of_int (block_height e)) | Some x \<Rightarrow> Some x),
     last_merkle_root_update := Some (word_of_int (block_height e)),
     registered_block := word_of_int (block_height e + 1),
     registration_duration := registration_duration_blocks pc\<rparr>"

definition process_register_capacity_tx ::
    "node_crates \<Rightarrow> protocol_constants \<Rightarrow> store_view \<Rightarrow> envelope \<Rightarrow> register_capacity_tx \<Rightarrow> string \<Rightarrow> outcome" where
  "process_register_capacity_tx cr pc st e t outer_public_key =
    (case to_verifying_key cr outer_public_key of
       Inl _ \<Rightarrow> Some (err_invalid_public_key_format, e)
     | Inr vk \<Rightarrow>
        (if \<not> is_from_public_key (sha256 cr) (rc_sender t) vk then Some (err_validation_failed, e)
         else (case load_account cr st e (rc_sender t) of
           None \<Rightarrow> None
         | Some None \<Rightarrow> Some (err_sender_doesnt_exist, e)
         | Some (Some _) \<Rightarrow>
            (let ev = [(''RegisterCapacity'',
                 [(''sender'', hex_with_prefix (hex cr) (rc_sender t)),
                  (''capacity_bytes'', show_nat (unat (rc_capacity_bytes t))),
                  (''chunk_count'', show_nat (unat (rc_chunk_count t))),
                  (''merkle_root'', hex_encode (hex cr) (rc_merkle_root t)),
                  (''seed'', hex_encode (hex cr) (rc_seed t)),
                  (''registered_at'', show_int (block_height e))])];
                 is_me = (\<lambda>p. cv_address p = rc_sender t) in
             case List.find is_me (capacity_validators e) of
               None \<Rightarrow> Some (success ev, e\<lparr>capacity_validators :=
                         capacity_validators e @ [register_entry pc e t (PublicKey vk)]\<rparr>)
             | Some p \<Rightarrow>
                 if cv_public_key p \<noteq> PublicKey vk then Some (err_validation_failed, e)
                 else Some (success ev, e\<lparr>capacity_validators :=
                        update_first is_me (reregister_entry pc e t) (capacity_validators e)\<rparr>)))))"

definition process_unregister_capacity_tx ::
    "node_crates \<Rightarrow> store_view \<Rightarrow> envelope \<Rightarrow> unregister_capacity_tx \<Rightarrow> outcome" where
  "process_unregister_capacity_tx cr st e t = (case load_account cr st e (uc_sender t) of
      None \<Rightarrow> None
    | Some None \<Rightarrow> Some (err_sender_doesnt_exist, e)
    | Some (Some _) \<Rightarrow> Some (success [(''UnregisterCapacity'',
          [(''sender'', hex_with_prefix (hex cr) (uc_sender t)),
           (''unregister'', if unregister t then ''true'' else ''false'')])],
        e\<lparr>capacity_validators := filter (\<lambda>p. cv_address p \<noteq> uc_sender t) (capacity_validators e)\<rparr>))"

definition process_update_capacity_merkle_root_tx ::
    "node_crates \<Rightarrow> store_view \<Rightarrow> envelope \<Rightarrow> update_capacity_merkle_root_tx \<Rightarrow> outcome" where
  "process_update_capacity_merkle_root_tx cr st e t = (case load_account cr st e (um_sender t) of
      None \<Rightarrow> None
    | Some None \<Rightarrow> Some (err_sender_doesnt_exist, e)
    | Some (Some _) \<Rightarrow>
       (if \<not> list_ex (\<lambda>p. cv_address p = um_sender t) (capacity_validators e)
        then Some (err_validation_failed, e)
        else Some (success [(''UpdateCapacityMerkleRoot'',
          [(''sender'', hex_with_prefix (hex cr) (um_sender t)),
           (''merkle_root'', hex_encode (hex cr) (um_merkle_root t)),
           (''block_height'', show_int (block_height e))])],
          e\<lparr>capacity_validators := update_first (\<lambda>p. cv_address p = um_sender t)
             (\<lambda>p. p\<lparr>merkle_root := Some (um_merkle_root t),
                     last_merkle_root_update := Some (word_of_int (block_height e))\<rparr>)
             (capacity_validators e)\<rparr>)))"

section \<open>Pinboard posts\<close>

definition post_metadata :: "protocol_constants \<Rightarrow> envelope \<Rightarrow> post_message_tx \<Rightarrow> pinboard_metadata" where
  "post_metadata pc e t =
    (let committed_height = (word_of_int (block_height e + 1) :: u64);
         ttl = (if pm_expires_height t = 0 then default_pinboard_post_ttl_blocks pc else pm_expires_height t) in
     \<lparr>pb_message_id = pm_message_id t, pb_original_signer = pm_original_signer t,
      pb_content_key = pm_content_key t, pb_content_type = pm_content_type t,
      pb_expires_height = saturating_add committed_height ttl, pb_visibility = pm_visibility t,
      pb_topic = pm_topic t, pb_tags = pm_tags t, pb_committed_height = committed_height,
      pb_received_timestamp = pm_received_timestamp t, pb_namespace = pm_namespace t\<rparr>)"

definition stage_post :: "node_crates \<Rightarrow> envelope \<Rightarrow> pinboard_metadata \<Rightarrow> envelope" where
  "stage_post cr e m =
    (let h = pb_committed_height m; i = pb_message_id m; k = pb_content_key m in
     e\<lparr>pinboard_meta_cache := bt_insert i m (pinboard_meta_cache e),
       pinboard_idx_wallet_add := pinboard_idx_wallet_add e
          @ [(hex_with_prefix (hex cr) (pb_original_signer m), h, i)],
       pinboard_idx_tag_add := pinboard_idx_tag_add e @ map (\<lambda>tag. (tag, h, i)) (pb_tags m),
       pinboard_idx_expiry_add := pinboard_idx_expiry_add e @ [(pb_expires_height m, i)],
       pinboard_idx_commit_add := pinboard_idx_commit_add e @ [(h, i)],
       pinboard_refcount_deltas := bt_insert k
          ((case map_of (pinboard_refcount_deltas e) k of None \<Rightarrow> 0 | Some n \<Rightarrow> n) + 1)
          (pinboard_refcount_deltas e)\<rparr>)"

text \<open>A missing local blob only triggers a peer-to-peer request, which is outside the state.\<close>

definition process_post_message_tx ::
    "node_crates \<Rightarrow> protocol_constants \<Rightarrow> store_view \<Rightarrow> envelope \<Rightarrow> post_message_tx \<Rightarrow> outcome" where
  "process_post_message_tx cr pc st e t =
    (case validate_namespace_upload_authorization (pm_namespace t) (pm_original_signer t)
            (resolve_namespace cr e) of
       Inl _ \<Rightarrow> Some (err_validation_failed, e)
     | Inr _ \<Rightarrow> Some (success [], stage_post cr e (post_metadata pc e t)))"

section \<open>Namespaces\<close>

definition process_add_namespace_tx ::
    "node_crates \<Rightarrow> store_view \<Rightarrow> envelope \<Rightarrow> add_namespace_tx \<Rightarrow> outcome" where
  "process_add_namespace_tx cr st e t = (case coin_new (an_registration_fee t) of
      Inl _ \<Rightarrow> Some (err_validation_failed, e)
    | Inr fee \<Rightarrow> (case validate_add_namespace_not_taken cr e (an_namespace_slug t) of
        Inl _ \<Rightarrow> Some (err_validation_failed, e)
      | Inr _ \<Rightarrow> (case slug_to_namespace_cadopath (hex cr) (an_namespace_slug t) of
          Inl _ \<Rightarrow> Some (err_validation_failed, e)
        | Inr registry_path \<Rightarrow>
           (if fee = coin_zero then Some (err_validation_failed, e)
            else (case load_account cr st e (an_sender t) of
              None \<Rightarrow> None
            | Some None \<Rightarrow> Some (err_sender_doesnt_exist, e)
            | Some (Some (sacc, sh)) \<Rightarrow>
               (if amount (acc_balance sacc) < amount fee then Some (err_insufficient_funds, e)
                else (case coin_sub (acc_balance sacc) fee of
                  Inl _ \<Rightarrow> Some (err_validation_failed, e)
                | Inr bal \<Rightarrow>
                   (case stage_account cr e (an_sender t) sh
                           \<lparr>acc_address = an_sender t, acc_balance = bal, acc_nonce = acc_nonce sacc\<rparr> of
                      None \<Rightarrow> None
                    | Some e1 \<Rightarrow> Some (success [(''AddNamespace'',
                        [(''namespace'', an_namespace_slug t),
                         (''owner'', hex_with_prefix (hex cr) (an_sender t)),
                         (''registry_path'', path_str registry_path)])],
                        e1\<lparr>namespace_registry_cache := bt_insert (an_namespace_slug t)
                           \<lparr>namespace_slug = an_namespace_slug t, ns_owner = an_sender t,
                            registered_height = word_of_int (block_height e1 + 1)\<rparr>
                           (namespace_registry_cache e1)\<rparr>)))))))))"

section \<open>Shared facts\<close>

named_theorems handler_codes "the ABCI codes of the responses"

lemma response_codes [handler_codes]:
  "code (fail n) = n" "code (success ev) = 0"
  "code err_insufficient_stake = 1" "code err_minimum_stake = 2" "code err_insufficient_funds = 5"
  "code err_sender_doesnt_exist = 9" "code err_validation_failed = 51"
  "code err_invalid_public_key_format = 56" "code err_invalid_public_key_length = 57"
  by (simp_all add: fail_def success_def err_insufficient_stake_def err_minimum_stake_def
      err_insufficient_funds_def err_sender_doesnt_exist_def err_validation_failed_def
      err_invalid_public_key_format_def err_invalid_public_key_length_def)

lemma amount_less_coins: "amount c < w \<longleftrightarrow> coins c < unat w"
  by (simp add: word_less_nat_alt)

lemma coin_new_le: "w \<le> MAX_COIN \<Longrightarrow> coin_new w = Inr (Coin w)"
  by (simp add: coin_new_Inr)

lemma account_of_balance: "account_of cr st e a = Some (acc, h) \<Longrightarrow> balance_of cr st e a = coins (acc_balance acc)"
  by (simp add: balance_of_def)

lemma account_of_none_balance: "account_of cr st e a = None \<Longrightarrow> balance_of cr st e a = 0"
  by (simp add: balance_of_def)

lemma staking_of_stake: "staking_of cr st e a = Some (s, h) \<Longrightarrow> stake_of cr st e a = coins (stake_balance s)"
  by (simp add: stake_of_def)

lemma staking_of_none_stake: "staking_of cr st e a = None \<Longrightarrow> stake_of cr st e a = 0"
  by (simp add: stake_of_def)

lemmas money_simps = account_of_balance account_of_none_balance staking_of_stake staking_of_none_stake

lemma account_ok_update: "account_ok acc \<Longrightarrow> coin_ok c \<Longrightarrow> account_ok (acc\<lparr>acc_balance := c\<rparr>)"
  by (simp add: account_ok_def)

lemma staking_ok_update: "staking_ok s \<Longrightarrow> coin_ok c \<Longrightarrow> staking_ok (s\<lparr>stake_balance := c\<rparr>)"
  by (simp add: staking_ok_def)

lemma new_account_ok: "wf_address a \<Longrightarrow> account_ok (new_account a)"
  by (simp add: account_ok_def new_account_def)

lemma new_account_simps [simp]:
  "acc_balance (new_account a) = coin_zero" "stake_balance (new_staking_account a) = coin_zero"
  by (simp_all add: new_account_def new_staking_account_def)

lemma new_staking_account_ok: "wf_address a \<Longrightarrow> staking_ok (new_staking_account a)"
  by (simp add: staking_ok_def new_staking_account_def)

text \<open>The account a handler works on: the stored one, or a fresh one with the zero hash.\<close>

definition account_or_new :: "node_crates \<Rightarrow> store_view \<Rightarrow> envelope \<Rightarrow> address \<Rightarrow> account \<times> bytes" where
  "account_or_new cr st e a = (case account_of cr st e a of Some x \<Rightarrow> x | None \<Rightarrow> (new_account a, zero_hash))"

definition staking_or_new :: "node_crates \<Rightarrow> store_view \<Rightarrow> envelope \<Rightarrow> address \<Rightarrow> staking_account \<times> bytes" where
  "staking_or_new cr st e a = (case staking_of cr st e a of Some x \<Rightarrow> x | None \<Rightarrow> (new_staking_account a, zero_hash))"

lemma account_or_new_facts:
  assumes "documented cr" "wf_address a" "account_or_new cr st e a = (acc, h)"
  shows "account_ok acc" "coins (acc_balance acc) = balance_of cr st e a"
proof -
  show "account_ok acc"
    using assms account_of_ok(1) [OF assms(1)] new_account_ok
    by (cases "account_of cr st e a") (auto simp: account_or_new_def)
  show "coins (acc_balance acc) = balance_of cr st e a"
    using assms(3) by (cases "account_of cr st e a") (auto simp: account_or_new_def new_account_def balance_of_def)
qed

lemma staking_or_new_facts:
  assumes "documented cr" "wf_address a" "staking_or_new cr st e a = (s, h)"
  shows "staking_ok s" "coins (stake_balance s) = stake_of cr st e a"
proof -
  show "staking_ok s"
    using assms staking_of_ok [OF assms(1)] new_staking_account_ok
    by (cases "staking_of cr st e a") (auto simp: staking_or_new_def)
  show "coins (stake_balance s) = stake_of cr st e a"
    using assms(3) by (cases "staking_of cr st e a") (auto simp: staking_or_new_def new_staking_account_def stake_of_def)
qed

text \<open>Debits and credits never panic: the new balance is in range and the account can be staged.\<close>

lemma debit_account:
  assumes "documented cr" "wf_address a" "account_ok acc" "unat w \<le> coins (acc_balance acc)"
  obtains bal e1 where "coin_sub (acc_balance acc) (Coin w) = Inr bal"
    "coins bal + unat w = coins (acc_balance acc)" "account_ok (acc\<lparr>acc_balance := bal\<rparr>)"
    "stage_account cr e a h (acc\<lparr>acc_balance := bal\<rparr>) = Some e1"
proof -
  have "coin_ok (acc_balance acc)" using assms(3) by (simp add: account_ok_def)
  note sub = coin_sub_Inr [OF this] coin_sub_Inl [OF this]
  obtain bal where bal: "coin_sub (acc_balance acc) (Coin w) = Inr bal"
    using assms(4) by (cases "coin_sub (acc_balance acc) (Coin w)") (auto simp: sub)
  then have "coins bal + unat w = coins (acc_balance acc)" by (simp add: sub)
  moreover note ok = account_ok_update [OF assms(3) coin_sub_ok [OF bal]]
  moreover obtain e1 where "stage_account cr e a h (acc\<lparr>acc_balance := bal\<rparr>) = Some e1"
    using stage_account_Some [OF assms(1,2) ok] .
  ultimately show thesis using that bal by blast
qed

lemma credit_account:
  assumes "documented cr" "wf_address a" "account_ok acc" "coins (acc_balance acc) + unat w \<le> unat MAX_COIN"
  obtains bal e1 where "coin_add (acc_balance acc) (Coin w) = Inr bal"
    "coins bal = coins (acc_balance acc) + unat w" "account_ok (acc\<lparr>acc_balance := bal\<rparr>)"
    "stage_account cr e a h (acc\<lparr>acc_balance := bal\<rparr>) = Some e1"
proof -
  obtain bal where bal: "coin_add (acc_balance acc) (Coin w) = Inr bal"
    using assms(4) by (cases "coin_add (acc_balance acc) (Coin w)") (auto simp: coin_add_Inl)
  then have "coins bal = coins (acc_balance acc) + unat w" by (simp add: coin_add_Inr)
  moreover note ok = account_ok_update [OF assms(3) coin_add_ok [OF bal]]
  moreover obtain e1 where "stage_account cr e a h (acc\<lparr>acc_balance := bal\<rparr>) = Some e1"
    using stage_account_Some [OF assms(1,2) ok] .
  ultimately show thesis using that bal by blast
qed

lemma debit_staking:
  assumes "documented cr" "wf_address a" "staking_ok s" "unat w \<le> coins (stake_balance s)"
  obtains bal e1 where "coin_sub (stake_balance s) (Coin w) = Inr bal"
    "coins bal + unat w = coins (stake_balance s)" "staking_ok (s\<lparr>stake_balance := bal\<rparr>)"
    "stage_staking cr e a h (s\<lparr>stake_balance := bal\<rparr>) = Some e1"
proof -
  have "coin_ok (stake_balance s)" using assms(3) by (simp add: staking_ok_def)
  note sub = coin_sub_Inr [OF this] coin_sub_Inl [OF this]
  obtain bal where bal: "coin_sub (stake_balance s) (Coin w) = Inr bal"
    using assms(4) by (cases "coin_sub (stake_balance s) (Coin w)") (auto simp: sub)
  then have "coins bal + unat w = coins (stake_balance s)" by (simp add: sub)
  moreover note ok = staking_ok_update [OF assms(3) coin_sub_ok [OF bal]]
  moreover obtain e1 where "stage_staking cr e a h (s\<lparr>stake_balance := bal\<rparr>) = Some e1"
    using stage_staking_Some [OF assms(1,2) ok] .
  ultimately show thesis using that bal by blast
qed

lemma credit_staking:
  assumes "documented cr" "wf_address a" "staking_ok s" "coins (stake_balance s) + unat w \<le> unat MAX_COIN"
  obtains bal e1 where "coin_add (stake_balance s) (Coin w) = Inr bal"
    "coins bal = coins (stake_balance s) + unat w" "staking_ok (s\<lparr>stake_balance := bal\<rparr>)"
    "stage_staking cr e a h (s\<lparr>stake_balance := bal\<rparr>) = Some e1"
proof -
  obtain bal where bal: "coin_add (stake_balance s) (Coin w) = Inr bal"
    using assms(4) by (cases "coin_add (stake_balance s) (Coin w)") (auto simp: coin_add_Inl)
  then have "coins bal = coins (stake_balance s) + unat w" by (simp add: coin_add_Inr)
  moreover note ok = staking_ok_update [OF assms(3) coin_add_ok [OF bal]]
  moreover obtain e1 where "stage_staking cr e a h (s\<lparr>stake_balance := bal\<rparr>) = Some e1"
    using stage_staking_Some [OF assms(1,2) ok] .
  ultimately show thesis using that bal by blast
qed

section \<open>Transfer behaviour\<close>

text \<open>With documented crates and 20-byte addresses the handler is a decision over the two
  balances, followed by at most two writes.\<close>

lemma transfer_missing_sender:
  assumes "documented cr" "wf_address (tr_sender t)" "tr_amount t \<le> MAX_COIN" "account_of cr st e (tr_sender t) = None"
  shows "process_transfer_tx cr st e t = Some (err_sender_doesnt_exist, e)"
  using assms by (simp add: process_transfer_tx_def load_account_eq coin_new_def not_less)

lemma transfer_unfold:
  assumes "documented cr" "wf_address (tr_sender t)" "wf_address (tr_recipient t)"
    and "tr_amount t \<le> MAX_COIN" "account_of cr st e (tr_sender t) = Some (sacc, sh)"
    and "account_or_new cr st e (tr_recipient t) = (racc, rh)"
  shows "process_transfer_tx cr st e t =
      (if coins (acc_balance sacc) < unat (tr_amount t) then Some (err_insufficient_funds, e)
       else case coin_sub (acc_balance sacc) (Coin (tr_amount t)) of Inl _ \<Rightarrow> Some (err_validation_failed, e)
        | Inr sbal \<Rightarrow> (case stage_account cr e (tr_sender t) sh (sacc\<lparr>acc_balance := sbal\<rparr>) of None \<Rightarrow> None
          | Some e1 \<Rightarrow> (case coin_add (acc_balance racc) (Coin (tr_amount t)) of
              Inl _ \<Rightarrow> Some (err_validation_failed, e1)
            | Inr rbal \<Rightarrow> (case stage_account cr e1 (tr_recipient t) rh (racc\<lparr>acc_balance := rbal\<rparr>) of None \<Rightarrow> None
              | Some e2 \<Rightarrow> Some (success [(''Transfer'',
                    [(''sender'', hex_with_prefix (hex cr) (tr_sender t)),
                     (''recipient'', hex_with_prefix (hex cr) (tr_recipient t)),
                     (''amount'', show_nat (unat (tr_amount t)))])], e2)))))"
  using assms
  by (auto simp: process_transfer_tx_def load_account_eq coin_new_def not_less account_or_new_def
      amount_less_coins split: option.splits)

lemma transfer_cases [consumes 6, case_names poor full moved]:
  assumes doc: "documented cr" and wf: "wf_address (tr_sender t)" "wf_address (tr_recipient t)"
    and amt: "tr_amount t \<le> MAX_COIN"
    and s: "account_of cr st e (tr_sender t) = Some (sacc, sh)"
    and r: "account_or_new cr st e (tr_recipient t) = (racc, rh)"
  obtains (poor) "coins (acc_balance sacc) < unat (tr_amount t)"
      "process_transfer_tx cr st e t = Some (err_insufficient_funds, e)"
  | (full) sbal e1 where "unat (tr_amount t) \<le> coins (acc_balance sacc)"
      "coins (acc_balance racc) + unat (tr_amount t) > unat MAX_COIN"
      "coins sbal + unat (tr_amount t) = coins (acc_balance sacc)" "account_ok (sacc\<lparr>acc_balance := sbal\<rparr>)"
      "stage_account cr e (tr_sender t) sh (sacc\<lparr>acc_balance := sbal\<rparr>) = Some e1"
      "process_transfer_tx cr st e t = Some (err_validation_failed, e1)"
  | (moved) sbal e1 rbal e2 ev where "unat (tr_amount t) \<le> coins (acc_balance sacc)"
      "coins (acc_balance racc) + unat (tr_amount t) \<le> unat MAX_COIN"
      "coins sbal + unat (tr_amount t) = coins (acc_balance sacc)" "account_ok (sacc\<lparr>acc_balance := sbal\<rparr>)"
      "stage_account cr e (tr_sender t) sh (sacc\<lparr>acc_balance := sbal\<rparr>) = Some e1"
      "coins rbal = coins (acc_balance racc) + unat (tr_amount t)" "account_ok (racc\<lparr>acc_balance := rbal\<rparr>)"
      "stage_account cr e1 (tr_recipient t) rh (racc\<lparr>acc_balance := rbal\<rparr>) = Some e2"
      "process_transfer_tx cr st e t = Some (success ev, e2)"
proof (cases "coins (acc_balance sacc) < unat (tr_amount t)")
  case True
  then show thesis using poor transfer_unfold [OF assms] by simp
next
  case False
  note un = transfer_unfold [OF assms]
  have le: "unat (tr_amount t) \<le> coins (acc_balance sacc)" using False by simp
  obtain sbal e1 where d: "coin_sub (acc_balance sacc) (Coin (tr_amount t)) = Inr sbal"
    "coins sbal + unat (tr_amount t) = coins (acc_balance sacc)" "account_ok (sacc\<lparr>acc_balance := sbal\<rparr>)"
    "stage_account cr e (tr_sender t) sh (sacc\<lparr>acc_balance := sbal\<rparr>) = Some e1"
    using debit_account [OF doc wf(1) account_of_ok(1) [OF doc s] le] .
  show thesis
  proof (cases "coins (acc_balance racc) + unat (tr_amount t) \<le> unat MAX_COIN")
    case True
    obtain rbal e2 where "coin_add (acc_balance racc) (Coin (tr_amount t)) = Inr rbal"
      "coins rbal = coins (acc_balance racc) + unat (tr_amount t)" "account_ok (racc\<lparr>acc_balance := rbal\<rparr>)"
      "stage_account cr e1 (tr_recipient t) rh (racc\<lparr>acc_balance := rbal\<rparr>) = Some e2"
      using credit_account [OF doc wf(2) account_or_new_facts(1) [OF doc wf(2) r] True] .
    with True d le un show thesis by (intro moved [OF le True d(2,3,4)]) simp_all
  next
    case no: False
    then obtain x where "coin_add (acc_balance racc) (Coin (tr_amount t)) = Inl x"
      by (auto simp: coin_add_Inl)
    with no d le un show thesis by (intro full [OF le _ d(2,3,4)]) simp_all
  qed
qed

section \<open>Stake and unstake behaviour\<close>

lemma accounts_frame:
  assumes "cado_cache e' = cado_cache e" "committed_cado_cache e' = committed_cado_cache e"
  shows "account_of cr st e' a = account_of cr st e a" "staking_of cr st e' a = staking_of cr st e a"
    "balance_of cr st e' a = balance_of cr st e a" "stake_of cr st e' a = stake_of cr st e a"
    "total_supply cr st e' A = total_supply cr st e A"
proof -
  have "lookup_cado st e' p = lookup_cado st e p" for p unfolding lookup_cado_def assms ..
  then show acc: "account_of cr st e' a = account_of cr st e a" "staking_of cr st e' a = staking_of cr st e a"
    for a
    by (simp_all add: account_of_def staking_of_def get_account_from_cado_def get_staking_account_from_cado_def
        cong: sum.case_cong)
  show "balance_of cr st e' a = balance_of cr st e a" "stake_of cr st e' a = stake_of cr st e a"
    "total_supply cr st e' A = total_supply cr st e A"
    by (simp_all add: total_supply_def balance_of_def stake_of_def acc)
qed

lemma stake_unfold:
  assumes "documented cr" "wf_address (st_sender t)" "st_amount t \<le> MAX_COIN"
    and "account_of cr st e (st_sender t) = Some (sacc, sh)"
    and "staking_or_new cr st e (st_sender t) = (sk, kh)"
  shows "process_stake_tx cr pc st e t =
      (if coins (acc_balance sacc) < unat (st_amount t) then Some (err_insufficient_funds, e)
       else (case stake_amount_check pc (stake_balance sk) (Coin (st_amount t)) of Some r \<Rightarrow> Some (r, e)
         | None \<Rightarrow> (case coin_sub (acc_balance sacc) (Coin (st_amount t)) of
             Inl _ \<Rightarrow> Some (err_validation_failed, e)
           | Inr sbal \<Rightarrow> (case stage_account cr e (st_sender t) sh (sacc\<lparr>acc_balance := sbal\<rparr>) of
               None \<Rightarrow> None
             | Some e1 \<Rightarrow> (case coin_add (stake_balance sk) (Coin (st_amount t)) of
                 Inl _ \<Rightarrow> Some (err_validation_failed, e1)
               | Inr stake \<Rightarrow> (case stage_staking cr e1 (st_sender t) kh (sk\<lparr>stake_balance := stake\<rparr>) of
                   None \<Rightarrow> None
                 | Some e2 \<Rightarrow> (case stake_public_key_step cr e2 t stake of
                     Inl r \<Rightarrow> Some (r, e2)
                   | Inr e3 \<Rightarrow> Some (success [(''Stake'',
                       [(''sender'', hex_with_prefix (hex cr) (st_sender t)),
                        (''amount'', show_nat (unat (st_amount t)))])], e3))))))))"
  using assms
  by (cases "staking_of cr st e (st_sender t)")
    (auto simp: process_stake_tx_def load_account_eq load_staking_eq coin_new_le
      staking_or_new_def amount_less_coins split_beta cong: option.case_cong sum.case_cong)

lemma stake_amount_check_code:
  "stake_amount_check pc s a = Some r \<Longrightarrow> code r \<noteq> 0"
  by (auto simp: stake_amount_check_def handler_codes split: if_splits sum.splits)

lemma stake_amount_check_None:
  "stake_amount_check pc s a = None \<Longrightarrow> coins s = 0 \<Longrightarrow> coins (min_stake_amount pc) \<le> coins a"
  by (auto simp: stake_amount_check_def coin_is_zero_iff coin_new_Inr amount_less_coins
      split: if_splits sum.splits)

lemma stake_public_key_step_Inr:
  "stake_public_key_step cr e t s = Inr e' \<Longrightarrow> \<exists>v. e' = e\<lparr>validators := v\<rparr>"
  by (auto simp: stake_public_key_step_def split: option.splits if_splits intro: exI [of _ "validators e"])

lemma stake_public_key_step_code:
  "stake_public_key_step cr e t s = Inl r \<Longrightarrow> code r \<noteq> 0"
  by (auto simp: stake_public_key_step_def handler_codes split: option.splits if_splits)

lemma stake_success:
  assumes doc: "documented cr" and wf: "wf_address (st_sender t)"
    and run: "process_stake_tx cr pc st e t = Some (r, e')" and ok: "code r = 0"
  obtains sacc sh sk kh sbal stake e1 e2 v where
    "account_of cr st e (st_sender t) = Some (sacc, sh)" "staking_or_new cr st e (st_sender t) = (sk, kh)"
    "coins sbal + unat (st_amount t) = coins (acc_balance sacc)" "account_ok (sacc\<lparr>acc_balance := sbal\<rparr>)"
    "coins stake = coins (stake_balance sk) + unat (st_amount t)" "staking_ok (sk\<lparr>stake_balance := stake\<rparr>)"
    "stage_account cr e (st_sender t) sh (sacc\<lparr>acc_balance := sbal\<rparr>) = Some e1"
    "stage_staking cr e1 (st_sender t) kh (sk\<lparr>stake_balance := stake\<rparr>) = Some e2"
    "e' = e2\<lparr>validators := v\<rparr>"
    "coins (stake_balance sk) = 0 \<Longrightarrow> coins (min_stake_amount pc) \<le> unat (st_amount t)"
proof -
  have amt: "st_amount t \<le> MAX_COIN"
    using run ok by (auto simp: process_stake_tx_def coin_new_def handler_codes split: if_splits)
  obtain sacc sh where s: "account_of cr st e (st_sender t) = Some (sacc, sh)"
    using run ok amt doc wf
    by (cases "account_of cr st e (st_sender t)")
      (auto simp: process_stake_tx_def load_account_eq coin_new_def handler_codes not_less split: if_splits)
  obtain sk kh where k: "staking_or_new cr st e (st_sender t) = (sk, kh)" by fastforce
  note un = stake_unfold [OF doc wf amt s k, of pc]
  have le: "unat (st_amount t) \<le> coins (acc_balance sacc)"
    and chk: "stake_amount_check pc (stake_balance sk) (Coin (st_amount t)) = None"
    using run ok unfolding un
    by (auto simp: handler_codes dest: stake_amount_check_code split: if_splits option.splits)
  obtain sbal e1 where d: "coin_sub (acc_balance sacc) (Coin (st_amount t)) = Inr sbal"
    "coins sbal + unat (st_amount t) = coins (acc_balance sacc)" "account_ok (sacc\<lparr>acc_balance := sbal\<rparr>)"
    "stage_account cr e (st_sender t) sh (sacc\<lparr>acc_balance := sbal\<rparr>) = Some e1"
    using debit_account [OF doc wf account_of_ok(1) [OF doc s] le] .
  from run ok le chk d obtain stake where add: "coin_add (stake_balance sk) (Coin (st_amount t)) = Inr stake"
    unfolding un by (cases "coin_add (stake_balance sk) (Coin (st_amount t))") (auto simp: handler_codes)
  note kok = staking_ok_update [OF staking_or_new_facts(1) [OF doc wf k] coin_add_ok [OF add]]
  obtain e2 where e2: "stage_staking cr e1 (st_sender t) kh (sk\<lparr>stake_balance := stake\<rparr>) = Some e2"
    using stage_staking_Some [OF doc wf kok] .
  from run ok le chk d add e2 obtain v where v: "e' = e2\<lparr>validators := v\<rparr>"
    unfolding un by (auto dest!: stake_public_key_step_Inr stake_public_key_step_code split: sum.splits)
  show thesis
    using that [OF s k d(2,3) _ kok d(4) e2 v] add stake_amount_check_None [OF chk] by (simp add: coin_add_Inr)
qed

lemma unstake_unfold:
  assumes "documented cr" "wf_address (un_sender t)" "un_amount t \<le> MAX_COIN"
    and "account_of cr st e (un_sender t) = Some (sacc, sh)"
    and "staking_of cr st e (un_sender t) = Some (sk, kh)"
  shows "process_unstake_tx cr st e t =
      (if coins (stake_balance sk) < unat (un_amount t) then Some (err_insufficient_stake, e)
       else (case coin_sub (stake_balance sk) (Coin (un_amount t)) of Inl _ \<Rightarrow> Some (err_validation_failed, e)
         | Inr stake \<Rightarrow> (case stage_staking cr e (un_sender t) kh (sk\<lparr>stake_balance := stake\<rparr>) of None \<Rightarrow> None
           | Some e1 \<Rightarrow> (case coin_add (acc_balance sacc) (Coin (un_amount t)) of
               Inl _ \<Rightarrow> Some (err_validation_failed, e1)
             | Inr bal \<Rightarrow> (case stage_account cr e1 (un_sender t) sh (sacc\<lparr>acc_balance := bal\<rparr>) of None \<Rightarrow> None
               | Some e2 \<Rightarrow> Some (success [(''Unstake'',
                      [(''sender'', hex_with_prefix (hex cr) (un_sender t)),
                       (''amount'', show_nat (unat (un_amount t)))])], e2))))))"
  using assms
  by (simp add: process_unstake_tx_def load_account_eq load_staking_eq coin_new_le amount_less_coins)

lemma unstake_success:
  assumes doc: "documented cr" and wf: "wf_address (un_sender t)"
    and run: "process_unstake_tx cr st e t = Some (r, e')" and ok: "code r = 0"
  obtains sacc sh sk kh bal stake e1 where
    "account_of cr st e (un_sender t) = Some (sacc, sh)" "staking_of cr st e (un_sender t) = Some (sk, kh)"
    "coins stake + unat (un_amount t) = coins (stake_balance sk)" "staking_ok (sk\<lparr>stake_balance := stake\<rparr>)"
    "coins bal = coins (acc_balance sacc) + unat (un_amount t)" "account_ok (sacc\<lparr>acc_balance := bal\<rparr>)"
    "stage_staking cr e (un_sender t) kh (sk\<lparr>stake_balance := stake\<rparr>) = Some e1"
    "stage_account cr e1 (un_sender t) sh (sacc\<lparr>acc_balance := bal\<rparr>) = Some e'"
proof -
  have amt: "un_amount t \<le> MAX_COIN"
    using run ok by (auto simp: process_unstake_tx_def coin_new_def handler_codes split: if_splits)
  obtain sacc sh where s: "account_of cr st e (un_sender t) = Some (sacc, sh)"
    using run ok amt doc wf
    by (cases "account_of cr st e (un_sender t)")
      (auto simp: process_unstake_tx_def load_account_eq coin_new_def handler_codes not_less split: if_splits)
  obtain sk kh where k: "staking_of cr st e (un_sender t) = Some (sk, kh)"
    using run ok amt doc wf s
    by (cases "staking_of cr st e (un_sender t)")
      (auto simp: process_unstake_tx_def load_account_eq load_staking_eq coin_new_def handler_codes not_less
        split: if_splits)
  note un = unstake_unfold [OF doc wf amt s k]
  have le: "unat (un_amount t) \<le> coins (stake_balance sk)"
    using run ok unfolding un by (auto simp: handler_codes split: if_splits)
  obtain stake e1 where d: "coin_sub (stake_balance sk) (Coin (un_amount t)) = Inr stake"
    "coins stake + unat (un_amount t) = coins (stake_balance sk)" "staking_ok (sk\<lparr>stake_balance := stake\<rparr>)"
    "stage_staking cr e (un_sender t) kh (sk\<lparr>stake_balance := stake\<rparr>) = Some e1"
    using debit_staking [OF doc wf staking_of_ok [OF doc k] le] .
  from run ok le d obtain bal where add: "coin_add (acc_balance sacc) (Coin (un_amount t)) = Inr bal"
    unfolding un by (cases "coin_add (acc_balance sacc) (Coin (un_amount t))") (auto simp: handler_codes)
  note aok = account_ok_update [OF account_of_ok(1) [OF doc s] coin_add_ok [OF add]]
  obtain e2 where e2: "stage_account cr e1 (un_sender t) sh (sacc\<lparr>acc_balance := bal\<rparr>) = Some e2"
    using stage_account_Some [OF doc wf aok] .
  with run le d add have "e' = e2" unfolding un by simp
  then show thesis
    using that [OF s k d(2,3) _ aok d(4)] e2 add by (simp add: coin_add_Inr)
qed

text \<open>Enough coins and room for them are all a stake or an unstake needs.\<close>

lemma stake_completes:
  assumes doc: "documented cr" and wf: "wf_address (st_sender t)" and amt: "st_amount t \<le> MAX_COIN"
    and s: "account_of cr st e (st_sender t) = Some (sacc, sh)" and pk: "st_public_key t = None"
    and le: "unat (st_amount t) \<le> coins (acc_balance sacc)"
    and room: "stake_of cr st e (st_sender t) + unat (st_amount t) \<le> unat MAX_COIN"
    and first: "coins (min_stake_amount pc) \<le> unat (st_amount t)" "0 < unat (st_amount t)"
  shows "\<exists>ev e'. process_stake_tx cr pc st e t = Some (success ev, e')"
proof -
  obtain sk kh where k: "staking_or_new cr st e (st_sender t) = (sk, kh)" by fastforce
  obtain sbal e1 where d: "coin_sub (acc_balance sacc) (Coin (st_amount t)) = Inr sbal"
    "stage_account cr e (st_sender t) sh (sacc\<lparr>acc_balance := sbal\<rparr>) = Some e1"
    using debit_account [OF doc wf account_of_ok(1) [OF doc s] le] by metis
  obtain stake e2 where c: "coin_add (stake_balance sk) (Coin (st_amount t)) = Inr stake"
    "stage_staking cr e1 (st_sender t) kh (sk\<lparr>stake_balance := stake\<rparr>) = Some e2"
    using credit_staking [OF doc wf staking_or_new_facts(1) [OF doc wf k]] room
      staking_or_new_facts(2) [OF doc wf k] by metis
  have "coin_new (amount (min_stake_amount pc)) = Inr (min_stake_amount pc)"
    using first(1) amt by (simp add: coin_new_Inr word_le_nat_alt)
  then have "stake_amount_check pc (stake_balance sk) (Coin (st_amount t)) = None"
    using first by (auto simp: stake_amount_check_def word_less_nat_alt coin_is_zero_iff)
  then show ?thesis
    using stake_unfold [OF doc wf amt s k, of pc] le d c pk by (auto simp: stake_public_key_step_def)
qed

lemma unstake_completes:
  assumes doc: "documented cr" and wf: "wf_address (un_sender t)" and amt: "un_amount t \<le> MAX_COIN"
    and s: "account_of cr st e (un_sender t) = Some (sacc, sh)"
    and k: "staking_of cr st e (un_sender t) = Some (sk, kh)"
    and le: "unat (un_amount t) \<le> coins (stake_balance sk)"
    and room: "coins (acc_balance sacc) + unat (un_amount t) \<le> unat MAX_COIN"
  shows "\<exists>ev e'. process_unstake_tx cr st e t = Some (success ev, e')"
proof -
  obtain stake e1 where "coin_sub (stake_balance sk) (Coin (un_amount t)) = Inr stake"
    "stage_staking cr e (un_sender t) kh (sk\<lparr>stake_balance := stake\<rparr>) = Some e1"
    using debit_staking [OF doc wf staking_of_ok [OF doc k] le] by metis
  moreover obtain bal e2 where "coin_add (acc_balance sacc) (Coin (un_amount t)) = Inr bal"
    "stage_account cr e1 (un_sender t) sh (sacc\<lparr>acc_balance := bal\<rparr>) = Some e2"
    using credit_account [OF doc wf account_of_ok(1) [OF doc s] room] by metis
  ultimately show ?thesis using unstake_unfold [OF doc wf amt s k] le by auto
qed

section \<open>A small ledger\<close>

declare One_nat_def [simp del]

lemma wf_demo_address [simp]: "wf_address (demo_address n)"
  by (simp add: demo_address_def)

lemma demo_address_ne: "demo_address 1 \<noteq> demo_address 2"
  by (simp add: demo_address_def)

lemma demo_envelope_parts:
  obtains e1 where
    "stage_account model_crates empty_envelope (demo_address 1) (replicate 32 0) (demo_account 1 100000 0) = Some e1"
    "stage_account model_crates e1 (demo_address 2) (replicate 32 0) (demo_account 2 50 0) = Some demo_envelope"
proof -
  have b: "(100000 :: u128) \<le> MAX_COIN" "(50 :: u128) \<le> MAX_COIN" by (simp_all add: MAX_COIN_val)
  obtain e1 where e1: "stage_account model_crates empty_envelope (demo_address 1) (replicate 32 0)
      (demo_account 1 100000 0) = Some e1" using demo_stage_Some [OF b(1)] by blast
  obtain e2 where e2: "stage_account model_crates e1 (demo_address 2) (replicate 32 0)
      (demo_account 2 50 0) = Some e2" using demo_stage_Some [OF b(2)] by blast
  show thesis using that [OF e1] e2 by (simp add: demo_envelope_def e1)
qed

lemma demo_envelope_frame: "\<exists>c. demo_envelope = empty_envelope\<lparr>cado_cache := c\<rparr>"
  by (rule demo_envelope_parts) (auto dest!: stage_frame(1))

lemma demo_envelope_fields [simp]:
  "capacity_validators demo_envelope = []" "namespace_registry_cache demo_envelope = []"
  "committed_cado_cache demo_envelope = []" "pinboard_refcount_deltas demo_envelope = []"
  "block_height demo_envelope = 0" "validators demo_envelope = []"
proof -
  obtain c where d: "demo_envelope = empty_envelope\<lparr>cado_cache := c\<rparr>" using demo_envelope_frame ..
  show "capacity_validators demo_envelope = []" "namespace_registry_cache demo_envelope = []"
      "committed_cado_cache demo_envelope = []" "pinboard_refcount_deltas demo_envelope = []"
      "block_height demo_envelope = 0" "validators demo_envelope = []"
    unfolding d by (simp_all add: empty_envelope_def)
qed

lemma demo_accounts:
  "account_of model_crates st demo_envelope (demo_address 1) = Some (demo_account 1 100000 0, zero_hash)"
  "account_of model_crates st demo_envelope (demo_address 2) = Some (demo_account 2 50 0, zero_hash)"
  "staking_of model_crates empty_store demo_envelope a = None"
proof -
  have b: "(100000 :: u128) \<le> MAX_COIN" "(50 :: u128) \<le> MAX_COIN" by (simp_all add: MAX_COIN_val)
  obtain e1 where e1: "stage_account model_crates empty_envelope (demo_address 1) (replicate 32 0)
      (demo_account 1 100000 0) = Some e1"
    and e2: "stage_account model_crates e1 (demo_address 2) (replicate 32 0) (demo_account 2 50 0) = Some demo_envelope"
    by (rule demo_envelope_parts)
  note look = account_of_stage_account [OF model_crates_documented demo_account_ok [OF b(1)] e1]
    account_of_stage_account [OF model_crates_documented demo_account_ok [OF b(2)] e2]
  show "account_of model_crates st demo_envelope (demo_address 1) = Some (demo_account 1 100000 0, zero_hash)"
    "account_of model_crates st demo_envelope (demo_address 2) = Some (demo_account 2 50 0, zero_hash)"
    using demo_address_ne by (simp_all add: look zero_hash_def)
  have "lookup_cado empty_store empty_envelope p = None" for p
    by (simp add: lookup_cado_def empty_envelope_def empty_store_def)
  then have "staking_of model_crates empty_store empty_envelope a = None"
    by (simp add: staking_of_def get_staking_account_from_cado_def split: sum.split)
  then show "staking_of model_crates empty_store demo_envelope a = None"
    by (simp add: staking_of_stage_account [OF model_crates_documented e1]
        staking_of_stage_account [OF model_crates_documented e2])
qed

lemma demo_balance_1: "acc_balance (demo_account n b k) = Coin b"
  by (simp add: demo_account_def)

lemma demo_small: "w \<le> 100000 \<Longrightarrow> w \<le> MAX_COIN" for w :: u128
  by (simp add: MAX_COIN_val) (rule order_trans, assumption, simp)

definition demo_transfer_tx :: transfer_tx where
  "demo_transfer_tx = \<lparr>tr_sender = demo_address 1, tr_recipient = demo_address 2, tr_amount = 7\<rparr>"

definition demo_stake_tx :: stake_tx where
  "demo_stake_tx = \<lparr>st_sender = demo_address 1, st_amount = 9, st_public_key = None\<rparr>"

lemma demo_transfer_runs:
  "\<exists>ev e'. process_transfer_tx model_crates empty_store demo_envelope demo_transfer_tx = Some (success ev, e')"
proof -
  have 1: "wf_address (tr_sender demo_transfer_tx)" "wf_address (tr_recipient demo_transfer_tx)"
      "tr_amount demo_transfer_tx \<le> MAX_COIN"
    by (simp_all add: demo_transfer_tx_def demo_small)
  have 2: "account_of model_crates empty_store demo_envelope (tr_sender demo_transfer_tx)
      = Some (demo_account 1 100000 0, zero_hash)"
    "account_or_new model_crates empty_store demo_envelope (tr_recipient demo_transfer_tx)
      = (demo_account 2 50 0, zero_hash)"
    by (simp_all add: demo_transfer_tx_def account_or_new_def demo_accounts)
  from model_crates_documented 1 2 show ?thesis
    by (cases rule: transfer_cases) (auto simp: demo_transfer_tx_def demo_balance_1)
qed

lemma demo_stake_runs:
  "\<exists>ev e'. process_stake_tx model_crates local_dev empty_store demo_envelope demo_stake_tx = Some (success ev, e')"
  by (rule stake_completes [OF model_crates_documented, where sacc = "demo_account 1 100000 0" and sh = zero_hash])
    (simp_all add: demo_stake_tx_def demo_small demo_accounts demo_balance_1 stake_of_def local_dev_def)

section \<open>Properties of the coin-moving handlers\<close>

text \<open>C11: a successful transfer moves exactly the amount: the sender is debited, the recipient credited
  (created when absent), every other account and every stake is untouched, and the coins held by
  any set of addresses that contains both are conserved.\<close>

theorem transfer_moves_exactly:
  assumes "documented cr" "wf_address (tr_sender t)" "wf_address (tr_recipient t)"
    and "tr_sender t \<noteq> tr_recipient t"
    and "process_transfer_tx cr st e t = Some (r, e')" "code r = 0"
  shows "balance_of cr st e' (tr_sender t) + unat (tr_amount t) = balance_of cr st e (tr_sender t) \<and>
    balance_of cr st e' (tr_recipient t) = balance_of cr st e (tr_recipient t) + unat (tr_amount t) \<and>
    (\<forall>b. b \<noteq> tr_sender t \<longrightarrow> b \<noteq> tr_recipient t \<longrightarrow> account_of cr st e' b = account_of cr st e b) \<and>
    (\<forall>b. staking_of cr st e' b = staking_of cr st e b) \<and>
    (\<forall>A. finite A \<longrightarrow> tr_sender t \<in> A \<longrightarrow> tr_recipient t \<in> A \<longrightarrow>
       total_supply cr st e' A = total_supply cr st e A)"
proof -
  have amt: "tr_amount t \<le> MAX_COIN"
    using assms(5,6) by (auto simp: process_transfer_tx_def coin_new_def handler_codes split: if_splits)
  obtain sacc sh where s: "account_of cr st e (tr_sender t) = Some (sacc, sh)"
    using transfer_missing_sender [OF assms(1,2) amt, of st e] assms(5,6)
    by (cases "account_of cr st e (tr_sender t)") (auto simp: handler_codes)
  obtain racc rh where rc: "account_or_new cr st e (tr_recipient t) = (racc, rh)" by fastforce
  note r_bal = account_or_new_facts(2) [OF assms(1,3) rc]
  from assms(1-3) amt s rc show ?thesis
  proof (cases rule: transfer_cases)
    case (moved sbal e1 rbal e2 ev)
    then have e': "e' = e2" using assms(5) by simp
    note look = account_of_stage_account [OF assms(1) moved(4,5)] account_of_stage_account [OF assms(1) moved(7,8)]
    have "total_supply cr st e' A = total_supply cr st e A"
      if "finite A" "tr_sender t \<in> A" "tr_recipient t \<in> A" for A
      unfolding total_supply_def e'
      by (rule led.move_preserves_total [OF assms(1) moved(4,7) assms(4) moved(5,8) _ _ that])
        (use moved(3,6) r_bal s in \<open>simp_all add: money_simps\<close>)
    then show ?thesis
      using look moved(3,6) s r_bal assms(4) staking_of_stage_account [OF assms(1) moved(5)]
        staking_of_stage_account [OF assms(1) moved(8)]
      by (simp add: e' balance_of_def)
  qed (use assms(5,6) in \<open>auto simp: handler_codes\<close>)
qed

theorem transfer_moves_exactly_witness:
  "\<exists>r e'. process_transfer_tx model_crates empty_store demo_envelope demo_transfer_tx = Some (r, e') \<and>
     balance_of model_crates empty_store e' (demo_address 1) = 99993 \<and>
     balance_of model_crates empty_store e' (demo_address 2) = 57"
proof -
  obtain ev e' where run: "process_transfer_tx model_crates empty_store demo_envelope demo_transfer_tx = Some (success ev, e')"
    using demo_transfer_runs by blast
  have "balance_of model_crates empty_store demo_envelope (demo_address 1) = 100000"
    "balance_of model_crates empty_store demo_envelope (demo_address 2) = 50"
    by (simp_all add: balance_of_def demo_accounts demo_balance_1)
  with transfer_moves_exactly [OF model_crates_documented _ _ _ run] demo_address_ne
  have "balance_of model_crates empty_store e' (demo_address 1) = 99993"
    "balance_of model_crates empty_store e' (demo_address 2) = 57"
    by (simp_all add: demo_transfer_tx_def handler_codes)
  with run show ?thesis by blast
qed

text \<open>C12: the transfer handler always answers, and its code is decided by the amount and the two
  balances alone.  As long as the two balances together stay within the coin limit a failed
  transfer leaves the state untouched; beyond it the sender's debit stays although the transfer is
  refused.\<close>

theorem transfer_decision:
  assumes "documented cr" "wf_address (tr_sender t)" "wf_address (tr_recipient t)"
  shows "\<exists>r e'. process_transfer_tx cr st e t = Some (r, e') \<and>
    code r = (if MAX_COIN < tr_amount t then 51
              else if account_of cr st e (tr_sender t) = None then 9
              else if balance_of cr st e (tr_sender t) < unat (tr_amount t) then 5
              else if balance_of cr st e (tr_recipient t) + unat (tr_amount t) > unat MAX_COIN then 51 else 0) \<and>
    (code r \<noteq> 0 \<and> balance_of cr st e (tr_sender t) + balance_of cr st e (tr_recipient t) \<le> unat MAX_COIN
       \<longrightarrow> e' = e) \<and>
    (code r \<noteq> 0 \<and> e' \<noteq> e \<longrightarrow>
       balance_of cr st e' (tr_sender t) + unat (tr_amount t) = balance_of cr st e (tr_sender t))"
proof (cases "tr_amount t \<le> MAX_COIN")
  case False
  then show ?thesis
    by (intro exI [of _ err_validation_failed] exI [of _ e])
      (simp add: process_transfer_tx_def coin_new_def handler_codes not_le)
next
  case amt: True
  then have nlt: "\<not> MAX_COIN < tr_amount t" by simp
  show ?thesis
  proof (cases "account_of cr st e (tr_sender t)")
    case None
    then show ?thesis
      using transfer_missing_sender [OF assms(1,2) amt None] nlt
      by (intro exI [of _ err_sender_doesnt_exist] exI [of _ e]) (simp add: handler_codes)
  next
    case (Some x)
    obtain sacc sh where s: "account_of cr st e (tr_sender t) = Some (sacc, sh)" using Some by (cases x) simp
    note sb = account_of_balance [OF s]
    obtain racc rh where rc: "account_or_new cr st e (tr_recipient t) = (racc, rh)" by fastforce
    note r_bal = account_or_new_facts(2) [OF assms(1,3) rc]
    from assms amt s rc show ?thesis
    proof (cases rule: transfer_cases)
      case poor
      then show ?thesis using s nlt sb by (simp add: handler_codes)
    next
      case (full sbal e1)
      then show ?thesis
        using s nlt sb r_bal account_of_stage_account [OF assms(1) full(4,5), of st]
        by (simp add: handler_codes balance_of_def)
    next
      case (moved sbal e1 rbal e2 ev)
      then show ?thesis using s nlt sb r_bal by (simp add: handler_codes)
    qed
  qed
qed

theorem transfer_decision_witness:
  "\<exists>r. process_transfer_tx model_crates empty_store demo_envelope (demo_transfer_tx\<lparr>tr_amount := 200000\<rparr>)
     = Some (r, demo_envelope) \<and> code r = 5"
proof -
  have bal: "balance_of model_crates empty_store demo_envelope (demo_address 1) = 100000"
    "balance_of model_crates empty_store demo_envelope (demo_address 2) = 50"
    by (simp_all add: balance_of_def demo_accounts demo_balance_1)
  show ?thesis
    using transfer_decision [OF model_crates_documented, of "demo_transfer_tx\<lparr>tr_amount := 200000\<rparr>" empty_store demo_envelope]
    by (auto simp: demo_transfer_tx_def demo_accounts bal MAX_COIN_val)
qed

lemma stake_moves:
  assumes "documented cr" "wf_address (st_sender t)"
    and "process_stake_tx cr pc st e t = Some (r, e')" "code r = 0"
  shows "balance_of cr st e' (st_sender t) + unat (st_amount t) = balance_of cr st e (st_sender t) \<and>
    stake_of cr st e' (st_sender t) = stake_of cr st e (st_sender t) + unat (st_amount t) \<and>
    (\<forall>b. b \<noteq> st_sender t \<longrightarrow> account_of cr st e' b = account_of cr st e b \<and> staking_of cr st e' b = staking_of cr st e b) \<and>
    (\<forall>A. finite A \<longrightarrow> st_sender t \<in> A \<longrightarrow> total_supply cr st e' A = total_supply cr st e A) \<and>
    (stake_of cr st e (st_sender t) = 0 \<longrightarrow> coins (min_stake_amount pc) \<le> stake_of cr st e' (st_sender t))"
proof -
  obtain sacc sh sk kh sbal stake e1 e2 v where s: "account_of cr st e (st_sender t) = Some (sacc, sh)"
      and k: "staking_or_new cr st e (st_sender t) = (sk, kh)"
    and d: "coins sbal + unat (st_amount t) = coins (acc_balance sacc)" "account_ok (sacc\<lparr>acc_balance := sbal\<rparr>)"
    and c: "coins stake = coins (stake_balance sk) + unat (st_amount t)" "staking_ok (sk\<lparr>stake_balance := stake\<rparr>)"
    and e1: "stage_account cr e (st_sender t) sh (sacc\<lparr>acc_balance := sbal\<rparr>) = Some e1"
    and e2: "stage_staking cr e1 (st_sender t) kh (sk\<lparr>stake_balance := stake\<rparr>) = Some e2"
    and e': "e' = e2\<lparr>validators := v\<rparr>"
    and m: "coins (stake_balance sk) = 0 \<Longrightarrow> coins (min_stake_amount pc) \<le> unat (st_amount t)"
    using stake_success [OF assms] by metis
  note k_bal = staking_or_new_facts(2) [OF assms(1,2) k]
  have fr: "account_of cr st e' b = account_of cr st e2 b" "staking_of cr st e' b = staking_of cr st e2 b"
      "total_supply cr st e' A = total_supply cr st e2 A" for b A
    unfolding e' by (rule accounts_frame; simp)+
  note look = account_of_stage_account [OF assms(1) d(2) e1] staking_of_stage_staking [OF assms(1) c(2) e2]
    staking_of_stage_account [OF assms(1) e1] account_of_stage_staking [OF assms(1) e2]
  have "total_supply cr st e' A = total_supply cr st e A" if "finite A" "st_sender t \<in> A" for A
    unfolding fr(3) unfolding total_supply_def
    by (rule led.stake_preserves_total [OF assms(1) d(2) c(2) e1 e2 _ that])
      (use d(1) c(1) k_bal s in \<open>simp add: money_simps\<close>)
  then show ?thesis
    using d(1) c(1) s k_bal m by (auto simp: balance_of_def stake_of_def fr look)
qed

text \<open>C13: a successful stake moves the amount from the sender's balance to the sender's stake, touches
  no other account or stake, conserves the coins, and a first stake is at least the minimum.\<close>

theorem stake_moves_exactly:
  assumes "documented cr" "wf_address (st_sender t)"
    and "process_stake_tx cr pc st e t = Some (r, e')" "code r = 0"
  shows "balance_of cr st e' (st_sender t) + unat (st_amount t) = balance_of cr st e (st_sender t) \<and>
    stake_of cr st e' (st_sender t) = stake_of cr st e (st_sender t) + unat (st_amount t) \<and>
    (\<forall>b. b \<noteq> st_sender t \<longrightarrow> account_of cr st e' b = account_of cr st e b \<and> staking_of cr st e' b = staking_of cr st e b) \<and>
    (\<forall>A. finite A \<longrightarrow> st_sender t \<in> A \<longrightarrow> total_supply cr st e' A = total_supply cr st e A) \<and>
    (stake_of cr st e (st_sender t) = 0 \<longrightarrow> coins (min_stake_amount pc) \<le> stake_of cr st e' (st_sender t))"
  by (rule stake_moves [OF assms])

theorem stake_moves_exactly_witness:
  "\<exists>r e'. process_stake_tx model_crates local_dev empty_store demo_envelope demo_stake_tx = Some (r, e') \<and>
     balance_of model_crates empty_store e' (demo_address 1) = 99991 \<and>
     stake_of model_crates empty_store e' (demo_address 1) = 9"
proof -
  obtain ev e' where run: "process_stake_tx model_crates local_dev empty_store demo_envelope demo_stake_tx = Some (success ev, e')"
    using demo_stake_runs by blast
  have "balance_of model_crates empty_store demo_envelope (demo_address 1) = 100000"
    "stake_of model_crates empty_store demo_envelope (demo_address 1) = 0"
    by (simp_all add: balance_of_def stake_of_def demo_accounts demo_balance_1)
  with stake_moves_exactly [OF model_crates_documented _ run]
  have "balance_of model_crates empty_store e' (demo_address 1) = 99991"
    "stake_of model_crates empty_store e' (demo_address 1) = 9"
    by (simp_all add: demo_stake_tx_def handler_codes)
  with run show ?thesis by blast
qed

text \<open>Unstaking what was just staked restores every balance and every stake: the two handlers are
  inverse on the ledger.\<close>

lemma stake_unstake_roundtrip:
  assumes "documented cr" "wf_address (st_sender t)"
    and "process_stake_tx cr pc st e t = Some (r, e1)" "code r = 0"
    and "process_unstake_tx cr st e1 \<lparr>un_sender = st_sender t, un_amount = st_amount t\<rparr> = Some (r', e2)" "code r' = 0"
  shows "balance_of cr st e2 b = balance_of cr st e b \<and> stake_of cr st e2 b = stake_of cr st e b"
proof -
  let ?s = "st_sender t"
  have bs: "balance_of cr st e1 b + (if b = ?s then unat (st_amount t) else 0) = balance_of cr st e b"
    "stake_of cr st e1 b = stake_of cr st e b + (if b = ?s then unat (st_amount t) else 0)"
    using stake_moves [OF assms(1-4)] by (auto simp: balance_of_def stake_of_def)
  obtain sacc sh sk kh bal stake e' where s: "account_of cr st e1 ?s = Some (sacc, sh)"
    and k: "staking_of cr st e1 ?s = Some (sk, kh)"
    and c: "coins stake + unat (st_amount t) = coins (stake_balance sk)" "staking_ok (sk\<lparr>stake_balance := stake\<rparr>)"
    and d: "coins bal = coins (acc_balance sacc) + unat (st_amount t)" "account_ok (sacc\<lparr>acc_balance := bal\<rparr>)"
    and e': "stage_staking cr e1 ?s kh (sk\<lparr>stake_balance := stake\<rparr>) = Some e'"
    and e2: "stage_account cr e' ?s sh (sacc\<lparr>acc_balance := bal\<rparr>) = Some e2"
    using unstake_success [OF assms(1) _ assms(5,6)] assms(2) by (metis unstake_tx.select_convs(1,2))
  show ?thesis
    using bs c(1) d(1) s k
    by (auto simp: balance_of_def stake_of_def account_of_stage_account [OF assms(1) d(2) e2]
        staking_of_stage_account [OF assms(1) e2] staking_of_stage_staking [OF assms(1) c(2) e']
        account_of_stage_staking [OF assms(1) e'] split: if_splits)
qed

theorem stake_unstake_roundtrip_witness:
  "\<exists>r e1 r' e2. process_stake_tx model_crates local_dev empty_store demo_envelope demo_stake_tx = Some (r, e1) \<and>
     process_unstake_tx model_crates empty_store e1 \<lparr>un_sender = demo_address 1, un_amount = 9\<rparr> = Some (r', e2) \<and>
     balance_of model_crates empty_store e2 (demo_address 1) = 100000"
proof -
  obtain ev e1 where run: "process_stake_tx model_crates local_dev empty_store demo_envelope demo_stake_tx = Some (success ev, e1)"
    using demo_stake_runs by blast
  let ?u = "\<lparr>un_sender = demo_address 1, un_amount = 9\<rparr>"
  have wf: "wf_address (st_sender demo_stake_tx)" "code (success ev) = 0"
    by (simp_all add: demo_stake_tx_def handler_codes)
  have bal: "balance_of model_crates empty_store demo_envelope (demo_address 1) = 100000"
    "stake_of model_crates empty_store demo_envelope (demo_address 1) = 0"
    by (simp_all add: balance_of_def stake_of_def demo_accounts demo_balance_1)
  have "balance_of model_crates empty_store e1 (demo_address 1) = 99991"
    "stake_of model_crates empty_store e1 (demo_address 1) = 9"
    using stake_moves [OF model_crates_documented wf(1) run wf(2)] bal by (simp_all add: demo_stake_tx_def)
  then obtain sacc sh sk kh where "account_of model_crates empty_store e1 (demo_address 1) = Some (sacc, sh)"
      "coins (acc_balance sacc) = 99991" "staking_of model_crates empty_store e1 (demo_address 1) = Some (sk, kh)"
      "coins (stake_balance sk) = 9"
    by (auto simp: balance_of_def stake_of_def split: option.splits prod.splits)
  then obtain ev' e2 where run': "process_unstake_tx model_crates empty_store e1 ?u = Some (success ev', e2)"
    using unstake_completes [OF model_crates_documented, of ?u empty_store e1 sacc sh sk kh]
    by (auto simp: demo_small)
  have "balance_of model_crates empty_store e2 (demo_address 1) = 100000"
    using stake_unstake_roundtrip [OF model_crates_documented wf(1) run wf(2), of "success ev'" e2] run' bal
    by (simp add: demo_stake_tx_def handler_codes)
  with run run' show ?thesis by blast
qed

section \<open>Registries\<close>

text \<open>The capacity registry as an invariant: one entry per address, no stake.\<close>

definition registry_ok :: "envelope \<Rightarrow> bool" where
  "registry_ok e = (distinct (map cv_address (capacity_validators e)) \<and>
     list_all (\<lambda>p. cv_stake p = coin_zero) (capacity_validators e))"

lemma list_all_update_first:
  "list_all P xs \<Longrightarrow> (\<And>x. P x \<Longrightarrow> P (f x)) \<Longrightarrow> list_all P (update_first Q f xs)"
  by (induction xs) auto

lemma find_None_address:
  "List.find (\<lambda>p. cv_address p = a) xs = None \<Longrightarrow> a \<notin> cv_address ` set xs"
  by (auto simp: find_None_iff)

lemma registry_ok_same: "capacity_validators e' = capacity_validators e \<Longrightarrow> registry_ok e \<Longrightarrow> registry_ok e'"
  by (simp add: registry_ok_def)

lemma register_keeps_registry:
  assumes "registry_ok e" "process_register_capacity_tx cr pc st e t pk = Some (r, e')"
  shows "registry_ok e'"
  using assms
  by (auto simp: process_register_capacity_tx_def Let_def registry_ok_def register_entry_def reregister_entry_def
      split: sum.splits if_splits option.splits dest: find_None_address
      intro!: list_all_update_first)

lemma unregister_keeps_registry:
  assumes "registry_ok e" "process_unregister_capacity_tx cr st e t = Some (r, e')"
  shows "registry_ok e'"
  using assms
  by (auto simp: process_unregister_capacity_tx_def registry_ok_def list_all_iff distinct_map_filter
      split: option.splits)

lemma update_root_keeps_registry:
  assumes "registry_ok e" "process_update_capacity_merkle_root_tx cr st e t = Some (r, e')"
  shows "registry_ok e'"
  using assms
  by (auto simp: process_update_capacity_merkle_root_tx_def registry_ok_def
      split: option.splits if_splits intro!: list_all_update_first)

text \<open>C15: the capacity handlers keep one registry entry per address, and no entry ever carries a stake,
  so the balance that slashing burns is always zero.\<close>

theorem capacity_registry_invariant:
  assumes "registry_ok e"
    and "process_register_capacity_tx cr pc st e rt pk = Some (r, e') \<or>
         process_unregister_capacity_tx cr st e ut = Some (r, e') \<or>
         process_update_capacity_merkle_root_tx cr st e mt = Some (r, e')"
  shows "distinct (map cv_address (capacity_validators e')) \<and>
    (\<forall>p \<in> set (capacity_validators e'). cv_stake p = coin_zero)"
proof -
  have "registry_ok e'"
    using assms register_keeps_registry unregister_keeps_registry update_root_keeps_registry by blast
  then show ?thesis by (simp add: registry_ok_def list_all_iff)
qed

theorem capacity_registry_invariant_witness:
  "\<exists>r e'. process_unregister_capacity_tx model_crates empty_store demo_envelope
       \<lparr>uc_sender = demo_address 1, unregister = True\<rparr> = Some (r, e') \<and>
     distinct (map cv_address (capacity_validators e'))"
proof -
  let ?t = "\<lparr>uc_sender = demo_address 1, unregister = True\<rparr>"
  have ok: "registry_ok demo_envelope" by (simp add: registry_ok_def)
  obtain r e' where run: "process_unregister_capacity_tx model_crates empty_store demo_envelope ?t = Some (r, e')"
    by (auto simp: process_unregister_capacity_tx_def load_account_eq model_crates_documented demo_accounts)
  from capacity_registry_invariant [OF ok disjI2 [OF disjI1 [OF run]], THEN conjunct1] run
  show ?thesis by blast
qed

section \<open>Namespaces\<close>

lemma add_namespace_success:
  assumes doc: "documented cr" and wf: "wf_address (an_sender t)"
    and run: "process_add_namespace_tx cr st e t = Some (r, e')" and ok: "code r = 0"
  obtains sacc sh bal e1 where "account_of cr st e (an_sender t) = Some (sacc, sh)"
    "coins bal + unat (an_registration_fee t) = coins (acc_balance sacc)" "0 < unat (an_registration_fee t)"
    "account_ok \<lparr>acc_address = an_sender t, acc_balance = bal, acc_nonce = acc_nonce sacc\<rparr>"
    "stage_account cr e (an_sender t) sh \<lparr>acc_address = an_sender t, acc_balance = bal, acc_nonce = acc_nonce sacc\<rparr> = Some e1"
    "e' = e1\<lparr>namespace_registry_cache := bt_insert (an_namespace_slug t)
        \<lparr>namespace_slug = an_namespace_slug t, ns_owner = an_sender t,
         registered_height = word_of_int (block_height e1 + 1)\<rparr> (namespace_registry_cache e1)\<rparr>"
    "validate_add_namespace_not_taken cr e (an_namespace_slug t) = Ok ()"
proof -
  from run ok obtain fee p where f: "coin_new (an_registration_fee t) = Inr fee"
    "validate_add_namespace_not_taken cr e (an_namespace_slug t) = Inr ()"
    "slug_to_namespace_cadopath (hex cr) (an_namespace_slug t) = Inr p" "fee \<noteq> coin_zero"
    by (auto simp: process_add_namespace_tx_def handler_codes split: sum.splits if_splits)
  from run ok f doc wf obtain sacc sh where s: "account_of cr st e (an_sender t) = Some (sacc, sh)"
    by (auto simp: process_add_namespace_tx_def handler_codes load_account_eq split: option.splits)
  from run ok f doc wf s obtain bal e1 where b: "coins fee \<le> coins (acc_balance sacc)"
    "coin_sub (acc_balance sacc) fee = Inr bal"
    "stage_account cr e (an_sender t) sh \<lparr>acc_address = an_sender t, acc_balance = bal, acc_nonce = acc_nonce sacc\<rparr> = Some e1"
    "e' = e1\<lparr>namespace_registry_cache := bt_insert (an_namespace_slug t)
        \<lparr>namespace_slug = an_namespace_slug t, ns_owner = an_sender t,
         registered_height = word_of_int (block_height e1 + 1)\<rparr> (namespace_registry_cache e1)\<rparr>"
    by (auto simp: process_add_namespace_tx_def handler_codes load_account_eq amount_less_coins
        split: option.splits sum.splits if_splits)
  have fee: "coins fee = unat (an_registration_fee t)" "0 < coins fee"
    using f(1,4) by (auto simp: coin_new_Inr coin_eq_iff)
  have "coin_ok (acc_balance sacc)" using account_of_ok(1) [OF doc s] by (simp add: account_ok_def)
  then have "coins bal + coins fee = coins (acc_balance sacc)" using b(1,2) by (simp add: coin_sub_Inr)
  then show thesis
    using that [OF s _ _ _ b(3,4)] f(2) fee coin_sub_ok [OF b(2)] wf by (simp add: account_ok_def)
qed

text \<open>C14: registering a namespace burns exactly the registration fee, records the sender as owner, and
  the name cannot be registered again in the same block by anyone.\<close>

theorem namespace_registered_once:
  assumes "documented cr" "wf_address (an_sender t)"
    and "normalize_namespace_slug (an_namespace_slug t) = Ok (an_namespace_slug t)"
    and "process_add_namespace_tx cr st e t = Some (r, e')" "code r = 0"
  shows "balance_of cr st e' (an_sender t) + unat (an_registration_fee t) = balance_of cr st e (an_sender t) \<and>
    (\<forall>A. finite A \<longrightarrow> an_sender t \<in> A \<longrightarrow>
       total_supply cr st e' A + unat (an_registration_fee t) = total_supply cr st e A) \<and>
    (\<exists>rec. resolve_namespace cr e' (an_namespace_slug t) = Ok (Some rec) \<and> ns_owner rec = an_sender t) \<and>
    (\<forall>t2 r2 e2. an_namespace_slug t2 = an_namespace_slug t \<longrightarrow> an_registration_fee t2 \<le> MAX_COIN \<longrightarrow>
       process_add_namespace_tx cr st e' t2 = Some (r2, e2) \<longrightarrow> code r2 = 51 \<and> e2 = e')"
proof -
  obtain sacc sh bal e1 where s: "account_of cr st e (an_sender t) = Some (sacc, sh)"
    and b: "coins bal + unat (an_registration_fee t) = coins (acc_balance sacc)"
    and ok: "account_ok \<lparr>acc_address = an_sender t, acc_balance = bal, acc_nonce = acc_nonce sacc\<rparr>"
    and e1: "stage_account cr e (an_sender t) sh \<lparr>acc_address = an_sender t, acc_balance = bal, acc_nonce = acc_nonce sacc\<rparr> = Some e1"
    and e': "e' = e1\<lparr>namespace_registry_cache := bt_insert (an_namespace_slug t)
        \<lparr>namespace_slug = an_namespace_slug t, ns_owner = an_sender t,
         registered_height = word_of_int (block_height e1 + 1)\<rparr> (namespace_registry_cache e1)\<rparr>"
    using add_namespace_success [OF assms(1,2,4,5)] by metis
  have fr: "balance_of cr st e' a = balance_of cr st e1 a" "total_supply cr st e' A = total_supply cr st e1 A" for a A
    unfolding e' by (rule accounts_frame; simp)+
  have burn: "total_supply cr st e' A + unat (an_registration_fee t) = total_supply cr st e A"
    if "finite A" "an_sender t \<in> A" for A
    unfolding fr unfolding total_supply_def
    by (rule led.burn_decreases_total [OF assms(1) ok e1 _ that]) (use b s in \<open>simp add: money_simps\<close>)
  have "code r2 = 51 \<and> e2 = e'" if "an_namespace_slug t2 = an_namespace_slug t" "an_registration_fee t2 \<le> MAX_COIN"
      "process_add_namespace_tx cr st e' t2 = Some (r2, e2)" for t2 r2 e2
    using that assms(3)
    by (simp add: process_add_namespace_tx_def coin_new_le validate_add_namespace_not_taken_def e' handler_codes)
  moreover have "balance_of cr st e' (an_sender t) + unat (an_registration_fee t) = balance_of cr st e (an_sender t)"
    unfolding fr using b s by (simp add: balance_of_def account_of_stage_account [OF assms(1) ok e1])
  moreover have "\<exists>rec. resolve_namespace cr e' (an_namespace_slug t) = Ok (Some rec) \<and> ns_owner rec = an_sender t"
    using assms(3) by (simp add: resolve_namespace_def e')
  ultimately show ?thesis using burn by blast
qed

definition demo_namespace_tx :: add_namespace_tx where
  "demo_namespace_tx = \<lparr>an_sender = demo_address 1, an_namespace_slug = ''peter'', an_registration_fee = 100\<rparr>"

lemma demo_namespace_runs:
  "\<exists>ev e'. process_add_namespace_tx model_crates empty_store demo_envelope demo_namespace_tx = Some (success ev, e')"
proof -
  obtain p where p: "slug_to_namespace_cadopath (hex model_crates) ''peter'' = Inr p"
  proof -
    have "is_ok (slug_to_namespace_cadopath std_hex ''peter'')" by code_simp
    then show thesis using that by (auto simp: is_ok_iff model_crates_def)
  qed
  have n: "normalize_namespace_slug ''peter'' = Inr ''peter''" by code_simp
  have taken: "validate_add_namespace_not_taken model_crates demo_envelope ''peter'' = Ok ()"
    by (simp add: validate_add_namespace_not_taken_def n is_namespace_registered_on_chain_def p)
  have ok: "account_ok (demo_account 1 100000 0)" by (rule demo_account_ok) (simp add: demo_small)
  have le: "unat (100 :: u128) \<le> coins (acc_balance (demo_account 1 100000 0))" by (simp add: demo_balance_1)
  obtain bal e1 where d: "coin_sub (Coin 100000) (Coin 100) = Inr bal"
    "stage_account model_crates demo_envelope (demo_address 1) zero_hash (demo_account 1 100000 0\<lparr>acc_balance := bal\<rparr>) = Some e1"
    using debit_account [OF model_crates_documented wf_demo_address ok le] by (metis demo_balance_1)
  have "demo_account 1 100000 0\<lparr>acc_balance := bal\<rparr> =
      \<lparr>acc_address = demo_address 1, acc_balance = bal, acc_nonce = Nonce 0\<rparr>" by (simp add: demo_account_def)
  with d p taken show ?thesis
    by (simp add: process_add_namespace_tx_def demo_namespace_tx_def coin_new_le demo_small coin_zero_def
        load_account_eq model_crates_documented demo_accounts demo_account_def) blast
qed

theorem namespace_registered_once_witness:
  "\<exists>r e'. process_add_namespace_tx model_crates empty_store demo_envelope demo_namespace_tx = Some (r, e') \<and>
     balance_of model_crates empty_store e' (demo_address 1) = 99900"
proof -
  obtain ev e' where run:
      "process_add_namespace_tx model_crates empty_store demo_envelope demo_namespace_tx = Some (success ev, e')"
    using demo_namespace_runs by blast
  have n: "normalize_namespace_slug (an_namespace_slug demo_namespace_tx) = Ok (an_namespace_slug demo_namespace_tx)"
    by code_simp
  have "balance_of model_crates empty_store demo_envelope (demo_address 1) = 100000"
    by (simp add: balance_of_def demo_accounts demo_balance_1)
  with namespace_registered_once [OF model_crates_documented _ n run, THEN conjunct1]
  have "balance_of model_crates empty_store e' (demo_address 1) = 99900"
    by (simp add: demo_namespace_tx_def handler_codes)
  with run show ?thesis by blast
qed

section \<open>Pinboard posts\<close>

lemma post_Some:
  "process_post_message_tx cr pc st e t = Some (r, e') \<Longrightarrow> code r = 0 \<Longrightarrow>
   e' = stage_post cr e (post_metadata pc e t) \<and>
   (\<exists>x. validate_namespace_upload_authorization (pm_namespace t) (pm_original_signer t) (resolve_namespace cr e) = Ok x)"
  by (auto simp: process_post_message_tx_def handler_codes split: sum.splits)

lemma upload_authorized:
  "validate_namespace_upload_authorization (Some s) signer look = Ok x \<Longrightarrow> trim s \<noteq> [] \<Longrightarrow>
   \<exists>rec. look (normalize_content_upload_namespace s) = Ok (Some rec) \<and> ns_owner rec = signer"
  by (auto simp: validate_namespace_upload_authorization_def resolve_optional_namespace_def Let_def result_simps
      split: if_splits)

lemma namespace_frame:
  "namespace_registry_cache e' = namespace_registry_cache e \<Longrightarrow> committed_cado_cache e' = committed_cado_cache e \<Longrightarrow>
   resolve_namespace cr e' = resolve_namespace cr e"
  unfolding fun_eq_iff resolve_namespace_def by (simp cong: option.case_cong)

text \<open>C16: an accepted post is signed by the owner of its namespace (when it names one), its expiry is the
  next height plus its time to live, saturated at the 64-bit limit, its blob gains one reference, and
  no account changes.  Posting the same message again in the block is accepted again: the metadata
  entry is overwritten but the blob gains a second reference.\<close>

theorem post_staged_and_repeatable:
  assumes "process_post_message_tx cr pc st e t = Some (r, e')" "code r = 0"
    and "map_of (pinboard_refcount_deltas e) (pm_content_key t) = None"
    and "0 \<le> block_height e" "block_height e < 2 ^ 63 - 1"
  shows "(\<forall>s. pm_namespace t = Some s \<and> trim s \<noteq> [] \<longrightarrow>
        (\<exists>rec. resolve_namespace cr e (normalize_content_upload_namespace s) = Ok (Some rec) \<and>
               ns_owner rec = pm_original_signer t)) \<and>
    (\<exists>m. map_of (pinboard_meta_cache e') (pm_message_id t) = Some m \<and>
       int (unat (pb_committed_height m)) = block_height e + 1 \<and>
       unat (pb_expires_height m) = min (unat (pb_committed_height m) +
          unat (if pm_expires_height t = 0 then default_pinboard_post_ttl_blocks pc else pm_expires_height t)) (2 ^ 64 - 1)) \<and>
    map_of (pinboard_refcount_deltas e') (pm_content_key t) = Some 1 \<and>
    (\<forall>a. account_of cr st e' a = account_of cr st e a) \<and>
    (\<exists>r2 e2. process_post_message_tx cr pc st e' t = Some (r2, e2) \<and> code r2 = 0 \<and>
       map_of (pinboard_meta_cache e2) (pm_message_id t) = map_of (pinboard_meta_cache e') (pm_message_id t) \<and>
       map_of (pinboard_refcount_deltas e2) (pm_content_key t) = Some 2)"
proof -
  obtain x where e': "e' = stage_post cr e (post_metadata pc e t)"
    and auth: "validate_namespace_upload_authorization (pm_namespace t) (pm_original_signer t) (resolve_namespace cr e) = Ok x"
    using post_Some [OF assms(1,2)] by blast
  have same: "resolve_namespace cr e' = resolve_namespace cr e"
    by (rule namespace_frame) (simp_all add: e' stage_post_def Let_def)
  have h: "int (unat (word_of_int (block_height e + 1) :: u64)) = block_height e + 1"
    by (rule int_unat_word_of_int) (use assms(4,5) in simp_all)
  have "account_of cr st e' a = account_of cr st e a" for a
    by (rule accounts_frame) (simp_all add: e' stage_post_def Let_def)
  moreover have "process_post_message_tx cr pc st e' t = Some (success [], stage_post cr e' (post_metadata pc e' t))"
    using auth same by (simp add: process_post_message_tx_def)
  moreover have "post_metadata pc e' t = post_metadata pc e t"
    by (simp add: post_metadata_def e' stage_post_def Let_def)
  ultimately show ?thesis
    using upload_authorized auth assms(3) h
    by (auto simp: e' stage_post_def Let_def post_metadata_def handler_codes word_facts)
qed

definition demo_post :: post_message_tx where
  "demo_post = \<lparr>pm_sender = demo_address 1, pm_original_signer = demo_address 1, pm_original_signer_pubkey = [],
     pm_content_key = ''k'', pm_message_id = ''m'', pm_expires_height = 10, pm_visibility = ''public'',
     pm_topic = None, pm_tags = [''t''], pm_content_type = ''text/plain'', pm_fee_amount = 0,
     pm_received_timestamp = 0, pm_user_signature = [], pm_namespace = None\<rparr>"

theorem post_staged_and_repeatable_witness:
  "\<exists>r e' r2 e2. process_post_message_tx model_crates local_dev empty_store demo_envelope demo_post = Some (r, e') \<and>
     process_post_message_tx model_crates local_dev empty_store e' demo_post = Some (r2, e2) \<and>
     map_of (pinboard_refcount_deltas e2) ''k'' = Some 2"
proof -
  obtain e' where run: "process_post_message_tx model_crates local_dev empty_store demo_envelope demo_post = Some (success [], e')"
    by (simp add: process_post_message_tx_def demo_post_def validate_namespace_upload_authorization_def
        resolve_optional_namespace_def)
  have "code (success []) = 0" "map_of (pinboard_refcount_deltas demo_envelope) (pm_content_key demo_post) = None"
    "0 \<le> block_height demo_envelope" "block_height demo_envelope < 2 ^ 63 - 1"
    by (simp_all add: handler_codes)
  from post_staged_and_repeatable [OF run this]
  obtain r2 e2 where "process_post_message_tx model_crates local_dev empty_store e' demo_post = Some (r2, e2)"
    "map_of (pinboard_refcount_deltas e2) (pm_content_key demo_post) = Some 2" by blast
  with run show ?thesis by (auto simp: demo_post_def)
qed

end
