(* ===== verification/Merkle.thy ===== *)
theory Merkle
  imports Tx
begin

text \<open>
  The capacity proof Merkle tree (\<^verbatim>\<open>common/src/capacity/capacity_proof_merkle_tree.rs\<close>): levels built
  bottom-up with an odd last node hashed with itself, incremental updates, proofs and their
  verification.  \<^verbatim>\<open>blake3\<close> is the parameter \<open>h\<close>; \<^term>\<open>None\<close> is a panic.

  The properties: generated proofs verify; updating leaves in place gives the tree a rebuild gives;
  a proof for a wrong leaf exhibits a collision of \<open>h\<close>, and so do two leaf lists of equal length
  with one root.  Two limits of the scheme are proved as well: the root does not fix the number of
  leaves, and verification reads the index only modulo two to the length of the proof.
\<close>

section \<open>The tree\<close>

record merkle_tree =
  mt_leaves :: "bytes list"
  mt_root :: capacity_merkle_root
  mt_tree :: "bytes list list"

definition hash_pair :: "(bytes \<Rightarrow> bytes) \<Rightarrow> bytes \<Rightarrow> bytes \<Rightarrow> bytes" where
  "hash_pair h left right = h (str_bytes ''Merkle'' @ left @ right)"

fun next_level :: "(bytes \<Rightarrow> bytes) \<Rightarrow> bytes list \<Rightarrow> bytes list" where
  "next_level h [] = []"
| "next_level h [x] = [hash_pair h x x]"
| "next_level h (x # y # xs) = hash_pair h x y # next_level h xs"

lemma length_next_level [simp]: "length (next_level h xs) = (length xs + 1) div 2"
  by (induction h xs rule: next_level.induct) simp_all

lemma next_level_eq_Nil [simp]: "next_level h xs = [] \<longleftrightarrow> xs = []"
  by (induction h xs rule: next_level.induct) simp_all

function build_levels :: "(bytes \<Rightarrow> bytes) \<Rightarrow> bytes list \<Rightarrow> bytes list list" where
  "build_levels h level = (if length level > 1 then level # build_levels h (next_level h level) else [level])"
  by pat_completeness auto
termination
  by (relation "measure (\<lambda>(h, level). length level)") auto

declare build_levels.simps [simp del]

definition merkle_build :: "(bytes \<Rightarrow> bytes) \<Rightarrow> bytes list \<Rightarrow> merkle_tree option" where
  "merkle_build h leaves = (if leaves = [] then None
     else (let tree = build_levels h leaves in
       Some \<lparr>mt_leaves = leaves, mt_root = CapacityMerkleRoot (hd (last tree)), mt_tree = tree\<rparr>))"

definition merkle_leaf_count :: "merkle_tree \<Rightarrow> nat" where
  "merkle_leaf_count t = length (mt_leaves t)"

section \<open>Incremental update\<close>

text \<open>The hash of the parent of node \<open>i\<close>, read from the level of \<open>i\<close>.\<close>

definition parent_hash :: "(bytes \<Rightarrow> bytes) \<Rightarrow> bytes list \<Rightarrow> nat \<Rightarrow> bytes" where
  "parent_hash h level i =
    (if i mod 2 = 0
     then hash_pair h (level ! i) (if i + 1 < length level then level ! (i + 1) else level ! i)
     else hash_pair h (level ! (i - 1)) (level ! i))"

definition write_parents :: "(bytes \<Rightarrow> bytes) \<Rightarrow> bytes list \<Rightarrow> nat list \<Rightarrow> bytes list \<Rightarrow> bytes list" where
  "write_parents h level nodes upper =
     fold (\<lambda>i up. if i div 2 < length up then up[i div 2 := parent_hash h level i] else up) nodes upper"

text \<open>The walk up the tree.  A hash set of node indices is a list without repetition; reading a node
  outside its level panics.\<close>

fun climb :: "(bytes \<Rightarrow> bytes) \<Rightarrow> bytes list list \<Rightarrow> nat list \<Rightarrow> bytes list list option" where
  "climb h (level # upper # rest) nodes =
    (if list_ex (\<lambda>i. i \<ge> length level) nodes then None
     else map_option (Cons level)
       (climb h (write_parents h level nodes upper # rest) (remdups (map (\<lambda>i. i div 2) nodes))))"
| "climb h levels nodes = Some levels"

definition set_leaves :: "(nat \<times> bytes) list \<Rightarrow> bytes list \<Rightarrow> bytes list" where
  "set_leaves updates leaves = fold (\<lambda>(i, x) xs. xs[i := x]) updates leaves"

definition update_leaves :: "(bytes \<Rightarrow> bytes) \<Rightarrow> merkle_tree \<Rightarrow> (nat \<times> bytes) list \<Rightarrow> merkle_tree option" where
  "update_leaves h t updates =
    (if updates = [] then Some t
     else if list_ex (\<lambda>(i, x). i \<ge> length (mt_leaves t)) updates then None
     else (case mt_tree t of
         [] \<Rightarrow> None
       | level0 # rest \<Rightarrow>
          (case climb h (set_leaves updates level0 # rest) (remdups (map fst updates)) of
             None \<Rightarrow> None
           | Some tree \<Rightarrow> Some \<lparr>mt_leaves = set_leaves updates (mt_leaves t),
               mt_root = (if last tree = [] then mt_root t else CapacityMerkleRoot (hd (last tree))),
               mt_tree = tree\<rparr>)))"

section \<open>Proofs\<close>

fun proof_walk :: "bytes list list \<Rightarrow> nat \<Rightarrow> bytes list" where
  "proof_walk (level # upper # rest) i =
    (let sibling = (if i mod 2 = 0 then i + 1 else i - 1) in
     (if sibling < length level then level ! sibling else level ! i) # proof_walk (upper # rest) (i div 2))"
| "proof_walk levels i = []"

definition generate_proof :: "merkle_tree \<Rightarrow> nat \<Rightarrow> bytes list option" where
  "generate_proof t leaf_index =
     (if leaf_index \<ge> length (mt_leaves t) then None else Some (proof_walk (mt_tree t) leaf_index))"

fun fold_proof :: "(bytes \<Rightarrow> bytes) \<Rightarrow> bytes \<Rightarrow> bytes list \<Rightarrow> nat \<Rightarrow> bytes" where
  "fold_proof h cur [] i = cur"
| "fold_proof h cur (s # p) i =
     fold_proof h (if i mod 2 = 0 then hash_pair h cur s else hash_pair h s cur) p (i div 2)"

definition verify_proof :: "(bytes \<Rightarrow> bytes) \<Rightarrow> bytes \<Rightarrow> bytes list \<Rightarrow> capacity_merkle_root \<Rightarrow> nat \<Rightarrow> bool" where
  "verify_proof h leaf_hash p root leaf_index = (fold_proof h leaf_hash p leaf_index = root_bytes root)"

section \<open>Levels\<close>

lemma build_levels_not_Nil [simp]: "build_levels h xs \<noteq> []"
  by (simp add: build_levels.simps)

lemma build_levels_shape: "\<exists>rest. build_levels h xs = xs # rest"
  by (simp add: build_levels.simps)

lemma build_levels_one: "length xs \<le> 1 \<Longrightarrow> build_levels h xs = [xs]"
  by (simp add: build_levels.simps)

lemma build_levels_step: "length xs > 1 \<Longrightarrow> build_levels h xs = xs # build_levels h (next_level h xs)"
  by (simp add: build_levels.simps)

lemma next_level_nth:
  "i < length (next_level h xs) \<Longrightarrow> next_level h xs ! i = parent_hash h xs (2 * i)"
proof (induction h xs arbitrary: i rule: next_level.induct)
  case (3 h x y xs)
  then show ?case by (cases i) (simp_all add: parent_hash_def)
qed (simp_all add: parent_hash_def)

lemma parent_hash_odd:
  "i < length xs \<Longrightarrow> parent_hash h xs i = parent_hash h xs (2 * (i div 2))"
proof (cases "i mod 2 = 0")
  case False
  then obtain k where i: "i = 2 * k + 1" by (intro that [of "i div 2"]) presburger
  assume "i < length xs"
  then show ?thesis by (simp add: parent_hash_def i)
next
  case True
  then have "2 * (i div 2) = i" by presburger
  then show ?thesis by (simp only:)
qed

lemma next_level_parent:
  "i < length xs \<Longrightarrow> next_level h xs ! (i div 2) = parent_hash h xs i"
  by (subst next_level_nth) (auto simp: parent_hash_odd [symmetric])

text \<open>The top of the levels is the root; a walk along any index ends there.\<close>

lemma fold_proof_walk:
  "i < length xs \<Longrightarrow> fold_proof h (xs ! i) (proof_walk (build_levels h xs) i) i = hd (last (build_levels h xs))"
proof (induction "length xs" arbitrary: xs i rule: less_induct)
  case less
  show ?case
  proof (cases "length xs > 1")
    case False
    then have "length xs = 1" "i = 0" using less.prems by linarith+
    then show ?thesis by (cases xs) (simp_all add: build_levels_one)
  next
    case True
    obtain rest where rest: "build_levels h (next_level h xs) = next_level h xs # rest"
      using build_levels_shape by blast
    have i2: "i div 2 < length (next_level h xs)" using less.prems by simp
    have lt: "length (next_level h xs) < length xs" using True by simp
    let ?s = "if i mod 2 = 0 then i + 1 else i - 1"
    let ?sib = "if ?s < length xs then xs ! ?s else xs ! i"
    have "(if i mod 2 = 0 then hash_pair h (xs ! i) ?sib else hash_pair h ?sib (xs ! i)) = next_level h xs ! (i div 2)"
      using less.prems by (auto simp: next_level_parent parent_hash_def)
    moreover have "proof_walk (build_levels h xs) i = ?sib # proof_walk (build_levels h (next_level h xs)) (i div 2)"
      using True rest by (simp add: build_levels_step Let_def)
    ultimately show ?thesis
      using less.hyps [OF lt i2] True by (simp add: build_levels_step)
  qed
qed

lemma length_proof_walk: "length (proof_walk ls i) = length ls - 1"
  by (induction ls i rule: proof_walk.induct) (simp_all add: Let_def)

lemma build_levels_length: "length xs = length ys \<Longrightarrow> length (build_levels h xs) = length (build_levels h ys)"
proof (induction "length xs" arbitrary: xs ys rule: less_induct)
  case less
  then show ?case by (simp add: build_levels.simps [of h xs] build_levels.simps [of h ys])
qed

section \<open>Updates agree with a rebuild\<close>

lemma length_write_parents [simp]: "length (write_parents h level nodes upper) = length upper"
proof -
  have "length (fold (\<lambda>i up. if i div 2 < length up then up[i div 2 := parent_hash h level i] else up) nodes upper)
      = length upper" by (induction nodes arbitrary: upper) simp_all
  then show ?thesis by (simp add: write_parents_def)
qed

lemma write_parents_nth:
  assumes "\<forall>i \<in> set nodes. i < length level" "p < length upper"
  shows "write_parents h level nodes upper ! p =
    (if p \<in> (\<lambda>i. i div 2) ` set nodes then next_level h level ! p else upper ! p)"
  using assms
proof (induction nodes arbitrary: upper)
  case (Cons i nodes)
  let ?up = "if i div 2 < length upper then upper[i div 2 := parent_hash h level i] else upper"
  have "write_parents h level (i # nodes) upper = write_parents h level nodes ?up"
    by (simp add: write_parents_def)
  then show ?case
    using Cons.prems Cons.IH [of ?up] by (auto simp: next_level_parent nth_list_update)
qed (simp add: write_parents_def)

lemma write_parents_next_level:
  assumes "length new = length old" "\<forall>i \<in> set nodes. i < length new"
    and "\<And>i. i < length old \<Longrightarrow> i \<notin> set nodes \<Longrightarrow> new ! i = old ! i"
  shows "write_parents h new nodes (next_level h old) = next_level h new"
proof (rule nth_equalityI)
  fix p assume "p < length (write_parents h new nodes (next_level h old))"
  then have p: "p < length (next_level h old)" by simp
  have "next_level h old ! p = next_level h new ! p" if "p \<notin> (\<lambda>i. i div 2) ` set nodes"
  proof -
    have "2 * p \<notin> set nodes" "2 * p + 1 \<notin> set nodes" using that by force+
    then have "parent_hash h old (2 * p) = parent_hash h new (2 * p)"
      using assms(1) assms(3) [of "2 * p"] assms(3) [of "2 * p + 1"] p by (auto simp: parent_hash_def)
    then show ?thesis using p assms(1) by (simp add: next_level_nth)
  qed
  with write_parents_nth [OF assms(2) p, of h]
  show "write_parents h new nodes (next_level h old) ! p = next_level h new ! p" by simp
qed (simp add: assms(1))

lemma climb_rebuilds:
  assumes "length new = length old" "\<forall>i \<in> set nodes. i < length new"
    and "\<And>i. i < length old \<Longrightarrow> i \<notin> set nodes \<Longrightarrow> new ! i = old ! i"
  shows "climb h (new # tl (build_levels h old)) nodes = Some (build_levels h new)"
  using assms
proof (induction "length old" arbitrary: old new nodes rule: less_induct)
  case less
  show ?case
  proof (cases "length old > 1")
    case False
    then show ?thesis using less.prems(1) by (simp add: build_levels_one)
  next
    case True
    obtain rest where rest: "build_levels h (next_level h old) = next_level h old # rest"
      using build_levels_shape by blast
    let ?up = "remdups (map (\<lambda>i. i div 2) nodes)"
    note wp = write_parents_next_level [OF less.prems, of h]
    have "climb h (next_level h new # tl (build_levels h (next_level h old))) ?up
        = Some (build_levels h (next_level h new))"
    proof (rule less.hyps)
      show "length (next_level h old) < length old" using True by simp
      show "\<forall>i \<in> set ?up. i < length (next_level h new)"
        using less.prems(2) by (auto simp: less_mult_imp_div_less)
      fix p assume p: "p < length (next_level h old)" "p \<notin> set ?up"
      then show "next_level h new ! p = next_level h old ! p"
        using write_parents_nth [OF less.prems(2) p(1), of h] wp by auto
    qed (simp add: less.prems(1))
    moreover have "\<not> list_ex (\<lambda>i. length new \<le> i) nodes"
      using less.prems(2) by (auto simp: list_ex_iff)
    ultimately show ?thesis
      using True less.prems(1) rest wp by (simp add: build_levels_step)
  qed
qed

lemma length_set_leaves [simp]: "length (set_leaves us xs) = length xs"
proof -
  have "length (fold (\<lambda>(i, x) xs. xs[i := x]) us xs) = length xs"
    by (induction us arbitrary: xs) (auto split: prod.splits)
  then show ?thesis by (simp add: set_leaves_def)
qed

lemma set_leaves_nth: "i \<notin> fst ` set us \<Longrightarrow> set_leaves us xs ! i = xs ! i"
proof (induction us arbitrary: xs)
  case (Cons u us)
  then show ?case by (cases u) (simp add: set_leaves_def)
qed (simp add: set_leaves_def)

lemma last_build_levels: "xs \<noteq> [] \<Longrightarrow> last (build_levels h xs) \<noteq> []"
proof (induction "length xs" arbitrary: xs rule: less_induct)
  case less
  have "next_level h xs \<noteq> []" using less.prems by simp
  then show ?case using less by (simp add: build_levels.simps [of h xs])
qed

lemma update_leaves_rebuilds:
  assumes "merkle_build h leaves = Some t" "\<forall>(i, x) \<in> set updates. i < length leaves"
  shows "update_leaves h t updates = merkle_build h (set_leaves updates leaves)"
proof (cases "updates = []")
  case True
  then show ?thesis using assms(1) by (simp add: update_leaves_def set_leaves_def)
next
  case False
  let ?new = "set_leaves updates leaves"
  have t: "leaves \<noteq> []" "mt_leaves t = leaves" "mt_tree t = build_levels h leaves"
    using assms(1) by (auto simp: merkle_build_def Let_def split: if_splits)
  obtain rest where rest: "build_levels h leaves = leaves # rest" using build_levels_shape by blast
  have "climb h (?new # tl (build_levels h leaves)) (remdups (map fst updates)) = Some (build_levels h ?new)"
    by (rule climb_rebuilds) (use assms(2) set_leaves_nth in \<open>auto simp: image_iff split_beta\<close>)
  moreover have ne: "?new \<noteq> []" using t(1) by (metis length_set_leaves length_0_conv)
  moreover have "\<not> list_ex (\<lambda>(i, x). i \<ge> length leaves) updates"
    using assms(2) by (auto simp: list_ex_iff)
  ultimately show ?thesis
    using False t rest last_build_levels [OF ne, of h]
    by (simp add: update_leaves_def merkle_build_def Let_def)
qed

lemma built_tree_proves:
  assumes "merkle_build h leaves = Some t" "i < length leaves"
  shows "\<exists>p. generate_proof t i = Some p \<and> verify_proof h (leaves ! i) p (mt_root t) i"
  using assms fold_proof_walk [OF assms(2), of h]
  by (auto simp: merkle_build_def Let_def generate_proof_def verify_proof_def split: if_splits)

text \<open>C24: updating leaves in place gives exactly the tree, proofs and root that a rebuild from the
  updated leaves gives, for any list of updates in range, repeated indices included.\<close>

theorem update_leaves_is_rebuild:
  assumes "merkle_build h leaves = Some t" "\<forall>(i, x) \<in> set updates. i < length leaves"
  shows "update_leaves h t updates = merkle_build h (set_leaves updates leaves)"
  using assms by (rule update_leaves_rebuilds)

text \<open>every leaf of a built tree has a proof, and the proof verifies against the root.\<close>

lemma generated_proof_verifies:
  assumes "merkle_build h leaves = Some t" "i < length leaves"
  shows "\<exists>p. generate_proof t i = Some p \<and> verify_proof h (leaves ! i) p (mt_root t) i"
  using assms by (rule built_tree_proves)

theorem update_leaves_is_rebuild_witness:
  "\<exists>t. merkle_build (\<lambda>b. b) [[1], [2], [3]] = Some t \<and>
     update_leaves (\<lambda>b. b) t [(2, [9]), (0, [7]), (2, [8])] = merkle_build (\<lambda>b. b) [[7], [2], [8]]"
proof -
  obtain t where t: "merkle_build (\<lambda>b. b) [[1], [2], [3 :: u8]] = Some t" by (simp add: merkle_build_def Let_def)
  have "\<forall>(i, x) \<in> set [(2, [9]), (0, [7]), (2, [8 :: u8])]. i < length [[1], [2], [3 :: u8]]" by simp
  from update_leaves_is_rebuild [OF t this] t show ?thesis by (simp add: set_leaves_def)
qed

theorem generated_proof_verifies_witness:
  "\<exists>t p. merkle_build (\<lambda>b. b) [[1], [2], [3]] = Some t \<and> generate_proof t 2 = Some p \<and>
     verify_proof (\<lambda>b. b) [3] p (mt_root t) 2"
proof -
  obtain t where t: "merkle_build (\<lambda>b. b) [[1], [2], [3 :: u8]] = Some t" by (simp add: merkle_build_def Let_def)
  have "2 < length [[1], [2], [3 :: u8]]" by simp
  from generated_proof_verifies [OF t this] t show ?thesis by auto
qed

section \<open>Binding\<close>

text \<open>The strings hashed while a proof is folded.  A wrong leaf whose proof verifies yields two
  different strings at the same step with the same hash: an explicit collision.\<close>

fun path_inputs :: "(bytes \<Rightarrow> bytes) \<Rightarrow> bytes \<Rightarrow> bytes list \<Rightarrow> nat \<Rightarrow> bytes list" where
  "path_inputs h cur [] i = []"
| "path_inputs h cur (s # p) i =
     (let inp = str_bytes ''Merkle'' @ (if i mod 2 = 0 then cur @ s else s @ cur)
      in inp # path_inputs h (h inp) p (i div 2))"

definition collides :: "(bytes \<Rightarrow> bytes) \<Rightarrow> bytes list \<Rightarrow> bytes list \<Rightarrow> bool" where
  "collides h as bs = list_ex (\<lambda>(a, b). a \<noteq> b \<and> h a = h b) (zip as bs)"

lemma fold_proof_binding:
  assumes "\<And>b. length (h b) = 32" "length x = 32" "length y = 32"
    and "list_all (\<lambda>s. length s = 32) p" "list_all (\<lambda>s. length s = 32) q" "length p = length q"
    and "fold_proof h x p i = fold_proof h y q i" "x \<noteq> y"
  shows "collides h (path_inputs h x p i) (path_inputs h y q i)"
  using assms(6,2-5,7,8)
proof (induction p q arbitrary: x y i rule: list_induct2)
  case (Cons s p s' q)
  let ?a = "str_bytes ''Merkle'' @ (if i mod 2 = 0 then x @ s else s @ x)"
  let ?b = "str_bytes ''Merkle'' @ (if i mod 2 = 0 then y @ s' else s' @ y)"
  have ne: "?a \<noteq> ?b" using Cons.prems by auto
  have f: "fold_proof h (h ?a) p (i div 2) = fold_proof h (h ?b) q (i div 2)"
    using Cons.prems(5) by (simp add: hash_pair_def split: if_splits)
  show ?case
  proof (cases "h ?a = h ?b")
    case True
    then show ?thesis using ne by (simp add: collides_def Let_def)
  next
    case False
    then have "collides h (path_inputs h (h ?a) p (i div 2)) (path_inputs h (h ?b) q (i div 2))"
      by (intro Cons.IH) (use Cons.prems assms(1) f in simp_all)
    then show ?thesis by (simp add: collides_def Let_def)
  qed
qed simp

lemma list_all_next_level:
  "(\<And>b. length (h b) = 32) \<Longrightarrow> list_all (\<lambda>s. length s = 32) (next_level h xs)"
  by (induction h xs rule: next_level.induct) (simp_all add: hash_pair_def)

lemma proof_walk_32:
  assumes "\<And>b. length (h b) = 32" "list_all (\<lambda>s. length s = 32) xs" "i < length xs"
  shows "list_all (\<lambda>s. length s = 32) (proof_walk (build_levels h xs) i)"
  using assms(2,3)
proof (induction "length xs" arbitrary: xs i rule: less_induct)
  case less
  show ?case
  proof (cases "length xs > 1")
    case True
    obtain rest where rest: "build_levels h (next_level h xs) = next_level h xs # rest"
      using build_levels_shape by blast
    have "list_all (\<lambda>s. length s = 32) (proof_walk (build_levels h (next_level h xs)) (i div 2))"
      by (rule less.hyps) (use True less.prems list_all_next_level [OF assms(1)] in simp_all)
    moreover have "length (if s < length xs then xs ! s else xs ! i) = 32" for s
      using less.prems by (simp add: list_all_length)
    moreover have "\<exists>s. proof_walk (build_levels h xs) i = (if s < length xs then xs ! s else xs ! i) #
        proof_walk (build_levels h (next_level h xs)) (i div 2)"
      unfolding build_levels_step [OF True] rest by (auto simp: Let_def)
    ultimately show ?thesis by (auto split del: if_split)
  qed (simp add: build_levels_one)
qed

text \<open>A vector commitment: openings of honest lists verify, and a verified opening to another value is
  an attack.  Two lists of equal length with one commitment then differ by an attack.\<close>

locale vector_commitment =
  fixes good :: bool
    and ok :: "'x \<Rightarrow> bool"
    and root_of :: "'x list \<Rightarrow> 'r"
    and prove :: "'x list \<Rightarrow> nat \<Rightarrow> 'p"
    and check :: "'x \<Rightarrow> 'p \<Rightarrow> 'r \<Rightarrow> nat \<Rightarrow> bool"
    and attack :: "'x list \<Rightarrow> 'x list \<Rightarrow> nat \<Rightarrow> bool"
  assumes complete: "i < length xs \<Longrightarrow> check (xs ! i) (prove xs i) (root_of xs) i"
    and binding: "good \<Longrightarrow> list_all ok xs \<Longrightarrow> list_all ok ys \<Longrightarrow> length ys = length xs \<Longrightarrow> i < length xs \<Longrightarrow>
      check (ys ! i) (prove ys i) (root_of xs) i \<Longrightarrow> ys ! i \<noteq> xs ! i \<Longrightarrow> attack xs ys i"
begin

lemma root_binds:
  assumes "good" "list_all ok xs" "list_all ok ys" "length ys = length xs" "root_of ys = root_of xs" "ys \<noteq> xs"
  shows "\<exists>i < length xs. attack xs ys i"
proof -
  obtain i where i: "i < length xs" "ys ! i \<noteq> xs ! i"
    using assms(4,6) by (auto simp: list_eq_iff_nth_eq)
  moreover have "check (ys ! i) (prove ys i) (root_of xs) i"
    using complete [of i ys] i assms(4,5) by simp
  ultimately show ?thesis using binding assms(1-4) by blast
qed

end

definition leaves_root :: "(bytes \<Rightarrow> bytes) \<Rightarrow> bytes list \<Rightarrow> capacity_merkle_root" where
  "leaves_root h xs = CapacityMerkleRoot (hd (last (build_levels h xs)))"

definition leaf_path :: "(bytes \<Rightarrow> bytes) \<Rightarrow> bytes list \<Rightarrow> nat \<Rightarrow> bytes list" where
  "leaf_path h xs i = path_inputs h (xs ! i) (proof_walk (build_levels h xs) i) i"

interpretation vc: vector_commitment "\<forall>b. length (h b) = 32" "\<lambda>s. length s = 32" "leaves_root h"
    "\<lambda>xs. proof_walk (build_levels h xs)" "verify_proof h" "\<lambda>xs ys i. collides h (leaf_path h xs i) (leaf_path h ys i)"
  for h
proof
  fix xs :: "bytes list" and i
  assume "i < length xs"
  then show "verify_proof h (xs ! i) (proof_walk (build_levels h xs) i) (leaves_root h xs) i"
    by (simp add: verify_proof_def leaves_root_def fold_proof_walk)
next
  fix xs ys :: "bytes list" and i
  assume a: "\<forall>b. length (h b) = 32" "list_all (\<lambda>s. length s = 32) xs" "list_all (\<lambda>s. length s = 32) ys"
    "length ys = length xs" "i < length xs" "verify_proof h (ys ! i) (proof_walk (build_levels h ys) i) (leaves_root h xs) i"
    "ys ! i \<noteq> xs ! i"
  then have "fold_proof h (xs ! i) (proof_walk (build_levels h xs) i) i = fold_proof h (ys ! i) (proof_walk (build_levels h ys) i) i"
    by (simp add: verify_proof_def leaves_root_def fold_proof_walk)
  moreover have "length (proof_walk (build_levels h xs) i) = length (proof_walk (build_levels h ys) i)"
    using build_levels_length [OF a(4), of h] by (simp add: length_proof_walk)
  ultimately show "collides h (leaf_path h xs i) (leaf_path h ys i)"
    unfolding leaf_path_def
    by (intro fold_proof_binding proof_walk_32) (use a in \<open>simp_all add: list_all_length\<close>)
qed

lemma merkle_build_root:
  "merkle_build h xs = Some t \<Longrightarrow> xs \<noteq> [] \<and> mt_leaves t = xs \<and> mt_tree t = build_levels h xs \<and> mt_root t = leaves_root h xs"
  by (auto simp: merkle_build_def Let_def leaves_root_def split: if_splits)

text \<open>C25: the root binds the leaves: two trees over equally many 32-byte leaves with the same root but
  different leaves exhibit, on the path of some leaf, two different strings that \<^verbatim>\<open>blake3\<close> maps to
  the same hash.\<close>

theorem merkle_root_binds_leaves:
  assumes "\<forall>b. length (h b) = 32" "list_all (\<lambda>s. length s = 32) xs" "list_all (\<lambda>s. length s = 32) ys"
    and "merkle_build h xs = Some t" "merkle_build h ys = Some u"
    and "merkle_leaf_count u = merkle_leaf_count t" "mt_root u = mt_root t" "ys \<noteq> xs"
  shows "\<exists>i < length xs. collides h (leaf_path h xs i) (leaf_path h ys i)"
  by (rule vc.root_binds [OF assms(1-3)])
    (use assms(4-8) in \<open>simp_all add: merkle_leaf_count_def merkle_build_root\<close>)

text \<open>With a constant hash every two leaves collide; the theorem then points at the first path.\<close>

theorem merkle_root_binds_leaves_witness:
  "\<exists>i < length [replicate 32 (1 :: u8), replicate 32 2].
     collides (\<lambda>b. replicate 32 0) (leaf_path (\<lambda>b. replicate 32 0) [replicate 32 1, replicate 32 2] i)
       (leaf_path (\<lambda>b. replicate 32 0) [replicate 32 1, replicate 32 3] i)"
proof (rule merkle_root_binds_leaves)
  let ?h = "\<lambda>b :: bytes. replicate 32 (0 :: u8)"
  show "merkle_build ?h [replicate 32 1, replicate 32 2] =
      Some \<lparr>mt_leaves = [replicate 32 1, replicate 32 2], mt_root = CapacityMerkleRoot (replicate 32 0),
        mt_tree = [[replicate 32 1, replicate 32 2], [replicate 32 0]]\<rparr>"
    by (simp add: merkle_build_def Let_def build_levels_step build_levels_one hash_pair_def)
  show "merkle_build ?h [replicate 32 1, replicate 32 3] =
      Some \<lparr>mt_leaves = [replicate 32 1, replicate 32 3], mt_root = CapacityMerkleRoot (replicate 32 0),
        mt_tree = [[replicate 32 1, replicate 32 3], [replicate 32 0]]\<rparr>"
    by (simp add: merkle_build_def Let_def build_levels_step build_levels_one hash_pair_def)
qed (simp_all add: merkle_leaf_count_def)

section \<open>What the root and the index do not fix\<close>

lemma next_level_dup_last:
  "odd (length xs) \<Longrightarrow> next_level h (xs @ [last xs]) = next_level h xs"
  by (induction h xs rule: next_level.induct) (auto simp: last_ConsR)

lemma fold_proof_alias: "fold_proof h x p (i + 2 ^ length p * k) = fold_proof h x p i"
proof (induction p arbitrary: x i)
  case (Cons s p)
  have "(i + 2 * 2 ^ length p * k) mod 2 = i mod 2" by (simp add: mult.assoc)
  moreover have "(i + 2 * 2 ^ length p * k) div 2 = i div 2 + 2 ^ length p * k" by (simp add: mult.assoc)
  ultimately show ?case using Cons [of _ "i div 2"] by (simp add: mult.assoc add.commute)
qed simp

text \<open>The root does not fix the number of leaves, and verification does not bound the index: a tree
  over an odd number of leaves (three or more) has the same root when its last leaf is repeated, so
  the proof of the repeated leaf verifies against the smaller tree at an index outside it; and a
  proof that verifies at an index verifies at that index plus any multiple of two to its length.\<close>

lemma merkle_index_not_bounded:
  assumes "merkle_build h xs = Some t" "odd (length xs)" "length xs > 1"
  shows "(\<exists>u p. merkle_build h (xs @ [last xs]) = Some u \<and> mt_root u = mt_root t \<and>
       generate_proof t (length xs) = None \<and> generate_proof u (length xs) = Some p \<and>
       verify_proof h (last xs) p (mt_root t) (length xs)) \<and>
    verify_proof h x q r (i + 2 ^ length q * k) = verify_proof h x q r i"
proof -
  let ?ys = "xs @ [last xs]"
  obtain u where u: "merkle_build h ?ys = Some u" by (simp add: merkle_build_def Let_def)
  have "leaves_root h ?ys = leaves_root h xs"
  proof -
    have "length ?ys > 1" using assms(3) by (cases xs) simp_all
    then show ?thesis
      unfolding leaves_root_def
      by (simp only: build_levels_step [OF assms(3)] build_levels_step [of ?ys] next_level_dup_last [OF assms(2)]
          last.simps build_levels_not_Nil if_False)
  qed
  moreover note t = merkle_build_root [OF assms(1)] and u' = merkle_build_root [OF u]
  moreover have "verify_proof h (?ys ! length xs) (proof_walk (build_levels h ?ys) (length xs)) (leaves_root h ?ys) (length xs)"
    by (rule vc.complete) simp
  ultimately show ?thesis using u by (auto simp: generate_proof_def verify_proof_def fold_proof_alias)
qed

theorem merkle_index_not_bounded_witness:
  "\<exists>t u p. merkle_build (\<lambda>b. b) [[1], [2], [3]] = Some t \<and> merkle_build (\<lambda>b. b) [[1], [2], [3], [3]] = Some u \<and>
     mt_root u = mt_root t \<and> verify_proof (\<lambda>b. b) [3] p (mt_root t) 3"
proof -
  obtain t where t: "merkle_build (\<lambda>b. b) [[1], [2], [3 :: u8]] = Some t" by (simp add: merkle_build_def Let_def)
  from merkle_index_not_bounded [OF t, of "[]" "[]" "CapacityMerkleRoot []" 0 0, THEN conjunct1] obtain u p where
    "merkle_build (\<lambda>b. b) ([[1], [2], [3]] @ [last [[1], [2], [3 :: u8]]]) = Some u" "mt_root u = mt_root t"
    "verify_proof (\<lambda>b. b) (last [[1], [2], [3]]) p (mt_root t) (length [[1], [2], [3 :: u8]])"
    by auto
  with t show ?thesis by (auto simp: numeral_3_eq_3)
qed

end
