(* ===== verification/Verified_Proof.thy ===== *)
theory Verified_Proof
  imports Handlers Merkle "HOL-Library.Signed_Division"
begin

text \<open>
  Capacity challenges and the \<^verbatim>\<open>VerifiedProof\<close> transaction: challenge parameters
  (\<^verbatim>\<open>common/src/capacity_challenge.rs\<close>), the provider's signed answer
  (\<^verbatim>\<open>common/src/capacity_proof.rs\<close>), the check of its chunk proofs
  (\<^verbatim>\<open>node_app/src/capacity/challenge_validator.rs\<close>), the reward
  (\<^verbatim>\<open>consensus/rewards.rs\<close>) and the handler (\<^verbatim>\<open>tx_processor/verified_proof_processor.rs\<close>).

  The properties: a reward is paid only for a signed, complete and verifying answer of a challenged
  provider reported by the active validator of the current or previous epoch, exactly once per
  spelling of the challenge identifier; the failure counter wraps at the slashing threshold; the
  challenged chunks are distinct and in range.  Two weaknesses are proved: a respelled identifier is
  paid again, and every height of the epoch has a payable challenge.
\<close>

section \<open>Crates\<close>

text \<open>\<^verbatim>\<open>blake3\<close>; \<^verbatim>\<open>shuffle\<close> of \<open>[0..n)\<close> by \<^verbatim>\<open>StdRng\<close> from a 32-byte seed; and \<^verbatim>\<open>serde_json::to_vec\<close> of
  the signing payload (challenge id, provider, challenger, height, proofs, time, key).\<close>

record proof_crates =
  blake3 :: "bytes \<Rightarrow> bytes"
  shuffled :: "bytes \<Rightarrow> nat \<Rightarrow> nat list"
  response_to_json ::
    "string \<Rightarrow> string \<Rightarrow> string \<Rightarrow> int \<Rightarrow> chunk_proof list \<Rightarrow> u64 \<Rightarrow> string \<Rightarrow> bytes option"

definition shuffle_documented :: "proof_crates \<Rightarrow> bool" where
  "shuffle_documented pcr \<longleftrightarrow> (\<forall>s n. distinct (shuffled pcr s n) \<and> set (shuffled pcr s n) = {0..<n})"

section \<open>Challenge parameters\<close>

definition select_challenge_chunk_indices ::
    "node_crates \<Rightarrow> proof_crates \<Rightarrow> int \<Rightarrow> address \<Rightarrow> int \<Rightarrow> address \<Rightarrow> u32 \<Rightarrow> nat \<Rightarrow> nat list" where
  "select_challenge_chunk_indices cr pcr epoch provider bh validator count per_challenge =
    (if count = 0 then []
     else (let seed = sha256 cr (str_bytes ''CHALLENGE_CHUNK_SELECTION'' @ be_bytes 8 epoch
                 @ str_bytes (hex_with_prefix (hex cr) provider) @ be_bytes 8 bh
                 @ str_bytes (hex_with_prefix (hex cr) validator))
           in take (min per_challenge (unat count)) (shuffled pcr seed (unat count))))"

definition compute_challenge_id :: "node_crates \<Rightarrow> address \<Rightarrow> address \<Rightarrow> int \<Rightarrow> nat list \<Rightarrow> challenge_id" where
  "compute_challenge_id cr validator provider bh indices =
     ChallengeId (sha256 cr (str_bytes (hex_with_prefix (hex cr) validator)
       @ str_bytes (hex_with_prefix (hex cr) provider) @ be_bytes 8 bh
       @ concat (map (\<lambda>i. be_bytes 8 (int i)) indices)))"

section \<open>Signed challenge responses\<close>

definition capacity_challenge_response_signing_bytes ::
    "proof_crates \<Rightarrow> string \<Rightarrow> string \<Rightarrow> string \<Rightarrow> int \<Rightarrow> chunk_proof list \<Rightarrow> u64 \<Rightarrow> string \<Rightarrow> string + bytes" where
  "capacity_challenge_response_signing_bytes pcr cid provider challenger bh proofs gen pk =
     ok_or ''failed to serialize'' (response_to_json pcr cid provider challenger bh proofs gen pk)"

definition verify_capacity_challenge_response ::
    "node_crates \<Rightarrow> proof_crates \<Rightarrow> string \<Rightarrow> address \<Rightarrow> address \<Rightarrow> int \<Rightarrow> chunk_proof list \<Rightarrow> u64 \<Rightarrow> string \<Rightarrow> string
     \<Rightarrow> string + unit" where
  "verify_capacity_challenge_response cr pcr cid provider challenger bh proofs gen pk sig =
    (if pk = [] \<or> sig = [] then Err ''missing provider signature''
     else and_then (ok_or ''invalid provider_pubkey hex'' (hex_decode (hex cr) pk)) (\<lambda>pkb.
      if length pkb \<noteq> 32 then Err ''provider_pubkey must be 32 bytes''
      else if \<not> ed_valid_key cr pkb then Err ''invalid provider_pubkey''
      else and_then (map_err (\<lambda>_. ''failed to derive'') (address_from_public_key (sha256 cr) pkb)) (\<lambda>derived.
       if derived \<noteq> provider then Err ''provider_id does not match provider_pubkey''
       else and_then (capacity_challenge_response_signing_bytes pcr cid (hex_with_prefix (hex cr) provider)
                (hex_with_prefix (hex cr) challenger) bh proofs gen pk) (\<lambda>msg.
        and_then (ok_or ''invalid provider_signature hex'' (hex_decode (hex cr) sig)) (\<lambda>sigb.
         if length sigb \<noteq> 64 then Err ''provider_signature must be 64 bytes''
         else if ed_verify cr pkb msg sigb then Ok () else Err ''provider signature verification failed'')))))"

section \<open>Chunk proofs\<close>

definition hash_chunk :: "node_crates \<Rightarrow> bytes \<Rightarrow> bytes" where
  "hash_chunk cr d = sha256 cr (str_bytes ''CHUNK_HASH'' @ d)"

record proof_validation_result =
  is_valid :: bool
  pv_errors :: "string list"

definition chunk_proof_error ::
    "node_crates \<Rightarrow> proof_crates \<Rightarrow> capacity_merkle_root \<Rightarrow> nat \<Rightarrow> chunk_proof \<Rightarrow> string list" where
  "chunk_proof_error cr pcr root expected_index p =
    (if chunk_index p \<noteq> expected_index then [''chunk index mismatch'']
     else if hash_chunk cr (chunk_data p) \<noteq> chunk_hash p then [''chunk hash mismatch'']
     else if \<not> verify_proof (blake3 pcr) (chunk_hash p) (cp_merkle_proof p) root (chunk_index p)
       then [''Merkle proof verification failed'']
     else (case cp_slot_state p of
         SlotOpen \<Rightarrow> if list_all (\<lambda>b. b = 0) (chunk_data p) then [] else [''Open slot contains non-zero data'']
       | SlotProof \<Rightarrow> []
       | SlotContent d c \<Rightarrow> []))"

definition validate_challenge_proof ::
    "node_crates \<Rightarrow> proof_crates \<Rightarrow> chunk_proof list \<Rightarrow> capacity_merkle_root \<Rightarrow> nat list \<Rightarrow> proof_validation_result" where
  "validate_challenge_proof cr pcr proofs root indices =
    (if length proofs \<noteq> length indices then \<lparr>is_valid = False, pv_errors = [''Proof count mismatch'']\<rparr>
     else (let errs = concat (map (\<lambda>(i, p). chunk_proof_error cr pcr root i p) (zip indices proofs)) in
           \<lparr>is_valid = (errs = []), pv_errors = errs\<rparr>))"

section \<open>Binding to the epoch record\<close>

record verified_proof_binding =
  challenged_provider_id :: address
  b_validator_address :: address
  expected_merkle_root :: capacity_merkle_root
  expected_indices :: "nat list"
  expected_challenge_id :: challenge_id

text \<open>\<^verbatim>\<open>i64\<close> division truncates; protocol validation keeps \<open>blocks_per_epoch\<close> positive.\<close>

definition proof_epoch_in_window :: "int \<Rightarrow> int \<Rightarrow> int \<Rightarrow> string + int" where
  "proof_epoch_in_window bh cur bpe =
    (if bh \<le> 0 then Err ''block_height must be positive''
     else if cur < 0 then Err ''current epoch is invalid''
     else (let pe = bh sdiv bpe in
       if pe = cur \<or> (cur > 0 \<and> pe = cur - 1) then Ok pe
       else if pe > cur then Err ''after current epoch'' else Err ''older than the previous epoch''))"

definition validate_verified_proof_binding ::
    "node_crates \<Rightarrow> proof_crates \<Rightarrow> epoch_record \<Rightarrow> address \<Rightarrow> address \<Rightarrow> string \<Rightarrow> int \<Rightarrow> int \<Rightarrow> nat
     \<Rightarrow> string + verified_proof_binding" where
  "validate_verified_proof_binding cr pcr r sender provider cid bh bpe per_challenge =
    (let pe = bh sdiv bpe in
     if er_epoch r \<noteq> pe then Err ''epoch record does not match proof epoch''
     else and_then (ok_or ''no active_capacity_validator'' (er_active_capacity_validator r)) (\<lambda>sv.
      if acv_epoch sv \<noteq> pe then Err ''active capacity validator epoch does not match''
      else if sender \<noteq> validator_address sv then Err ''sender is not active_capacity_validator''
      else if provider \<notin> set (challenged_providers sv) then Err ''not in challenged_providers''
      else and_then (ok_or ''not in challenged_capacity_validators''
              (List.find (\<lambda>p. cv_address p = provider) (challenged_capacity_validators r))) (\<lambda>info.
       and_then (case chunk_count info of
                   Some c \<Rightarrow> if c > 0 then Ok c else Err ''no chunk_count''
                 | None \<Rightarrow> Err ''no chunk_count'') (\<lambda>count.
       and_then (ok_or ''no merkle_root'' (merkle_root info)) (\<lambda>root.
        let indices = select_challenge_chunk_indices cr pcr (acv_epoch sv) provider bh
                        (validator_address sv) count per_challenge;
            expected = compute_challenge_id cr (validator_address sv) provider bh indices in
        and_then (map_err (\<lambda>_. ''invalid challenge_id hex'') (challenge_id_parse_hex (hex cr) cid)) (\<lambda>parsed.
         if parsed \<noteq> expected then Err ''challenge_id mismatch''
         else Ok \<lparr>challenged_provider_id = provider, b_validator_address = validator_address sv,
                 expected_merkle_root = CapacityMerkleRoot root, expected_indices = indices,
                 expected_challenge_id = expected\<rparr>))))))"

definition bind_verified_proof ::
    "node_crates \<Rightarrow> proof_crates \<Rightarrow> epoch_record option \<Rightarrow> int \<Rightarrow> address \<Rightarrow> address \<Rightarrow> string \<Rightarrow> int
     \<Rightarrow> protocol_constants \<Rightarrow> string + verified_proof_binding" where
  "bind_verified_proof cr pcr rec cur sender provider cid bh pc =
     and_then (proof_epoch_in_window bh cur (blocks_per_epoch pc)) (\<lambda>_.
     and_then (ok_or ''no epoch record'' rec) (\<lambda>r.
       validate_verified_proof_binding cr pcr r sender provider cid bh (blocks_per_epoch pc)
         (chunks_per_challenge pc)))"

section \<open>Failures and rewards\<close>

definition record_failed_capacity_proof :: "envelope \<Rightarrow> address \<Rightarrow> u32 \<Rightarrow> envelope \<times> u32 \<times> bool" where
  "record_failed_capacity_proof e provider threshold =
    (let count = saturating_add (case map_of (failed_proof_counts e) provider of None \<Rightarrow> 0 | Some n \<Rightarrow> n) 1 in
     if count \<ge> threshold
     then (e\<lparr>capacity_validators := update_first (\<lambda>cv. cv_address cv = provider)
                (\<lambda>cv. cv\<lparr>cv_stake := coin_zero\<rparr>) (capacity_validators e),
              failed_proof_counts := bt_insert provider 0 (failed_proof_counts e)\<rparr>, 0, True)
     else (e\<lparr>failed_proof_counts := bt_insert provider count (failed_proof_counts e)\<rparr>, count, False))"

definition credit_verified_proof_reward ::
    "node_crates \<Rightarrow> store_view \<Rightarrow> envelope \<Rightarrow> address \<Rightarrow> coin \<Rightarrow> envelope res" where
  "credit_verified_proof_reward cr st e provider reward =
    (case load_account cr st e provider of
       None \<Rightarrow> Err (ValidationError ''path'')
     | Some found \<Rightarrow>
        (case (case found of Some x \<Rightarrow> x | None \<Rightarrow> (new_account provider, zero_hash)) of
          (acc, h) \<Rightarrow> and_then (coin_add (acc_balance acc) reward) (\<lambda>bal.
             ok_or (StorageError ''serialize_account'')
               (stage_account cr e provider h (acc\<lparr>acc_balance := bal\<rparr>)))))"

definition extend_lease :: "protocol_constants \<Rightarrow> envelope \<Rightarrow> address \<Rightarrow> envelope" where
  "extend_lease pc e provider =
    (let current_block = (word_of_int (block_height e + 1) :: u64) in
     e\<lparr>capacity_validators := update_first (\<lambda>cv. cv_address cv = provider \<and> registered_block cv \<noteq> 0)
         (\<lambda>cv. cv\<lparr>registration_duration :=
            saturating_sub current_block (registered_block cv) + registration_duration_blocks pc\<rparr>)
         (capacity_validators e)\<rparr>)"

definition verified_proof_events :: "node_crates \<Rightarrow> verified_proof_tx \<Rightarrow> u128 \<Rightarrow> event list" where
  "verified_proof_events cr t reward =
    [(''VerifiedProof'',
       [(''sender'', hex_with_prefix (hex cr) (vp_sender t)),
        (''capacity_provider'', hex_with_prefix (hex cr) (vp_capacity_provider t)),
        (''challenge_id'', vp_challenge_id t), (''block_height'', show_int (vp_block_height t)),
        (''verified_at_block'', show_int (vp_verified_at_block t)),
        (''verified_at_timestamp'', show_nat (unat (vp_verified_at_timestamp t))),
        (''reward'', show_nat (unat reward))]),
     (''Transfer'',
       [(''from'', ''rewards_pool''), (''to'', hex_with_prefix (hex cr) (vp_capacity_provider t)),
        (''amount'', show_nat (unat reward))])]"

definition failed_proof_events :: "node_crates \<Rightarrow> verified_proof_tx \<Rightarrow> u32 \<Rightarrow> bool \<Rightarrow> event list" where
  "failed_proof_events cr t count slashed =
    [(''VerifiedProof'',
       [(''sender'', hex_with_prefix (hex cr) (vp_sender t)),
        (''capacity_provider'', hex_with_prefix (hex cr) (vp_capacity_provider t)),
        (''challenge_id'', vp_challenge_id t), (''failed'', ''true''),
        (''failure_count'', show_nat (unat count)), (''slashed'', if slashed then ''true'' else ''false'')])]"

section \<open>The handler\<close>

text \<open>Gate 0: neither rewarded nor counted before.  \<^term>\<open>Inl\<close> is the early return.\<close>

definition challenge_unused :: "store_view \<Rightarrow> envelope \<Rightarrow> string \<Rightarrow> bool" where
  "challenge_unused st e cid =
     (is_verified_proof_challenge_rewarded st e cid = Ok False \<and>
      is_verified_proof_challenge_failed st e cid = Ok False)"

definition settle_verified_proof ::
    "node_crates \<Rightarrow> proof_crates \<Rightarrow> protocol_constants \<Rightarrow> store_view \<Rightarrow> envelope \<Rightarrow> verified_proof_tx
     \<Rightarrow> coin \<Rightarrow> verified_proof_binding \<Rightarrow> response \<times> envelope" where
  "settle_verified_proof cr pcr pc st e t reward b =
    (let check = validate_challenge_proof cr pcr (vp_proofs t) (expected_merkle_root b) (expected_indices b) in
     if vp_failed t then
       (if is_valid check then (err_validation_failed, e)
        else (case record_failed_capacity_proof e (vp_capacity_provider t) (failed_proofs_before_slash pc) of
          (e1, count, slashed) \<Rightarrow>
            (success (failed_proof_events cr t count slashed),
             e1\<lparr>failed_proof_counted_cache := List.insert (vp_challenge_id t) (failed_proof_counted_cache e1)\<rparr>)))
     else if \<not> is_valid check then (err_validation_failed, e)
     else (case credit_verified_proof_reward cr st e (vp_capacity_provider t) reward of
         Inl _ \<Rightarrow> (err_validation_failed, e)
       | Inr e1 \<Rightarrow> (let e2 = extend_lease pc e1 (vp_capacity_provider t) in
           (success (verified_proof_events cr t (amount (verified_proof_reward_base_amount pc))),
            e2\<lparr>verified_proof_rewarded_cache := List.insert (vp_challenge_id t) (verified_proof_rewarded_cache e2)\<rparr>))))"

definition process_verified_proof_tx ::
    "node_crates \<Rightarrow> proof_crates \<Rightarrow> protocol_constants \<Rightarrow> store_view \<Rightarrow> envelope \<Rightarrow> verified_proof_tx \<Rightarrow> outcome" where
  "process_verified_proof_tx cr pcr pc st e t =
    (case coin_new (amount (verified_proof_reward_base_amount pc)) of
       Inl _ \<Rightarrow> Some (err_validation_failed, e)
     | Inr reward \<Rightarrow>
        (if \<not> challenge_unused st e (vp_challenge_id t) then Some (err_validation_failed, e)
         else if vp_block_height t > 0 \<and> current_epoch e \<ge> 0 \<and> blocks_per_epoch pc = 0 then None
         else (case proof_epoch_in_window (vp_block_height t) (current_epoch e) (blocks_per_epoch pc) of
             Inl _ \<Rightarrow> Some (err_validation_failed, e)
           | Inr pe \<Rightarrow> (case get_epoch_record cr st e pe of
               Inl _ \<Rightarrow> Some (err_validation_failed, e)
             | Inr rec \<Rightarrow>
                (case bind_verified_proof cr pcr rec (current_epoch e) (vp_sender t) (vp_capacity_provider t)
                        (vp_challenge_id t) (vp_block_height t) pc of
                   Inl _ \<Rightarrow> Some (err_validation_failed, e)
                 | Inr b \<Rightarrow>
                    (case verify_capacity_challenge_response cr pcr (vp_challenge_id t) (challenged_provider_id b)
                            (b_validator_address b) (vp_block_height t) (vp_proofs t) (vp_generated_at t)
                            (vp_provider_pubkey t) (vp_provider_signature t) of
                       Inl _ \<Rightarrow> Some (err_validation_failed, e)
                     | Inr _ \<Rightarrow> Some (settle_verified_proof cr pcr pc st e t reward b)))))))"

section \<open>Facts on the gates\<close>

lemma sdiv_pos: "0 < a \<Longrightarrow> 0 < b \<Longrightarrow> a sdiv b = a div b" for a b :: int
  by (simp add: signed_divide_int_def)

lemma proof_epoch_in_window_Ok:
  "proof_epoch_in_window bh cur bpe = Ok pe \<longleftrightarrow>
     0 < bh \<and> 0 \<le> cur \<and> pe = bh sdiv bpe \<and> (pe = cur \<or> (0 < cur \<and> pe = cur - 1))"
  by (auto simp: proof_epoch_in_window_def Let_def)

lemma validate_binding_Ok:
  "validate_verified_proof_binding cr pcr r sender provider cid bh bpe k = Ok b \<longleftrightarrow>
   (\<exists>sv info count root. er_epoch r = bh sdiv bpe \<and> er_active_capacity_validator r = Some sv \<and>
      acv_epoch sv = bh sdiv bpe \<and> sender = validator_address sv \<and> provider \<in> set (challenged_providers sv) \<and>
      List.find (\<lambda>p. cv_address p = provider) (challenged_capacity_validators r) = Some info \<and>
      chunk_count info = Some count \<and> 0 < count \<and> merkle_root info = Some root \<and>
      (let indices = select_challenge_chunk_indices cr pcr (acv_epoch sv) provider bh sender count k;
           expected = compute_challenge_id cr sender provider bh indices in
       challenge_id_parse_hex (hex cr) cid = Ok expected \<and>
       b = \<lparr>challenged_provider_id = provider, b_validator_address = sender,
             expected_merkle_root = CapacityMerkleRoot root, expected_indices = indices,
             expected_challenge_id = expected\<rparr>))"
proof
  assume "validate_verified_proof_binding cr pcr r sender provider cid bh bpe k = Ok b"
  then show "\<exists>sv info count root. er_epoch r = bh sdiv bpe \<and> er_active_capacity_validator r = Some sv \<and>
      acv_epoch sv = bh sdiv bpe \<and> sender = validator_address sv \<and> provider \<in> set (challenged_providers sv) \<and>
      List.find (\<lambda>p. cv_address p = provider) (challenged_capacity_validators r) = Some info \<and>
      chunk_count info = Some count \<and> 0 < count \<and> merkle_root info = Some root \<and>
      (let indices = select_challenge_chunk_indices cr pcr (acv_epoch sv) provider bh sender count k;
           expected = compute_challenge_id cr sender provider bh indices in
       challenge_id_parse_hex (hex cr) cid = Ok expected \<and>
       b = \<lparr>challenged_provider_id = provider, b_validator_address = sender,
             expected_merkle_root = CapacityMerkleRoot root, expected_indices = indices,
             expected_challenge_id = expected\<rparr>)"
    by (auto simp: validate_verified_proof_binding_def Let_def result_simps split: if_splits option.splits)
qed (auto simp: validate_verified_proof_binding_def Let_def)

lemma bind_Ok:
  "bind_verified_proof cr pcr rec cur sender provider cid bh pc = Ok b \<longleftrightarrow>
   (\<exists>r. rec = Some r \<and> is_ok (proof_epoch_in_window bh cur (blocks_per_epoch pc)) \<and>
      validate_verified_proof_binding cr pcr r sender provider cid bh (blocks_per_epoch pc) (chunks_per_challenge pc) = Ok b)"
  by (auto simp: bind_verified_proof_def result_simps is_ok_iff)

lemma validate_challenge_proof_valid:
  "is_valid (validate_challenge_proof cr pcr proofs root indices) \<longleftrightarrow>
   length proofs = length indices \<and>
   (\<forall>(i, p) \<in> set (zip indices proofs). chunk_proof_error cr pcr root i p = [])"
  by (auto simp: validate_challenge_proof_def Let_def split_beta)

lemma chunk_proof_no_error:
  "chunk_proof_error cr pcr root i p = [] \<Longrightarrow>
   chunk_index p = i \<and> hash_chunk cr (chunk_data p) = chunk_hash p \<and>
   verify_proof (blake3 pcr) (chunk_hash p) (cp_merkle_proof p) root (chunk_index p)"
  by (auto simp: chunk_proof_error_def split: if_splits)

lemma valid_proofs_facts:
  assumes "is_valid (validate_challenge_proof cr pcr proofs root indices)"
  shows "map chunk_index proofs = indices"
    and "\<And>p. p \<in> set proofs \<Longrightarrow> hash_chunk cr (chunk_data p) = chunk_hash p \<and>
      verify_proof (blake3 pcr) (chunk_hash p) (cp_merkle_proof p) root (chunk_index p)"
proof -
  have len: "length proofs = length indices"
    and all: "\<forall>(i, p) \<in> set (zip indices proofs). chunk_proof_error cr pcr root i p = []"
    using assms by (simp_all add: validate_challenge_proof_valid)
  have err: "chunk_proof_error cr pcr root (indices ! k) (proofs ! k) = []" if "k < length proofs" for k
  proof -
    have "(indices ! k, proofs ! k) \<in> set (zip indices proofs)"
      using that len by (metis length_zip min.idem nth_mem nth_zip)
    then show ?thesis using all by blast
  qed
  show "map chunk_index proofs = indices"
    by (rule nth_equalityI) (use len chunk_proof_no_error [OF err] in simp_all)
  show "hash_chunk cr (chunk_data p) = chunk_hash p \<and>
      verify_proof (blake3 pcr) (chunk_hash p) (cp_merkle_proof p) root (chunk_index p)" if "p \<in> set proofs" for p
    using that chunk_proof_no_error [OF err] by (metis in_set_conv_nth)
qed

lemma credit_reward_Ok:
  assumes doc: "documented cr" and run: "credit_verified_proof_reward cr st e a reward = Ok e'"
  obtains acc h bal where "wf_address a" "account_or_new cr st e a = (acc, h)"
    "coins bal = coins (acc_balance acc) + coins reward" "account_ok (acc\<lparr>acc_balance := bal\<rparr>)"
    "stage_account cr e a h (acc\<lparr>acc_balance := bal\<rparr>) = Some e'"
proof -
  have wf: "wf_address a"
    using run doc by (auto simp: credit_verified_proof_reward_def load_account_eq split: if_splits)
  obtain acc h where ah: "account_or_new cr st e a = (acc, h)" by fastforce
  from run ah wf doc obtain bal where bal: "coin_add (acc_balance acc) reward = Inr bal"
    "stage_account cr e a h (acc\<lparr>acc_balance := bal\<rparr>) = Some e'"
    by (auto simp: credit_verified_proof_reward_def load_account_eq account_or_new_def result_simps)
  show thesis
    using that [OF wf ah _ account_ok_update [OF account_or_new_facts(1) [OF doc wf ah] coin_add_ok [OF bal(1)]] bal(2)]
      bal(1) by (simp add: coin_add_Inr)
qed

lemma settled_reward:
  assumes run: "process_verified_proof_tx cr pcr pc st e t = Some (r, e')" and ok: "code r = 0"
    and nf: "\<not> vp_failed t"
  obtains reward pe rec b e1 where
    "coin_new (amount (verified_proof_reward_base_amount pc)) = Ok reward"
    "challenge_unused st e (vp_challenge_id t)"
    "proof_epoch_in_window (vp_block_height t) (current_epoch e) (blocks_per_epoch pc) = Ok pe"
    "get_epoch_record cr st e pe = Ok rec"
    "bind_verified_proof cr pcr rec (current_epoch e) (vp_sender t) (vp_capacity_provider t)
       (vp_challenge_id t) (vp_block_height t) pc = Ok b"
    "verify_capacity_challenge_response cr pcr (vp_challenge_id t) (challenged_provider_id b)
       (b_validator_address b) (vp_block_height t) (vp_proofs t) (vp_generated_at t)
       (vp_provider_pubkey t) (vp_provider_signature t) = Ok ()"
    "is_valid (validate_challenge_proof cr pcr (vp_proofs t) (expected_merkle_root b) (expected_indices b))"
    "credit_verified_proof_reward cr st e (vp_capacity_provider t) reward = Ok e1"
    "e' = (extend_lease pc e1 (vp_capacity_provider t))\<lparr>verified_proof_rewarded_cache :=
        List.insert (vp_challenge_id t) (verified_proof_rewarded_cache (extend_lease pc e1 (vp_capacity_provider t)))\<rparr>"
proof -
  from run ok obtain reward pe rec b where 1:
    "coin_new (amount (verified_proof_reward_base_amount pc)) = Ok reward"
    "challenge_unused st e (vp_challenge_id t)"
    "proof_epoch_in_window (vp_block_height t) (current_epoch e) (blocks_per_epoch pc) = Ok pe"
    "get_epoch_record cr st e pe = Ok rec"
    "bind_verified_proof cr pcr rec (current_epoch e) (vp_sender t) (vp_capacity_provider t)
       (vp_challenge_id t) (vp_block_height t) pc = Ok b"
    "verify_capacity_challenge_response cr pcr (vp_challenge_id t) (challenged_provider_id b)
       (b_validator_address b) (vp_block_height t) (vp_proofs t) (vp_generated_at t)
       (vp_provider_pubkey t) (vp_provider_signature t) = Ok ()"
    "settle_verified_proof cr pcr pc st e t reward b = (r, e')"
    by (auto simp: process_verified_proof_tx_def handler_codes split: sum.splits if_splits)
  then show thesis
    using that [OF 1(1-6)] ok nf
    by (auto simp: settle_verified_proof_def Let_def handler_codes split: if_splits sum.splits)
qed

text \<open>The gates are also sufficient: when they all pass and the balance has room, the reward is paid.\<close>

lemma credit_reward_completes:
  assumes doc: "documented cr" and wf: "wf_address a"
    and room: "balance_of cr st e a + coins reward \<le> unat MAX_COIN"
  shows "\<exists>e'. credit_verified_proof_reward cr st e a reward = Ok e'"
proof -
  obtain acc h where ah: "account_or_new cr st e a = (acc, h)" by fastforce
  have "coins (acc_balance acc) + unat (amount reward) \<le> unat MAX_COIN"
    using room account_or_new_facts(2) [OF doc wf ah] by simp
  then obtain bal e1 where "coin_add (acc_balance acc) (Coin (amount reward)) = Inr bal"
    "stage_account cr e a h (acc\<lparr>acc_balance := bal\<rparr>) = Some e1"
    using credit_account [OF doc wf account_or_new_facts(1) [OF doc wf ah]] by metis
  then show ?thesis
    using ah wf doc by (auto simp: credit_verified_proof_reward_def load_account_eq account_or_new_def)
qed

lemma reward_completes:
  assumes "documented cr" "wf_address (vp_capacity_provider t)" "\<not> vp_failed t"
    and "coin_new (amount (verified_proof_reward_base_amount pc)) = Ok reward"
    and "challenge_unused st e (vp_challenge_id t)" "blocks_per_epoch pc \<noteq> 0"
    and "proof_epoch_in_window (vp_block_height t) (current_epoch e) (blocks_per_epoch pc) = Ok pe"
    and "get_epoch_record cr st e pe = Ok rec"
    and "bind_verified_proof cr pcr rec (current_epoch e) (vp_sender t) (vp_capacity_provider t)
       (vp_challenge_id t) (vp_block_height t) pc = Ok b"
    and "verify_capacity_challenge_response cr pcr (vp_challenge_id t) (challenged_provider_id b)
       (b_validator_address b) (vp_block_height t) (vp_proofs t) (vp_generated_at t)
       (vp_provider_pubkey t) (vp_provider_signature t) = Ok ()"
    and "is_valid (validate_challenge_proof cr pcr (vp_proofs t) (expected_merkle_root b) (expected_indices b))"
    and "balance_of cr st e (vp_capacity_provider t) + coins reward \<le> unat MAX_COIN"
  shows "\<exists>ev e'. process_verified_proof_tx cr pcr pc st e t = Some (success ev, e')"
proof -
  obtain e1 where "credit_verified_proof_reward cr st e (vp_capacity_provider t) reward = Ok e1"
    using credit_reward_completes [OF assms(1,2,12)] ..
  then show ?thesis
    using assms(3-11) by (auto simp: process_verified_proof_tx_def settle_verified_proof_def Let_def)
qed

text \<open>Writing an account does not disturb the epoch records.\<close>

lemma get_epoch_record_stage_account:
  assumes "documented cr" "stage_account cr e a h acc = Some e'"
  shows "get_epoch_record cr st e' n = get_epoch_record cr st e n"
proof -
  obtain p bd where p: "cado_path_new (hex cr) AccountType (KeyAddress a) = Inr p"
    and e': "e' = update_cado_cache e p bd"
    using assms(2) by (auto simp: stage_account_def split: option.splits sum.splits)
  have "lookup_cado st e' q = lookup_cado st e q"
    if "cado_path_new (hex cr) EpochRecordType key = Inr q" for q key
  proof -
    have "path_str q \<noteq> path_str p"
      using cado_path_new_determines [OF documentedD(1) [OF assms(1)] that p] by auto
    then show ?thesis
      using address_type_not_infrastructure [OF p] by (simp add: e' ws.look_stage)
  qed
  then show ?thesis
    by (cases "epoch_record_path_name n"; simp add: get_epoch_record_def)
      (cases "cado_path_new (hex cr) EpochRecordType (KeyName (projr (epoch_record_path_name n)))"; simp)
qed

lemma get_epoch_record_frame:
  "cado_cache e' = cado_cache e \<Longrightarrow> committed_cado_cache e' = committed_cado_cache e \<Longrightarrow>
   get_epoch_record cr st e' n = get_epoch_record cr st e n"
  unfolding get_epoch_record_def lookup_cado_def by (simp cong: option.case_cong)

section \<open>A small epoch\<close>

declare One_nat_def [simp del]

definition demo_pcr :: proof_crates where
  "demo_pcr = \<lparr>blake3 = (\<lambda>b. take 32 (b @ replicate 32 0)), shuffled = (\<lambda>s n. [0..<n]),
     response_to_json = (\<lambda>cid p c h prf g k. Some (str_bytes cid))\<rparr>"

definition demo_chunk :: chunk_proof where
  "demo_chunk = \<lparr>chunk_index = 0, chunk_data = [7], chunk_hash = str_bytes ''CHUNK_HASH'' @ 7 # replicate 21 0,
     cp_merkle_proof = [], cp_slot_state = SlotProof\<rparr>"

definition demo_info :: capacity_validator_info where
  "demo_info = \<lparr>cv_address = demo_address 1, cv_stake = coin_zero, cv_public_key = PublicKey (replicate 32 1),
     storage_capacity = 1, merkle_root = Some (chunk_hash demo_chunk), cv_seed = None, chunk_count = Some 1,
     registered_at = Some 1, last_merkle_root_update = Some 1, registered_block = 2, registration_duration = 9\<rparr>"

definition demo_epoch :: epoch_record where
  "demo_epoch = \<lparr>er_epoch = 0, start_block = 1, er_active_validators = [],
     er_active_capacity_validator = Some \<lparr>validator_address = demo_address 2, acv_epoch = 0,
       challenged_providers = [demo_address 1], subscribed_topics = []\<rparr>,
     challenged_capacity_validators = [demo_info]\<rparr>"

definition demo_cr :: node_crates where
  "demo_cr = model_crates\<lparr>dec_epoch := (\<lambda>d. Some demo_epoch)\<rparr>"

definition demo_epoch_state :: envelope where
  "demo_epoch_state = empty_envelope\<lparr>committed_cado_cache :=
     [(''/@eld/epoch_record/0x'' @ replicate 64 CHR ''0'', Immutable [] [] (cado_metadata_new EpochRecordType []))]\<rparr>"

definition demo_id :: string where
  "demo_id = std_hex_encode (str_bytes (CHR ''0'' # CHR ''x'' # concat (replicate 15 ''02'')))"

definition demo_proof_tx :: "string \<Rightarrow> verified_proof_tx" where
  "demo_proof_tx cid = \<lparr>vp_sender = demo_address 2, vp_capacity_provider = demo_address 1, vp_challenge_id = cid,
     vp_block_height = 5, vp_verified_at_block = 6, vp_verified_at_timestamp = 1600000000, vp_proofs = [demo_chunk],
     vp_generated_at = 1600000000, vp_provider_pubkey = std_hex_encode (replicate 32 1),
     vp_provider_signature = std_hex_encode (take 64 (replicate 32 1 @ str_bytes cid @ replicate 64 0)),
     vp_failed = False\<rparr>"

definition demo_binding :: verified_proof_binding where
  "demo_binding = \<lparr>challenged_provider_id = demo_address 1, b_validator_address = demo_address 2,
     expected_merkle_root = CapacityMerkleRoot (chunk_hash demo_chunk), expected_indices = [0],
     expected_challenge_id = ChallengeId (str_bytes (CHR ''0'' # CHR ''x'' # concat (replicate 15 ''02'')))\<rparr>"

lemma demo_epoch_found: "get_epoch_record demo_cr empty_store demo_epoch_state 0 = Ok (Some demo_epoch)"
  by code_simp

lemma demo_binds:
  "bind_verified_proof demo_cr demo_pcr (Some demo_epoch) 0 (demo_address 2) (demo_address 1) demo_id 5 local_dev
     = Ok demo_binding"
  by code_simp

lemma demo_signed:
  "verify_capacity_challenge_response demo_cr demo_pcr demo_id (demo_address 1) (demo_address 2) 5 [demo_chunk]
     1600000000 (vp_provider_pubkey (demo_proof_tx demo_id)) (vp_provider_signature (demo_proof_tx demo_id)) = Ok ()"
  by code_simp

lemma demo_signed_respelled:
  "verify_capacity_challenge_response demo_cr demo_pcr (''0x'' @ demo_id) (demo_address 1) (demo_address 2) 5 [demo_chunk]
     1600000000 (vp_provider_pubkey (demo_proof_tx demo_id))
     (vp_provider_signature (demo_proof_tx (''0x'' @ demo_id))) = Ok ()"
  by code_simp

lemma demo_chunk_valid:
  "is_valid (validate_challenge_proof demo_cr demo_pcr [demo_chunk] (expected_merkle_root demo_binding)
     (expected_indices demo_binding))"
  by code_simp

lemma demo_id_plain: "strip_optional_hex_prefix demo_id = demo_id"
  by code_simp

lemmas demo_gates = demo_epoch_found demo_binds demo_signed demo_signed_respelled demo_chunk_valid demo_id_plain

lemma demo_cr_documented: "documented demo_cr"
  using model_crates_documented by (simp add: demo_cr_def documented_def)

lemma demo_unused: "challenge_unused empty_store demo_epoch_state c"
  by (simp add: challenge_unused_def is_verified_proof_challenge_rewarded_def is_verified_proof_challenge_failed_def
      demo_epoch_state_def empty_envelope_def empty_store_def)

lemma demo_no_balance: "balance_of demo_cr empty_store demo_epoch_state (demo_address 1) = 0"
proof -
  have "account_of demo_cr empty_store demo_epoch_state (demo_address 1) = None" by code_simp
  then show ?thesis by (simp add: balance_of_def)
qed

lemma demo_reward: "coin_new (amount (verified_proof_reward_base_amount local_dev)) = Ok (Coin 1000)"
  by (simp add: local_dev_def coin_new_le demo_small)

lemma demo_proof_runs:
  "\<exists>ev e'. process_verified_proof_tx demo_cr demo_pcr local_dev empty_store demo_epoch_state (demo_proof_tx demo_id)
     = Some (success ev, e')"
proof (rule reward_completes [OF demo_cr_documented _ _ demo_reward demo_unused])
  have cur: "current_epoch demo_epoch_state = 0" by (simp add: demo_epoch_state_def empty_envelope_def)
  show "proof_epoch_in_window (vp_block_height (demo_proof_tx demo_id)) (current_epoch demo_epoch_state)
      (blocks_per_epoch local_dev) = Ok 0"
    by (simp add: proof_epoch_in_window_Ok demo_proof_tx_def cur local_dev_def sdiv_pos)
  show "get_epoch_record demo_cr empty_store demo_epoch_state 0 = Ok (Some demo_epoch)" by (rule demo_gates)
  show "bind_verified_proof demo_cr demo_pcr (Some demo_epoch) (current_epoch demo_epoch_state)
      (vp_sender (demo_proof_tx demo_id)) (vp_capacity_provider (demo_proof_tx demo_id))
      (vp_challenge_id (demo_proof_tx demo_id)) (vp_block_height (demo_proof_tx demo_id)) local_dev = Ok demo_binding"
    using demo_gates(2) by (simp add: cur) (simp add: demo_proof_tx_def)
  show "verify_capacity_challenge_response demo_cr demo_pcr (vp_challenge_id (demo_proof_tx demo_id))
      (challenged_provider_id demo_binding) (b_validator_address demo_binding) (vp_block_height (demo_proof_tx demo_id))
      (vp_proofs (demo_proof_tx demo_id)) (vp_generated_at (demo_proof_tx demo_id))
      (vp_provider_pubkey (demo_proof_tx demo_id)) (vp_provider_signature (demo_proof_tx demo_id)) = Ok ()"
    using demo_gates(3) by (simp add: demo_proof_tx_def demo_binding_def)
  show "is_valid (validate_challenge_proof demo_cr demo_pcr (vp_proofs (demo_proof_tx demo_id))
      (expected_merkle_root demo_binding) (expected_indices demo_binding))"
    using demo_gates(5) by (simp add: demo_proof_tx_def)
  show "balance_of demo_cr empty_store demo_epoch_state (vp_capacity_provider (demo_proof_tx demo_id)) + coins (Coin 1000)
      \<le> unat MAX_COIN"
    using demo_no_balance by (simp add: demo_proof_tx_def)
qed (simp_all add: demo_proof_tx_def local_dev_def)

section \<open>Properties\<close>

text \<open>C26: a reward is paid only when the sender is the active capacity validator of the epoch of the
  challenged height, that epoch is the current or the previous one, the provider was challenged in
  it, the identifier is the one recomputed from chain data, the provider signed the answer, and the
  answer holds, in order, a chunk for every selected index that hashes and verifies against the
  Merkle root frozen in the epoch record.\<close>

theorem reward_only_for_proved_challenge:
  assumes "process_verified_proof_tx cr pcr pc st e t = Some (r, e')" "code r = 0" "\<not> vp_failed t"
    and "0 < blocks_per_epoch pc"
  shows "\<exists>rec sv info root count indices epoch.
    epoch = vp_block_height t div blocks_per_epoch pc \<and> (epoch = current_epoch e \<or> epoch = current_epoch e - 1) \<and>
    get_epoch_record cr st e epoch = Ok (Some rec) \<and> er_active_capacity_validator rec = Some sv \<and>
    vp_sender t = validator_address sv \<and> vp_capacity_provider t \<in> set (challenged_providers sv) \<and>
    info \<in> set (challenged_capacity_validators rec) \<and> cv_address info = vp_capacity_provider t \<and>
    merkle_root info = Some root \<and> chunk_count info = Some count \<and>
    indices = select_challenge_chunk_indices cr pcr epoch (vp_capacity_provider t) (vp_block_height t)
      (vp_sender t) count (chunks_per_challenge pc) \<and>
    challenge_id_parse_hex (hex cr) (vp_challenge_id t) =
      Ok (compute_challenge_id cr (vp_sender t) (vp_capacity_provider t) (vp_block_height t) indices) \<and>
    verify_capacity_challenge_response cr pcr (vp_challenge_id t) (vp_capacity_provider t) (vp_sender t)
      (vp_block_height t) (vp_proofs t) (vp_generated_at t) (vp_provider_pubkey t) (vp_provider_signature t) = Ok () \<and>
    map chunk_index (vp_proofs t) = indices \<and>
    (\<forall>p \<in> set (vp_proofs t). hash_chunk cr (chunk_data p) = chunk_hash p \<and>
       verify_proof (blake3 pcr) (chunk_hash p) (cp_merkle_proof p) (CapacityMerkleRoot root) (chunk_index p))"
proof -
  obtain pe rec b where g: "proof_epoch_in_window (vp_block_height t) (current_epoch e) (blocks_per_epoch pc) = Ok pe"
    "get_epoch_record cr st e pe = Ok rec"
    "bind_verified_proof cr pcr rec (current_epoch e) (vp_sender t) (vp_capacity_provider t)
       (vp_challenge_id t) (vp_block_height t) pc = Ok b"
    "verify_capacity_challenge_response cr pcr (vp_challenge_id t) (challenged_provider_id b)
       (b_validator_address b) (vp_block_height t) (vp_proofs t) (vp_generated_at t)
       (vp_provider_pubkey t) (vp_provider_signature t) = Ok ()"
    "is_valid (validate_challenge_proof cr pcr (vp_proofs t) (expected_merkle_root b) (expected_indices b))"
    using settled_reward [OF assms(1-3)] by metis
  have pe: "pe = vp_block_height t div blocks_per_epoch pc" "pe = current_epoch e \<or> pe = current_epoch e - 1"
      "vp_block_height t sdiv blocks_per_epoch pc = pe"
    using g(1) assms(4) by (auto simp: proof_epoch_in_window_Ok sdiv_pos)
  obtain rc sv info count root where b: "rec = Some rc" "er_active_capacity_validator rc = Some sv"
    "acv_epoch sv = pe" "vp_sender t = validator_address sv" "vp_capacity_provider t \<in> set (challenged_providers sv)"
    "List.find (\<lambda>p. cv_address p = vp_capacity_provider t) (challenged_capacity_validators rc) = Some info"
    "chunk_count info = Some count" "merkle_root info = Some root"
    "challenged_provider_id b = vp_capacity_provider t" "b_validator_address b = vp_sender t"
    "expected_merkle_root b = CapacityMerkleRoot root"
    "expected_indices b = select_challenge_chunk_indices cr pcr pe (vp_capacity_provider t) (vp_block_height t)
       (vp_sender t) count (chunks_per_challenge pc)"
    "challenge_id_parse_hex (hex cr) (vp_challenge_id t) =
      Ok (compute_challenge_id cr (vp_sender t) (vp_capacity_provider t) (vp_block_height t) (expected_indices b))"
    using g(3) pe(3) unfolding bind_Ok validate_binding_Ok by (auto simp: Let_def)
  have info: "info \<in> set (challenged_capacity_validators rc)" "cv_address info = vp_capacity_provider t"
    using b(6) by (auto simp: find_Some_iff)
  note v = valid_proofs_facts [OF g(5)]
  show ?thesis
    apply (rule exI [of _ rc], rule exI [of _ sv], rule exI [of _ info], rule exI [of _ root],
        rule exI [of _ count], rule exI [of _ "expected_indices b"], rule exI [of _ pe])
    using g(2,4) pe(1,2) b info v by simp
qed

theorem reward_only_for_proved_challenge_witness:
  "\<exists>rec. get_epoch_record demo_cr empty_store demo_epoch_state 0 = Ok (Some rec) \<and> map chunk_index [demo_chunk] = [0]"
proof -
  obtain ev e' where run: "process_verified_proof_tx demo_cr demo_pcr local_dev empty_store demo_epoch_state
      (demo_proof_tx demo_id) = Some (success ev, e')" using demo_proof_runs by blast
  have h: "code (success ev) = 0" "\<not> vp_failed (demo_proof_tx demo_id)" "0 < blocks_per_epoch local_dev"
    by (simp_all add: handler_codes demo_proof_tx_def local_dev_def)
  have "vp_block_height (demo_proof_tx demo_id) div blocks_per_epoch local_dev = 0"
    by (simp add: demo_proof_tx_def local_dev_def)
  with reward_only_for_proved_challenge [OF run h] show ?thesis by (auto simp: demo_chunk_def)
qed

lemma reward_mints:
  assumes "documented cr" "process_verified_proof_tx cr pcr pc st e t = Some (r, e')" "code r = 0" "\<not> vp_failed t"
  shows "balance_of cr st e' (vp_capacity_provider t) =
      balance_of cr st e (vp_capacity_provider t) + coins (verified_proof_reward_base_amount pc) \<and>
    (\<forall>b. b \<noteq> vp_capacity_provider t \<longrightarrow> account_of cr st e' b = account_of cr st e b) \<and>
    (\<forall>b. staking_of cr st e' b = staking_of cr st e b) \<and>
    (\<forall>A. finite A \<longrightarrow> vp_capacity_provider t \<in> A \<longrightarrow>
       total_supply cr st e' A = total_supply cr st e A + coins (verified_proof_reward_base_amount pc))"
proof -
  let ?a = "vp_capacity_provider t"
  obtain reward e1 where c: "coin_new (amount (verified_proof_reward_base_amount pc)) = Ok reward"
    "credit_verified_proof_reward cr st e ?a reward = Ok e1"
    "e' = (extend_lease pc e1 ?a)\<lparr>verified_proof_rewarded_cache :=
        List.insert (vp_challenge_id t) (verified_proof_rewarded_cache (extend_lease pc e1 ?a))\<rparr>"
    using settled_reward [OF assms(2-4)] by metis
  have reward: "coins reward = coins (verified_proof_reward_base_amount pc)"
    using c(1) by (auto simp: coin_new_Inr)
  obtain acc h bal where a: "wf_address ?a" "account_or_new cr st e ?a = (acc, h)"
    "coins bal = coins (acc_balance acc) + coins reward" "account_ok (acc\<lparr>acc_balance := bal\<rparr>)"
    "stage_account cr e ?a h (acc\<lparr>acc_balance := bal\<rparr>) = Some e1"
    using credit_reward_Ok [OF assms(1) c(2)] .
  have fr: "account_of cr st e' b = account_of cr st e1 b" "staking_of cr st e' b = staking_of cr st e1 b" for b
    unfolding c(3) by (rule accounts_frame; simp add: extend_lease_def Let_def)+
  have look: "account_of cr st e' b = (if b = ?a then Some (acc\<lparr>acc_balance := bal\<rparr>, h) else account_of cr st e b)"
      "staking_of cr st e' b = staking_of cr st e b" for b
    using fr account_of_stage_account [OF assms(1) a(4,5)] staking_of_stage_account [OF assms(1) a(5)] by simp_all
  have bal: "balance_of cr st e' b + stake_of cr st e' b = balance_of cr st e b + stake_of cr st e b +
      (if b = ?a then coins reward else 0)" for b
    using a(3) account_or_new_facts(2) [OF assms(1) a(1,2)] by (simp add: balance_of_def stake_of_def look)
  have "total_supply cr st e' A = total_supply cr st e A + coins reward" if "finite A" "?a \<in> A" for A
    using that by (simp add: total_supply_def bal sum.distrib)
  then show ?thesis
    using bal [of ?a] by (auto simp: look reward balance_of_def stake_of_def)
qed

text \<open>C27: a paid proof credits the provider with exactly the base reward and nobody else, and mints
  exactly that much: the coins of every set of addresses with the provider grow by the reward.\<close>

theorem reward_mints_exactly:
  assumes "documented cr" "process_verified_proof_tx cr pcr pc st e t = Some (r, e')" "code r = 0" "\<not> vp_failed t"
  shows "balance_of cr st e' (vp_capacity_provider t) =
      balance_of cr st e (vp_capacity_provider t) + coins (verified_proof_reward_base_amount pc) \<and>
    (\<forall>b. b \<noteq> vp_capacity_provider t \<longrightarrow> account_of cr st e' b = account_of cr st e b) \<and>
    (\<forall>b. staking_of cr st e' b = staking_of cr st e b) \<and>
    (\<forall>A. finite A \<longrightarrow> vp_capacity_provider t \<in> A \<longrightarrow>
       total_supply cr st e' A = total_supply cr st e A + coins (verified_proof_reward_base_amount pc))"
  by (rule reward_mints [OF assms])

theorem reward_mints_exactly_witness:
  "\<exists>r e'. process_verified_proof_tx demo_cr demo_pcr local_dev empty_store demo_epoch_state (demo_proof_tx demo_id)
     = Some (r, e') \<and> balance_of demo_cr empty_store e' (demo_address 1) = 1000"
proof -
  obtain ev e' where run: "process_verified_proof_tx demo_cr demo_pcr local_dev empty_store demo_epoch_state
      (demo_proof_tx demo_id) = Some (success ev, e')" using demo_proof_runs by blast
  have h: "code (success ev) = 0" "\<not> vp_failed (demo_proof_tx demo_id)" "vp_capacity_provider (demo_proof_tx demo_id) = demo_address 1"
    by (simp_all add: handler_codes demo_proof_tx_def)
  from reward_mints_exactly [OF demo_cr_documented run h(1,2)] run show ?thesis
    by (auto simp: h(3) demo_no_balance local_dev_def)
qed



text \<open>C29: the duplicate check compares spellings, while the identifier is compared as decoded bytes: after
  a reward for an identifier without prefix, the same challenge spelled with \<^verbatim>\<open>0x\<close> in front, signed by
  the provider in that spelling, is rewarded a second time.\<close>

theorem respelled_challenge_rewarded_again:
  assumes "documented cr"
    and "process_verified_proof_tx cr pcr pc st e t = Some (r, e1)" "code r = 0" "\<not> vp_failed t"
    and "blocks_per_epoch pc \<noteq> 0"
    and "strip_optional_hex_prefix (vp_challenge_id t) = vp_challenge_id t"
    and "t2 = t\<lparr>vp_challenge_id := ''0x'' @ vp_challenge_id t, vp_provider_signature := sig\<rparr>"
    and "challenge_unused st e (vp_challenge_id t2)"
    and "verify_capacity_challenge_response cr pcr (vp_challenge_id t2) (vp_capacity_provider t) (vp_sender t)
       (vp_block_height t) (vp_proofs t) (vp_generated_at t) (vp_provider_pubkey t) sig = Ok ()"
    and "balance_of cr st e (vp_capacity_provider t) + 2 * coins (verified_proof_reward_base_amount pc) \<le> unat MAX_COIN"
  shows "\<exists>r2 e2. process_verified_proof_tx cr pcr pc st e1 t2 = Some (r2, e2) \<and> code r2 = 0 \<and>
    balance_of cr st e2 (vp_capacity_provider t) =
      balance_of cr st e (vp_capacity_provider t) + 2 * coins (verified_proof_reward_base_amount pc)"
proof -
  let ?a = "vp_capacity_provider t" and ?R = "coins (verified_proof_reward_base_amount pc)"
  obtain reward pe rec b e0 where g:
    "coin_new (amount (verified_proof_reward_base_amount pc)) = Ok reward"
    "proof_epoch_in_window (vp_block_height t) (current_epoch e) (blocks_per_epoch pc) = Ok pe"
    "get_epoch_record cr st e pe = Ok rec"
    "bind_verified_proof cr pcr rec (current_epoch e) (vp_sender t) ?a (vp_challenge_id t) (vp_block_height t) pc = Ok b"
    "is_valid (validate_challenge_proof cr pcr (vp_proofs t) (expected_merkle_root b) (expected_indices b))"
    "credit_verified_proof_reward cr st e ?a reward = Ok e0"
    "e1 = (extend_lease pc e0 ?a)\<lparr>verified_proof_rewarded_cache :=
        List.insert (vp_challenge_id t) (verified_proof_rewarded_cache (extend_lease pc e0 ?a))\<rparr>"
    using settled_reward [OF assms(2-4)] by metis
  obtain acc h bal where a: "wf_address ?a" "stage_account cr e ?a h (acc\<lparr>acc_balance := bal\<rparr>) = Some e0"
    using credit_reward_Ok [OF assms(1) g(6)] by metis
  obtain c where e0: "e0 = e\<lparr>cado_cache := c\<rparr>" using stage_frame(1) [OF a(2)] by blast
  have e1: "current_epoch e1 = current_epoch e" "failed_proof_counted_cache e1 = failed_proof_counted_cache e"
      "verified_proof_rewarded_cache e1 = List.insert (vp_challenge_id t) (verified_proof_rewarded_cache e)"
    by (simp_all add: g(7) e0 extend_lease_def Let_def)
  have rec: "get_epoch_record cr st e1 pe = Ok rec"
  proof -
    have "get_epoch_record cr st e1 pe = get_epoch_record cr st e0 pe"
      unfolding g(7) by (rule get_epoch_record_frame) (simp_all add: extend_lease_def Let_def)
    then show ?thesis using get_epoch_record_stage_account [OF assms(1) a(2)] g(3) by simp
  qed
  have parse: "challenge_id_parse_hex (hex cr) (vp_challenge_id t2) = challenge_id_parse_hex (hex cr) (vp_challenge_id t)"
    using assms(6) by (simp add: assms(7) challenge_id_parse_hex_def decode_fixed_hex_def Let_def)
  have bind: "bind_verified_proof cr pcr rec (current_epoch e1) (vp_sender t2) (vp_capacity_provider t2)
      (vp_challenge_id t2) (vp_block_height t2) pc = Ok b"
    using g(4) parse unfolding bind_Ok validate_binding_Ok by (simp add: e1 assms(7))
  have b: "challenged_provider_id b = ?a" "b_validator_address b = vp_sender t"
    using g(4) unfolding bind_Ok validate_binding_Ok by (auto simp: Let_def)
  have unused: "challenge_unused st e1 (vp_challenge_id t2)"
    using assms(8) by (auto simp: challenge_unused_def is_verified_proof_challenge_rewarded_def
        is_verified_proof_challenge_failed_def e1 assms(7) split: if_splits)
  have bal1: "balance_of cr st e1 ?a = balance_of cr st e ?a + ?R"
    using reward_mints [OF assms(1-4)] by simp
  have R: "coins reward = ?R" using g(1) by (auto simp: coin_new_Inr)
  have "\<exists>ev e2. process_verified_proof_tx cr pcr pc st e1 t2 = Some (success ev, e2)"
    by (rule reward_completes [OF assms(1) _ _ g(1) unused assms(5) _ rec bind])
      (use assms(4,7,9,10) g(2,5) a(1) b bal1 R e1 in simp_all)
  then obtain ev e2 where run2: "process_verified_proof_tx cr pcr pc st e1 t2 = Some (success ev, e2)" by blast
  have "balance_of cr st e2 ?a = balance_of cr st e1 ?a + ?R"
    using reward_mints [OF assms(1) run2] assms(4) by (simp add: assms(7) handler_codes)
  then show ?thesis using run2 bal1 by (auto simp: handler_codes)
qed

theorem respelled_challenge_rewarded_again_witness:
  "\<exists>r e1 r2 e2. process_verified_proof_tx demo_cr demo_pcr local_dev empty_store demo_epoch_state (demo_proof_tx demo_id)
     = Some (r, e1) \<and> process_verified_proof_tx demo_cr demo_pcr local_dev empty_store e1 (demo_proof_tx (''0x'' @ demo_id))
     = Some (r2, e2) \<and> code r2 = 0 \<and> balance_of demo_cr empty_store e2 (demo_address 1) = 2000"
proof -
  obtain ev e1 where run: "process_verified_proof_tx demo_cr demo_pcr local_dev empty_store demo_epoch_state
      (demo_proof_tx demo_id) = Some (success ev, e1)" using demo_proof_runs by blast
  have 1: "code (success ev) = 0" "\<not> vp_failed (demo_proof_tx demo_id)" "blocks_per_epoch local_dev \<noteq> 0"
    "strip_optional_hex_prefix (vp_challenge_id (demo_proof_tx demo_id)) = vp_challenge_id (demo_proof_tx demo_id)"
    using demo_gates(6) by (simp_all add: handler_codes demo_proof_tx_def local_dev_def)
  have 2: "demo_proof_tx (''0x'' @ demo_id) = (demo_proof_tx demo_id)\<lparr>vp_challenge_id := ''0x'' @ vp_challenge_id (demo_proof_tx demo_id),
      vp_provider_signature := vp_provider_signature (demo_proof_tx (''0x'' @ demo_id))\<rparr>"
    by (simp add: demo_proof_tx_def)
  have 3: "verify_capacity_challenge_response demo_cr demo_pcr (vp_challenge_id (demo_proof_tx (''0x'' @ demo_id)))
      (vp_capacity_provider (demo_proof_tx demo_id)) (vp_sender (demo_proof_tx demo_id)) (vp_block_height (demo_proof_tx demo_id))
      (vp_proofs (demo_proof_tx demo_id)) (vp_generated_at (demo_proof_tx demo_id)) (vp_provider_pubkey (demo_proof_tx demo_id))
      (vp_provider_signature (demo_proof_tx (''0x'' @ demo_id))) = Ok ()"
    using demo_gates(4) by (simp add: demo_proof_tx_def)
  have 4: "vp_capacity_provider (demo_proof_tx demo_id) = demo_address 1" by (simp add: demo_proof_tx_def)
  have 5: "balance_of demo_cr empty_store demo_epoch_state (vp_capacity_provider (demo_proof_tx demo_id)) +
      2 * coins (verified_proof_reward_base_amount local_dev) \<le> unat MAX_COIN"
    by (simp add: 4 demo_no_balance local_dev_def)
  from respelled_challenge_rewarded_again [OF demo_cr_documented run 1 2 demo_unused 3 5] run
  show ?thesis by (auto simp: 4 demo_no_balance local_dev_def)
qed

text \<open>The challenged height is not pinned: for one epoch record, every positive height of that epoch has
  an identifier, computable by anyone, that binds to the same provider, root and reward.  A provider
  has as many payable challenges in an epoch as the epoch has blocks.\<close>

lemma every_height_has_payable_challenge:
  assumes "documented cr" "0 < bh" "0 < blocks_per_epoch pc" "bh div blocks_per_epoch pc = er_epoch rec"
    and "er_active_capacity_validator rec = Some sv" "acv_epoch sv = er_epoch rec"
    and "provider \<in> set (challenged_providers sv)"
    and "List.find (\<lambda>p. cv_address p = provider) (challenged_capacity_validators rec) = Some info"
    and "chunk_count info = Some count" "0 < count" "merkle_root info = Some root"
    and "0 \<le> er_epoch rec" "\<forall>bs. length (sha256 cr bs) = 32"
  shows "\<exists>cid b. bind_verified_proof cr pcr (Some rec) (er_epoch rec) (validator_address sv) provider cid bh pc = Ok b \<and>
    cid = challenge_id_to_hex (hex cr) (expected_challenge_id b) \<and>
    challenged_provider_id b = provider \<and> expected_merkle_root b = CapacityMerkleRoot root \<and>
    expected_indices b = select_challenge_chunk_indices cr pcr (er_epoch rec) provider bh (validator_address sv) count
       (chunks_per_challenge pc)"
proof -
  let ?idx = "select_challenge_chunk_indices cr pcr (er_epoch rec) provider bh (validator_address sv) count
       (chunks_per_challenge pc)"
  let ?id = "compute_challenge_id cr (validator_address sv) provider bh ?idx"
  have "challenge_id_parse_hex (hex cr) (challenge_id_to_hex (hex cr) ?id) = Ok ?id"
    by (rule chid.parse_show [OF documentedD(1) [OF assms(1)]]) (simp add: compute_challenge_id_def assms(13))
  moreover have "bh sdiv blocks_per_epoch pc = er_epoch rec" using assms(2-4) by (simp add: sdiv_pos)
  moreover from this have "is_ok (proof_epoch_in_window bh (er_epoch rec) (blocks_per_epoch pc))"
    using assms(2,12) by (simp add: is_ok_iff proof_epoch_in_window_Ok)
  ultimately show ?thesis
    unfolding bind_Ok validate_binding_Ok using assms(5-11)
    by (intro exI [of _ "challenge_id_to_hex (hex cr) ?id"]) (auto simp: Let_def)
qed

theorem every_height_has_payable_challenge_witness:
  "\<exists>cid b. bind_verified_proof demo_cr demo_pcr (Some demo_epoch) 0 (demo_address 2) (demo_address 1) cid 7 local_dev = Ok b"
proof -
  have 1: "(0 :: int) < 7" "0 < blocks_per_epoch local_dev" "7 div blocks_per_epoch local_dev = er_epoch demo_epoch"
    "0 \<le> er_epoch demo_epoch" by (simp_all add: local_dev_def demo_epoch_def)
  let ?sv = "\<lparr>validator_address = demo_address 2, acv_epoch = 0, challenged_providers = [demo_address 1], subscribed_topics = []\<rparr>"
  have 2: "er_active_capacity_validator demo_epoch = Some ?sv" "acv_epoch ?sv = er_epoch demo_epoch"
    "demo_address 1 \<in> set (challenged_providers ?sv)"
    "List.find (\<lambda>p. cv_address p = demo_address 1) (challenged_capacity_validators demo_epoch) = Some demo_info"
    "chunk_count demo_info = Some 1" "(0 :: u32) < 1" "merkle_root demo_info = Some (chunk_hash demo_chunk)"
    by (simp_all add: demo_epoch_def demo_info_def)
  have 3: "\<forall>bs. length (sha256 demo_cr bs) = 32" by (auto simp: demo_cr_def model_crates_def min_def)
  from every_height_has_payable_challenge [OF demo_cr_documented 1(1-3) 2 1(4) 3, of demo_pcr]
  show ?thesis by (auto simp: demo_epoch_def)
qed

text \<open>The selected chunk indices are pairwise different, lie inside the provider's chunks, and there are
  as many as asked for, up to the number of chunks.\<close>

lemma selected_chunks_in_range:
  assumes "shuffle_documented pcr"
  shows "distinct (select_challenge_chunk_indices cr pcr epoch provider bh validator count k) \<and>
    (\<forall>i \<in> set (select_challenge_chunk_indices cr pcr epoch provider bh validator count k). i < unat count) \<and>
    length (select_challenge_chunk_indices cr pcr epoch provider bh validator count k) = min k (unat count)"
proof -
  have s: "distinct (shuffled pcr s n)" "set (shuffled pcr s n) = {0..<n}" for s n
    using assms by (auto simp: shuffle_documented_def)
  then have "length (shuffled pcr s n) = n" for s n
    by (metis card_atLeastLessThan diff_zero distinct_card)
  then show ?thesis
    using s by (auto simp: select_challenge_chunk_indices_def Let_def unat_eq_zero dest: in_set_takeD)
qed

text \<open>below the threshold a failed proof adds one to the provider's counter; the failure that reaches
  the threshold resets it to zero and slashes.  Counters that were below the threshold stay below it,
  and no balance changes.\<close>

lemma failure_counter_cycles:
  assumes "record_failed_capacity_proof e provider threshold = (e', n, slashed)"
    and "0 < threshold" "\<forall>a c. map_of (failed_proof_counts e) a = Some c \<longrightarrow> c < threshold"
  shows "unat n = (unat (case map_of (failed_proof_counts e) provider of None \<Rightarrow> 0 | Some c \<Rightarrow> c) + 1) mod unat threshold \<and>
    (slashed \<longleftrightarrow> n = 0) \<and> map_of (failed_proof_counts e') = (map_of (failed_proof_counts e))(provider \<mapsto> n) \<and>
    (\<forall>a c. map_of (failed_proof_counts e') a = Some c \<longrightarrow> c < threshold) \<and>
    map cv_address (capacity_validators e') = map cv_address (capacity_validators e) \<and>
    account_of cr st e' b = account_of cr st e b"
proof -
  define c where "c = (case map_of (failed_proof_counts e) provider of None \<Rightarrow> 0 | Some c \<Rightarrow> c)"
  have lt: "c < threshold" using assms(2,3) by (auto simp: c_def split: option.splits)
  have "unat threshold < 2 ^ 32" using unsigned_less [of threshold] by simp
  with lt have u: "unat (saturating_add c 1) = unat c + 1"
    by (simp add: unat_saturating_add word_less_nat_alt)
  have "account_of cr st e' b = account_of cr st e b"
    by (rule accounts_frame) (use assms(1) in \<open>auto simp: record_failed_capacity_proof_def Let_def split: if_splits\<close>)
  moreover have "if unat c + 1 = unat threshold then n = 0 \<and> slashed else n = saturating_add c 1 \<and> \<not> slashed"
    using assms(1) u lt by (auto simp: record_failed_capacity_proof_def Let_def c_def [symmetric] word_le_nat_alt
        word_less_nat_alt split: if_splits)
  moreover have "map_of (failed_proof_counts e') = (map_of (failed_proof_counts e))(provider \<mapsto> n)"
      "map cv_address (capacity_validators e') = map cv_address (capacity_validators e)"
    using assms(1) by (auto simp: record_failed_capacity_proof_def Let_def c_def [symmetric] split: if_splits)
  moreover have "unat c < unat threshold" using lt by (simp add: word_less_nat_alt)
  ultimately show ?thesis
    unfolding c_def [symmetric] using assms(2,3) u
    by (auto simp: word_less_nat_alt unat_eq_zero split: if_splits)
qed

theorem failure_counter_cycles_witness:
  "snd (snd (record_failed_capacity_proof empty_envelope (demo_address 1) 1)) = True"
proof -
  obtain e' n s where r: "record_failed_capacity_proof empty_envelope (demo_address 1) 1 = (e', n, s)"
    by (metis prod_cases3)
  have "(0 :: u32) < 1" "\<forall>a c. map_of (failed_proof_counts empty_envelope) a = Some c \<longrightarrow> c < (1 :: u32)"
    by (simp_all add: empty_envelope_def)
  from failure_counter_cycles [OF r this] r show ?thesis by (auto simp: unat_eq_zero)
qed

end
