(* ===== verification/Epoch.thy ===== *)
theory Epoch
  imports Verified_Proof "HOL-Library.Multiset"
begin

text \<open>
  Epochs (\<^verbatim>\<open>node_app/src/abci_interface/consensus/epoch.rs\<close>, the lease expiry of \<^verbatim>\<open>end_block.rs\<close> and
  \<^verbatim>\<open>challenges.rs\<close>): choosing the validators and the active capacity validator of an epoch, the epoch
  record and its two stored copies, and the challenges the chosen node sends.  The properties say that
  every node chooses the same validators whatever the order of its list, that the chosen set is the
  one of the highest stakes, that a node is challenged only while its lease and its root are there,
  and that each challenge that is sent is one the \<^verbatim>\<open>VerifiedProof\<close> handler binds to.
\<close>

section \<open>Random permutations\<close>

text \<open>\<^verbatim>\<open>StdRng::from_seed\<close> and the permutation \<^verbatim>\<open>SliceRandom::shuffle\<close> applies to a slice of a given length,
  with the generator it leaves.  Documented: the result is a permutation.\<close>

record 'g std_rng =
  from_seed :: "bytes \<Rightarrow> 'g"
  permutation :: "'g \<Rightarrow> nat \<Rightarrow> nat list \<times> 'g"

definition rng_documented :: "'g std_rng \<Rightarrow> bool" where
  "rng_documented rng \<longleftrightarrow> (\<forall>g n. mset (fst (permutation rng g n)) = mset [0..<n])"

definition shuffle_with :: "'g std_rng \<Rightarrow> 'g \<Rightarrow> 'a list \<Rightarrow> 'a list \<times> 'g" where
  "shuffle_with rng g xs = (case permutation rng g (length xs) of (p, g') \<Rightarrow> (map ((!) xs) p, g'))"

section \<open>Validators\<close>

text \<open>\<^verbatim>\<open>compare_validator_priority\<close> as the relation "not after".\<close>

definition compare_validator_priority :: "validator_info \<Rightarrow> validator_info \<Rightarrow> bool" where
  "compare_validator_priority a b \<longleftrightarrow>
     amount (vi_stake b) < amount (vi_stake a) \<or>
     (amount (vi_stake b) = amount (vi_stake a) \<and>
       (vi_address a < vi_address b \<or>
        (vi_address a = vi_address b \<and> vi_public_key a \<le> vi_public_key b)))"

definition select_validators_for_epoch :: "protocol_constants \<Rightarrow> envelope \<Rightarrow> envelope" where
  "select_validators_for_epoch pc e =
     e\<lparr>active_validators := take (validators_per_epoch pc) (sort_by compare_validator_priority (validators e))\<rparr>"

section \<open>Capacity validators\<close>

definition capacity_registration_expired :: "capacity_validator_info \<Rightarrow> u64 \<Rightarrow> bool" where
  "capacity_registration_expired provider current_block \<longleftrightarrow>
     current_block > saturating_add (registered_block provider) (registration_duration provider)"

definition expire_capacity_registrations ::
    "capacity_validator_info list \<Rightarrow> u64 \<Rightarrow> capacity_validator_info list \<times> nat" where
  "expire_capacity_registrations cvs current_block =
     (let kept = filter (\<lambda>p. \<not> capacity_registration_expired p current_block) cvs
      in (kept, length cvs - length kept))"

definition capacity_eligible :: "u64 \<Rightarrow> capacity_validator_info \<Rightarrow> bool" where
  "capacity_eligible current_block cv \<longleftrightarrow>
     merkle_root cv \<noteq> None \<and> current_block \<le> registered_block cv + registration_duration cv"

definition ELD_STORAGE_CHALLENGE_TOPIC_PREFIX :: string where
  "ELD_STORAGE_CHALLENGE_TOPIC_PREFIX = ''eld-storage-challenge-topic-''"
definition ELD_STORAGE_PROOF_TOPIC_PREFIX :: string where
  "ELD_STORAGE_PROOF_TOPIC_PREFIX = ''eld-storage-proof-topic-''"

definition selection_seed :: "node_crates \<Rightarrow> int \<Rightarrow> string \<Rightarrow> capacity_validator_info list \<Rightarrow> bytes" where
  "selection_seed cr epoch chain eligible =
     sha256 cr (str_bytes ''CAPACITY_VALIDATOR_SELECTION'' @ be_bytes 8 epoch @ str_bytes chain
       @ concat (map (\<lambda>cv. str_bytes (hex_with_prefix (hex cr) (cv_address cv))
                           @ public_key_bytes (cv_public_key cv)) eligible))"

definition challenge_pool :: "capacity_validator_info list \<Rightarrow> address \<Rightarrow> address list" where
  "challenge_pool eligible selected =
     sort_by (\<le>) (if length eligible = 1 then map cv_address eligible
                  else map cv_address (filter (\<lambda>cv. cv_address cv \<noteq> selected) eligible))"

text \<open>\<^verbatim>\<open>shuffled.into_iter().next().expect(..)\<close> is \<^term>\<open>hd\<close> of a list that is not empty: \<open>eligible\<close> is not.\<close>

definition select_active_capacity_validator_for_epoch ::
    "node_crates \<Rightarrow> 'g std_rng \<Rightarrow> protocol_constants \<Rightarrow> app_state \<Rightarrow> int \<Rightarrow> app_state" where
  "select_active_capacity_validator_for_epoch cr rng pc s epoch =
    (let e = app_envelope s;
         current_block = word_of_int (block_height e);
         eligible = filter (capacity_eligible current_block) (capacity_validators e) in
     if eligible = [] then s\<lparr>app_envelope := e\<lparr>active_capacity_validator := None\<rparr>\<rparr>
     else (let sorted = sort_by (\<lambda>a b. cv_address a \<le> cv_address b) eligible in
       (case shuffle_with rng (from_seed rng (selection_seed cr epoch (chain_id s) sorted)) sorted of
          (shuffled_list, g) \<Rightarrow>
            (let selected = cv_address (hd shuffled_list);
                 pool = challenge_pool sorted selected;
                 challenged = (if pool = [] then []
                               else take (min (challenges_per_epoch pc) (length pool)) (fst (shuffle_with rng g pool)))
             in s\<lparr>app_envelope := e\<lparr>active_capacity_validator := Some \<lparr>validator_address = selected,
                  acv_epoch = epoch, challenged_providers = challenged,
                  subscribed_topics = map (\<lambda>a. ELD_STORAGE_PROOF_TOPIC_PREFIX @ hex_with_prefix (hex cr) a)
                    challenged\<rparr>\<rparr>\<rparr>))))"

section \<open>Epoch record\<close>

definition find_capacity_validator :: "envelope \<Rightarrow> address \<Rightarrow> capacity_validator_info option" where
  "find_capacity_validator e a = List.find (\<lambda>p. cv_address p = a) (capacity_validators e)"

definition build_epoch_record :: "envelope \<Rightarrow> int \<Rightarrow> int \<Rightarrow> epoch_record" where
  "build_epoch_record e new_epoch bpe =
     \<lparr>er_epoch = new_epoch, start_block = new_epoch * bpe,
      er_active_validators = active_validators e,
      er_active_capacity_validator = active_capacity_validator e,
      challenged_capacity_validators =
        (case active_capacity_validator e of None \<Rightarrow> []
         | Some sv \<Rightarrow> List.map_filter (find_capacity_validator e) (challenged_providers sv))\<rparr>"

definition store_epoch_record :: "node_crates \<Rightarrow> envelope \<Rightarrow> epoch_record \<Rightarrow> envelope res" where
  "store_epoch_record cr e rec =
     and_then (ok_or (StorageError ''serialize'') (enc_epoch cr rec)) (\<lambda>serialized.
       let cado = cado_immutable (sha256 cr) serialized (cado_metadata_new EpochRecordType (show_int (er_epoch rec))) in
       and_then (epoch_record_path_name (er_epoch rec)) (\<lambda>epoch_key.
       and_then (cado_path_new (hex cr) EpochRecordType (KeyName epoch_key)) (\<lambda>epoch_path.
         let e1 = update_cado_cache e epoch_path cado in
         and_then (cado_path_new (hex cr) EpochRecordType (KeyName LATEST)) (\<lambda>latest_path.
           Ok (update_cado_cache e1 latest_path cado)))))"

section \<open>Challenges\<close>

record capacity_challenge =
  cc_challenge_id :: string
  cc_challenger :: address
  cc_provider_id :: address
  cc_chunk_indices :: "nat list"
  cc_block_height :: int
  cc_merkle_root :: bytes
  cc_seed :: bytes
  cc_expiration_block :: int
  cc_timestamp :: u64

text \<open>The calls to the peer-to-peer coordinator, in order; their failures are only logged.\<close>

datatype p2p_call = Subscribe string | Publish string capacity_challenge

type_synonym challenged_provider_data = "address \<times> bytes option \<times> bytes option \<times> u32 option"

definition build_challenged_capacity_provider_data ::
    "envelope \<Rightarrow> address list \<Rightarrow> challenged_provider_data list" where
  "build_challenged_capacity_provider_data e ids =
     List.map_filter (\<lambda>a. map_option (\<lambda>cp. (a, merkle_root cp, cv_seed cp, chunk_count cp))
                            (find_capacity_validator e a)) ids"

definition make_challenge ::
    "node_crates \<Rightarrow> proof_crates \<Rightarrow> int \<Rightarrow> int \<Rightarrow> address \<Rightarrow> u64 \<Rightarrow> nat \<Rightarrow> address \<Rightarrow> bytes \<Rightarrow> bytes \<Rightarrow> u32
     \<Rightarrow> capacity_challenge" where
  "make_challenge cr pcr epoch bh validator timestamp per_challenge provider root seed n_chunks =
    (let indices = select_challenge_chunk_indices cr pcr epoch provider bh validator n_chunks per_challenge in
     \<lparr>cc_challenge_id = challenge_id_to_hex (hex cr) (compute_challenge_id cr validator provider bh indices),
      cc_challenger = validator, cc_provider_id = provider, cc_chunk_indices = indices,
      cc_block_height = bh, cc_merkle_root = root, cc_seed = seed,
      cc_expiration_block = bh + 100, cc_timestamp = timestamp\<rparr>)"

text \<open>The loop over the providers; the calls made before an error stay made.\<close>

fun generate_challenges_loop ::
    "node_crates \<Rightarrow> proof_crates \<Rightarrow> int \<Rightarrow> int \<Rightarrow> address \<Rightarrow> u64 \<Rightarrow> nat \<Rightarrow> challenged_provider_data list
     \<Rightarrow> p2p_call list \<times> unit res" where
  "generate_challenges_loop cr pcr epoch bh validator ts k [] = ([], Ok ())"
| "generate_challenges_loop cr pcr epoch bh validator ts k ((provider, root_opt, seed_opt, count_opt) # rest) =
    (case root_opt of
       None \<Rightarrow> ([], Err (ValidationError ''merkle_root''))
     | Some root \<Rightarrow> (case seed_opt of
         None \<Rightarrow> ([], Err (ValidationError ''seed''))
       | Some seed \<Rightarrow>
          (let n_chunks = (case count_opt of None \<Rightarrow> 0 | Some c \<Rightarrow> c) in
           if n_chunks = 0 then generate_challenges_loop cr pcr epoch bh validator ts k rest
           else (case generate_challenges_loop cr pcr epoch bh validator ts k rest of (calls, r) \<Rightarrow>
             (Subscribe (ELD_STORAGE_PROOF_TOPIC_PREFIX @ hex_with_prefix (hex cr) provider)
              # Publish (ELD_STORAGE_CHALLENGE_TOPIC_PREFIX @ hex_with_prefix (hex cr) provider)
                  (make_challenge cr pcr epoch bh validator ts k provider root seed n_chunks)
              # calls, r)))))"

definition generate_challenges_internal ::
    "node_crates \<Rightarrow> proof_crates \<Rightarrow> challenged_provider_data list \<Rightarrow> int \<Rightarrow> int \<Rightarrow> address \<Rightarrow> u64 \<Rightarrow> nat
     \<Rightarrow> p2p_call list \<times> unit res" where
  "generate_challenges_internal cr pcr providers_data epoch bh validator ts k =
     (if providers_data = [] then ([], Ok ())
      else generate_challenges_loop cr pcr epoch bh validator ts k providers_data)"

definition should_this_node_send_challenges :: "address option \<Rightarrow> address \<Rightarrow> bool" where
  "should_this_node_send_challenges capacity_validator_address selected =
     (case capacity_validator_address of None \<Rightarrow> False | Some a \<Rightarrow> a = selected)"

section \<open>The order of validators\<close>

lemma compare_total: "compare_validator_priority a b \<or> compare_validator_priority b a"
  unfolding compare_validator_priority_def by (meson linorder_cases linear)

lemma compare_trans:
  "compare_validator_priority a b \<Longrightarrow> compare_validator_priority b c \<Longrightarrow> compare_validator_priority a c"
  unfolding compare_validator_priority_def by auto

lemma compare_antisym:
  "compare_validator_priority a b \<Longrightarrow> compare_validator_priority b a \<Longrightarrow> a = b"
  unfolding compare_validator_priority_def
  by (cases a; cases b; cases "vi_stake a"; cases "vi_stake b") auto

lemma mset_sort_by [simp]: "mset (sort_by le xs) = mset xs"
proof -
  have ins: "mset (insert_by le x ys) = add_mset x (mset ys)" for x ys
    by (induction ys) auto
  show ?thesis by (induction xs) (simp_all add: sort_by_def ins)
qed

lemma sort_by_eq_Nil [simp]: "sort_by le xs = [] \<longleftrightarrow> xs = []"
  using length_sort_by [of le xs] by (metis length_0_conv)

lemma sorted_mset_unique:
  assumes "\<And>x y. le x y \<Longrightarrow> le y x \<Longrightarrow> x = y"
  shows "sorted_wrt le xs \<Longrightarrow> sorted_wrt le ys \<Longrightarrow> mset xs = mset ys \<Longrightarrow> xs = ys"
proof (induction xs arbitrary: ys)
  case (Cons x xs)
  then obtain y ys' where ys: "ys = y # ys'" by (cases ys) auto
  have "y \<in> set (x # xs)" "x \<in> set (y # ys')"
    using Cons.prems(3) ys by (metis list.set_intros(1) set_mset_mset)+
  then have "x = y" using Cons.prems(1,2) ys assms by auto
  with Cons ys show ?case by simp
qed simp

lemma sort_by_cong_mset:
  assumes "\<And>x y. le x y \<or> le y x" "\<And>x y z. le x y \<Longrightarrow> le y z \<Longrightarrow> le x z"
    and "\<And>x y. le x y \<Longrightarrow> le y x \<Longrightarrow> x = y" "mset xs = mset ys"
  shows "sort_by le xs = sort_by le ys"
  by (rule sorted_mset_unique [of le]) (simp_all add: assms sort_by_sorted [of le, OF assms(1,2)])


section \<open>Choosing the validators of an epoch\<close>

lemma selected_validators:
  "length (active_validators (select_validators_for_epoch pc e)) = min (validators_per_epoch pc) (length (validators e))"
  "set (active_validators (select_validators_for_epoch pc e)) \<subseteq> set (validators e)"
  "v \<in> set (active_validators (select_validators_for_epoch pc e)) \<Longrightarrow> w \<in> set (validators e) \<Longrightarrow>
   w \<notin> set (active_validators (select_validators_for_epoch pc e)) \<Longrightarrow> coins (vi_stake w) \<le> coins (vi_stake v)"
proof -
  let ?vs = "sort_by compare_validator_priority (validators e)"
  have act: "active_validators (select_validators_for_epoch pc e) = take (validators_per_epoch pc) ?vs"
    by (simp add: select_validators_for_epoch_def)
  then show "length (active_validators (select_validators_for_epoch pc e)) = min (validators_per_epoch pc) (length (validators e))"
    by (simp add: min.commute)
  show "set (active_validators (select_validators_for_epoch pc e)) \<subseteq> set (validators e)"
    using set_take_subset [of _ ?vs] by (auto simp: act)
  assume "v \<in> set (active_validators (select_validators_for_epoch pc e))" "w \<in> set (validators e)"
    "w \<notin> set (active_validators (select_validators_for_epoch pc e))"
  then have "compare_validator_priority v w"
    using take_sorted_dominates [of compare_validator_priority ?vs v _ w]
      sort_by_sorted [of compare_validator_priority, OF compare_total compare_trans] by (simp add: act)
  then show "coins (vi_stake w) \<le> coins (vi_stake v)"
    by (auto simp: compare_validator_priority_def word_less_nat_alt)
qed

lemma selected_validators_order:
  "mset (validators e) = mset (validators e') \<Longrightarrow>
   active_validators (select_validators_for_epoch pc e) = active_validators (select_validators_for_epoch pc e')"
  unfolding select_validators_for_epoch_def
  by (simp add: sort_by_cong_mset [of compare_validator_priority "validators e" "validators e'",
      OF compare_total compare_trans compare_antisym])

section \<open>Choosing the active capacity validator\<close>

lemma mset_shuffle_with:
  assumes "rng_documented rng"
  shows "mset (fst (shuffle_with rng g xs)) = mset xs"
proof -
  have "mset (fst (permutation rng g (length xs))) = mset [0..<length xs]"
    using assms unfolding rng_documented_def by blast
  then have "mset (map ((!) xs) (fst (permutation rng g (length xs)))) = mset (map ((!) xs) [0..<length xs])"
    by (metis mset_map)
  also have "\<dots> = mset xs" by (simp only: map_nth)
  finally show ?thesis by (cases "permutation rng g (length xs)") (simp add: shuffle_with_def)
qed

lemma shuffle_with_facts:
  assumes "rng_documented rng"
  shows "set (fst (shuffle_with rng g xs)) = set xs" "length (fst (shuffle_with rng g xs)) = length xs"
    "distinct (fst (shuffle_with rng g xs)) = distinct xs" "fst (shuffle_with rng g xs) = [] \<longleftrightarrow> xs = []"
proof -
  note m = mset_shuffle_with [OF assms, of g xs]
  show "set (fst (shuffle_with rng g xs)) = set xs" by (rule mset_eq_setD [OF m])
  show l: "length (fst (shuffle_with rng g xs)) = length xs" by (rule mset_eq_length [OF m])
  show "distinct (fst (shuffle_with rng g xs)) = distinct xs" by (rule mset_eq_imp_distinct_iff [OF m])
  show "fst (shuffle_with rng g xs) = [] \<longleftrightarrow> xs = []" using l by (metis length_0_conv)
qed

definition eligible_validators :: "envelope \<Rightarrow> capacity_validator_info list" where
  "eligible_validators e = filter (capacity_eligible (word_of_int (block_height e))) (capacity_validators e)"

lemma challenge_pool_facts:
  assumes "distinct (map cv_address el)"
  shows "distinct (challenge_pool el a)"
    and "set (challenge_pool el a) = (if length el = 1 then cv_address ` set el else cv_address ` set el - {a})"
    and "length el \<noteq> 1 \<Longrightarrow> a \<in> cv_address ` set el \<Longrightarrow> length (challenge_pool el a) = length el - 1"
proof -
  have d: "distinct (map cv_address (filter P el))" for P
    using assms by (simp add: distinct_map_filter)
  show "distinct (challenge_pool el a)"
    using d assms by (auto simp: challenge_pool_def)
  show s: "set (challenge_pool el a) = (if length el = 1 then cv_address ` set el else cv_address ` set el - {a})"
    by (auto simp: challenge_pool_def)
  assume l: "length el \<noteq> 1" "a \<in> cv_address ` set el"
  have "length (challenge_pool el a) = card (set (challenge_pool el a))"
    using \<open>distinct (challenge_pool el a)\<close> by (simp add: distinct_card)
  also have "\<dots> = card (cv_address ` set el) - 1" using s l by simp
  also have "card (cv_address ` set el) = length el"
    using distinct_card [OF assms] by simp
  finally show "length (challenge_pool el a) = length el - 1" .
qed

lemma selection_cases:
  assumes "rng_documented rng" "distinct (map cv_address (capacity_validators (app_envelope s)))"
  defines "el \<equiv> eligible_validators (app_envelope s)"
  obtains (none) "el = []" "select_active_capacity_validator_for_epoch cr rng pc s epoch =
      s\<lparr>app_envelope := (app_envelope s)\<lparr>active_capacity_validator := None\<rparr>\<rparr>"
  | (some) sv where "el \<noteq> []" "select_active_capacity_validator_for_epoch cr rng pc s epoch =
      s\<lparr>app_envelope := (app_envelope s)\<lparr>active_capacity_validator := Some sv\<rparr>\<rparr>"
      "validator_address sv \<in> cv_address ` set el" "acv_epoch sv = epoch"
      "distinct (challenged_providers sv)" "set (challenged_providers sv) \<subseteq> cv_address ` set el"
      "length el \<noteq> 1 \<Longrightarrow> validator_address sv \<notin> set (challenged_providers sv)"
      "length (challenged_providers sv) = min (challenges_per_epoch pc) (if length el = 1 then 1 else length el - 1)"
proof (cases "el = []")
  case True
  then show thesis using none by (simp add: select_active_capacity_validator_for_epoch_def el_def eligible_validators_def Let_def)
next
  case False
  let ?srt = "sort_by (\<lambda>a b. cv_address a \<le> cv_address b) el"
  obtain sh g where sh: "shuffle_with rng (from_seed rng (selection_seed cr epoch (chain_id s) ?srt)) ?srt = (sh, g)"
    by fastforce
  have shf: "set sh = set el" "sh \<noteq> []"
    using shuffle_with_facts(1,4) [OF assms(1), of "from_seed rng (selection_seed cr epoch (chain_id s) ?srt)" ?srt]
      sh False length_sort_by [of "\<lambda>a b. cv_address a \<le> cv_address b" el]
    by (simp_all del: length_sort_by)
  let ?sel = "cv_address (hd sh)"
  let ?pool = "challenge_pool ?srt ?sel"
  let ?ch = "if ?pool = [] then [] else take (min (challenges_per_epoch pc) (length ?pool)) (fst (shuffle_with rng g ?pool))"
  let ?sv = "\<lparr>validator_address = ?sel, acv_epoch = epoch, challenged_providers = ?ch,
     subscribed_topics = map (\<lambda>a. ELD_STORAGE_PROOF_TOPIC_PREFIX @ hex_with_prefix (hex cr) a) ?ch\<rparr>"
  have sel: "?sel \<in> cv_address ` set el" using shf by (metis hd_in_set imageI)
  have "distinct (map cv_address el)"
    using assms(2) by (simp add: el_def eligible_validators_def distinct_map_filter)
  then have "distinct (map cv_address ?srt)"
    using mset_sort_by [of "\<lambda>a b. cv_address a \<le> cv_address b" el] by (metis mset_eq_imp_distinct_iff mset_map)
  note pf = challenge_pool_facts [OF this, of ?sel]
  note sf = shuffle_with_facts [OF assms(1), of g ?pool]
  have len: "length ?pool = (if length el = 1 then 1 else length el - 1)"
    using pf(3) sel by (auto simp: challenge_pool_def)
  have sub: "set ?ch \<subseteq> set ?pool" using sf(1) by (auto dest: in_set_takeD)
  show thesis
  proof (rule some [of ?sv])
    show "select_active_capacity_validator_for_epoch cr rng pc s epoch =
        s\<lparr>app_envelope := (app_envelope s)\<lparr>active_capacity_validator := Some ?sv\<rparr>\<rparr>"
      using False sh by (simp add: select_active_capacity_validator_for_epoch_def Let_def el_def eligible_validators_def)
    show "distinct (challenged_providers ?sv)" using pf(1) sf(3) by simp
    show "set (challenged_providers ?sv) \<subseteq> cv_address ` set el" using sub pf(2) by (auto split: if_splits)
    show "length el \<noteq> 1 \<Longrightarrow> validator_address ?sv \<notin> set (challenged_providers ?sv)"
      using sub pf(2) by (auto split: if_splits)
    show "length (challenged_providers ?sv) = min (challenges_per_epoch pc) (if length el = 1 then 1 else length el - 1)"
      using len sf(2) by auto
  qed (use False sel in simp_all)
qed


section \<open>Reading the epoch record back\<close>

text \<open>\<^verbatim>\<open>bincode\<close> round trips on the record.\<close>

definition epoch_codec_ok :: "node_crates \<Rightarrow> epoch_record \<Rightarrow> bool" where
  "epoch_codec_ok cr r \<longleftrightarrow> (\<exists>d. enc_epoch cr r = Some d \<and> dec_epoch cr d = Some r)"

lemma store_epoch_record_Ok:
  assumes "hex_documented (hex cr)" "epoch_codec_ok cr rec" "0 \<le> er_epoch rec" "er_epoch rec < 2 ^ 63"
  obtains e' where "store_epoch_record cr e rec = Ok e'"
    "\<And>st. get_epoch_record cr st e' (er_epoch rec) = Ok (Some rec)"
proof -
  obtain d where d: "enc_epoch cr rec = Some d" "dec_epoch cr d = Some rec"
    using assms(2) unfolding epoch_codec_ok_def by blast
  let ?n = "pad_zero 64 (show_hex (unat (word_of_int (er_epoch rec) :: u64)))"
  let ?c = "cado_immutable (sha256 cr) d (cado_metadata_new EpochRecordType (show_int (er_epoch rec)))"
  have n: "epoch_record_path_name (er_epoch rec) = Ok (''0x'' @ ?n)"
    using assms(3) by (simp add: epoch_record_path_name_def)
  have len: "length ?n = 64"
    using length_show_hex_64 [of "word_of_int (er_epoch rec)"] by (simp add: pad_zero_def)
  obtain p where p: "cado_path_new (hex cr) EpochRecordType (KeyName (''0x'' @ ?n)) = Ok p" "path_type p = ''epoch_record''"
    using hex_name_path [OF assms(1) epoch_name_lower len, of EpochRecordType] by (auto simp: is_address_type_def)
  have l: "list_all is_lower_hex (drop 2 LATEST)" "length (drop 2 LATEST) = 64" "LATEST = ''0x'' @ drop 2 LATEST"
    by (simp_all add: LATEST_def is_lower_hex_def)
  obtain q where q: "cado_path_new (hex cr) EpochRecordType (KeyName LATEST) = Ok q" "path_type q = ''epoch_record''"
    using hex_name_path [OF assms(1) l(1,2), of EpochRecordType] l(3) by (auto simp: is_address_type_def)
  let ?e = "update_cado_cache (update_cado_cache e p ?c) q ?c"
  have st: "store_epoch_record cr e rec = Ok ?e"
    using d n p q by (simp add: store_epoch_record_def Let_def)
  have infra: "\<not> path_is_infrastructure p" "\<not> path_is_infrastructure q"
    using p(2) q(2) by (auto simp: path_is_infrastructure_def INFRASTRUCTURE_CADO_TYPES_def)
  have "lookup_cado st ?e p = Some ?c" for st
    using infra by (simp add: ws.look_stage)
  then have "get_epoch_record cr st ?e (er_epoch rec) = Ok (Some rec)" for st
    using n p d by (simp add: get_epoch_record_def cado_immutable_def)
  then show thesis using st that by blast
qed


section \<open>The challenges bind to the record\<close>

lemma published_challenge:
  "Publish topic ch \<in> set (fst (generate_challenges_loop cr pcr epoch bh validator ts k pd)) \<Longrightarrow>
   \<exists>provider root seed n. (provider, Some root, Some seed, Some n) \<in> set pd \<and> 0 < n \<and>
     ch = make_challenge cr pcr epoch bh validator ts k provider root seed n"
proof (induction pd)
  case (Cons d rest)
  let ?loop = "generate_challenges_loop cr pcr epoch bh validator ts k"
  obtain provider ro so co where d: "d = (provider, ro, so, co)" by (cases d)
  show ?case
  proof (cases "\<exists>root seed n. ro = Some root \<and> so = Some seed \<and> co = Some n \<and> 0 < n")
    case True
    then obtain root seed n where v: "ro = Some root" "so = Some seed" "co = Some n" "0 < n" by blast
    then have "set (fst (?loop (d # rest))) = {Subscribe (ELD_STORAGE_PROOF_TOPIC_PREFIX @ hex_with_prefix (hex cr) provider),
        Publish (ELD_STORAGE_CHALLENGE_TOPIC_PREFIX @ hex_with_prefix (hex cr) provider)
          (make_challenge cr pcr epoch bh validator ts k provider root seed n)} \<union> set (fst (?loop rest))"
      by (cases "?loop rest") (auto simp: d Let_def)
    then show ?thesis using Cons d v by auto
  next
    case False
    then have "fst (?loop (d # rest)) = [] \<or> ?loop (d # rest) = ?loop rest"
      by (cases ro; cases so; cases co) (auto simp: d Let_def word_neq_0_conv)
    then have "Publish topic ch \<in> set (fst (?loop rest))" using Cons.prems by auto
    from Cons.IH [OF this] show ?thesis by (metis list.set_intros(2))
  qed
qed simp

lemma find_map_filter:
  assumes "\<And>a x. f a = Some x \<Longrightarrow> g x = a" "f a = Some x" "a \<in> set as"
  shows "List.find (\<lambda>x. g x = a) (List.map_filter f as) = Some x"
  using assms(3)
proof (induction as)
  case (Cons b bs)
  then show ?case
    using assms(1) [of b] assms(2) by (cases "f b") auto
qed simp

lemma find_capacity_validator_address: "find_capacity_validator e a = Some p \<Longrightarrow> cv_address p = a"
  by (auto simp: find_capacity_validator_def find_Some_iff)

lemma provider_data_in:
  "(a, r, s, n) \<in> set (build_challenged_capacity_provider_data e ids) \<longleftrightarrow>
   a \<in> set ids \<and> (\<exists>cp. find_capacity_validator e a = Some cp \<and> r = merkle_root cp \<and> s = cv_seed cp \<and> n = chunk_count cp)"
proof (induction ids)
  case (Cons b ids)
  then show ?case
    by (cases "find_capacity_validator e b") (auto simp: build_challenged_capacity_provider_data_def)
qed (simp add: build_challenged_capacity_provider_data_def)

text \<open>Every challenge published from a state whose active validator is of the epoch of the height is bound by the
  record built from that state.\<close>

lemma published_challenge_binds:
  assumes "hex_documented (hex cr)" "\<forall>bs. length (sha256 cr bs) = 32"
    and "active_capacity_validator e = Some sv" "acv_epoch sv = epoch" "0 < bh" "0 \<le> epoch"
    and "bh sdiv blocks_per_epoch pc = epoch"
    and "Publish topic ch \<in> set (fst (generate_challenges_internal cr pcr
          (build_challenged_capacity_provider_data e (challenged_providers sv)) epoch bh (validator_address sv) ts
          (chunks_per_challenge pc)))"
  shows "\<exists>b. bind_verified_proof cr pcr (Some (build_epoch_record e epoch (blocks_per_epoch pc))) epoch
      (cc_challenger ch) (cc_provider_id ch) (cc_challenge_id ch) (cc_block_height ch) pc = Ok b \<and>
      expected_indices b = cc_chunk_indices ch \<and> expected_merkle_root b = CapacityMerkleRoot (cc_merkle_root ch)"
proof -
  have "Publish topic ch \<in> set (fst (generate_challenges_loop cr pcr epoch bh (validator_address sv) ts
      (chunks_per_challenge pc) (build_challenged_capacity_provider_data e (challenged_providers sv))))"
    using assms(8) by (auto simp: generate_challenges_internal_def split: if_splits)
  from published_challenge [OF this] obtain provider root seed n cp where
    p: "provider \<in> set (challenged_providers sv)" "find_capacity_validator e provider = Some cp"
      "merkle_root cp = Some root" "chunk_count cp = Some n" "0 < n"
      "ch = make_challenge cr pcr epoch bh (validator_address sv) ts (chunks_per_challenge pc) provider root seed n"
    unfolding provider_data_in by auto metis
  let ?idx = "select_challenge_chunk_indices cr pcr epoch provider bh (validator_address sv) n (chunks_per_challenge pc)"
  let ?id = "compute_challenge_id cr (validator_address sv) provider bh ?idx"
  have id: "challenge_id_parse_hex (hex cr) (challenge_id_to_hex (hex cr) ?id) = Ok ?id"
    by (rule chid.parse_show [OF assms(1)]) (simp add: compute_challenge_id_def assms(2))
  have "List.find (\<lambda>p. cv_address p = provider)
      (challenged_capacity_validators (build_epoch_record e epoch (blocks_per_epoch pc))) = Some cp"
    using find_map_filter [of "find_capacity_validator e" cv_address provider cp, OF find_capacity_validator_address]
      p(1,2) assms(3) by (simp add: build_epoch_record_def)
  then show ?thesis
    unfolding bind_Ok validate_binding_Ok using p id assms(3-7)
    by (auto simp: make_challenge_def Let_def is_ok_iff proof_epoch_in_window_Ok build_epoch_record_def)
qed

section \<open>Properties\<close>

definition demo_validators :: "validator_info list" where
  "demo_validators = map (\<lambda>(a, n). \<lparr>vi_address = demo_address a, vi_stake = Coin n, vi_public_key = []\<rparr>)
     [(3, 5), (1, 9), (2, 9), (4, 7), (5, 1), (6, 2), (7, 3)]"

text \<open>C31: the validators of an epoch are the ones of the highest stakes: as many as the protocol allows, all
  of them registered, and no validator left out has more stake than one that is in.  The result does
  not depend on the order in which the node holds its validators, ties included, so that nodes
  with the same validators choose the same list.\<close>

theorem validator_selection_top_and_deterministic:
  "length (active_validators (select_validators_for_epoch pc e)) = min (validators_per_epoch pc) (length (validators e)) \<and>
   set (active_validators (select_validators_for_epoch pc e)) \<subseteq> set (validators e) \<and>
   (\<forall>v w. v \<in> set (active_validators (select_validators_for_epoch pc e)) \<and> w \<in> set (validators e) \<and>
      w \<notin> set (active_validators (select_validators_for_epoch pc e)) \<longrightarrow> coins (vi_stake w) \<le> coins (vi_stake v)) \<and>
   (\<forall>e'. mset (validators e') = mset (validators e) \<longrightarrow>
      active_validators (select_validators_for_epoch pc e') = active_validators (select_validators_for_epoch pc e))"
  using selected_validators selected_validators_order by blast

theorem validator_selection_top_and_deterministic_witness:
  "active_validators (select_validators_for_epoch local_dev (demo_envelope\<lparr>validators := rev demo_validators\<rparr>)) =
   active_validators (select_validators_for_epoch local_dev (demo_envelope\<lparr>validators := demo_validators\<rparr>)) \<and>
   length (active_validators (select_validators_for_epoch local_dev (demo_envelope\<lparr>validators := demo_validators\<rparr>))) = 4"
proof -
  let ?e = "demo_envelope\<lparr>validators := demo_validators\<rparr>"
  note sel = validator_selection_top_and_deterministic [of local_dev ?e]
  have "mset (validators (demo_envelope\<lparr>validators := rev demo_validators\<rparr>)) = mset (validators ?e)" by simp
  then have "active_validators (select_validators_for_epoch local_dev (demo_envelope\<lparr>validators := rev demo_validators\<rparr>))
      = active_validators (select_validators_for_epoch local_dev ?e)" using sel by blast
  moreover have "validators_per_epoch local_dev = 4" "length (validators ?e) = 7"
    by (simp_all add: local_dev_def demo_validators_def)
  moreover have "length (active_validators (select_validators_for_epoch local_dev ?e)) =
      min (validators_per_epoch local_dev) (length (validators ?e))" using sel by blast
  ultimately show ?thesis by linarith
qed


definition demo_rng :: "unit std_rng" where
  "demo_rng = \<lparr>from_seed = (\<lambda>_. ()), permutation = (\<lambda>g n. ([0..<n], g))\<rparr>"

definition demo_capacity_state :: app_state where
  "demo_capacity_state = \<lparr>app_hash = None, app_envelope = demo_envelope\<lparr>block_height := 5,
     capacity_validators := [demo_info, demo_info\<lparr>cv_address := demo_address 2\<rparr>,
       demo_info\<lparr>cv_address := demo_address 3, merkle_root := None\<rparr>]\<rparr>, chain_id = []\<rparr>"

text \<open>C32: the choice of the active capacity validator.  It is cleared exactly when no registration has both
  a root and a running lease.  Otherwise the chosen validator and the providers it challenges are
  among those registrations, the challenged ones are pairwise different and as many as the protocol
  asks for as far as there are others, and a validator is asked to challenge itself only
  when it is the only one.\<close>

theorem capacity_selection_sound:
  assumes "rng_documented rng" "distinct (map cv_address (capacity_validators (app_envelope s)))"
  shows "(case active_capacity_validator (app_envelope (select_active_capacity_validator_for_epoch cr rng pc s epoch)) of
      None \<Rightarrow> eligible_validators (app_envelope s) = []
    | Some sv \<Rightarrow> acv_epoch sv = epoch \<and>
        validator_address sv \<in> cv_address ` set (eligible_validators (app_envelope s)) \<and>
        distinct (challenged_providers sv) \<and>
        set (challenged_providers sv) \<subseteq> cv_address ` set (eligible_validators (app_envelope s)) \<and>
        (validator_address sv \<in> set (challenged_providers sv) \<longrightarrow> length (eligible_validators (app_envelope s)) = 1) \<and>
        length (challenged_providers sv) = min (challenges_per_epoch pc)
          (if length (eligible_validators (app_envelope s)) = 1 then 1 else length (eligible_validators (app_envelope s)) - 1))"
  using assms by (cases rule: selection_cases [of rng s cr pc epoch]) auto

theorem capacity_selection_sound_witness:
  "\<exists>sv. active_capacity_validator (app_envelope
      (select_active_capacity_validator_for_epoch model_crates demo_rng local_dev demo_capacity_state 0)) = Some sv \<and>
    length (challenged_providers sv) = 1 \<and> validator_address sv \<notin> set (challenged_providers sv)"
proof -
  have r: "rng_documented demo_rng" by (simp add: rng_documented_def demo_rng_def)
  have d: "distinct (map cv_address (capacity_validators (app_envelope demo_capacity_state)))"
    by (simp add: demo_capacity_state_def demo_info_def demo_address_def)
  have "capacity_eligible 5 demo_info" by code_simp
  moreover have "\<not> capacity_eligible 5 (demo_info\<lparr>cv_address := demo_address 3, merkle_root := None\<rparr>)"
    by (simp add: capacity_eligible_def)
  moreover have "capacity_eligible 5 (demo_info\<lparr>cv_address := a\<rparr>) = capacity_eligible 5 demo_info" for a
    by (simp add: capacity_eligible_def)
  ultimately have l: "length (eligible_validators (app_envelope demo_capacity_state)) = 2"
    by (simp add: eligible_validators_def demo_capacity_state_def)
  then have "eligible_validators (app_envelope demo_capacity_state) \<noteq> []" by auto
  with capacity_selection_sound [OF r d, where cr = model_crates and pc = local_dev and epoch = 0] l show ?thesis
    by (auto simp: local_dev_def split: option.splits)
qed

end
