(* ===== verification/Genesis.thy ===== *)
theory Genesis
  imports Epoch
begin

text \<open>
  The start of a chain (\<^verbatim>\<open>consensus/init_chain.rs\<close>): the protocol constants of the genesis file are installed once, the
  validators of the request are listed with their power as stake, and each gets an account with that balance.
  \<^term>\<open>None\<close> is a fatal error.  The property says what the chain starts from.
\<close>

section \<open>The request\<close>

datatype key_sum = Ed25519 bytes | OtherKey

record validator_update =
  vu_pub_key :: "key_sum option option"
  vu_power :: int

record init_chain_request =
  ic_chain_id :: string
  ic_validators :: "validator_update list"
  ic_app_state_bytes :: bytes

section \<open>Protocol constants\<close>

text \<open>The handle of the node, the answer of the storage to \<^verbatim>\<open>put_protocol_constants\<close>, and what is written there.\<close>

definition install_protocol_constants ::
    "(bytes \<Rightarrow> protocol_constants option) \<Rightarrow> bool \<Rightarrow> protocol_constants option \<Rightarrow> bytes \<Rightarrow> (protocol_constants \<times> bytes option) option" where
  "install_protocol_constants parse_genesis put_ok handle bs =
    (if bs = [] then map_option (\<lambda>pc. (pc, None)) handle
     else (case from_app_state_bytes parse_genesis bs of Inl _ \<Rightarrow> None
       | Inr parsed \<Rightarrow> (case handle of
           Some existing \<Rightarrow> if existing = parsed then Some (parsed, None) else None
         | None \<Rightarrow> if \<not> put_ok then None
             else (case protocol_handle_set handle parsed of (Inl _, _) \<Rightarrow> None | (Inr _, _) \<Rightarrow> Some (parsed, Some bs)))))"

section \<open>Validators\<close>

definition validator_key :: "node_crates \<Rightarrow> validator_update \<Rightarrow> (bytes \<times> address) option" where
  "validator_key cr vu = (case vu_pub_key vu of
      Some (Some (Ed25519 b)) \<Rightarrow>
        if length b \<noteq> 32 \<or> \<not> ed_valid_key cr b then None
        else (case address_from_public_key (sha256 cr) b of Inl _ \<Rightarrow> None | Inr a \<Rightarrow> Some (b, a))
    | _ \<Rightarrow> None)"

definition genesis_stake :: "validator_update \<Rightarrow> coin res" where
  "genesis_stake vu = coin_new (ucast ((if vu_power vu < 0 then 0 else word_of_int (vu_power vu)) :: u64))"

definition genesis_validator ::
    "node_crates \<Rightarrow> validator_update \<Rightarrow> validator_info list \<times> envelope \<Rightarrow> (validator_info list \<times> envelope) option" where
  "genesis_validator cr vu = (\<lambda>(vs, e). (case validator_key cr vu of
      None \<Rightarrow> Some (vs, e)
    | Some (b, a) \<Rightarrow> (case genesis_stake vu of
        Inl _ \<Rightarrow> Some (vs, e)
      | Inr stake \<Rightarrow>
        (let vs' = vs @ [\<lparr>vi_address = a, vi_stake = stake, vi_public_key = b\<rparr>] in
         case cado_path_new (hex cr) AccountType (KeyAddress a) of
           Inl _ \<Rightarrow> Some (vs', e)
         | Inr p \<Rightarrow>
           if has_cado_in_working_set e p then Some (vs', e)
           else (case enc_account cr \<lparr>acc_address = a, acc_balance = stake, acc_nonce = Nonce 0\<rparr> of
               None \<Rightarrow> None
             | Some d \<Rightarrow> Some (vs', update_cado_cache e p (cado_mutable_new (sha256 cr) d
                 (cado_metadata_new AccountType (hex_with_prefix (hex cr) a)))))))))"

fun genesis_validators ::
    "node_crates \<Rightarrow> validator_update list \<Rightarrow> validator_info list \<times> envelope \<Rightarrow> (validator_info list \<times> envelope) option" where
  "genesis_validators cr [] s = Some s"
| "genesis_validators cr (vu # vus) s = Option.bind (genesis_validator cr vu s) (genesis_validators cr vus)"

definition init_chain_inner ::
    "node_crates \<Rightarrow> 'g std_rng \<Rightarrow> (bytes \<Rightarrow> protocol_constants option) \<Rightarrow> bool \<Rightarrow> string \<Rightarrow> protocol_constants option \<Rightarrow> app_state
     \<Rightarrow> init_chain_request \<Rightarrow> (protocol_constants \<times> bytes option \<times> app_state) option" where
  "init_chain_inner cr rng parse_genesis put_ok config_chain_id handle committed r =
    (if ic_chain_id r \<noteq> config_chain_id then None
     else (case install_protocol_constants parse_genesis put_ok handle (ic_app_state_bytes r) of None \<Rightarrow> None
       | Some (pc, stored) \<Rightarrow> (case genesis_validators cr (ic_validators r) ([], app_envelope committed) of None \<Rightarrow> None
         | Some (vs, e) \<Rightarrow> Some (pc, stored, select_active_capacity_validator_for_epoch cr rng pc
             (committed\<lparr>app_envelope := e\<lparr>validators := vs,
                active_validators := take (validators_per_epoch pc) (sort_by compare_validator_priority vs)\<rparr>\<rparr>) 0))))"

section \<open>What the loop builds\<close>

text \<open>The entries the loop makes of the updates it does not skip.\<close>

definition genesis_info :: "node_crates \<Rightarrow> validator_update \<Rightarrow> validator_info option" where
  "genesis_info cr vu = (case validator_key cr vu of None \<Rightarrow> None
     | Some (b, a) \<Rightarrow> map_option (\<lambda>s. \<lparr>vi_address = a, vi_stake = s, vi_public_key = b\<rparr>) (res_ok (genesis_stake vu)))"

lemma mutable_new_updated: "cado_mutable_new sha d m = cado_mutable_updated sha (sha d) d m"
  by (simp add: cado_mutable_new_def cado_mutable_updated_def)

lemma genesis_info_wf:
  assumes "genesis_info cr vu = Some v"
  shows "wf_address (vi_address v)" "coin_ok (vi_stake v)"
  using assms
  by (auto simp: genesis_info_def validator_key_def address_from_public_key_def address_from_slice_def genesis_stake_def
      result_simps coin_new_ok split: option.splits key_sum.splits if_splits sum.splits)

text \<open>Accounts after the loop: those of the listed validators, with the stake of the first entry of an address.\<close>

definition genesis_accounts :: "node_crates \<Rightarrow> validator_info list \<Rightarrow> envelope \<Rightarrow> envelope \<Rightarrow> bool" where
  "genesis_accounts cr vs e0 e \<longleftrightarrow> (\<forall>a st. wf_address a \<longrightarrow> (case List.find (\<lambda>v. vi_address v = a) vs of
     None \<Rightarrow> account_of cr st e a = account_of cr st e0 a \<and>
       (\<forall>p. cado_path_new (hex cr) AccountType (KeyAddress a) = Ok p \<longrightarrow> \<not> has_cado_in_working_set e p)
   | Some v \<Rightarrow> (\<exists>h. account_of cr st e a = Some (\<lparr>acc_address = a, acc_balance = vi_stake v, acc_nonce = Nonce 0\<rparr>, h)) \<and>
       (\<forall>p. cado_path_new (hex cr) AccountType (KeyAddress a) = Ok p \<longrightarrow> has_cado_in_working_set e p)))"

lemma find_append: "List.find P (xs @ ys) = (case List.find P xs of None \<Rightarrow> List.find P ys | Some x \<Rightarrow> Some x)"
  by (induction xs) auto

lemma genesis_validator_step:
  assumes "documented cr" "genesis_accounts cr vs e0 e"
  obtains e' where "genesis_validator cr vu (vs, e) = Some (vs @ (case genesis_info cr vu of None \<Rightarrow> [] | Some v \<Rightarrow> [v]), e')"
    "genesis_accounts cr (vs @ (case genesis_info cr vu of None \<Rightarrow> [] | Some v \<Rightarrow> [v])) e0 e'"
    "\<exists>c. e' = e\<lparr>cado_cache := c\<rparr>"
proof (cases "genesis_info cr vu")
  case None
  then have "genesis_validator cr vu (vs, e) = Some (vs, e)"
    by (auto simp: genesis_info_def genesis_validator_def res_ok_def split: option.splits sum.splits)
  then show thesis using assms(2) None by (intro that [of e]) (auto intro: exI [of _ "cado_cache e"])
next
  case (Some v)
  note wf = genesis_info_wf [OF Some] and hx = documentedD(1) [OF assms(1)]
  let ?a = "vi_address v" and ?acc = "\<lparr>acc_address = vi_address v, acc_balance = vi_stake v, acc_nonce = Nonce 0\<rparr>"
  obtain p where p: "cado_path_new (hex cr) AccountType (KeyAddress ?a) = Ok p"
    using address_path_Inr [OF hx, of AccountType ?a] wf(1) by auto
  have key: "\<exists>b. validator_key cr vu = Some (b, ?a) \<and> genesis_stake vu = Ok (vi_stake v) \<and> v = \<lparr>vi_address = ?a, vi_stake = vi_stake v, vi_public_key = b\<rparr>"
    using Some by (auto simp: genesis_info_def result_simps split: option.splits)
  show thesis
  proof (cases "has_cado_in_working_set e p")
    case True
    then have "List.find (\<lambda>v. vi_address v = ?a) vs \<noteq> None" using assms(2) wf(1) p by (auto simp: genesis_accounts_def split: option.splits)
    then have "genesis_accounts cr (vs @ [v]) e0 e"
      using assms(2) by (auto simp: genesis_accounts_def find_append split: option.splits)
    moreover have "genesis_validator cr vu (vs, e) = Some (vs @ [v], e)" using key p True by (auto simp: genesis_validator_def)
    ultimately show thesis using Some by (intro that [of e]) (auto intro: exI [of _ "cado_cache e"])
  next
    case False
    then have fresh: "List.find (\<lambda>v. vi_address v = ?a) vs = None" using assms(2) wf(1) p by (auto simp: genesis_accounts_def split: option.splits)
    have ok: "account_ok ?acc" using wf by (simp add: account_ok_def)
    obtain d where d: "enc_account cr ?acc = Some d" using codec_ok_enc [OF documentedD(2) [OF assms(1)] ok] by blast
    let ?e = "update_cado_cache e p (cado_mutable_new (sha256 cr) d (cado_metadata_new AccountType (hex_with_prefix (hex cr) ?a)))"
    have run: "genesis_validator cr vu (vs, e) = Some (vs @ [v], ?e)" using key p False d by (auto simp: genesis_validator_def)
    have "stage_account cr e ?a (sha256 cr d) ?acc = Some ?e" using d p by (simp add: stage_account_def mutable_new_updated)
    note acc = account_of_stage_account [OF assms(1) ok this]
    have work: "has_cado_in_working_set ?e q \<longleftrightarrow> path_str q = path_str p \<or> has_cado_in_working_set e q" for q
      using address_type_not_infrastructure [OF p] by (simp add: has_cado_in_working_set_def update_cado_cache_def)
    have "genesis_accounts cr (vs @ [v]) e0 ?e"
      unfolding genesis_accounts_def
    proof (intro allI impI)
      fix b st assume b: "wf_address b"
      obtain q where q: "cado_path_new (hex cr) AccountType (KeyAddress b) = Ok q" using address_path_Inr [OF hx, of AccountType b] b by auto
      have "path_str q = path_str p \<longleftrightarrow> b = ?a" using address_path_inj [OF hx q p] q p by auto
      then show "case List.find (\<lambda>v. vi_address v = b) (vs @ [v]) of
         None \<Rightarrow> account_of cr st ?e b = account_of cr st e0 b \<and>
           (\<forall>p. cado_path_new (hex cr) AccountType (KeyAddress b) = Ok p \<longrightarrow> \<not> has_cado_in_working_set ?e p)
       | Some v \<Rightarrow> (\<exists>h. account_of cr st ?e b = Some (\<lparr>acc_address = b, acc_balance = vi_stake v, acc_nonce = Nonce 0\<rparr>, h)) \<and>
           (\<forall>p. cado_path_new (hex cr) AccountType (KeyAddress b) = Ok p \<longrightarrow> has_cado_in_working_set ?e p)"
        using assms(2) [unfolded genesis_accounts_def, rule_format, OF b, of st] fresh q work [of q] acc [of st b]
        by (cases "b = ?a") (auto simp: find_append split: option.splits)
    qed
    moreover have "\<exists>c. ?e = e\<lparr>cado_cache := c\<rparr>"
      using address_type_not_infrastructure [OF p] by (auto simp: update_cado_cache_def)
    ultimately show thesis using Some run by (intro that [of ?e]) auto
  qed
qed

lemma genesis_validators_build:
  assumes "documented cr" "genesis_accounts cr vs e0 e"
  shows "\<exists>e'. genesis_validators cr vus (vs, e) = Some (vs @ List.map_filter (genesis_info cr) vus, e') \<and>
    genesis_accounts cr (vs @ List.map_filter (genesis_info cr) vus) e0 e' \<and> (\<exists>c. e' = e\<lparr>cado_cache := c\<rparr>)"
  using assms(2)
proof (induction vus arbitrary: vs e)
  case Nil
  then show ?case by (auto intro: exI [of _ "cado_cache e"])
next
  case (Cons vu vus)
  obtain e1 where e1: "genesis_validator cr vu (vs, e) = Some (vs @ (case genesis_info cr vu of None \<Rightarrow> [] | Some v \<Rightarrow> [v]), e1)"
    "genesis_accounts cr (vs @ (case genesis_info cr vu of None \<Rightarrow> [] | Some v \<Rightarrow> [v])) e0 e1" "\<exists>c. e1 = e\<lparr>cado_cache := c\<rparr>"
    by (rule genesis_validator_step [OF assms(1) Cons.prems]) (rule that)
  from Cons.IH [OF e1(2)] e1(1,3) show ?case by (cases "genesis_info cr vu") auto
qed

section \<open>Properties\<close>

text \<open>C8: what a chain starts from.  Genesis completes exactly when the chain id is the configured one and the protocol
  constants are the installed ones or, on a new node, valid ones that the storage takes.  On an empty state it then lists
  the validators with a usable key in the order of the request, the first by stake among them active, and gives every
  listed address an account with nonce zero and the stake of its first entry as balance; no other address gets one.\<close>

theorem genesis_state:
  assumes "documented cr" "cado_cache (app_envelope s) = []" "committed_cado_cache (app_envelope s) = []"
  shows "case install_protocol_constants parse_genesis put_ok handle (ic_app_state_bytes r) of
      Some (pc, stored) \<Rightarrow> if ic_chain_id r \<noteq> chain then init_chain_inner cr rng parse_genesis put_ok chain handle s r = None
        else (\<exists>s'. init_chain_inner cr rng parse_genesis put_ok chain handle s r = Some (pc, stored, s') \<and>
          validators (app_envelope s') = List.map_filter (genesis_info cr) (ic_validators r) \<and>
          active_validators (app_envelope s') = take (validators_per_epoch pc) (sort_by compare_validator_priority (validators (app_envelope s'))) \<and>
          (\<forall>a st. wf_address a \<longrightarrow> (case List.find (\<lambda>v. vi_address v = a) (validators (app_envelope s')) of
              None \<Rightarrow> account_of cr st (app_envelope s') a = account_of cr st (app_envelope s) a
            | Some v \<Rightarrow> \<exists>h. account_of cr st (app_envelope s') a = Some (\<lparr>acc_address = a, acc_balance = vi_stake v, acc_nonce = Nonce 0\<rparr>, h))))
    | None \<Rightarrow> init_chain_inner cr rng parse_genesis put_ok chain handle s r = None"
proof (cases "install_protocol_constants parse_genesis put_ok handle (ic_app_state_bytes r)")
  case None
  then show ?thesis by (simp add: init_chain_inner_def)
next
  case (Some p)
  obtain pc stored where p: "p = (pc, stored)" by force
  have "genesis_accounts cr [] (app_envelope s) (app_envelope s)"
    using assms(2,3) by (simp add: genesis_accounts_def has_cado_in_working_set_def)
  from genesis_validators_build [OF assms(1) this, of "ic_validators r"] obtain e where
    e: "genesis_validators cr (ic_validators r) ([], app_envelope s) = Some (List.map_filter (genesis_info cr) (ic_validators r), e)"
      "genesis_accounts cr (List.map_filter (genesis_info cr) (ic_validators r)) (app_envelope s) e" by auto
  let ?vs = "List.map_filter (genesis_info cr) (ic_validators r)"
  let ?e = "e\<lparr>validators := ?vs, active_validators := take (validators_per_epoch pc) (sort_by compare_validator_priority ?vs)\<rparr>"
  define s' where "s' = select_active_capacity_validator_for_epoch cr rng pc (s\<lparr>app_envelope := ?e\<rparr>) 0"
  have s': "\<exists>a. app_envelope s' = ?e\<lparr>active_capacity_validator := a\<rparr>"
    by (auto simp: s'_def select_active_capacity_validator_for_epoch_def Let_def split: prod.splits)
  then have "cado_cache (app_envelope s') = cado_cache e" "committed_cado_cache (app_envelope s') = committed_cado_cache e" by auto
  then have "account_of cr st (app_envelope s') a = account_of cr st e a" for st a
    unfolding account_of_def get_account_from_cado_def lookup_cado_def by (simp only:)
  moreover have "validators (app_envelope s') = ?vs"
    "active_validators (app_envelope s') = take (validators_per_epoch pc) (sort_by compare_validator_priority ?vs)" using s' by auto
  ultimately show ?thesis
    using Some p e(1) e(2) [unfolded genesis_accounts_def]
    by (auto simp: init_chain_inner_def s'_def [symmetric] split: option.splits)
qed

definition demo_genesis :: init_chain_request where
  "demo_genesis = \<lparr>ic_chain_id = ''eld'', ic_validators = [\<lparr>vu_pub_key = Some (Some (Ed25519 (replicate 32 7))), vu_power = 10\<rparr>,
     \<lparr>vu_pub_key = None, vu_power = 5\<rparr>], ic_app_state_bytes = []\<rparr>"

theorem genesis_state_witness:
  "\<exists>s'. init_chain_inner model_crates demo_rng (\<lambda>b. None) True ''eld'' (Some local_dev)
      \<lparr>app_hash = None, app_envelope = empty_envelope, chain_id = ''eld''\<rparr> demo_genesis = Some (local_dev, None, s') \<and>
     map vi_address (validators (app_envelope s')) = [Address (replicate 20 7)] \<and> balance_of model_crates empty_store (app_envelope s') (Address (replicate 20 7)) = 10"
proof -
  let ?s = "\<lparr>app_hash = None, app_envelope = empty_envelope, chain_id = ''eld''\<rparr>" and ?a = "Address (replicate 20 7)"
  have "cado_cache (app_envelope ?s) = []" "committed_cado_cache (app_envelope ?s) = []" by (simp_all add: empty_envelope_def)
  note G = genesis_state [where parse_genesis = "\<lambda>b. None" and put_ok = True and handle = "Some local_dev" and r = demo_genesis
    and chain = "''eld''" and rng = demo_rng, OF model_crates_documented this]
  have i: "install_protocol_constants (\<lambda>b. None) True (Some local_dev) (ic_app_state_bytes demo_genesis) = Some (local_dev, None)"
    by (simp add: install_protocol_constants_def demo_genesis_def)
  have v: "List.map_filter (genesis_info model_crates) (ic_validators demo_genesis) = [\<lparr>vi_address = ?a, vi_stake = Coin 10, vi_public_key = replicate 32 7\<rparr>]"
    by code_simp
  obtain s' where s': "init_chain_inner model_crates demo_rng (\<lambda>b. None) True ''eld'' (Some local_dev) ?s demo_genesis = Some (local_dev, None, s')"
    "validators (app_envelope s') = [\<lparr>vi_address = ?a, vi_stake = Coin 10, vi_public_key = replicate 32 7\<rparr>]"
    "\<forall>a st. wf_address a \<longrightarrow> (case List.find (\<lambda>v. vi_address v = a) (validators (app_envelope s')) of
        None \<Rightarrow> account_of model_crates st (app_envelope s') a = account_of model_crates st (app_envelope ?s) a
      | Some v \<Rightarrow> \<exists>h. account_of model_crates st (app_envelope s') a = Some (\<lparr>acc_address = a, acc_balance = vi_stake v, acc_nonce = Nonce 0\<rparr>, h))"
    using G unfolding i v by (auto simp: demo_genesis_def)
  have "wf_address ?a" by simp
  then have "balance_of model_crates empty_store (app_envelope s') ?a = 10"
    using s'(3) [rule_format, of ?a empty_store] by (auto simp: s'(2) balance_of_def)
  then show ?thesis using s'(1,2) by simp
qed

end
