(* ===== verification/Ledger_Effects.thy ===== *)
theory Ledger_Effects
  imports Verified_Proof
begin

text \<open>
  What every handler does to the ledger, on every branch, failed ones included: no account loses or
  changes its nonce, and the coins held and staked by any set of addresses that contains the
  addresses of the payload do not grow, except for the reward of a verified proof.
\<close>

section \<open>Single writes\<close>

definition keeps_nonces :: "node_crates \<Rightarrow> store_view \<Rightarrow> envelope \<Rightarrow> envelope \<Rightarrow> bool" where
  "keeps_nonces cr st e e' \<longleftrightarrow> (\<forall>a acc h. account_of cr st e a = Some (acc, h) \<longrightarrow>
     (\<exists>acc' h'. account_of cr st e' a = Some (acc', h') \<and> acc_nonce acc' = acc_nonce acc))"

lemma keeps_nonces_refl [simp]: "keeps_nonces cr st e e"
  by (simp add: keeps_nonces_def)

lemma keeps_nonces_trans: "keeps_nonces cr st e e1 \<Longrightarrow> keeps_nonces cr st e1 e2 \<Longrightarrow> keeps_nonces cr st e e2"
  unfolding keeps_nonces_def by metis

lemma keeps_nonces_frame:
  "cado_cache e' = cado_cache e \<Longrightarrow> committed_cado_cache e' = committed_cado_cache e \<Longrightarrow> keeps_nonces cr st e e'"
  by (simp add: keeps_nonces_def accounts_frame [of e' e])

lemma keeps_nonces_stage_account:
  assumes "documented cr" "account_ok acc" "stage_account cr e a h acc = Some e'"
    and "\<And>acc0 h0. account_of cr st e a = Some (acc0, h0) \<Longrightarrow> acc_nonce acc = acc_nonce acc0"
  shows "keeps_nonces cr st e e'"
  using assms(4) by (auto simp: keeps_nonces_def account_of_stage_account [OF assms(1-3)])

lemma keeps_nonces_stage_staking:
  "documented cr \<Longrightarrow> stage_staking cr e a h s = Some e' \<Longrightarrow> keeps_nonces cr st e e'"
  by (simp add: keeps_nonces_def account_of_stage_staking)

lemma supply_stage_account:
  assumes "documented cr" "account_ok acc" "stage_account cr e a h acc = Some e'" "finite A" "a \<in> A"
  shows "total_supply cr st e' A + balance_of cr st e a = total_supply cr st e A + coins (acc_balance acc)"
proof -
  have "total_supply cr st e' A = coins (acc_balance acc) + stake_of cr st e a +
      (\<Sum>b\<in>A - {a}. balance_of cr st e b + stake_of cr st e b)"
    using assms(4,5) led.bal_put_acc [OF assms(1-3)] led.stk_put_acc [OF assms(1,3)]
    by (simp add: total_supply_def sum.remove [of A a])
  then show ?thesis
    using assms(4,5) by (simp add: total_supply_def sum.remove [of A a])
qed

lemma supply_stage_staking:
  assumes "documented cr" "staking_ok s" "stage_staking cr e a h s = Some e'" "finite A" "a \<in> A"
  shows "total_supply cr st e' A + stake_of cr st e a = total_supply cr st e A + coins (stake_balance s)"
proof -
  have "total_supply cr st e' A = balance_of cr st e a + coins (stake_balance s) +
      (\<Sum>b\<in>A - {a}. balance_of cr st e b + stake_of cr st e b)"
    using assms(4,5) led.stk_put_stk [OF assms(1-3)] led.bal_put_stk [OF assms(1,3)]
    by (simp add: total_supply_def sum.remove [of A a])
  then show ?thesis
    using assms(4,5) by (simp add: total_supply_def sum.remove [of A a])
qed

text \<open>The effect of a handler run: nonces kept, and at most \<open>n\<close> coins more among \<open>A\<close>.\<close>

definition effect :: "node_crates \<Rightarrow> store_view \<Rightarrow> address set \<Rightarrow> nat \<Rightarrow> envelope \<Rightarrow> envelope \<Rightarrow> bool" where
  "effect cr st A n e e' \<longleftrightarrow> keeps_nonces cr st e e' \<and> total_supply cr st e' A \<le> total_supply cr st e A + n"

lemma effect_refl [simp]: "effect cr st A n e e"
  by (simp add: effect_def)

lemma effect_frame:
  "cado_cache e' = cado_cache e \<Longrightarrow> committed_cado_cache e' = committed_cado_cache e \<Longrightarrow> effect cr st A n e e'"
  by (simp add: effect_def keeps_nonces_frame accounts_frame(5) [of e' e])

lemma effect_trans: "effect cr st A n e e1 \<Longrightarrow> effect cr st A 0 e1 e2 \<Longrightarrow> effect cr st A n e e2"
  by (auto simp: effect_def intro: keeps_nonces_trans)

text \<open>A debit, a credit and the two orders of moving between balance and stake.\<close>

lemma effect_debit:
  assumes "documented cr" "account_of cr st e a = Some (acc, h)" "coin_sub (acc_balance acc) c = Ok b"
    and "stage_account cr e a h acc' = Some e'" "finite A" "a \<in> A"
    and "acc_balance acc' = b" "acc_nonce acc' = acc_nonce acc" "wf_address (acc_address acc')"
  shows "effect cr st A 0 e e'" "total_supply cr st e' A + coins c = total_supply cr st e A"
    "\<And>x. x \<noteq> a \<Longrightarrow> account_of cr st e' x = account_of cr st e x" "\<And>x. stake_of cr st e' x = stake_of cr st e x"
proof -
  note ok = account_of_ok [OF assms(1,2)]
  have sub: "coins b + coins c = coins (acc_balance acc)"
    using assms(3) ok(1) by (simp add: account_ok_def coin_sub_Inr)
  have ok': "account_ok acc'"
    using coin_sub_ok [OF assms(3)] assms(7,9) by (simp add: account_ok_def)
  note s = supply_stage_account [OF assms(1) ok' assms(4-6), of st]
  show t: "total_supply cr st e' A + coins c = total_supply cr st e A"
    using s sub assms(7) by (simp add: account_of_balance [OF assms(2)])
  show "effect cr st A 0 e e'"
    using t keeps_nonces_stage_account [OF assms(1) ok' assms(4), of st] assms(2,8) by (auto simp: effect_def)
  show "account_of cr st e' x = account_of cr st e x" if "x \<noteq> a" for x
    using that account_of_stage_account [OF assms(1) ok' assms(4)] by simp
  show "stake_of cr st e' x = stake_of cr st e x" for x
    by (rule led.stk_put_acc [OF assms(1,4)])
qed

lemma effect_credit:
  assumes "documented cr" "wf_address a" "account_or_new cr st e a = (acc, h)" "coin_add (acc_balance acc) c = Ok b"
    and "stage_account cr e a h (acc\<lparr>acc_balance := b\<rparr>) = Some e'" "finite A" "a \<in> A"
  shows "effect cr st A (coins c) e e'"
proof -
  note f = account_or_new_facts [OF assms(1-3)]
  have ok': "account_ok (acc\<lparr>acc_balance := b\<rparr>)" by (rule account_ok_update [OF f(1) coin_add_ok [OF assms(4)]])
  have "keeps_nonces cr st e e'"
    using assms(3) by (intro keeps_nonces_stage_account [OF assms(1) ok' assms(5)]) (auto simp: account_or_new_def)
  then show ?thesis
    using supply_stage_account [OF assms(1) ok' assms(5-7), of st] f(2) assms(4)
    by (simp add: effect_def coin_add_Inr)
qed

section \<open>The handlers\<close>

lemma transfer_effect:
  assumes doc: "documented cr" and run: "process_transfer_tx cr st e t = Some (r, e')"
    and A: "finite A" "tr_sender t \<in> A" "tr_recipient t \<in> A" and ne: "tr_sender t \<noteq> tr_recipient t"
  shows "effect cr st A 0 e e'"
proof -
  consider (same) "e' = e"
    | (wrote) amt sacc sh sbal e1 where "account_of cr st e (tr_sender t) = Some (sacc, sh)"
        "coin_sub (acc_balance sacc) amt = Ok sbal" "wf_address (tr_recipient t)"
        "stage_account cr e (tr_sender t) sh (sacc\<lparr>acc_balance := sbal\<rparr>) = Some e1"
        "e' = e1 \<or> (\<exists>racc rh rbal. account_or_new cr st e (tr_recipient t) = (racc, rh) \<and>
           coin_add (acc_balance racc) amt = Ok rbal \<and>
           stage_account cr e1 (tr_recipient t) rh (racc\<lparr>acc_balance := rbal\<rparr>) = Some e')"
    using run unfolding process_transfer_tx_def load_account_eq [OF doc] account_or_new_def
    by (force split: sum.splits option.splits if_splits prod.splits)
  then show ?thesis
  proof cases
    case wrote
    have wf: "wf_address (acc_address (sacc\<lparr>acc_balance := sbal\<rparr>))"
      using account_of_ok(1) [OF doc wrote(1)] by (simp add: account_ok_def)
    note d = effect_debit [OF doc wrote(1,2,4) A(1,2) _ _ wf, simplified]
    from wrote(5) show ?thesis
    proof
      assume "\<exists>racc rh rbal. account_or_new cr st e (tr_recipient t) = (racc, rh) \<and>
           coin_add (acc_balance racc) amt = Ok rbal \<and>
           stage_account cr e1 (tr_recipient t) rh (racc\<lparr>acc_balance := rbal\<rparr>) = Some e'"
      then obtain racc rh rbal where r: "account_or_new cr st e (tr_recipient t) = (racc, rh)"
        "coin_add (acc_balance racc) amt = Ok rbal"
        "stage_account cr e1 (tr_recipient t) rh (racc\<lparr>acc_balance := rbal\<rparr>) = Some e'" by blast
      have "account_or_new cr st e1 (tr_recipient t) = (racc, rh)"
        using r(1) d(3) [OF ne [symmetric]] by (simp add: account_or_new_def)
      from effect_credit [OF doc wrote(3) this r(2,3) A(1,3)] d(1,2) show ?thesis
        by (auto simp: effect_def intro: keeps_nonces_trans)
    qed (use d(1) in simp)
  qed simp
qed

lemma stake_effect:
  assumes doc: "documented cr" and run: "process_stake_tx cr pc st e t = Some (r, e')"
    and A: "finite A" "st_sender t \<in> A"
  shows "effect cr st A 0 e e'"
proof -
  let ?a = "st_sender t"
  consider (same) "e' = e"
    | (wrote) amt sacc sh sbal e1 where "account_of cr st e ?a = Some (sacc, sh)"
        "coin_sub (acc_balance sacc) amt = Ok sbal"
        "stage_account cr e ?a sh (sacc\<lparr>acc_balance := sbal\<rparr>) = Some e1"
        "e' = e1 \<or> (\<exists>sk kh stake e2. staking_or_new cr st e ?a = (sk, kh) \<and>
           coin_add (stake_balance sk) amt = Ok stake \<and>
           stage_staking cr e1 ?a kh (sk\<lparr>stake_balance := stake\<rparr>) = Some e2 \<and>
           (e' = e2 \<or> stake_public_key_step cr e2 t stake = Inr e'))"
    using run unfolding process_stake_tx_def load_account_eq [OF doc] load_staking_eq [OF doc] staking_or_new_def
    by (force split: sum.splits option.splits if_splits prod.splits)
  then show ?thesis
  proof cases
    case wrote
    have wf: "wf_address (acc_address (sacc\<lparr>acc_balance := sbal\<rparr>))"
      using account_of_ok(1) [OF doc wrote(1)] by (simp add: account_ok_def)
    note d = effect_debit [OF doc wrote(1-3) A _ _ wf, simplified]
    from wrote(4) show ?thesis
    proof
      assume "\<exists>sk kh stake e2. staking_or_new cr st e ?a = (sk, kh) \<and>
           coin_add (stake_balance sk) amt = Ok stake \<and>
           stage_staking cr e1 ?a kh (sk\<lparr>stake_balance := stake\<rparr>) = Some e2 \<and>
           (e' = e2 \<or> stake_public_key_step cr e2 t stake = Inr e')"
      then obtain sk kh stake e2 where s: "staking_or_new cr st e ?a = (sk, kh)"
        "coin_add (stake_balance sk) amt = Ok stake"
        "stage_staking cr e1 ?a kh (sk\<lparr>stake_balance := stake\<rparr>) = Some e2"
        "e' = e2 \<or> stake_public_key_step cr e2 t stake = Inr e'" by blast
      note f = staking_or_new_facts [OF doc account_of_ok(2) [OF doc wrote(1)] s(1)]
      note ok = staking_ok_update [OF f(1) coin_add_ok [OF s(2)]]
      have "total_supply cr st e2 A = total_supply cr st e A"
        using supply_stage_staking [OF doc ok s(3) A, of st] d(2) f(2) s(2)
        by (simp add: d(4) coin_add_Inr)
      then have "effect cr st A 0 e e2"
        using d(1) keeps_nonces_stage_staking [OF doc s(3), of st] by (auto simp: effect_def intro: keeps_nonces_trans)
      moreover have "effect cr st A 0 e2 e'"
        using s(4) stake_public_key_step_Inr [of cr e2 t stake e'] by (auto intro!: effect_frame)
      ultimately show ?thesis by (rule effect_trans)
    qed (use d(1) in simp)
  qed simp
qed

lemma unstake_effect:
  assumes doc: "documented cr" and run: "process_unstake_tx cr st e t = Some (r, e')"
    and A: "finite A" "un_sender t \<in> A"
  shows "effect cr st A 0 e e'"
proof -
  let ?a = "un_sender t"
  consider (same) "e' = e"
    | (wrote) amt sacc sh sk kh stake e1 where "account_of cr st e ?a = Some (sacc, sh)"
        "staking_of cr st e ?a = Some (sk, kh)" "coin_sub (stake_balance sk) amt = Ok stake"
        "stage_staking cr e ?a kh (sk\<lparr>stake_balance := stake\<rparr>) = Some e1"
        "e' = e1 \<or> (\<exists>bal. coin_add (acc_balance sacc) amt = Ok bal \<and>
           stage_account cr e1 ?a sh (sacc\<lparr>acc_balance := bal\<rparr>) = Some e')"
    using run unfolding process_unstake_tx_def load_account_eq [OF doc] load_staking_eq [OF doc]
    by (force split: sum.splits option.splits if_splits prod.splits)
  then show ?thesis
  proof cases
    case wrote
    note sok = staking_of_ok [OF doc wrote(2)]
    note ok = staking_ok_update [OF sok coin_sub_ok [OF wrote(3)]]
    have "total_supply cr st e1 A + coins amt = total_supply cr st e A"
      using supply_stage_staking [OF doc ok wrote(4) A, of st] wrote(3) sok staking_of_stake [OF wrote(2)]
      by (simp add: staking_ok_def coin_sub_Inr) linarith
    moreover have k: "keeps_nonces cr st e e1" by (rule keeps_nonces_stage_staking [OF doc wrote(4)])
    moreover have "effect cr st A (coins amt) e1 e'" if "e' \<noteq> e1"
    proof -
      obtain bal where b: "coin_add (acc_balance sacc) amt = Ok bal"
          "stage_account cr e1 ?a sh (sacc\<lparr>acc_balance := bal\<rparr>) = Some e'"
        using wrote(5) \<open>e' \<noteq> e1\<close> by blast
      have "account_or_new cr st e1 ?a = (sacc, sh)"
        using wrote(1) account_of_stage_staking [OF doc wrote(4)] by (simp add: account_or_new_def)
      from effect_credit [OF doc account_of_ok(2) [OF doc wrote(1)] this b A] show ?thesis .
    qed
    ultimately show ?thesis by (cases "e' = e1") (auto simp: effect_def intro: keeps_nonces_trans)
  qed simp
qed

lemma registry_effects:
  "process_register_capacity_tx cr pc st e rc pk = Some (r, e') \<Longrightarrow> effect cr st A 0 e e'"
  "process_unregister_capacity_tx cr st e uc = Some (r, e') \<Longrightarrow> effect cr st A 0 e e'"
  "process_update_capacity_merkle_root_tx cr st e um = Some (r, e') \<Longrightarrow> effect cr st A 0 e e'"
  "process_post_message_tx cr pc st e pm = Some (r, e') \<Longrightarrow> effect cr st A 0 e e'"
  by (auto simp: process_register_capacity_tx_def process_unregister_capacity_tx_def
      process_update_capacity_merkle_root_tx_def process_post_message_tx_def stage_post_def Let_def
      split: sum.splits option.splits if_splits intro!: effect_frame)

lemma add_namespace_effect:
  assumes doc: "documented cr" and run: "process_add_namespace_tx cr st e t = Some (r, e')"
    and A: "finite A" "an_sender t \<in> A"
  shows "effect cr st A 0 e e'"
proof -
  let ?a = "an_sender t"
  consider (same) "e' = e"
    | (wrote) fee sacc sh bal e1 c where "account_of cr st e ?a = Some (sacc, sh)"
        "coin_sub (acc_balance sacc) fee = Ok bal"
        "stage_account cr e ?a sh \<lparr>acc_address = ?a, acc_balance = bal, acc_nonce = acc_nonce sacc\<rparr> = Some e1"
        "e' = e1\<lparr>namespace_registry_cache := c\<rparr>"
    using run unfolding process_add_namespace_tx_def load_account_eq [OF doc]
    by (force split: sum.splits option.splits if_splits prod.splits)
  then show ?thesis
  proof cases
    case wrote
    have "effect cr st A 0 e e1"
      by (rule effect_debit(1) [OF doc wrote(1-3) A]) (simp_all add: account_of_ok(2) [OF doc wrote(1)])
    moreover have "effect cr st A 0 e1 e'" unfolding wrote(4) by (rule effect_frame) simp_all
    ultimately show ?thesis by (rule effect_trans)
  qed simp
qed

lemma verified_proof_effect:
  assumes doc: "documented cr" and run: "process_verified_proof_tx cr pcr pc st e t = Some (r, e')"
    and A: "finite A" "vp_capacity_provider t \<in> A"
  shows "effect cr st A (coins (verified_proof_reward_base_amount pc)) e e'"
proof -
  let ?a = "vp_capacity_provider t" and ?R = "verified_proof_reward_base_amount pc"
  obtain reward b where "e' = e \<or> coin_new (amount ?R) = Ok reward \<and> e' = snd (settle_verified_proof cr pcr pc st e t reward b)"
    using run unfolding process_verified_proof_tx_def
    by (auto split: sum.splits option.splits if_splits simp: prod_eq_iff)
  then consider (same) "e' = e" | (settled) "coin_new (amount ?R) = Ok reward"
      "e' = snd (settle_verified_proof cr pcr pc st e t reward b)" by blast
  then show ?thesis
  proof cases
    case settled
    then have R: "coins reward = coins ?R" by (auto simp: coin_new_Inr)
    consider (frame) "cado_cache e' = cado_cache e" "committed_cado_cache e' = committed_cado_cache e"
      | (paid) e1 where "credit_verified_proof_reward cr st e ?a reward = Ok e1"
          "cado_cache e' = cado_cache e1" "committed_cado_cache e' = committed_cado_cache e1"
      using settled(2) by (auto simp: settle_verified_proof_def record_failed_capacity_proof_def extend_lease_def Let_def
          split: if_splits sum.splits)
    then show ?thesis
    proof cases
      case paid
      obtain acc h bal where c: "wf_address ?a" "account_or_new cr st e ?a = (acc, h)"
          "coin_add (acc_balance acc) reward = Ok bal" "stage_account cr e ?a h (acc\<lparr>acc_balance := bal\<rparr>) = Some e1"
        using paid(1) by (auto simp: credit_verified_proof_reward_def load_account_eq [OF doc] account_or_new_def
            result_simps split: option.splits if_splits prod.splits)
      from effect_credit [OF doc c A] R have "effect cr st A (coins ?R) e e1" by simp
      with effect_frame [OF paid(2,3)] show ?thesis by (rule effect_trans [rotated])
    qed (simp add: effect_frame)
  qed simp
qed

section \<open>No handler panics\<close>

text \<open>On 20-byte addresses every failed \<^verbatim>\<open>expect\<close> is unreachable; the only other panic, the division of
  \<^verbatim>\<open>proof_epoch_in_window\<close>, needs an epoch of zero blocks.\<close>

lemma stage_not_None:
  "documented cr \<Longrightarrow> wf_address a \<Longrightarrow> account_ok acc \<Longrightarrow> stage_account cr e a h acc \<noteq> None"
  "documented cr \<Longrightarrow> wf_address a \<Longrightarrow> staking_ok s \<Longrightarrow> stage_staking cr e a h s \<noteq> None"
  by (metis option.distinct(1) stage_account_Some) (metis option.distinct(1) stage_staking_Some)

lemma staged_result:
  assumes "documented cr" "wf_address a"
  shows "coin_sub c d = Ok x \<Longrightarrow> account_ok acc \<Longrightarrow> stage_account cr e a h (acc\<lparr>acc_balance := x\<rparr>) \<noteq> None"
    and "coin_add c d = Ok x \<Longrightarrow> account_ok acc \<Longrightarrow> stage_account cr e a h (acc\<lparr>acc_balance := x\<rparr>) \<noteq> None"
    and "coin_sub c d = Ok x \<Longrightarrow> staking_ok s \<Longrightarrow> stage_staking cr e a h (s\<lparr>stake_balance := x\<rparr>) \<noteq> None"
    and "coin_add c d = Ok x \<Longrightarrow> staking_ok s \<Longrightarrow> stage_staking cr e a h (s\<lparr>stake_balance := x\<rparr>) \<noteq> None"
  using stage_not_None [OF assms]
  by (simp_all add: account_ok_update staking_ok_update coin_sub_ok coin_add_ok)

lemma transfer_total:
  assumes doc: "documented cr" and wf: "wf_address (tr_sender t)" "wf_address (tr_recipient t)"
  shows "process_transfer_tx cr st e t \<noteq> None"
proof
  assume "process_transfer_tx cr st e t = None"
  then consider sacc sh amt b where "account_of cr st e (tr_sender t) = Some (sacc, sh)"
      "coin_sub (acc_balance sacc) amt = Ok b"
      "stage_account cr e (tr_sender t) sh (sacc\<lparr>acc_balance := b\<rparr>) = None"
    | racc rh amt b e1 where "account_or_new cr st e (tr_recipient t) = (racc, rh)"
      "coin_add (acc_balance racc) amt = Ok b"
      "stage_account cr e1 (tr_recipient t) rh (racc\<lparr>acc_balance := b\<rparr>) = None"
    unfolding process_transfer_tx_def load_account_eq [OF doc] account_or_new_def
    by (force simp: wf split: sum.splits option.splits if_splits prod.splits)
  then show False
  proof cases
    case 1
    then show ?thesis using staged_result(1) [OF doc wf(1) 1(2) account_of_ok(1) [OF doc 1(1)]] by simp
  next
    case 2
    then show ?thesis using staged_result(2) [OF doc wf(2) 2(2) account_or_new_facts(1) [OF doc wf(2) 2(1)]] by simp
  qed
qed

lemma stake_total:
  assumes doc: "documented cr" and wf: "wf_address (st_sender t)"
  shows "process_stake_tx cr pc st e t \<noteq> None"
proof
  assume "process_stake_tx cr pc st e t = None"
  then consider sacc sh amt b where "account_of cr st e (st_sender t) = Some (sacc, sh)"
      "coin_sub (acc_balance sacc) amt = Ok b"
      "stage_account cr e (st_sender t) sh (sacc\<lparr>acc_balance := b\<rparr>) = None"
    | sk kh amt b e1 where "staking_or_new cr st e (st_sender t) = (sk, kh)"
      "coin_add (stake_balance sk) amt = Ok b"
      "stage_staking cr e1 (st_sender t) kh (sk\<lparr>stake_balance := b\<rparr>) = None"
    unfolding process_stake_tx_def load_account_eq [OF doc] load_staking_eq [OF doc] staking_or_new_def
    by (force simp: wf split: sum.splits option.splits if_splits prod.splits)
  then show False
  proof cases
    case 1
    then show ?thesis using staged_result(1) [OF doc wf 1(2) account_of_ok(1) [OF doc 1(1)]] by simp
  next
    case 2
    then show ?thesis using staged_result(4) [OF doc wf 2(2) staking_or_new_facts(1) [OF doc wf 2(1)]] by simp
  qed
qed

lemma unstake_total:
  assumes doc: "documented cr" and wf: "wf_address (un_sender t)"
  shows "process_unstake_tx cr st e t \<noteq> None"
proof
  assume "process_unstake_tx cr st e t = None"
  then consider sk kh amt b where "staking_of cr st e (un_sender t) = Some (sk, kh)"
      "coin_sub (stake_balance sk) amt = Ok b"
      "stage_staking cr e (un_sender t) kh (sk\<lparr>stake_balance := b\<rparr>) = None"
    | sacc sh amt b e1 where "account_of cr st e (un_sender t) = Some (sacc, sh)"
      "coin_add (acc_balance sacc) amt = Ok b"
      "stage_account cr e1 (un_sender t) sh (sacc\<lparr>acc_balance := b\<rparr>) = None"
    unfolding process_unstake_tx_def load_account_eq [OF doc] load_staking_eq [OF doc]
    by (force simp: wf split: sum.splits option.splits if_splits prod.splits)
  then show False
  proof cases
    case 1
    then show ?thesis using staged_result(3) [OF doc wf 1(2) staking_of_ok [OF doc 1(1)]] by simp
  next
    case 2
    then show ?thesis using staged_result(2) [OF doc wf 2(2) account_of_ok(1) [OF doc 2(1)]] by simp
  qed
qed

lemma add_namespace_total:
  assumes doc: "documented cr" and wf: "wf_address (an_sender t)"
  shows "process_add_namespace_tx cr st e t \<noteq> None"
proof
  assume "process_add_namespace_tx cr st e t = None"
  then obtain sacc :: account and sh fee b where "coin_sub (acc_balance sacc) fee = Ok b"
      "stage_account cr e (an_sender t) sh \<lparr>acc_address = an_sender t, acc_balance = b, acc_nonce = acc_nonce sacc\<rparr> = None"
    unfolding process_add_namespace_tx_def load_account_eq [OF doc]
    by (force simp: wf split: sum.splits option.splits if_splits prod.splits)
  moreover from this(1) have "account_ok \<lparr>acc_address = an_sender t, acc_balance = b, acc_nonce = acc_nonce sacc\<rparr>"
    using wf coin_sub_ok by (simp add: account_ok_def)
  ultimately show False using stage_not_None(1) [OF doc wf] by blast
qed

lemma registry_total:
  assumes doc: "documented cr"
  shows "wf_address (rc_sender rc) \<Longrightarrow> process_register_capacity_tx cr pc st e rc pk \<noteq> None"
    and "wf_address (uc_sender uc) \<Longrightarrow> process_unregister_capacity_tx cr st e uc \<noteq> None"
    and "wf_address (um_sender um) \<Longrightarrow> process_update_capacity_merkle_root_tx cr st e um \<noteq> None"
    and "process_post_message_tx cr pc st e pm \<noteq> None"
    and "blocks_per_epoch pc \<noteq> 0 \<Longrightarrow> process_verified_proof_tx cr pcr pc st e vp \<noteq> None"
  by (auto simp: process_register_capacity_tx_def process_unregister_capacity_tx_def Let_def
      process_update_capacity_merkle_root_tx_def process_post_message_tx_def process_verified_proof_tx_def
      load_account_eq [OF doc] split: sum.splits option.splits if_splits)

end
