(* ===== verification/Json_Validation.thy ===== *)
theory Json_Validation
  imports Tx
begin

text \<open>
  The checks that run on the JSON text and on the parsed JSON value of a transaction before it is
  decoded (\<^verbatim>\<open>common/src/validation.rs\<close>): hexadecimal and JSON text, the envelope structure, and one
  validator per payload type.

  A parsed JSON text is a \<open>json\<close> tree whose objects list their members in text order.  The
  \<^verbatim>\<open>serde_json::Value\<close> the validators read keeps the last of several members with the same key; that
  is \<open>obj_get\<close>.  The parser and the printer of \<^verbatim>\<open>serde_json\<close> are fields of the record \<open>json_lib\<close>.
\<close>

declare One_nat_def [simp del]

section \<open>JSON values\<close>

datatype json_number = PosInt u64 | NegInt int | FloatNum string

datatype json =
    JNull
  | JBool bool
  | JNumber json_number
  | JString string
  | JArray "json list"
  | JObject "(string \<times> json) list"

type_synonym json_object = "(string \<times> json) list"

record json_lib =
  json_parse :: "string \<Rightarrow> json option"
  json_to_string :: "json \<Rightarrow> string option"

definition obj_get :: "json_object \<Rightarrow> string \<Rightarrow> json option" where
  "obj_get kvs k = map_of (rev kvs) k"

definition as_object :: "json \<Rightarrow> json_object option" where
  "as_object v = (case v of JObject kvs \<Rightarrow> Some kvs | _ \<Rightarrow> None)"

definition as_str :: "json \<Rightarrow> string option" where
  "as_str v = (case v of JString s \<Rightarrow> Some s | _ \<Rightarrow> None)"

definition as_bool :: "json \<Rightarrow> bool option" where
  "as_bool v = (case v of JBool b \<Rightarrow> Some b | _ \<Rightarrow> None)"

definition as_array :: "json \<Rightarrow> json list option" where
  "as_array v = (case v of JArray vs \<Rightarrow> Some vs | _ \<Rightarrow> None)"

definition number_as_u64 :: "json_number \<Rightarrow> u64 option" where
  "number_as_u64 n = (case n of PosInt w \<Rightarrow> Some w | _ \<Rightarrow> None)"

definition as_u64 :: "json \<Rightarrow> u64 option" where
  "as_u64 v = (case v of JNumber n \<Rightarrow> number_as_u64 n | _ \<Rightarrow> None)"

definition as_i64 :: "json \<Rightarrow> int option" where
  "as_i64 v = (case v of
      JNumber (PosInt w) \<Rightarrow> if uint w < 2 ^ 63 then Some (uint w) else None
    | JNumber (NegInt i) \<Rightarrow> Some i
    | _ \<Rightarrow> None)"

definition is_number :: "json \<Rightarrow> bool" where
  "is_number v = (case v of JNumber _ \<Rightarrow> True | _ \<Rightarrow> False)"

section \<open>Text checks\<close>

definition validate_fee_amount :: "coin \<Rightarrow> unit res" where
  "validate_fee_amount c =
    (if amount c = 0 then Err (ValidationError ''fee amount'')
     else if amount c > MAX_COIN then Err (ValidationError ''fee amount'')
     else Ok ())"

definition validate_safe_string :: "string \<Rightarrow> nat \<Rightarrow> unit res" where
  "validate_safe_string s max_length =
    (if s = [] then Err (ValidationError ''string'')
     else if length s > max_length then Err (ValidationError ''string'')
     else if list_ex (\<lambda>ch. ch \<in> set s) dangerous_chars then Err (ValidationError ''string'')
     else if has_control s then Err (ValidationError ''string'')
     else Ok ())"

definition is_ascii_alphanumeric :: "char \<Rightarrow> bool" where
  "is_ascii_alphanumeric c = (let v = (of_char c :: nat) in
     (48 \<le> v \<and> v \<le> 57) \<or> (65 \<le> v \<and> v \<le> 90) \<or> (97 \<le> v \<and> v \<le> 122))"

definition validate_chain_id :: "string \<Rightarrow> unit res" where
  "validate_chain_id s =
    (if \<not> (3 \<le> length s \<and> length s \<le> 64) then Err (ValidationError ''chain ID'')
     else if \<not> list_all (\<lambda>c. is_ascii_alphanumeric c \<or> c = CHR ''-'' \<or> c = CHR ''_'') s
       then Err (ValidationError ''chain ID'')
     else Ok ())"

definition validate_port :: "string \<Rightarrow> unit res" where
  "validate_port s = (case parse_uint s :: 16 word option of
      None \<Rightarrow> Err (ValidationError ''port'')
    | Some p \<Rightarrow> if p = 0 then Err (ValidationError ''port'') else Ok ())"

text \<open>\<^verbatim>\<open>validate_positive_integer\<close> at \<^verbatim>\<open>u64\<close>, the only type its callers use; the test against zero is
  the constant \<^verbatim>\<open>false\<close> there.\<close>

definition validate_positive_integer :: "u64 \<Rightarrow> u64 option \<Rightarrow> u64 option \<Rightarrow> string \<Rightarrow> unit res" where
  "validate_positive_integer v lo hi field =
    (if v < 0 then Err (ValidationError field)
     else if (case lo of Some m \<Rightarrow> v < m | None \<Rightarrow> False) then Err (ValidationError field)
     else if (case hi of Some m \<Rightarrow> v > m | None \<Rightarrow> False) then Err (ValidationError field)
     else Ok ())"

definition validate_hex_string :: "string \<Rightarrow> int \<Rightarrow> unit res" where
  "validate_hex_string s max_bytes =
    (if s = [] then Err (ValidationError ''hex string'')
     else if int (length s) > max_bytes * 2 then Err (ValidationError ''hex string'')
     else if length s mod 2 \<noteq> 0 then Err (ValidationError ''hex string'')
     else if \<not> list_all is_hex_digit s then Err (ValidationError ''hex string'')
     else Ok ())"

text \<open>The bracket counter of \<^verbatim>\<open>validate_json_string\<close>: \<open>None\<close> when the walk is refused, else the
  depth at the end of the text.\<close>

definition opens :: "char \<Rightarrow> bool" where "opens c \<longleftrightarrow> c = CHR ''{'' \<or> c = CHR ''[''"
definition closes :: "char \<Rightarrow> bool" where "closes c \<longleftrightarrow> c = CHR ''}'' \<or> c = CHR '']''"

fun bracket_depth :: "nat \<Rightarrow> nat \<Rightarrow> string \<Rightarrow> nat option" where
  "bracket_depth m d [] = Some d"
| "bracket_depth m d (c # cs) =
    (if opens c then (if d + 1 > m then None else bracket_depth m (d + 1) cs)
     else if closes c then (if d = 0 then None else bracket_depth m (d - 1) cs)
     else bracket_depth m d cs)"

definition validate_json_string :: "('e) json_lib_scheme \<Rightarrow> string \<Rightarrow> int \<Rightarrow> nat \<Rightarrow> unit res" where
  "validate_json_string js s max_size max_depth =
    (if s = [] then Err (ValidationError ''JSON string'')
     else if int (length s) > max_size then Err (ValidationError ''JSON string'')
     else case bracket_depth max_depth 0 s of
         None \<Rightarrow> Err (ValidationError ''JSON string'')
       | Some d \<Rightarrow> if d \<noteq> 0 then Err (ValidationError ''JSON string'')
           else if json_parse js s = None then Err (ValidationError ''JSON string'')
           else Ok ())"

section \<open>Payload validators\<close>

definition require_fields :: "string \<Rightarrow> string list \<Rightarrow> json_object \<Rightarrow> unit res" where
  "require_fields what names obj =
     ensure (list_all (\<lambda>f. obj_get obj f \<noteq> None) names) (ValidationError what)"

text \<open>Indexing \<^verbatim>\<open>payload_obj[f]\<close> after \<^verbatim>\<open>contains_key\<close>, then one of the \<^verbatim>\<open>as_*\<close> accessors.\<close>

definition field :: "(json \<Rightarrow> 'a option) \<Rightarrow> json_object \<Rightarrow> string \<Rightarrow> string \<Rightarrow> 'a res" where
  "field as obj f what =
     ok_or (ValidationError what) (Option.bind (obj_get obj f) as)"

definition address_field :: "hex_lib \<Rightarrow> json_object \<Rightarrow> string \<Rightarrow> string \<Rightarrow> address res" where
  "address_field hx obj f what = and_then (field as_str obj f what) (address_parse hx)"

definition safe_address_field :: "hex_lib \<Rightarrow> json_object \<Rightarrow> string \<Rightarrow> string \<Rightarrow> unit res" where
  "safe_address_field hx obj f what =
     and_then (field as_str obj f what) (\<lambda>s.
     and_then (address_parse hx s) (\<lambda>_. validate_safe_string s 100))"

text \<open>An amount given as a decimal string or as a JSON number.\<close>

definition amount_value :: "json \<Rightarrow> u128 option" where
  "amount_value v = (case v of
      JString s \<Rightarrow> parse_uint s
    | JNumber n \<Rightarrow> map_option ucast (number_as_u64 n)
    | _ \<Rightarrow> None)"

definition amount_field :: "json_object \<Rightarrow> string \<Rightarrow> string \<Rightarrow> u128 res" where
  "amount_field obj f what = field amount_value obj f what"

definition positive_amount :: "json_object \<Rightarrow> string \<Rightarrow> unit res" where
  "positive_amount obj what =
     and_then (amount_field obj ''amount'' what) (\<lambda>a.
       if a = 0 then Err (ValidationError what)
       else if a > MAX_COIN then Err (ValidationError what)
       else Ok ())"

definition validate_transfer_payload :: "hex_lib \<Rightarrow> json_object \<Rightarrow> unit res" where
  "validate_transfer_payload hx obj =
     and_then (require_fields ''transfer payload'' [''sender'', ''recipient'', ''amount''] obj) (\<lambda>_.
     and_then (address_field hx obj ''sender'' ''transfer payload sender'') (\<lambda>sender.
     and_then (address_field hx obj ''recipient'' ''transfer payload recipient'') (\<lambda>recipient.
       if sender = recipient then Err (ValidationError ''transfer addresses'')
       else positive_amount obj ''transfer payload amount'')))"

definition validate_stake_payload :: "hex_lib \<Rightarrow> json_object \<Rightarrow> unit res" where
  "validate_stake_payload hx obj =
     and_then (require_fields ''stake payload'' [''sender'', ''amount''] obj) (\<lambda>_.
     and_then (address_field hx obj ''sender'' ''stake payload sender'') (\<lambda>_.
     and_then (positive_amount obj ''stake payload amount'') (\<lambda>_.
       case obj_get obj ''public_key'' of
         None \<Rightarrow> Ok ()
       | Some v \<Rightarrow> (case as_str v of
             None \<Rightarrow> Err (ValidationError ''stake payload public_key'')
           | Some s \<Rightarrow> validate_hex_string s 32))))"

definition validate_unstake_payload :: "hex_lib \<Rightarrow> json_object \<Rightarrow> unit res" where
  "validate_unstake_payload hx obj =
     and_then (require_fields ''unstake payload'' [''sender'', ''amount''] obj) (\<lambda>_.
     and_then (address_field hx obj ''sender'' ''unstake payload sender'') (\<lambda>_.
       positive_amount obj ''unstake payload amount''))"

definition validate_add_namespace_payload :: "hex_lib \<Rightarrow> json_object \<Rightarrow> unit res" where
  "validate_add_namespace_payload hx obj =
     and_then (require_fields ''add_namespace payload'' [''sender'', ''namespace_slug'', ''registration_fee''] obj) (\<lambda>_.
     and_then (address_field hx obj ''sender'' ''add_namespace payload sender'') (\<lambda>sender.
     and_then (field as_str obj ''namespace_slug'' ''add_namespace payload namespace_slug'') (\<lambda>slug.
     and_then (validate_safe_string slug 64) (\<lambda>_.
     and_then (amount_field obj ''registration_fee'' ''add_namespace payload registration_fee'') (\<lambda>fee.
       if fee > MAX_COIN then Err (ValidationError ''add_namespace payload registration_fee'')
       else and_then (add_namespace_tx_new sender slug fee) (\<lambda>_. Ok ()))))))"

definition validate_register_capacity_payload :: "hex_lib \<Rightarrow> json_object \<Rightarrow> unit res" where
  "validate_register_capacity_payload hx obj =
     and_then (require_fields ''register capacity payload''
        [''sender'', ''capacity_bytes'', ''merkle_root'', ''seed'', ''chunk_count''] obj) (\<lambda>_.
     and_then (safe_address_field hx obj ''sender'' ''register capacity payload sender'') (\<lambda>_.
     and_then (field as_u64 obj ''capacity_bytes'' ''register capacity payload capacity_bytes'') (\<lambda>cap.
     and_then (validate_positive_integer cap (Some 1) None ''capacity_bytes'') (\<lambda>_.
     and_then (field as_str obj ''merkle_root'' ''register capacity payload merkle_root'') (\<lambda>root.
     and_then (validate_hex_string root 32) (\<lambda>_.
     and_then (field as_str obj ''seed'' ''register capacity payload seed'') (\<lambda>sd.
     and_then (validate_hex_string sd 32) (\<lambda>_.
     and_then (field as_u64 obj ''chunk_count'' ''register capacity payload chunk_count'') (\<lambda>cc.
       validate_positive_integer cc (Some 1) None ''chunk_count'')))))))))"

definition validate_unregister_capacity_payload :: "hex_lib \<Rightarrow> json_object \<Rightarrow> unit res" where
  "validate_unregister_capacity_payload hx obj =
     and_then (require_fields ''unregister capacity payload'' [''sender'', ''unregister''] obj) (\<lambda>_.
     and_then (safe_address_field hx obj ''sender'' ''unregister capacity payload sender'') (\<lambda>_.
     and_then (field as_bool obj ''unregister'' ''unregister capacity payload unregister'') (\<lambda>b.
       ensure b (ValidationError ''unregister''))))"

definition validate_update_capacity_merkle_root_payload :: "hex_lib \<Rightarrow> json_object \<Rightarrow> unit res" where
  "validate_update_capacity_merkle_root_payload hx obj =
     and_then (require_fields ''update capacity merkle root payload'' [''sender'', ''merkle_root''] obj) (\<lambda>_.
     and_then (safe_address_field hx obj ''sender'' ''update capacity merkle root payload sender'') (\<lambda>_.
     and_then (field as_str obj ''merkle_root'' ''update capacity merkle root payload merkle_root'') (\<lambda>root.
       validate_hex_string root 32)))"

definition validate_verified_proof_payload :: "hex_lib \<Rightarrow> json_object \<Rightarrow> unit res" where
  "validate_verified_proof_payload hx obj =
     and_then (require_fields ''verified proof payload''
        [''sender'', ''capacity_provider'', ''challenge_id'', ''block_height'', ''verified_at_block'',
         ''verified_at_timestamp'', ''proofs'', ''generated_at'', ''provider_pubkey'', ''provider_signature''] obj) (\<lambda>_.
     and_then (address_field hx obj ''sender'' ''verified proof payload sender'') (\<lambda>_.
     and_then (address_field hx obj ''capacity_provider'' ''verified proof payload capacity_provider'') (\<lambda>_.
     and_then (field as_str obj ''challenge_id'' ''verified proof payload challenge_id'') (\<lambda>cid.
     and_then (validate_safe_string cid 100) (\<lambda>_.
     and_then (field as_i64 obj ''block_height'' ''verified proof payload block_height'') (\<lambda>bh.
     and_then (ensure (bh > 0) (ValidationError ''verified proof payload block_height'')) (\<lambda>_.
     and_then (field as_i64 obj ''verified_at_block'' ''verified proof payload verified_at_block'') (\<lambda>vab.
     and_then (ensure (vab > 0) (ValidationError ''verified proof payload verified_at_block'')) (\<lambda>_.
     and_then (ensure (vab \<ge> bh) (ValidationError ''verified proof payload verified_at_block'')) (\<lambda>_.
     and_then (field as_u64 obj ''verified_at_timestamp'' ''verified proof payload verified_at_timestamp'') (\<lambda>vat.
     and_then (ensure (timestamp_ok vat) (ValidationError ''verified proof payload verified_at_timestamp'')) (\<lambda>_.
     and_then (field as_array obj ''proofs'' ''verified proof payload proofs'') (\<lambda>prf.
     and_then (ensure (prf \<noteq> []) (ValidationError ''verified proof payload proofs'')) (\<lambda>_.
     and_then (field as_u64 obj ''generated_at'' ''verified proof payload generated_at'') (\<lambda>gen.
     and_then (ensure (timestamp_ok gen) (ValidationError ''verified proof payload generated_at'')) (\<lambda>_.
     and_then (field as_str obj ''provider_pubkey'' ''verified proof payload provider_pubkey'') (\<lambda>pk.
     and_then (ensure (pk \<noteq> []) (ValidationError ''verified proof payload provider_pubkey'')) (\<lambda>_.
     and_then (validate_hex_string pk 32) (\<lambda>_.
     and_then (field as_str obj ''provider_signature'' ''verified proof payload provider_signature'') (\<lambda>sg.
     and_then (ensure (sg \<noteq> []) (ValidationError ''verified proof payload provider_signature'')) (\<lambda>_.
     and_then (validate_hex_string sg 64) (\<lambda>_.
       case obj_get obj ''failed'' of
         None \<Rightarrow> Ok ()
       | Some v \<Rightarrow> ensure (as_bool v \<noteq> None) (ValidationError ''verified proof payload failed'')))))))))))))))))))))))"

definition validate_post_message_payload :: "json_object \<Rightarrow> unit res" where
  "validate_post_message_payload obj =
     require_fields ''post_message payload''
       [''sender'', ''original_signer'', ''original_signer_pubkey'', ''content_key'', ''message_id'',
        ''expires_height'', ''visibility'', ''fee_amount'', ''received_timestamp'', ''user_signature''] obj"

section \<open>The envelope\<close>

definition allowed_types :: "string list" where
  "allowed_types = [''Transfer'', ''Unstake'', ''Stake'', ''VerifiedProof'', ''RegisterCapacity'',
     ''UnregisterCapacity'', ''UpdateCapacityMerkleRoot'', ''PostMessage'', ''AddNamespace'']"

definition validate_payload_content :: "hex_lib \<Rightarrow> json_object \<Rightarrow> string \<Rightarrow> unit res" where
  "validate_payload_content hx obj ty =
    (if ty = ''Transfer'' then validate_transfer_payload hx obj
     else if ty = ''Stake'' then validate_stake_payload hx obj
     else if ty = ''Unstake'' then validate_unstake_payload hx obj
     else if ty = ''RegisterCapacity'' then validate_register_capacity_payload hx obj
     else if ty = ''UnregisterCapacity'' then validate_unregister_capacity_payload hx obj
     else if ty = ''UpdateCapacityMerkleRoot'' then validate_update_capacity_merkle_root_payload hx obj
     else if ty = ''VerifiedProof'' then validate_verified_proof_payload hx obj
     else if ty = ''PostMessage'' then validate_post_message_payload obj
     else if ty = ''AddNamespace'' then validate_add_namespace_payload hx obj
     else Err (ValidationError ''transaction payload type''))"

definition validate_transaction_size :: "('e) json_lib_scheme \<Rightarrow> json \<Rightarrow> unit res" where
  "validate_transaction_size js v = (case json_to_string js v of
      None \<Rightarrow> Err (ValidationError ''transaction'')
    | Some s \<Rightarrow> if int (length s) > 10 * 1024 * 1024 then Err (ValidationError ''transaction'') else Ok ())"

definition u32_max_u64 :: u64 where "u32_max_u64 = 4294967295"

definition validate_transaction_structure :: "hex_lib \<Rightarrow> ('e) json_lib_scheme \<Rightarrow> json \<Rightarrow> unit res" where
  "validate_transaction_structure hx js v =
     and_then (validate_transaction_size js v) (\<lambda>_.
     and_then (ok_or (ValidationError ''transaction'') (as_object v)) (\<lambda>obj.
     and_then (require_fields ''transaction'' [''sig'', ''nonce'', ''payload'', ''public_key'', ''fee''] obj) (\<lambda>_.
     and_then (field as_str obj ''sig'' ''transaction sig'') (\<lambda>sig.
     and_then (validate_hex_string sig 64) (\<lambda>_.
     and_then (field as_u64 obj ''nonce'' ''transaction nonce'') (\<lambda>n.
     and_then (validate_positive_integer n (Some 0) (Some u32_max_u64) ''nonce'') (\<lambda>_.
     and_then (field as_object obj ''payload'' ''transaction payload'') (\<lambda>payload_obj.
     and_then (field as_str obj ''public_key'' ''transaction public_key'') (\<lambda>pk.
     and_then (validate_hex_string pk 32) (\<lambda>_.
     and_then (field as_u64 obj ''fee'' ''transaction fee'') (\<lambda>fee.
     and_then (validate_positive_integer fee (Some 0) (Some u32_max_u64) ''fee'') (\<lambda>_.
     and_then (ensure (obj_get payload_obj ''type'' \<noteq> None) (ValidationError ''transaction payload'')) (\<lambda>_.
     and_then (field as_str payload_obj ''type'' ''transaction payload type'') (\<lambda>ty.
     and_then (ensure (ty \<in> set allowed_types) (ValidationError ''transaction payload type'')) (\<lambda>_.
       validate_payload_content hx payload_obj ty)))))))))))))))"

section \<open>Facts on the checks\<close>

text \<open>Evaluation of \<^const>\<open>parse_uint\<close> compares on binary integers.\<close>

lemma parse_uint_code [code]:
  "(parse_uint s :: 'a::len word option) = (case parse_nat s of None \<Rightarrow> None
     | Some n \<Rightarrow> if int n < 2 ^ LENGTH('a) then Some (of_nat n) else None)"
  by (simp add: parse_uint_def int_less_two_power cong: option.case_cong)

abbreviation n_open :: "string \<Rightarrow> nat" where "n_open s \<equiv> length (filter opens s)"
abbreviation n_close :: "string \<Rightarrow> nat" where "n_close s \<equiv> length (filter closes s)"

lemma opens_not_closes: "opens c \<Longrightarrow> \<not> closes c"
  by (auto simp: opens_def closes_def)

lemma all_take_Cons:
  "(\<forall>k. P (take k (c # s))) \<longleftrightarrow> P [] \<and> (\<forall>k. P (c # take k s))"
  by (metis take0 take_Cons' take_Suc_Cons)

lemma bracket_depth_Some:
  "d \<le> m \<Longrightarrow> bracket_depth m d s = Some e \<longleftrightarrow>
    (\<forall>k. n_close (take k s) \<le> d + n_open (take k s) \<and> d + n_open (take k s) \<le> m + n_close (take k s)) \<and>
    d + n_open s = e + n_close s"
proof (induction s arbitrary: d)
  case (Cons c s)
  let ?P = "\<lambda>s. n_close s \<le> d + n_open s \<and> d + n_open s \<le> m + n_close s"
  have now: "?P [c]" if "\<forall>k. ?P (c # take k s)" using that [rule_format, of 0] by simp
  consider "opens c" | "closes c" "\<not> opens c" | "\<not> opens c" "\<not> closes c" by blast
  then show ?case
  proof cases
    case 1
    then show ?thesis
      using Cons.IH [of "d + 1"] Cons.prems opens_not_closes [OF 1] now
      by (auto simp: all_take_Cons [where P = ?P] Suc_eq_plus1 ac_simps) blast
  next
    case 2
    show ?thesis
    proof (cases d)
      case 0
      then show ?thesis using 2 by (auto dest!: spec [of _ "Suc 0"])
    next
      case (Suc d')
      then show ?thesis using Cons.IH [of d'] Cons.prems 2
        by (subst all_take_Cons [where P = ?P]) simp
    qed
  next
    case 3
    then show ?thesis using Cons.IH [of d] Cons.prems by (simp add: all_take_Cons [where P = ?P])
  qed
qed auto

lemma validate_hex_string_Ok [result_simps]:
  "validate_hex_string s m = Ok u \<longleftrightarrow>
     s \<noteq> [] \<and> int (length s) \<le> m * 2 \<and> even (length s) \<and> list_all is_hex_digit s"
  by (auto simp: validate_hex_string_def)

lemma validate_positive_integer_Ok [result_simps]:
  "validate_positive_integer v (Some lo) (Some hi) f = Ok u \<longleftrightarrow> lo \<le> v \<and> v \<le> hi"
  "validate_positive_integer v (Some lo) None f = Ok u \<longleftrightarrow> lo \<le> v"
  by (auto simp: validate_positive_integer_def not_less)

lemma field_Ok [result_simps]:
  "field as obj f what = Ok x \<longleftrightarrow> (\<exists>v. obj_get obj f = Some v \<and> as v = Some x)"
  by (auto simp: field_def result_simps bind_eq_Some_conv)

lemma as_Some:
  "as_str v = Some s \<longleftrightarrow> v = JString s" "as_object v = Some kvs \<longleftrightarrow> v = JObject kvs"
  "as_bool v = Some b \<longleftrightarrow> v = JBool b" "as_array v = Some vs \<longleftrightarrow> v = JArray vs"
  "as_u64 v = Some w \<longleftrightarrow> v = JNumber (PosInt w)"
  by (auto simp: as_str_def as_object_def as_bool_def as_array_def as_u64_def number_as_u64_def
      split: json.splits json_number.splits)

lemma validate_transaction_structure_Ok:
  assumes "validate_transaction_structure hx js v = Ok ()"
  shows "\<exists>obj sig n payload_obj pk fee ty. v = JObject obj \<and>
    obj_get obj ''sig'' = Some (JString sig) \<and> sig \<noteq> [] \<and>
    obj_get obj ''nonce'' = Some (JNumber (PosInt n)) \<and> n \<le> u32_max_u64 \<and>
    obj_get obj ''payload'' = Some (JObject payload_obj) \<and>
    obj_get obj ''public_key'' = Some (JString pk) \<and> pk \<noteq> [] \<and>
    obj_get obj ''fee'' = Some (JNumber (PosInt fee)) \<and> fee \<le> u32_max_u64 \<and>
    obj_get payload_obj ''type'' = Some (JString ty) \<and> ty \<in> set allowed_types \<and>
    validate_payload_content hx payload_obj ty = Ok ()"
  using assms unfolding validate_transaction_structure_def result_simps as_Some
  by clarify (intro exI conjI; (rule refl | assumption))

section \<open>Properties\<close>

text \<open>the JSON text check accepts exactly the non-empty texts within the size limit that the parser
  accepts and in which, reading bracket characters wherever they stand, every prefix has at most as
  many closing as opening ones, the difference stays within the nesting limit, and the totals agree.
  Brackets inside string literals count: a text whose only fault is a bracket in a string is refused.\<close>

lemma json_text_accepted:
  "validate_json_string js s max_size max_depth = Ok () \<longleftrightarrow>
     s \<noteq> [] \<and> int (length s) \<le> max_size \<and> json_parse js s \<noteq> None \<and>
     (\<forall>k. n_close (take k s) \<le> n_open (take k s) \<and> n_open (take k s) \<le> max_depth + n_close (take k s)) \<and>
     n_open s = n_close s"
  using bracket_depth_Some [of 0 max_depth s 0]
  by (auto simp: validate_json_string_def split: option.splits if_splits)

end
