(* ===== verification/Tx_Decode.thy ===== *)
theory Tx_Decode
  imports Json_Validation "HOL-Library.Monad_Syntax"
begin

text \<open>
  Decoding of a parsed JSON transaction into the envelope, as the declarations of the source ask
  \<^verbatim>\<open>serde\<close> to do it: \<^verbatim>\<open>Tx\<close> (\<^verbatim>\<open>tx/envelope.rs\<close>), \<^verbatim>\<open>Payload\<close> with its flattened and untagged
  \<^verbatim>\<open>PayloadInner\<close> (\<^verbatim>\<open>tx/payload.rs\<close>), the \<^verbatim>\<open>*Unchecked\<close> wire structs with their \<^verbatim>\<open>try_from\<close>
  constructors (\<^verbatim>\<open>tx/payloads/*.rs\<close>) and the field decoders of \<^verbatim>\<open>tx/parts\<close>.

  Attributes read as documented by \<^verbatim>\<open>serde\<close>: a field must occur exactly once unless it has a default;
  an optional field may be absent or null; other keys are ignored unless the wire struct denies
  them; an untagged enumeration takes the first variant that decodes.  The decoder of the list of
  chunk proofs is derived by \<^verbatim>\<open>serde\<close> without any code of the repository and is a field of \<open>serde_lib\<close>.
\<close>

declare One_nat_def [simp del]

record serde_lib = json_lib +
  de_chunk_proofs :: "json \<Rightarrow> chunk_proof list option"

section \<open>Field decoders\<close>

definition members :: "json_object \<Rightarrow> string \<Rightarrow> json list" where
  "members kvs k = map snd (filter (\<lambda>kv. fst kv = k) kvs)"

definition required :: "(json \<Rightarrow> 'a option) \<Rightarrow> json_object \<Rightarrow> string \<Rightarrow> 'a option" where
  "required dec kvs k = (case members kvs k of [v] \<Rightarrow> dec v | _ \<Rightarrow> None)"

definition optional :: "'a \<Rightarrow> (json \<Rightarrow> 'a option) \<Rightarrow> json_object \<Rightarrow> string \<Rightarrow> 'a option" where
  "optional d dec kvs k = (case members kvs k of [] \<Rightarrow> Some d | [v] \<Rightarrow> dec v | _ \<Rightarrow> None)"

definition deny_unknown_fields :: "string list \<Rightarrow> json_object \<Rightarrow> bool" where
  "deny_unknown_fields known kvs = list_all (\<lambda>kv. fst kv \<in> set known) kvs"

definition de_option :: "(json \<Rightarrow> 'a option) \<Rightarrow> json \<Rightarrow> 'a option option" where
  "de_option dec v = (case v of JNull \<Rightarrow> Some None | _ \<Rightarrow> map_option Some (dec v))"

definition de_strings :: "json \<Rightarrow> string list option" where
  "de_strings v = (case v of
      JArray vs \<Rightarrow> if list_all (\<lambda>x. as_str x \<noteq> None) vs then Some (map (the \<circ> as_str) vs) else None
    | _ \<Rightarrow> None)"

definition de_u32 :: "json \<Rightarrow> u32 option" where
  "de_u32 v = Option.bind (as_u64 v) (\<lambda>w. if w \<le> u32_max_u64 then Some (ucast w) else None)"

definition de_u128 :: "json \<Rightarrow> u128 option" where
  "de_u128 v = map_option ucast (as_u64 v)"

definition tx_amount_string :: "json \<Rightarrow> u128 option" where
  "tx_amount_string v = Option.bind (as_str v) parse_uint"

definition hex_vec_u8_32 :: "hex_lib \<Rightarrow> json \<Rightarrow> bytes option" where
  "hex_vec_u8_32 hx v = Option.bind (as_str v) (\<lambda>s.
     Option.bind (hex_decode hx s) (\<lambda>bs. if length bs \<noteq> 32 then None else Some bs))"

definition de_address :: "hex_lib \<Rightarrow> json \<Rightarrow> address option" where
  "de_address hx v = Option.bind (as_str v) (\<lambda>s. res_ok (address_parse hx s))"

definition de_tx_public_key :: "('e) crates_scheme \<Rightarrow> json \<Rightarrow> string option" where
  "de_tx_public_key cr v = Option.bind (as_str v) (\<lambda>s. res_ok (tx_public_key_new cr s))"

definition de_tx_sig :: "('e) crates_scheme \<Rightarrow> json \<Rightarrow> string option" where
  "de_tx_sig cr v = Option.bind (as_str v) (\<lambda>s. if s = [] then Some [] else res_ok (tx_sig_new cr s))"

section \<open>Payload decoders\<close>

definition decode_transfer :: "hex_lib \<Rightarrow> json_object \<Rightarrow> transfer_tx option" where
  "decode_transfer hx kvs = do {
     s \<leftarrow> required (de_address hx) kvs ''sender'';
     r \<leftarrow> required (de_address hx) kvs ''recipient'';
     a \<leftarrow> required tx_amount_string kvs ''amount'';
     res_ok (transfer_tx_new s r a) }"

definition decode_unstake :: "hex_lib \<Rightarrow> json_object \<Rightarrow> unstake_tx option" where
  "decode_unstake hx kvs = (if \<not> deny_unknown_fields [''sender'', ''amount''] kvs then None else do {
     s \<leftarrow> required (de_address hx) kvs ''sender'';
     a \<leftarrow> required tx_amount_string kvs ''amount'';
     res_ok (unstake_tx_new s a) })"

definition decode_stake :: "hex_lib \<Rightarrow> json_object \<Rightarrow> stake_tx option" where
  "decode_stake hx kvs = do {
     s \<leftarrow> required (de_address hx) kvs ''sender'';
     a \<leftarrow> required tx_amount_string kvs ''amount'';
     k \<leftarrow> optional None (de_option as_str) kvs ''public_key'';
     res_ok (stake_tx_new s a k) }"

definition decode_verified_proof :: "hex_lib \<Rightarrow> ('e) serde_lib_scheme \<Rightarrow> json_object \<Rightarrow> verified_proof_tx option" where
  "decode_verified_proof hx js kvs = do {
     s \<leftarrow> required (de_address hx) kvs ''sender'';
     p \<leftarrow> required (de_address hx) kvs ''capacity_provider'';
     cid \<leftarrow> required as_str kvs ''challenge_id'';
     bh \<leftarrow> required as_i64 kvs ''block_height'';
     vab \<leftarrow> required as_i64 kvs ''verified_at_block'';
     vat \<leftarrow> required as_u64 kvs ''verified_at_timestamp'';
     prf \<leftarrow> required (de_chunk_proofs js) kvs ''proofs'';
     gen \<leftarrow> required as_u64 kvs ''generated_at'';
     pk \<leftarrow> required as_str kvs ''provider_pubkey'';
     sg \<leftarrow> required as_str kvs ''provider_signature'';
     failed \<leftarrow> optional False as_bool kvs ''failed'';
     t \<leftarrow> res_ok (verified_proof_tx_new s p cid bh vab vat prf gen pk sg);
     Some (t\<lparr>vp_failed := failed\<rparr>) }"

definition decode_register_capacity :: "hex_lib \<Rightarrow> json_object \<Rightarrow> register_capacity_tx option" where
  "decode_register_capacity hx kvs = do {
     s \<leftarrow> required (de_address hx) kvs ''sender'';
     cap \<leftarrow> required as_u64 kvs ''capacity_bytes'';
     root \<leftarrow> required (hex_vec_u8_32 hx) kvs ''merkle_root'';
     sd \<leftarrow> required (hex_vec_u8_32 hx) kvs ''seed'';
     cc \<leftarrow> required de_u32 kvs ''chunk_count'';
     res_ok (register_capacity_tx_new s cap root sd cc) }"

definition decode_unregister_capacity :: "hex_lib \<Rightarrow> json_object \<Rightarrow> unregister_capacity_tx option" where
  "decode_unregister_capacity hx kvs = do {
     s \<leftarrow> required (de_address hx) kvs ''sender'';
     u \<leftarrow> required as_bool kvs ''unregister'';
     res_ok (unregister_capacity_tx_new s u) }"

definition decode_update_capacity_merkle_root ::
    "hex_lib \<Rightarrow> json_object \<Rightarrow> update_capacity_merkle_root_tx option" where
  "decode_update_capacity_merkle_root hx kvs = do {
     s \<leftarrow> required (de_address hx) kvs ''sender'';
     root \<leftarrow> required (hex_vec_u8_32 hx) kvs ''merkle_root'';
     res_ok (update_capacity_merkle_root_tx_new s root) }"

definition decode_post_message :: "hex_lib \<Rightarrow> json_object \<Rightarrow> post_message_tx option" where
  "decode_post_message hx kvs = do {
     s \<leftarrow> required (de_address hx) kvs ''sender'';
     osg \<leftarrow> required (de_address hx) kvs ''original_signer'';
     opk \<leftarrow> required as_str kvs ''original_signer_pubkey'';
     ck \<leftarrow> required as_str kvs ''content_key'';
     mid \<leftarrow> required as_str kvs ''message_id'';
     eh \<leftarrow> required as_u64 kvs ''expires_height'';
     vis \<leftarrow> required as_str kvs ''visibility'';
     topic \<leftarrow> optional None (de_option as_str) kvs ''topic'';
     tags \<leftarrow> optional [] de_strings kvs ''tags'';
     ct \<leftarrow> required as_str kvs ''content_type'';
     fa \<leftarrow> required tx_amount_string kvs ''fee_amount'';
     rt \<leftarrow> required as_u64 kvs ''received_timestamp'';
     us \<leftarrow> required as_str kvs ''user_signature'';
     ns \<leftarrow> optional None (de_option as_str) kvs ''namespace'';
     res_ok (post_message_tx_new hx \<lparr>pm_sender = s, pm_original_signer = osg,
       pm_original_signer_pubkey = opk, pm_content_key = ck, pm_message_id = mid,
       pm_expires_height = eh, pm_visibility = vis, pm_topic = topic, pm_tags = tags,
       pm_content_type = ct, pm_fee_amount = fa, pm_received_timestamp = rt,
       pm_user_signature = us, pm_namespace = ns\<rparr>) }"

definition decode_add_namespace :: "hex_lib \<Rightarrow> json_object \<Rightarrow> add_namespace_tx option" where
  "decode_add_namespace hx kvs =
    (if \<not> deny_unknown_fields [''sender'', ''namespace_slug'', ''registration_fee''] kvs then None else do {
     s \<leftarrow> required (de_address hx) kvs ''sender'';
     slug \<leftarrow> required as_str kvs ''namespace_slug'';
     fee \<leftarrow> required tx_amount_string kvs ''registration_fee'';
     res_ok (add_namespace_tx_new s slug fee) })"

definition or_else :: "'a option \<Rightarrow> 'a option \<Rightarrow> 'a option" where
  "or_else x y = (case x of None \<Rightarrow> y | Some _ \<Rightarrow> x)"

definition decode_inner :: "hex_lib \<Rightarrow> ('e) serde_lib_scheme \<Rightarrow> json_object \<Rightarrow> payload_inner option" where
  "decode_inner hx js kvs =
     or_else (map_option Transfer (decode_transfer hx kvs))
    (or_else (map_option Unstake (decode_unstake hx kvs))
    (or_else (map_option Stake (decode_stake hx kvs))
    (or_else (map_option VerifiedProof (decode_verified_proof hx js kvs))
    (or_else (map_option RegisterCapacity (decode_register_capacity hx kvs))
    (or_else (map_option UnregisterCapacity (decode_unregister_capacity hx kvs))
    (or_else (map_option UpdateCapacityMerkleRoot (decode_update_capacity_merkle_root hx kvs))
    (or_else (map_option PostMessage (decode_post_message hx kvs))
      (map_option AddNamespace (decode_add_namespace hx kvs)))))))))"

definition decode_payload :: "hex_lib \<Rightarrow> ('e) serde_lib_scheme \<Rightarrow> json \<Rightarrow> payload option" where
  "decode_payload hx js v = do {
     kvs \<leftarrow> as_object v;
     ty \<leftarrow> required as_str kvs ''type'';
     i \<leftarrow> decode_inner hx js (filter (\<lambda>kv. fst kv \<noteq> ''type'') kvs);
     Some \<lparr>payload_type = ty, inner = i\<rparr> }"

text \<open>\<^verbatim>\<open>serde_json::from_str::<Tx>\<close> on a text whose value has passed \<open>validate_transaction_structure\<close>,
  hence is an object with an integer fee.\<close>

definition decode_tx :: "('c) crates_scheme \<Rightarrow> ('e) serde_lib_scheme \<Rightarrow> json \<Rightarrow> tx option" where
  "decode_tx cr js v = do {
     kvs \<leftarrow> as_object v;
     sg \<leftarrow> required (de_tx_sig cr) kvs ''sig'';
     n \<leftarrow> required de_u32 kvs ''nonce'';
     p \<leftarrow> required (decode_payload (hex cr) js) kvs ''payload'';
     pk \<leftarrow> required (de_tx_public_key cr) kvs ''public_key'';
     fee \<leftarrow> required de_u128 kvs ''fee'';
     Some \<lparr>tx_sig = sg, tx_nonce = Nonce n, tx_payload = p, tx_public_key = pk, tx_fee = fee\<rparr> }"

section \<open>Facts on decoding\<close>

lemma required_Some [result_simps]:
  "required dec kvs k = Some x \<longleftrightarrow> (\<exists>v. members kvs k = [v] \<and> dec v = Some x)"
  by (auto simp: required_def split: list.splits)

lemma optional_Some [result_simps]:
  "optional d dec kvs k = Some x \<longleftrightarrow>
     members kvs k = [] \<and> x = d \<or> (\<exists>v. members kvs k = [v] \<and> dec v = Some x)"
  by (auto simp: optional_def split: list.splits)

lemma or_else_Some [result_simps]:
  "or_else x y = Some z \<longleftrightarrow> x = Some z \<or> x = None \<and> y = Some z"
  by (auto simp: or_else_def split: option.splits)

lemma members_simps [simp]:
  "members [] k = []"
  "members ((k', v) # kvs) k = (if k' = k then v # members kvs k else members kvs k)"
  by (simp_all add: members_def)

lemma members_append [simp]: "members (a @ b) k = members a k @ members b k"
  by (simp add: members_def)

lemma members_filter [simp]:
  "members (filter (\<lambda>kv. fst kv \<noteq> k') kvs) k = (if k = k' then [] else members kvs k)"
  by (induction kvs) (auto simp: members_def)

lemma members_absent: "k \<notin> fst ` set kvs \<Longrightarrow> members kvs k = []"
  by (auto simp: members_def filter_empty_conv)

lemma obj_get_members: "obj_get kvs k = (if members kvs k = [] then None else Some (last (members kvs k)))"
proof (induction kvs)
  case (Cons kv kvs)
  then show ?case by (cases kv) (auto simp: obj_get_def map_add_def)
qed (simp add: obj_get_def)

lemma obj_get_single: "members kvs k = [v] \<Longrightarrow> obj_get kvs k = Some v"
  by (simp add: obj_get_members)

lemma tx_amount_string_Some: "tx_amount_string v = Some a \<longleftrightarrow> (\<exists>s. v = JString s \<and> parse_uint s = Some a)"
  by (auto simp: tx_amount_string_def bind_eq_Some_conv as_Some)

lemmas decode_defs = decode_transfer_def decode_unstake_def decode_stake_def decode_verified_proof_def
  decode_register_capacity_def decode_unregister_capacity_def decode_update_capacity_merkle_root_def
  decode_post_message_def decode_add_namespace_def

lemma verified_proof_tx_new_idem:
  assumes "verified_proof_tx_new s p cid bh vab vat prf gen pk sg = Ok t"
  shows "verified_proof_tx_new (vp_sender t) (vp_capacity_provider t) (vp_challenge_id t) (vp_block_height t)
    (vp_verified_at_block t) (vp_verified_at_timestamp t) (vp_proofs t) (vp_generated_at t)
    (vp_provider_pubkey t) (vp_provider_signature t) = Ok (t\<lparr>vp_failed := False\<rparr>)"
  using assms by (auto simp: verified_proof_tx_new_def result_simps split: if_splits)

lemma decode_wf:
  assumes "hex_documented hx"
  shows "decode_transfer hx kvs = Some tr \<Longrightarrow> wf_payload hx (Transfer tr)"
    and "decode_unstake hx kvs = Some un \<Longrightarrow> wf_payload hx (Unstake un)"
    and "decode_stake hx kvs = Some stk \<Longrightarrow> wf_payload hx (Stake stk)"
    and "decode_verified_proof hx js kvs = Some vp \<Longrightarrow> wf_payload hx (VerifiedProof vp)"
    and "decode_register_capacity hx kvs = Some rc \<Longrightarrow> wf_payload hx (RegisterCapacity rc)"
    and "decode_unregister_capacity hx kvs = Some uc \<Longrightarrow> wf_payload hx (UnregisterCapacity uc)"
    and "decode_update_capacity_merkle_root hx kvs = Some um \<Longrightarrow> wf_payload hx (UpdateCapacityMerkleRoot um)"
    and "decode_post_message hx kvs = Some pm \<Longrightarrow> wf_payload hx (PostMessage pm)"
    and "decode_add_namespace hx kvs = Some an \<Longrightarrow> wf_payload hx (AddNamespace an)"
proof -
  show "decode_verified_proof hx js kvs = Some vp \<Longrightarrow> wf_payload hx (VerifiedProof vp)"
    by (auto simp: decode_verified_proof_def bind_eq_Some_conv result_simps dest: verified_proof_tx_new_idem)
  show "decode_post_message hx kvs = Some pm \<Longrightarrow> wf_payload hx (PostMessage pm)"
    by (auto simp: decode_post_message_def bind_eq_Some_conv result_simps
        intro: post_message_tx_new_idem [OF assms])
  show "decode_add_namespace hx kvs = Some an \<Longrightarrow> wf_payload hx (AddNamespace an)"
    by (auto simp: decode_add_namespace_def bind_eq_Some_conv result_simps
        dest: add_namespace_tx_new_idem split: if_splits)
qed (auto simp: decode_defs bind_eq_Some_conv result_simps transfer_tx_new_Inr unstake_tx_new_Inr
    stake_tx_new_Inr register_capacity_tx_new_def unregister_capacity_tx_new_def
    update_capacity_merkle_root_tx_new_def split: if_splits)

lemma decode_inner_wf:
  assumes "hex_documented hx" "decode_inner hx js kvs = Some i"
  shows "wf_payload hx i"
  using assms(2) decode_wf [OF assms(1)] unfolding decode_inner_def result_simps
  by (elim disjE conjE) auto

text \<open>Every address of a decoded payload has twenty bytes, because it was parsed.\<close>

lemma de_address_wf: "de_address hx v = Some a \<Longrightarrow> wf_address a"
  by (auto simp: de_address_def bind_eq_Some_conv result_simps dest: addr.parse_wf)

lemma decode_addresses:
  "decode_transfer hx k = Some tr \<Longrightarrow> wf_address (tr_sender tr) \<and> wf_address (tr_recipient tr)"
  "decode_unstake hx k = Some un \<Longrightarrow> wf_address (un_sender un)"
  "decode_stake hx k = Some stk \<Longrightarrow> wf_address (st_sender stk)"
  "decode_verified_proof hx js k = Some vp \<Longrightarrow> wf_address (vp_sender vp) \<and> wf_address (vp_capacity_provider vp)"
  "decode_register_capacity hx k = Some rc \<Longrightarrow> wf_address (rc_sender rc)"
  "decode_unregister_capacity hx k = Some uc \<Longrightarrow> wf_address (uc_sender uc)"
  "decode_update_capacity_merkle_root hx k = Some um \<Longrightarrow> wf_address (um_sender um)"
  "decode_post_message hx k = Some pm \<Longrightarrow> wf_address (pm_sender pm)"
  "decode_add_namespace hx k = Some an \<Longrightarrow> wf_address (an_sender an)"
  by (auto simp: decode_defs bind_eq_Some_conv result_simps transfer_tx_new_Inr unstake_tx_new_Inr
      stake_tx_new_Inr register_capacity_tx_new_def unregister_capacity_tx_new_def
      update_capacity_merkle_root_tx_new_def post_message_tx_new_def add_namespace_tx_new_def
      verified_proof_tx_new_def dest: de_address_wf split: if_splits)

lemma hex_length:
  assumes "hex_documented hx" "hex_decode hx s = Some bs"
  shows "length s = 2 * length bs"
  using assms by (auto simp: hex_documented_def)

lemma decode_absent:
  "members k ''recipient'' = [] \<Longrightarrow> decode_transfer hx k = None"
  "members k ''proofs'' = [] \<Longrightarrow> decode_verified_proof hx js k = None"
  "members k ''seed'' = [] \<Longrightarrow> decode_register_capacity hx k = None"
  "members k ''unregister'' = [] \<Longrightarrow> decode_unregister_capacity hx k = None"
  "members k ''merkle_root'' = [] \<Longrightarrow> decode_update_capacity_merkle_root hx k = None"
  "members k ''message_id'' = [] \<Longrightarrow> decode_post_message hx k = None"
  "members k ''namespace_slug'' = [] \<Longrightarrow> decode_add_namespace hx k = None"
  by (auto simp: decode_defs bind_eq_None_conv required_def split: list.splits)

lemma decode_unstake_keyless:
  assumes "deny_unknown_fields [''sender'', ''amount''] k" "members k ''public_key'' = []"
  shows "decode_unstake hx k = map_option (\<lambda>t. \<lparr>un_sender = st_sender t, un_amount = st_amount t\<rparr>) (decode_stake hx k)"
  using assms
  by (cases "required (de_address hx) k ''sender''"; cases "required tx_amount_string k ''amount''")
    (auto simp: decode_unstake_def decode_stake_def optional_def stake_tx_new_def unstake_tx_new_def
      coin_new_def coin_max_def)

lemma decode_tx_fields:
  assumes "decode_tx cr js v = Some t"
  shows "\<exists>kvs sg n po pk fee. v = JObject kvs \<and>
    obj_get kvs ''sig'' = Some (JString sg) \<and> (sg \<noteq> [] \<longrightarrow> tx_sig_new cr sg = Ok (tx_sig t)) \<and>
    obj_get kvs ''nonce'' = Some (JNumber (PosInt n)) \<and> tx_nonce t = Nonce (ucast n) \<and>
    obj_get kvs ''payload'' = Some po \<and> decode_payload (hex cr) js po = Some (tx_payload t) \<and>
    obj_get kvs ''public_key'' = Some (JString pk) \<and> tx_public_key_new cr pk = Ok (tx_public_key t) \<and>
    obj_get kvs ''fee'' = Some (JNumber (PosInt fee)) \<and> tx_fee t = ucast fee"
  using assms
  by (auto simp: decode_tx_def bind_eq_Some_conv result_simps as_Some de_tx_sig_def de_tx_public_key_def
      de_u32_def de_u128_def dest!: obj_get_single split: if_splits)

lemma decode_payload_fields:
  assumes "decode_payload hx js v = Some p"
  shows "\<exists>kvs. v = JObject kvs \<and> obj_get kvs ''type'' = Some (JString (payload_type p)) \<and>
    decode_inner hx js (filter (\<lambda>kv. fst kv \<noteq> ''type'') kvs) = Some (inner p)"
  using assms by (auto simp: decode_payload_def bind_eq_Some_conv result_simps as_Some dest!: obj_get_single)

section \<open>Properties\<close>

text \<open>C30: whatever passes the structure check and the decoder is a transaction of a known type whose
  payload is one its validating constructor returns, whose fee fits 32 bits, whose signature and key
  have their exact length; in particular the amount of a transfer, stake or unstake lies between 1
  and the supply bound, and a transfer goes to another address.\<close>

theorem decoded_tx_wf:
  assumes "hex_documented (hex cr)" "validate_transaction_structure (hex cr) js v = Ok ()"
    and "decode_tx cr js v = Some t"
  shows "let p = inner (tx_payload t) in wf_payload (hex cr) p \<and> payload_type (tx_payload t) \<in> set allowed_types \<and>
    unat (tx_fee t) < 2 ^ 32 \<and> length (tx_sig t) = 128 \<and> length (tx_public_key t) = 64 \<and>
    (\<forall>tr stk un. p = Transfer tr \<or> p = Stake stk \<or> p = Unstake un \<longrightarrow>
       0 < unat (payload_amount p) \<and> unat (payload_amount p) \<le> 1000000000000000 \<and>
       (p = Transfer tr \<longrightarrow> tr_sender tr \<noteq> tr_recipient tr))"
proof -
  let ?p = "inner (tx_payload t)"
  obtain kvs sg po pk fee where f: "v = JObject kvs"
    "obj_get kvs ''sig'' = Some (JString sg)" "sg \<noteq> [] \<longrightarrow> tx_sig_new cr sg = Ok (tx_sig t)"
    "obj_get kvs ''payload'' = Some po" "decode_payload (hex cr) js po = Some (tx_payload t)"
    "tx_public_key_new cr pk = Ok (tx_public_key t)"
    "obj_get kvs ''fee'' = Some (JNumber (PosInt fee))" "tx_fee t = ucast fee"
    using decode_tx_fields [OF assms(3)] by blast
  obtain ty where s: "sg \<noteq> []" "fee \<le> u32_max_u64" "ty \<in> set allowed_types"
      "\<exists>po'. po = JObject po' \<and> obj_get po' ''type'' = Some (JString ty)"
    using validate_transaction_structure_Ok [OF assms(2)] f by auto
  have p: "wf_payload (hex cr) ?p" "payload_type (tx_payload t) = ty"
    using decode_payload_fields [OF f(5)] decode_inner_wf [OF assms(1)] s(4) by auto
  have "unat (tx_fee t) = unat fee" unfolding f(8) by (rule unat_ucast_up) simp
  also have "\<dots> < 2 ^ 32" using s(2) by (simp add: word_le_nat_alt u32_max_u64_def)
  finally have fee: "unat (tx_fee t) < 2 ^ 32" .
  have "length (tx_sig t) = 128" "length (tx_public_key t) = 64"
    using f(3,6) s(1) hex_length [OF assms(1)]
    by (auto simp: tx_sig_new_def tx_public_key_new_def split: option.splits if_splits)
  then show ?thesis
    using p fee s(3) wf_payload_amount [OF p(1)] unfolding Let_def by blast
qed

definition demo_serde :: serde_lib where
  "demo_serde = \<lparr>json_parse = (\<lambda>_. None), json_to_string = (\<lambda>_. Some []), de_chunk_proofs = (\<lambda>_. None)\<rparr>"

definition demo_addr_text :: "nat \<Rightarrow> string" where
  "demo_addr_text n = ''0x'' @ std_hex_encode (replicate 20 (of_nat n))"

definition demo_json :: json where
  "demo_json = JObject
    [(''sig'', JString (tx_sig demo_transfer)), (''nonce'', JNumber (PosInt 1)),
     (''payload'', JObject [(''type'', JString ''Transfer''), (''sender'', JString (demo_addr_text 1)),
        (''recipient'', JString (demo_addr_text 2)), (''amount'', JString ''5'')]),
     (''public_key'', JString (tx_public_key demo_transfer)), (''fee'', JNumber (PosInt 30000))]"

theorem decoded_tx_wf_witness: "wf_payload std_hex (inner (tx_payload demo_transfer))"
proof -
  have hex: "hex demo_crates = std_hex" by (simp add: demo_crates_def)
  have 1: "hex_documented (hex demo_crates)" by (simp add: hex std_hex_documented)
  have 2: "validate_transaction_structure (hex demo_crates) demo_serde demo_json = Ok ()"
    unfolding hex by code_simp
  have 3: "decode_tx demo_crates demo_serde demo_json = Some demo_transfer" by code_simp
  from decoded_tx_wf [OF 1 2 3] show ?thesis by (simp add: hex Let_def)
qed

text \<open>A stake without a public key never reaches the stake handler in the form the format documents.
  The member \<^verbatim>\<open>public_key: null\<close>, which the stake type itself prints for a missing key, is refused by
  the validator; a stake with only sender and amount passes the validator but is decoded as an
  unstake of the same amount by the same sender.\<close>

lemma keyless_stake_decodes_as_unstake:
  "(obj_get kvs ''public_key'' = Some JNull \<longrightarrow> validate_stake_payload hx kvs \<noteq> Ok ()) \<and>
   (validate_stake_payload hx kvs = Ok () \<and> fst ` set kvs = {''type'', ''sender'', ''amount''} \<and>
    decode_payload hx js (JObject kvs) = Some p \<longrightarrow>
      (\<exists>un v a. inner p = Unstake un \<and> obj_get kvs ''sender'' = Some v \<and> de_address hx v = Some (un_sender un) \<and>
         obj_get kvs ''amount'' = Some a \<and> tx_amount_string a = Some (un_amount un)))"
proof (intro conjI impI)
  assume "obj_get kvs ''public_key'' = Some JNull"
  then show "validate_stake_payload hx kvs \<noteq> Ok ()"
    by (auto simp: validate_stake_payload_def result_simps as_str_def)
next
  assume *: "validate_stake_payload hx kvs = Ok () \<and> fst ` set kvs = {''type'', ''sender'', ''amount''} \<and>
    decode_payload hx js (JObject kvs) = Some p"
  let ?k = "filter (\<lambda>kv. fst kv \<noteq> ''type'') kvs"
  have d: "decode_inner hx js ?k = Some (inner p)" using * decode_payload_fields by fastforce
  have keys: "fst kv \<in> {''type'', ''sender'', ''amount''}" if "kv \<in> set kvs" for kv
    using * imageI [OF that, of fst] by metis
  have absent: "members ?k k = []" if "k \<notin> {''sender'', ''amount''}" for k
    by (rule members_absent) (use keys that in auto)
  have deny: "deny_unknown_fields [''sender'', ''amount''] ?k"
    unfolding deny_unknown_fields_def list_all_iff by (auto dest: keys)
  have "decode_unstake hx ?k = map_option (\<lambda>t. \<lparr>un_sender = st_sender t, un_amount = st_amount t\<rparr>) (decode_stake hx ?k)"
    by (rule decode_unstake_keyless [OF deny absent]) simp
  moreover have "decode_transfer hx ?k = None" "decode_verified_proof hx js ?k = None"
    "decode_register_capacity hx ?k = None" "decode_unregister_capacity hx ?k = None"
    "decode_update_capacity_merkle_root hx ?k = None" "decode_post_message hx ?k = None"
    "decode_add_namespace hx ?k = None"
    by (rule decode_absent, rule absent, simp)+
  ultimately obtain un where "inner p = Unstake un" "decode_unstake hx ?k = Some un"
    using d [symmetric] by (cases "decode_stake hx ?k") (simp_all add: decode_inner_def or_else_def)
  then show "\<exists>un v a. inner p = Unstake un \<and> obj_get kvs ''sender'' = Some v \<and> de_address hx v = Some (un_sender un) \<and>
         obj_get kvs ''amount'' = Some a \<and> tx_amount_string a = Some (un_amount un)"
    by (auto simp: decode_unstake_def bind_eq_Some_conv result_simps unstake_tx_new_Inr
        dest!: obj_get_single split: if_splits)
qed

definition demo_keyless_stake :: json_object where
  "demo_keyless_stake = [(''type'', JString ''Stake''), (''sender'', JString (demo_addr_text 1)), (''amount'', JString ''5'')]"

theorem keyless_stake_decodes_as_unstake_witness:
  "\<exists>un. decode_payload std_hex demo_serde (JObject demo_keyless_stake) =
     Some \<lparr>payload_type = ''Stake'', inner = Unstake un\<rparr>"
proof -
  have 1: "validate_stake_payload std_hex demo_keyless_stake = Ok ()" by code_simp
  have 2: "fst ` set demo_keyless_stake = {''type'', ''sender'', ''amount''}" by (simp add: demo_keyless_stake_def)
  have "map_option payload_type (decode_payload std_hex demo_serde (JObject demo_keyless_stake)) = Some ''Stake''"
    by code_simp
  then obtain p where "decode_payload std_hex demo_serde (JObject demo_keyless_stake) = Some p" "payload_type p = ''Stake''"
    by auto
  with keyless_stake_decodes_as_unstake [of demo_keyless_stake std_hex demo_serde p] 1 2 show ?thesis
    by (cases p) auto
qed

text \<open>an amount written as a JSON number passes the transfer, stake and unstake validators, which
  accept it for backward compatibility, but no such payload is ever decoded as a transfer, a stake or
  an unstake: the decoder reads amounts from strings only.\<close>

lemma number_amount_never_decodes:
  assumes "obj_get kvs ''amount'' = Some (JNumber n)" "decode_payload hx js (JObject kvs) = Some p"
  shows "\<nexists>tr stk un. inner p = Transfer tr \<or> inner p = Stake stk \<or> inner p = Unstake un"
proof -
  let ?k = "filter (\<lambda>kv. fst kv \<noteq> ''type'') kvs"
  have "required tx_amount_string ?k ''amount'' = None"
    using assms(1) by (auto simp: required_def obj_get_members tx_amount_string_def as_str_def
        split: list.splits if_splits)
  then have "decode_transfer hx ?k = None" "decode_stake hx ?k = None" "decode_unstake hx ?k = None"
    by (auto simp: decode_transfer_def decode_stake_def decode_unstake_def bind_eq_None_conv)
  moreover have "decode_inner hx js ?k = Some (inner p)"
    using decode_payload_fields [OF assms(2)] by auto
  ultimately show ?thesis by (auto simp: decode_inner_def result_simps)
qed

definition demo_unregister :: json_object where
  "demo_unregister = [(''type'', JString ''Transfer''), (''sender'', JString (demo_addr_text 1)),
     (''recipient'', JString (demo_addr_text 2)), (''amount'', JNumber (PosInt 5)), (''unregister'', JBool True)]"

theorem number_amount_never_decodes_witness:
  "validate_payload_content std_hex demo_unregister ''Transfer'' = Ok () \<and>
   (\<exists>p. decode_payload std_hex demo_serde (JObject demo_unregister) = Some p \<and> (\<nexists>tr. inner p = Transfer tr))"
proof -
  have 0: "validate_payload_content std_hex demo_unregister ''Transfer'' = Ok ()" by code_simp
  have 1: "obj_get demo_unregister ''amount'' = Some (JNumber (PosInt 5))" by code_simp
  have "decode_payload std_hex demo_serde (JObject demo_unregister) \<noteq> None" by code_simp
  then obtain p where 2: "decode_payload std_hex demo_serde (JObject demo_unregister) = Some p" by blast
  from 0 2 number_amount_never_decodes [OF 1 2] show ?thesis by blast
qed

definition mislabelled :: "hex_lib \<Rightarrow> address \<Rightarrow> u64 \<Rightarrow> bytes \<Rightarrow> bytes \<Rightarrow> json_object" where
  "mislabelled hx a cap root sd =
     [(''type'', JString ''PostMessage''), (''sender'', JString (hex_with_prefix hx a)),
      (''capacity_bytes'', JNumber (PosInt cap)), (''merkle_root'', JString (hex_encode hx root)),
      (''seed'', JString (hex_encode hx sd)), (''chunk_count'', JNumber (PosInt 0))] @
     map (\<lambda>f. (f, JNull)) [''original_signer'', ''original_signer_pubkey'', ''content_key'', ''message_id'',
        ''expires_height'', ''visibility'', ''fee_amount'', ''received_timestamp'', ''user_signature'']"

text \<open>The declared type of a payload selects the validator but not the decoder.  Labelled as a post,
  whose validator only asks for the presence of members, a payload is decoded and run as a capacity
  registration with no chunks, which the registration validator refuses.\<close>

lemma type_label_bypasses_validator:
  assumes "hex_documented hx" "wf_address a" "length root = 32" "length sd = 32" "cap \<noteq> 0"
  shows "validate_payload_content hx (mislabelled hx a cap root sd) ''PostMessage'' = Ok () \<and>
    validate_payload_content hx (mislabelled hx a cap root sd) ''RegisterCapacity'' \<noteq> Ok () \<and>
    decode_payload hx js (JObject (mislabelled hx a cap root sd)) =
      Some \<lparr>payload_type = ''PostMessage'', inner = RegisterCapacity \<lparr>rc_sender = a, rc_capacity_bytes = cap,
        rc_merkle_root = root, rc_seed = sd, rc_chunk_count = 0\<rparr>\<rparr>"
proof -
  note hx = hex_documentedD [OF assms(1)]
  have get: "obj_get (mislabelled hx a cap root sd) ''chunk_count'' = Some (JNumber (PosInt 0))"
    by (simp add: mislabelled_def obj_get_members)
  have "validate_payload_content hx (mislabelled hx a cap root sd) ''RegisterCapacity'' \<noteq> Ok ()"
    by (auto simp: validate_payload_content_def validate_register_capacity_payload_def result_simps get as_Some)
  moreover have "validate_payload_content hx (mislabelled hx a cap root sd) ''PostMessage'' = Ok ()"
    by (simp add: validate_payload_content_def validate_post_message_payload_def require_fields_def
        mislabelled_def obj_get_members)
  moreover have "decode_payload hx js (JObject (mislabelled hx a cap root sd)) =
      Some \<lparr>payload_type = ''PostMessage'', inner = RegisterCapacity \<lparr>rc_sender = a, rc_capacity_bytes = cap,
        rc_merkle_root = root, rc_seed = sd, rc_chunk_count = 0\<rparr>\<rparr>"
    using assms addr.parse_show [OF assms(1,2)] hx
    by (simp add: decode_payload_def as_object_def mislabelled_def decode_inner_def decode_absent
        decode_unstake_def deny_unknown_fields_def required_def as_str_def decode_stake_def or_else_def
        decode_register_capacity_def de_address_def as_u64_def number_as_u64_def hex_vec_u8_32_def de_u32_def
        register_capacity_tx_new_def u32_max_u64_def)
  ultimately show ?thesis by blast
qed

theorem type_label_bypasses_validator_witness:
  "decode_payload std_hex demo_serde (JObject (mislabelled std_hex (demo_address 1) 1 (replicate 32 0) (replicate 32 0))) \<noteq> None"
  using type_label_bypasses_validator [OF std_hex_documented, of "demo_address 1" "replicate 32 0" "replicate 32 0" 1 demo_serde]
  by (simp add: demo_address_def)

end
