(* ===== verification/Deliver.thy ===== *)
theory Deliver
  imports Ledger_Effects Tx_Decode
begin

text \<open>
  Delivery of a transaction (\<^verbatim>\<open>node_app/src/abci_interface/consensus/deliver_tx.rs\<close> and the dispatch
  in \<^verbatim>\<open>tx_deliver.rs\<close>): from the raw bytes of the request through the text, JSON and structure
  checks, the signature and the fee, to the nonce and fee of the sender and the handler of the payload.
  The properties say what a delivery changes: nothing when it is refused, else the nonce and the fee
  of the sender whatever the handler answers; that a transaction is accepted once; and that coins
  are only created by verified proofs.
\<close>

section \<open>Connection state\<close>

text \<open>The part of \<^verbatim>\<open>ConsensusConnection\<close> the delivery reads and writes.\<close>

record consensus_connection =
  committed_state :: app_state
  current_state :: "app_state option"

section \<open>Admission\<close>

definition MAX_HEX_BYTES :: int where "MAX_HEX_BYTES = 1024 * 1024"
definition MAX_JSON_SIZE :: int where "MAX_JSON_SIZE = 10 * 1024 * 1024"
definition MAX_JSON_DEPTH :: nat where "MAX_JSON_DEPTH = 10"

definition decode_request ::
    "('c) crates_scheme \<Rightarrow> ('j) serde_lib_scheme \<Rightarrow> protocol_constants \<Rightarrow> bytes \<Rightarrow> response + tx" where
  "decode_request cr js pc tx_bytes =
    (if int (length tx_bytes) > uint (max_tx_bytes pc) then Inl err_tx_too_large
     else (case from_utf8 tx_bytes of
       None \<Rightarrow> Inl err_invalid_utf8_encoding
     | Some hex_str \<Rightarrow>
        (if \<not> is_ok (validate_hex_string hex_str MAX_HEX_BYTES) then Inl err_hex_validation_failed
         else (case hex_decode (hex cr) hex_str of
           None \<Rightarrow> Inl err_invalid_hex_encoding
         | Some decoded_bytes \<Rightarrow> (case from_utf8 decoded_bytes of
             None \<Rightarrow> Inl err_invalid_utf8_encoding
           | Some decoded_json \<Rightarrow>
              (if \<not> is_ok (validate_json_string js decoded_json MAX_JSON_SIZE MAX_JSON_DEPTH)
               then Inl err_json_validation_failed
               else (case json_parse js decoded_json of
                 None \<Rightarrow> Inl err_json_parsing_failed
               | Some v \<Rightarrow>
                  (if \<not> is_ok (validate_transaction_structure (hex cr) js v)
                   then Inl err_transaction_structure_invalid
                   else (case decode_tx cr js v of
                     None \<Rightarrow> Inl err_json_parsing_failed
                   | Some t \<Rightarrow> Inr t)))))))))"

definition check_signature_and_fee ::
    "('c) crates_scheme \<Rightarrow> protocol_constants \<Rightarrow> string \<Rightarrow> tx \<Rightarrow> response option" where
  "check_signature_and_fee cr pc chain t =
    (if tx_verify cr t chain \<noteq> Ok True then Some err_verification_failed
     else (case calculate_dynamic_fee cr t (pc_fee_config pc) of
       Inl _ \<Rightarrow> Some err_fee_calculation_failed
     | Inr required_fee \<Rightarrow> (case coin_new (tx_fee t) of
         Inl _ \<Rightarrow> Some err_invalid_coin_amount
       | Inr provided_fee \<Rightarrow>
           if amount provided_fee < amount required_fee then Some err_insufficient_fee else None)))"

text \<open>The block that checks the nonce, takes the fee and stages the sender's account.\<close>

definition charge_sender ::
    "node_crates \<Rightarrow> store_view \<Rightarrow> envelope \<Rightarrow> tx \<Rightarrow> response + envelope" where
  "charge_sender cr st e t = (let sender = payload_sender (inner (tx_payload t)) in
    (case cado_path_new (hex cr) AccountType (KeyAddress sender) of
       Inl _ \<Rightarrow> Inl err_invalid_path_format
     | Inr sender_path \<Rightarrow> (case get_account_from_cado cr st e sender_path of
         None \<Rightarrow> Inl err_sender_doesnt_exist
       | Some (acc, h) \<Rightarrow> (case nonce_next (acc_nonce acc) of
           None \<Rightarrow> Inl err_nonce_overflow
         | Some expected_nonce \<Rightarrow>
            (if expected_nonce \<noteq> tx_nonce t then Inl err_nonce_not_sequential
             else (case coin_new (tx_fee t) of
               Inl _ \<Rightarrow> Inl err_invalid_coin_amount
             | Inr fee \<Rightarrow>
                (if \<not> is_ok (validate_fee_amount fee) then Inl err_fee_validation_failed
                 else if amount (acc_balance acc) < amount fee then Inl err_insufficient_funds
                 else (case coin_sub (acc_balance acc) fee of
                   Inl _ \<Rightarrow> Inl err_invalid_coin_amount
                 | Inr bal \<Rightarrow>
                    (case enc_account cr \<lparr>acc_address = sender, acc_balance = bal, acc_nonce = expected_nonce\<rparr> of
                       None \<Rightarrow> Inl err_internal_lock_failed
                     | Some d \<Rightarrow> Inr (update_cado_cache e sender_path
                         (cado_mutable_updated (sha256 cr) h d
                            (cado_metadata_new AccountType (hex_with_prefix (hex cr) sender)))))))))))))"

section \<open>Dispatch and delivery\<close>

definition process ::
    "node_crates \<Rightarrow> proof_crates \<Rightarrow> protocol_constants \<Rightarrow> store_view \<Rightarrow> envelope \<Rightarrow> tx \<Rightarrow> outcome" where
  "process cr pcr pc st e t = (case inner (tx_payload t) of
      VerifiedProof p \<Rightarrow> process_verified_proof_tx cr pcr pc st e p
    | RegisterCapacity p \<Rightarrow> process_register_capacity_tx cr pc st e p (tx_public_key t)
    | UnregisterCapacity p \<Rightarrow> process_unregister_capacity_tx cr st e p
    | UpdateCapacityMerkleRoot p \<Rightarrow> process_update_capacity_merkle_root_tx cr st e p
    | Transfer p \<Rightarrow> process_transfer_tx cr st e p
    | Stake p \<Rightarrow>
        if payload_type (tx_payload t) = ''Unstake'' then
          (case unstake_tx_new (st_sender p) (st_amount p) of
             Inr u \<Rightarrow> process_unstake_tx cr st e u
           | Inl _ \<Rightarrow> Some (err_validation_failed, e))
        else process_stake_tx cr pc st e p
    | Unstake p \<Rightarrow> process_unstake_tx cr st e p
    | PostMessage p \<Rightarrow> process_post_message_tx cr pc st e p
    | AddNamespace p \<Rightarrow> process_add_namespace_tx cr st e p)"

definition with_gas :: "tx \<Rightarrow> response \<Rightarrow> response" where
  "with_gas t r = (case estimate_gas_usage (inner (tx_payload t)) of
      Inl _ \<Rightarrow> r
    | Inr g \<Rightarrow> if uint g < 2 ^ 63 then r\<lparr>gas_wanted := uint g, gas_used := uint g\<rparr> else r)"

definition deliver_tx_inner ::
    "node_crates \<Rightarrow> proof_crates \<Rightarrow> ('j) serde_lib_scheme \<Rightarrow> protocol_constants \<Rightarrow> store_view
     \<Rightarrow> consensus_connection \<Rightarrow> bytes \<Rightarrow> (response \<times> consensus_connection) option" where
  "deliver_tx_inner cr pcr js pc st c tx_bytes =
    (case decode_request cr js pc tx_bytes of
       Inl r \<Rightarrow> Some (r, c)
     | Inr t \<Rightarrow> (case check_signature_and_fee cr pc (chain_id (committed_state c)) t of
         Some r \<Rightarrow> Some (r, c)
       | None \<Rightarrow> (case current_state c of
           None \<Rightarrow> Some (err_internal_lock_failed, c)
         | Some s \<Rightarrow> (case charge_sender cr st (app_envelope s) t of
             Inl r \<Rightarrow> Some (r, c)
           | Inr e1 \<Rightarrow> (case process cr pcr pc st e1 t of
               None \<Rightarrow> None
             | Some (r, e2) \<Rightarrow> Some (with_gas t r, c\<lparr>current_state := Some (s\<lparr>app_envelope := e2\<rparr>)\<rparr>))))))"

section \<open>The dispatcher's contract\<close>

text \<open>The addresses whose balance or stake a payload can change, and the coins it can create.\<close>

fun payload_parties :: "payload_inner \<Rightarrow> address set" where
  "payload_parties (Transfer p) = {tr_sender p, tr_recipient p}"
| "payload_parties (VerifiedProof p) = {vp_sender p, vp_capacity_provider p}"
| "payload_parties p = {payload_sender p}"

fun minted :: "protocol_constants \<Rightarrow> payload_inner \<Rightarrow> nat" where
  "minted pc (VerifiedProof p) = coins (verified_proof_reward_base_amount pc)"
| "minted pc p = 0"

lemma sender_in_parties: "payload_sender p \<in> payload_parties p"
  by (cases p) simp_all

lemma process_effect:
  assumes "documented cr" "wf_payload hx (inner (tx_payload t))"
    and "process cr pcr pc st e t = Some (r, e')"
    and "finite A" "payload_parties (inner (tx_payload t)) \<subseteq> A"
  shows "effect cr st A (minted pc (inner (tx_payload t))) e e'"
proof (cases "inner (tx_payload t)")
  case (Transfer p)
  then show ?thesis
    using assms transfer_effect [OF assms(1) _ assms(4), of st e p r e']
    by (simp add: process_def transfer_tx_new_Inr)
next
  case (Stake p)
  then show ?thesis
    using assms stake_effect [OF assms(1) _ assms(4), of pc st e p r e']
      unstake_effect [OF assms(1) _ assms(4), of st e _ r e']
    by (auto simp: process_def unstake_tx_new_Inr split: if_splits sum.splits)
next
  case (VerifiedProof p)
  then show ?thesis
    using assms verified_proof_effect [OF assms(1) _ assms(4), of pcr pc st e p r e'] by (simp add: process_def)
qed (use assms registry_effects unstake_effect [OF assms(1) _ assms(4)] add_namespace_effect [OF assms(1) _ assms(4)]
      in \<open>auto simp: process_def\<close>)

lemma charge_sender_Inr:
  assumes "documented cr" "charge_sender cr st e t = Inr e1"
  defines "a \<equiv> payload_sender (inner (tx_payload t))"
  obtains acc h bal where "account_of cr st e a = Some (acc, h)" "wf_address a"
    "nonce_next (acc_nonce acc) = Some (tx_nonce t)" "coin_sub (acc_balance acc) (Coin (tx_fee t)) = Ok bal"
    "account_ok \<lparr>acc_address = a, acc_balance = bal, acc_nonce = tx_nonce t\<rparr>"
    "stage_account cr e a h \<lparr>acc_address = a, acc_balance = bal, acc_nonce = tx_nonce t\<rparr> = Some e1"
proof -
  obtain p acc h bal d where c: "cado_path_new (hex cr) AccountType (KeyAddress a) = Inr p"
    "get_account_from_cado cr st e p = Some (acc, h)" "nonce_next (acc_nonce acc) = Some (tx_nonce t)"
    "coin_sub (acc_balance acc) (Coin (tx_fee t)) = Ok bal"
    "enc_account cr \<lparr>acc_address = a, acc_balance = bal, acc_nonce = tx_nonce t\<rparr> = Some d"
    "e1 = update_cado_cache e p (cado_mutable_updated (sha256 cr) h d
       (cado_metadata_new AccountType (hex_with_prefix (hex cr) a)))"
    using assms(2) unfolding a_def charge_sender_def Let_def
    by (auto simp: coin_new_Inr split: sum.splits option.splits if_splits)
  have acc: "account_of cr st e a = Some (acc, h)" using c(1,2) by (simp add: account_of_def)
  moreover note wf = account_of_ok(2) [OF assms(1) acc]
  moreover have "account_ok \<lparr>acc_address = a, acc_balance = bal, acc_nonce = tx_nonce t\<rparr>"
    using wf coin_sub_ok [OF c(4)] by (simp add: account_ok_def)
  moreover have "stage_account cr e a h \<lparr>acc_address = a, acc_balance = bal, acc_nonce = tx_nonce t\<rparr> = Some e1"
    using c by (simp add: stage_account_def)
  ultimately show thesis using that c(3,4) by blast
qed

section \<open>Replay protection\<close>

text \<open>The transactions of a block, delivered in order; \<^term>\<open>None\<close> when one of them panics.\<close>

fun deliver_all :: "('c \<Rightarrow> 'b \<Rightarrow> ('r \<times> 'c) option) \<Rightarrow> 'c \<Rightarrow> 'b list \<Rightarrow> ('r list \<times> 'c) option" where
  "deliver_all deliver c [] = Some ([], c)"
| "deliver_all deliver c (b # bs) = (case deliver c b of
     None \<Rightarrow> None
   | Some (r, c1) \<Rightarrow> map_option (\<lambda>(rs, c2). (r # rs, c2)) (deliver_all deliver c1 bs))"

lemma deliver_all_Cons_Some:
  "deliver_all deliver c (b # bs) = Some (rs, c2) \<longleftrightarrow>
     (\<exists>r c1 rs'. deliver c b = Some (r, c1) \<and> deliver_all deliver c1 bs = Some (rs', c2) \<and> rs = r # rs')"
  by (force split: option.splits)

text \<open>What replay protection needs of a delivery function: a request carries the number it claims for its
  sender; a request that changes the state leaves the sender's counter at that number; counters
  never fall; and a request whose number the counter has reached changes nothing.\<close>

locale replay_guard =
  fixes ok :: bool
    and deliver :: "'c \<Rightarrow> 'b \<Rightarrow> ('r \<times> 'c) option"
    and claim :: "'b \<Rightarrow> (address \<times> nat) option"
    and counter :: "'c \<Rightarrow> address \<Rightarrow> nat option"
    and refusal :: "'r \<Rightarrow> bool"
  assumes accepted: "ok \<Longrightarrow> deliver c b = Some (r, c') \<Longrightarrow> c' \<noteq> c \<Longrightarrow>
      \<exists>a n. claim b = Some (a, n) \<and> counter c' a = Some n"
    and counter_mono: "ok \<Longrightarrow> deliver c b = Some (r, c') \<Longrightarrow> counter c a = Some m \<Longrightarrow>
      \<exists>m'. m \<le> m' \<and> counter c' a = Some m'"
    and spent: "ok \<Longrightarrow> claim b = Some (a, n) \<Longrightarrow> counter c a = Some m \<Longrightarrow> n \<le> m \<Longrightarrow>
      deliver c b = Some (r, c') \<Longrightarrow> c' = c \<and> refusal r"
begin

lemma counter_mono_all:
  assumes "ok" "deliver_all deliver c bs = Some (rs, c')" "counter c a = Some m"
  shows "\<exists>m'. m \<le> m' \<and> counter c' a = Some m'"
  using assms(2,3)
proof (induction bs arbitrary: c rs m)
  case (Cons b bs)
  then obtain r c1 rs' where d: "deliver c b = Some (r, c1)" "deliver_all deliver c1 bs = Some (rs', c')"
    unfolding deliver_all_Cons_Some by blast
  from counter_mono [OF assms(1) d(1) Cons.prems(2)] obtain m1 where "m \<le> m1" "counter c1 a = Some m1" by blast
  with Cons.IH [OF d(2)] show ?case by (meson le_trans)
qed simp

lemma no_replay:
  assumes "ok" "deliver c b = Some (r, c1)" "c1 \<noteq> c" "deliver_all deliver c1 bs = Some (rs, c2)"
    and "deliver c2 b = Some (r', c3)"
  shows "c3 = c2 \<and> refusal r'"
proof -
  obtain a n where a: "claim b = Some (a, n)" "counter c1 a = Some n"
    using accepted [OF assms(1-3)] by blast
  obtain m where "n \<le> m" "counter c2 a = Some m"
    using counter_mono_all [OF assms(1,4) a(2)] by blast
  then show ?thesis using spent [OF assms(1) a(1)] assms(5) by blast
qed

end

section \<open>Deliveries\<close>

lemma decode_request_wf:
  assumes "documented cr" "decode_request cr js pc b = Inr t"
  shows "wf_payload (hex cr) (inner (tx_payload t))"
proof -
  obtain v where "decode_tx cr js v = Some t"
    using assms(2) by (auto simp: decode_request_def split: if_splits option.splits)
  then obtain po where "decode_payload (hex cr) js po = Some (tx_payload t)"
    using decode_tx_fields by blast
  from decode_payload_fields [OF this] show ?thesis
    using decode_inner_wf [OF documentedD(1) [OF assms(1)]] by blast
qed

lemma decode_request_code: "decode_request cr js pc b = Inl r \<Longrightarrow> code r \<noteq> 0"
  by (auto simp: decode_request_def handler_codes err_tx_too_large_def err_invalid_utf8_encoding_def
      err_hex_validation_failed_def err_invalid_hex_encoding_def err_json_validation_failed_def
      err_json_parsing_failed_def err_transaction_structure_invalid_def split: if_splits option.splits)

lemma check_code: "check_signature_and_fee cr pc ch t = Some r \<Longrightarrow> code r \<noteq> 0"
  by (auto simp: check_signature_and_fee_def handler_codes err_verification_failed_def
      err_fee_calculation_failed_def err_invalid_coin_amount_def err_insufficient_fee_def
      split: if_splits sum.splits)

lemma charge_code: "charge_sender cr st e t = Inl r \<Longrightarrow> code r \<noteq> 0"
  by (auto simp: charge_sender_def Let_def handler_codes err_invalid_path_format_def err_nonce_overflow_def
      err_nonce_not_sequential_def err_invalid_coin_amount_def err_fee_validation_failed_def
      err_internal_lock_failed_def split: if_splits sum.splits option.splits)

text \<open>The two kinds of delivery: refused with an error code and no change, or charged and handed to the
  handler.\<close>

lemma deliver_cases [consumes 1, case_names refused charged]:
  assumes "deliver_tx_inner cr pcr js pc st c b = Some (r, c')"
  obtains (refused) "c' = c" "code r \<noteq> 0"
  | (charged) t s e1 r0 e2 where "decode_request cr js pc b = Inr t"
      "check_signature_and_fee cr pc (chain_id (committed_state c)) t = None" "current_state c = Some s"
      "charge_sender cr st (app_envelope s) t = Inr e1" "process cr pcr pc st e1 t = Some (r0, e2)"
      "r = with_gas t r0" "c' = c\<lparr>current_state := Some (s\<lparr>app_envelope := e2\<rparr>)\<rparr>"
proof (cases "decode_request cr js pc b")
  case (Inl x)
  then show thesis using assms refused decode_request_code [OF Inl] by (simp add: deliver_tx_inner_def)
next
  case t: (Inr t)
  show thesis
  proof (cases "check_signature_and_fee cr pc (chain_id (committed_state c)) t")
    case chk: None
    show thesis
    proof (cases "current_state c")
      case None
      then show thesis
        using assms refused t chk by (auto simp: deliver_tx_inner_def handler_codes err_internal_lock_failed_def)
    next
      case s: (Some s)
      show thesis
      proof (cases "charge_sender cr st (app_envelope s) t")
        case (Inl x)
        then show thesis using assms refused t chk s charge_code [OF Inl] by (simp add: deliver_tx_inner_def)
      next
        case e1: (Inr e1)
        show thesis
        proof (cases "process cr pcr pc st e1 t")
          case None
          then show thesis using assms t chk s e1 by (simp add: deliver_tx_inner_def)
        next
          case (Some p)
          then show thesis using assms charged [OF t chk s e1] t chk s e1
            by (cases p) (simp add: deliver_tx_inner_def)
        qed
      qed
    qed
  next
    case (Some x)
    then show thesis using assms refused t check_code [OF Some] by (simp add: deliver_tx_inner_def)
  qed
qed

text \<open>The claim of a request and the nonce counters of the current state.\<close>

definition claimed_nonce :: "('c) crates_scheme \<Rightarrow> ('j) serde_lib_scheme \<Rightarrow> protocol_constants \<Rightarrow> bytes \<Rightarrow> (address \<times> nat) option" where
  "claimed_nonce cr js pc b = (case decode_request cr js pc b of
      Inl _ \<Rightarrow> None
    | Inr t \<Rightarrow> Some (payload_sender (inner (tx_payload t)), unat (nonce_value (tx_nonce t))))"

definition nonce_of :: "node_crates \<Rightarrow> store_view \<Rightarrow> consensus_connection \<Rightarrow> address \<Rightarrow> nat option" where
  "nonce_of cr st c a = (case current_state c of
      None \<Rightarrow> None
    | Some s \<Rightarrow> map_option (\<lambda>(acc, _). unat (nonce_value (acc_nonce acc))) (account_of cr st (app_envelope s) a))"

text \<open>What a charged delivery does to the ledger.\<close>

lemma charged_ledger:
  assumes "documented cr" "decode_request cr js pc b = Inr t" "charge_sender cr st e t = Inr e1"
    and "process cr pcr pc st e1 t = Some (r, e2)"
  defines "a \<equiv> payload_sender (inner (tx_payload t))"
  obtains acc h acc2 h2 where "account_of cr st e a = Some (acc, h)" "nonce_next (acc_nonce acc) = Some (tx_nonce t)"
    "account_of cr st e2 a = Some (acc2, h2)" "acc_nonce acc2 = tx_nonce t"
    "\<And>x ac k. x \<noteq> a \<Longrightarrow> account_of cr st e x = Some (ac, k) \<Longrightarrow>
       \<exists>ac' k'. account_of cr st e2 x = Some (ac', k') \<and> acc_nonce ac' = acc_nonce ac"
    "\<And>A. finite A \<Longrightarrow> payload_parties (inner (tx_payload t)) \<subseteq> A \<Longrightarrow>
       total_supply cr st e2 A + unat (tx_fee t) \<le> total_supply cr st e A + minted pc (inner (tx_payload t))"
proof -
  let ?p = "inner (tx_payload t)"
  obtain acc h bal where c: "account_of cr st e a = Some (acc, h)" "wf_address a"
    "nonce_next (acc_nonce acc) = Some (tx_nonce t)" "coin_sub (acc_balance acc) (Coin (tx_fee t)) = Ok bal"
    "account_ok \<lparr>acc_address = a, acc_balance = bal, acc_nonce = tx_nonce t\<rparr>"
    "stage_account cr e a h \<lparr>acc_address = a, acc_balance = bal, acc_nonce = tx_nonce t\<rparr> = Some e1"
    using charge_sender_Inr [OF assms(1,3)] unfolding a_def .
  note look = account_of_stage_account [OF assms(1) c(5,6)]
  have fin: "finite (payload_parties ?p)" by (cases ?p) simp_all
  note eff = process_effect [OF assms(1) decode_request_wf [OF assms(1,2)] assms(4)]
  have nonces: "keeps_nonces cr st e1 e2" using eff [OF fin] by (simp add: effect_def)
  obtain acc2 h2 where "account_of cr st e2 a = Some (acc2, h2)" "acc_nonce acc2 = tx_nonce t"
    using nonces look [of st a] unfolding keeps_nonces_def by force
  moreover have "\<exists>ac' k'. account_of cr st e2 x = Some (ac', k') \<and> acc_nonce ac' = acc_nonce ac"
    if "x \<noteq> a" "account_of cr st e x = Some (ac, k)" for x ac k
    using nonces look [of st x] that unfolding keeps_nonces_def by simp
  moreover have "total_supply cr st e2 A + unat (tx_fee t) \<le> total_supply cr st e A + minted pc ?p"
    if "finite A" "payload_parties ?p \<subseteq> A" for A
  proof -
    have "a \<in> A" using that(2) sender_in_parties a_def by blast
    moreover have "coins bal + unat (tx_fee t) = coins (acc_balance acc)"
      using c(4) account_of_ok(1) [OF assms(1) c(1)] by (simp add: account_ok_def coin_sub_Inr)
    ultimately have "total_supply cr st e1 A + unat (tx_fee t) = total_supply cr st e A"
      using supply_stage_account [OF assms(1) c(5,6) that(1), of st] account_of_balance [OF c(1)] by simp
    then show ?thesis using eff [OF that] by (simp add: effect_def)
  qed
  ultimately show thesis using that c(1,3) by blast
qed

interpretation replay: replay_guard "documented cr" "deliver_tx_inner cr pcr js pc st" "claimed_nonce cr js pc"
    "nonce_of cr st" "\<lambda>r. code r \<noteq> 0" for cr pcr js pc st
proof
  fix c b r c'
  assume doc: "documented cr" and run: "deliver_tx_inner cr pcr js pc st c b = Some (r, c')"
  from run show "\<exists>a n. claimed_nonce cr js pc b = Some (a, n) \<and> nonce_of cr st c' a = Some n" if "c' \<noteq> c"
  proof (cases rule: deliver_cases)
    case (charged t s e1 r0 e2)
    show ?thesis
      by (rule charged_ledger [OF doc charged(1,4,5)]) (auto simp: claimed_nonce_def nonce_of_def charged(1,7))
  qed (use that in simp)
next
  fix c b r c' a m
  assume doc: "documented cr" and run: "deliver_tx_inner cr pcr js pc st c b = Some (r, c')"
    and m: "nonce_of cr st c a = Some m"
  from run show "\<exists>m'\<ge>m. nonce_of cr st c' a = Some m'"
  proof (cases rule: deliver_cases)
    case (charged t s e1 r0 e2)
    obtain ac k where ac: "account_of cr st (app_envelope s) a = Some (ac, k)" "m = unat (nonce_value (acc_nonce ac))"
      using m charged(3) by (auto simp: nonce_of_def)
    show ?thesis
      by (rule charged_ledger [OF doc charged(1,4,5)], cases "a = payload_sender (inner (tx_payload t))")
        (use ac in \<open>force simp: nonce_of_def charged(7) nonce_next_Some\<close>)+
  qed (use m in auto)
next
  fix b a n c m r c'
  assume doc: "documented cr" and cl: "claimed_nonce cr js pc b = Some (a, n)"
    and m: "nonce_of cr st c a = Some m" "n \<le> m" and run: "deliver_tx_inner cr pcr js pc st c b = Some (r, c')"
  from run show "c' = c \<and> code r \<noteq> 0"
  proof (cases rule: deliver_cases)
    case (charged t s e1 r0 e2)
    show ?thesis
      by (rule charged_ledger [OF doc charged(1,4,5)])
        (use cl m charged(1,3) in \<open>auto simp: claimed_nonce_def nonce_of_def nonce_next_Some\<close>)
  qed simp
qed

section \<open>Deliveries complete\<close>

lemma decode_inner_parties_wf:
  "decode_inner hx js kvs = Some i \<Longrightarrow> a \<in> payload_parties i \<Longrightarrow> wf_address a"
  unfolding decode_inner_def result_simps by (elim disjE conjE) (auto dest: decode_addresses)

lemma decode_request_parties_wf:
  assumes "decode_request cr js pc b = Inr t" "a \<in> payload_parties (inner (tx_payload t))"
  shows "wf_address a"
proof -
  obtain v where "decode_tx cr js v = Some t"
    using assms(1) by (auto simp: decode_request_def split: if_splits option.splits)
  then obtain kvs where "decode_inner (hex cr) js kvs = Some (inner (tx_payload t))"
    using decode_tx_fields decode_payload_fields by metis
  then show ?thesis using assms(2) by (rule decode_inner_parties_wf)
qed

lemma process_total:
  assumes "documented cr" "\<And>a. a \<in> payload_parties (inner (tx_payload t)) \<Longrightarrow> wf_address a"
    and "blocks_per_epoch pc \<noteq> 0"
  shows "process cr pcr pc st e t \<noteq> None"
proof (cases "inner (tx_payload t)")
  case (Stake p)
  then show ?thesis
    using assms(2) stake_total [OF assms(1)] unstake_total [OF assms(1)]
    by (auto simp: process_def unstake_tx_new_Inr split: sum.splits)
qed (use assms transfer_total [OF assms(1)] unstake_total [OF assms(1)] add_namespace_total [OF assms(1)]
      registry_total [OF assms(1)] in \<open>auto simp: process_def\<close>)

lemma deliver_not_None:
  assumes "documented cr" "blocks_per_epoch pc \<noteq> 0"
  shows "\<exists>r c'. deliver_tx_inner cr pcr js pc st c b = Some (r, c')"
proof -
  have "deliver_tx_inner cr pcr js pc st c b \<noteq> None"
  proof
    assume "deliver_tx_inner cr pcr js pc st c b = None"
    then obtain t e where t: "decode_request cr js pc b = Inr t" "process cr pcr pc st e t = None"
      by (auto simp: deliver_tx_inner_def split: sum.splits option.splits)
    show False
      using process_total [OF assms(1) decode_request_parties_wf [OF t(1)] assms(2)] t(2) by blast
  qed
  then show ?thesis by auto
qed

lemma charge_sender_completes:
  assumes "documented cr" "account_of cr st e (payload_sender (inner (tx_payload t))) = Some (acc, h)"
    and "nonce_next (acc_nonce acc) = Some (tx_nonce t)" "0 < unat (tx_fee t)" "unat (tx_fee t) \<le> coins (acc_balance acc)"
  shows "\<exists>e1. charge_sender cr st e t = Inr e1"
proof -
  let ?a = "payload_sender (inner (tx_payload t))"
  note ok = account_of_ok [OF assms(1,2)]
  obtain p where p: "cado_path_new (hex cr) AccountType (KeyAddress ?a) = Inr p" "get_account_from_cado cr st e p = Some (acc, h)"
    using assms(2) by (auto simp: account_of_def split: sum.splits)
  have fee: "tx_fee t \<le> MAX_COIN" "tx_fee t \<noteq> 0"
    using ok(1) assms(4,5) by (auto simp: account_ok_def coin_ok_unat word_le_nat_alt)
  obtain b where b: "coin_sub (acc_balance acc) (Coin (tx_fee t)) = Ok b"
    using debit_account [OF assms(1) ok(2,1) assms(5)] by metis
  have "account_ok \<lparr>acc_address = ?a, acc_balance = b, acc_nonce = tx_nonce t\<rparr>"
    using ok(2) coin_sub_ok [OF b] by (simp add: account_ok_def)
  then obtain d where "enc_account cr \<lparr>acc_address = ?a, acc_balance = b, acc_nonce = tx_nonce t\<rparr> = Some d"
    using codec_ok_enc [OF documentedD(2) [OF assms(1)]] by blast
  then show ?thesis
    using p assms(3,5) fee b
    by (simp add: charge_sender_def coin_new_le validate_fee_amount_def amount_less_coins not_less)
qed

lemma delivery_accepted:
  assumes "documented cr" "blocks_per_epoch pc \<noteq> 0" "decode_request cr js pc b = Inr t"
    and "check_signature_and_fee cr pc (chain_id (committed_state c)) t = None" "current_state c = Some s"
    and "account_of cr st (app_envelope s) (payload_sender (inner (tx_payload t))) = Some (acc, h)"
    and "nonce_next (acc_nonce acc) = Some (tx_nonce t)" "0 < unat (tx_fee t)" "unat (tx_fee t) \<le> coins (acc_balance acc)"
  shows "\<exists>r c'. deliver_tx_inner cr pcr js pc st c b = Some (r, c') \<and> c' \<noteq> c \<and>
    nonce_of cr st c' (payload_sender (inner (tx_payload t))) = Some (unat (nonce_value (tx_nonce t)))"
proof -
  obtain e1 where e1: "charge_sender cr st (app_envelope s) t = Inr e1"
    using charge_sender_completes [OF assms(1,6-9)] by blast
  obtain r e2 where p: "process cr pcr pc st e1 t = Some (r, e2)"
    using process_total [OF assms(1) decode_request_parties_wf [OF assms(3)] assms(2)] by fast
  let ?c = "c\<lparr>current_state := Some (s\<lparr>app_envelope := e2\<rparr>)\<rparr>"
  have run: "deliver_tx_inner cr pcr js pc st c b = Some (with_gas t r, ?c)"
    by (simp add: deliver_tx_inner_def assms(3-5) e1 p)
  have n: "nonce_of cr st ?c (payload_sender (inner (tx_payload t))) = Some (unat (nonce_value (tx_nonce t)))"
    by (rule charged_ledger [OF assms(1,3) e1 p]) (simp add: nonce_of_def)
  moreover have "nonce_of cr st c (payload_sender (inner (tx_payload t))) \<noteq> Some (unat (nonce_value (tx_nonce t)))"
    using assms(5-7) by (simp add: nonce_of_def nonce_next_Some)
  ultimately show ?thesis using run by metis
qed

section \<open>A concrete delivery\<close>

definition demo_wire :: serde_lib where
  "demo_wire = demo_serde\<lparr>json_parse := (\<lambda>_. Some demo_json)\<rparr>"

definition demo_request :: bytes where "demo_request = str_bytes ''7b7d''"

definition demo_connection :: consensus_connection where
  "demo_connection = \<lparr>committed_state = \<lparr>app_hash = None, app_envelope = demo_envelope, chain_id = []\<rparr>,
     current_state = Some \<lparr>app_hash = None, app_envelope = demo_envelope, chain_id = []\<rparr>\<rparr>"

lemma demo_decoded: "decode_request model_crates demo_wire local_dev demo_request = Inr demo_transfer"
  by code_simp

lemma demo_checked: "check_signature_and_fee model_crates local_dev [] demo_transfer = None"
  by code_simp

definition demo_state :: app_state where
  "demo_state = \<lparr>app_hash = None, app_envelope = demo_envelope, chain_id = []\<rparr>"

lemma demo_ready:
  "blocks_per_epoch local_dev \<noteq> 0" "decode_request model_crates demo_wire local_dev demo_request = Inr demo_transfer"
  "check_signature_and_fee model_crates local_dev (chain_id (committed_state demo_connection)) demo_transfer = None"
  "current_state demo_connection = Some demo_state"
  "account_of model_crates empty_store (app_envelope demo_state) (payload_sender (inner (tx_payload demo_transfer))) =
     Some (demo_account 1 100000 0, zero_hash)"
  "nonce_next (acc_nonce (demo_account 1 100000 0)) = Some (tx_nonce demo_transfer)" "0 < unat (tx_fee demo_transfer)"
  "unat (tx_fee demo_transfer) \<le> coins (acc_balance (demo_account 1 100000 0))"
  using demo_decoded demo_checked demo_accounts(1)
  by (simp_all add: local_dev_def demo_connection_def demo_state_def demo_transfer_def payload_new_def
      demo_account_def nonce_next_def checked_add_unat)

lemma demo_delivery:
  "\<exists>r c'. deliver_tx_inner model_crates demo_pcr demo_wire local_dev empty_store demo_connection demo_request = Some (r, c')
     \<and> c' \<noteq> demo_connection \<and> nonce_of model_crates empty_store c' (demo_address 1) = Some 1"
  using delivery_accepted [OF model_crates_documented demo_ready, of demo_pcr]
  by (simp add: demo_transfer_def payload_new_def)

section \<open>Properties\<close>

text \<open>C1: a delivery either is refused with an error code and changes nothing, or its transaction carries a
  valid signature for this chain, the sender's nonce moves from one below the transaction's nonce to
  exactly that nonce, and, whatever the handler then answers, the fee is gone: among any finite set
  of addresses that holds the parties, coins held and staked fall by at least the fee, up to the
  reward of a verified proof.\<close>

theorem deliver_refused_or_charged:
  assumes "documented cr" "deliver_tx_inner cr pcr js pc st c b = Some (r, c')"
  shows "c' = c \<and> code r \<noteq> 0 \<or>
    (\<exists>t s s' acc h acc' h'. decode_request cr js pc b = Inr t \<and>
       tx_verify cr t (chain_id (committed_state c)) = Ok True \<and>
       current_state c = Some s \<and> c' = c\<lparr>current_state := Some s'\<rparr> \<and>
       account_of cr st (app_envelope s) (payload_sender (inner (tx_payload t))) = Some (acc, h) \<and>
       account_of cr st (app_envelope s') (payload_sender (inner (tx_payload t))) = Some (acc', h') \<and>
       nonce_next (acc_nonce acc) = Some (tx_nonce t) \<and> acc_nonce acc' = tx_nonce t \<and>
       (\<forall>A. finite A \<and> payload_parties (inner (tx_payload t)) \<subseteq> A \<longrightarrow>
          total_supply cr st (app_envelope s') A + unat (tx_fee t)
            \<le> total_supply cr st (app_envelope s) A + minted pc (inner (tx_payload t))))"
  using assms(2)
proof (cases rule: deliver_cases)
  case (charged t s e1 r0 e2)
  have "tx_verify cr t (chain_id (committed_state c)) = Ok True"
    using charged(2) by (auto simp: check_signature_and_fee_def split: if_splits)
  with charged show ?thesis
    by - (rule disjI2, rule charged_ledger [OF assms(1) charged(1,4,5)],
      rule exI [of _ t], rule exI [of _ s], rule exI [of _ "s\<lparr>app_envelope := e2\<rparr>"], auto)
qed simp

theorem deliver_refused_or_charged_witness:
  "\<exists>c'. nonce_of model_crates empty_store c' (demo_address 1) = Some 1 \<and> current_state c' \<noteq> None"
proof -
  obtain r c' where c': "deliver_tx_inner model_crates demo_pcr demo_wire local_dev empty_store demo_connection demo_request = Some (r, c')"
     "c' \<noteq> demo_connection" "nonce_of model_crates empty_store c' (demo_address 1) = Some 1"
    using demo_delivery by blast
  from deliver_refused_or_charged [OF model_crates_documented c'(1)] c'(2,3) show ?thesis by auto
qed

text \<open>no transaction is charged twice in a block.  After a delivery that was charged and any further
  deliveries, the same bytes are refused with an error code and change nothing.\<close>

lemma no_replay_in_block:
  assumes "documented cr" "deliver_tx_inner cr pcr js pc st c b = Some (r, c1)" "c1 \<noteq> c"
    and "deliver_all (deliver_tx_inner cr pcr js pc st) c1 bs = Some (rs, c2)"
    and "deliver_tx_inner cr pcr js pc st c2 b = Some (r', c3)"
  shows "c3 = c2 \<and> code r' \<noteq> 0"
  by (rule replay.no_replay [OF assms])

theorem no_replay_in_block_witness:
  "\<exists>c1 r'. deliver_tx_inner model_crates demo_pcr demo_wire local_dev empty_store c1 demo_request = Some (r', c1) \<and> code r' \<noteq> 0"
proof -
  obtain r c1 where c1: "deliver_tx_inner model_crates demo_pcr demo_wire local_dev empty_store demo_connection demo_request = Some (r, c1)"
     "c1 \<noteq> demo_connection" using demo_delivery by blast
  have "blocks_per_epoch local_dev \<noteq> 0" by (simp add: local_dev_def)
  then obtain r' c3 where c3: "deliver_tx_inner model_crates demo_pcr demo_wire local_dev empty_store c1 demo_request = Some (r', c3)"
    using deliver_not_None [OF model_crates_documented] by blast
  have "deliver_all (deliver_tx_inner model_crates demo_pcr demo_wire local_dev empty_store) c1 [] = Some ([], c1)" by simp
  from no_replay_in_block [OF model_crates_documented c1 this c3] c3 show ?thesis by blast
qed

text \<open>C6: no request can make the application panic: whatever the bytes and the state, the delivery
  returns a response, provided an epoch has at least one block.\<close>

theorem deliver_total:
  assumes "documented cr" "blocks_per_epoch pc \<noteq> 0"
  shows "\<exists>r c'. deliver_tx_inner cr pcr js pc st c b = Some (r, c')"
  by (rule deliver_not_None [OF assms])

theorem deliver_total_witness:
  "\<exists>r c'. deliver_tx_inner model_crates demo_pcr demo_wire local_dev empty_store demo_connection demo_request = Some (r, c')"
  by (rule deliver_total [OF model_crates_documented]) (simp add: local_dev_def)

text \<open>C9: a transaction that decodes, carries a valid signature and a sufficient fee is accepted as soon as
  its nonce follows the sender's and the sender can pay the fee: the delivery completes, is charged,
  and the sender's nonce becomes the transaction's.\<close>

theorem funded_delivery_accepted:
  assumes "documented cr" "blocks_per_epoch pc \<noteq> 0" "decode_request cr js pc b = Inr t"
    and "check_signature_and_fee cr pc (chain_id (committed_state c)) t = None" "current_state c = Some s"
    and "account_of cr st (app_envelope s) (payload_sender (inner (tx_payload t))) = Some (acc, h)"
    and "nonce_next (acc_nonce acc) = Some (tx_nonce t)" "0 < unat (tx_fee t)" "unat (tx_fee t) \<le> coins (acc_balance acc)"
  shows "\<exists>r c'. deliver_tx_inner cr pcr js pc st c b = Some (r, c') \<and> c' \<noteq> c \<and>
    nonce_of cr st c' (payload_sender (inner (tx_payload t))) = Some (unat (nonce_value (tx_nonce t)))"
  by (rule delivery_accepted [OF assms])

theorem funded_delivery_accepted_witness:
  "\<exists>r c'. deliver_tx_inner model_crates demo_pcr demo_wire local_dev empty_store demo_connection demo_request = Some (r, c')
     \<and> c' \<noteq> demo_connection"
  using funded_delivery_accepted [OF model_crates_documented demo_ready, of demo_pcr] by blast

lemma supply_run:
  assumes "documented cr" "finite A"
  shows "deliver_all (deliver_tx_inner cr pcr js pc st) c bs = Some (rs, c') \<Longrightarrow> current_state c = Some s \<Longrightarrow>
    (\<And>b t. b \<in> set bs \<Longrightarrow> decode_request cr js pc b = Inr t \<Longrightarrow> payload_parties (inner (tx_payload t)) \<subseteq> A) \<Longrightarrow>
    \<exists>s'. current_state c' = Some s' \<and> total_supply cr st (app_envelope s') A \<le> total_supply cr st (app_envelope s) A +
      (\<Sum>b\<leftarrow>bs. case decode_request cr js pc b of Inr t \<Rightarrow> minted pc (inner (tx_payload t)) | Inl _ \<Rightarrow> 0)"
proof (induction bs arbitrary: c s rs)
  case (Cons b bs)
  let ?m = "\<lambda>b. case decode_request cr js pc b of Inr t \<Rightarrow> minted pc (inner (tx_payload t)) | Inl _ \<Rightarrow> 0"
  obtain r c1 rs' where d: "deliver_tx_inner cr pcr js pc st c b = Some (r, c1)"
    "deliver_all (deliver_tx_inner cr pcr js pc st) c1 bs = Some (rs', c')"
    using Cons.prems(1) unfolding deliver_all_Cons_Some by blast
  have "\<exists>s1. current_state c1 = Some s1 \<and>
      total_supply cr st (app_envelope s1) A \<le> total_supply cr st (app_envelope s) A + ?m b"
    using d(1)
  proof (cases rule: deliver_cases)
    case (charged t s0 e1 r0 e2)
    then show ?thesis
      using Cons.prems(2) Cons.prems(3) [OF _ charged(1)]
      by - (rule charged_ledger [OF assms(1) charged(1,4,5)], use assms(2) in fastforce)
  qed (use Cons.prems(2) in auto)
  then obtain s1 where s1: "current_state c1 = Some s1"
    "total_supply cr st (app_envelope s1) A \<le> total_supply cr st (app_envelope s) A + ?m b" by blast
  from Cons.IH [OF d(2) s1(1)] Cons.prems(3) s1(2) show ?case by fastforce
qed simp

text \<open>C7: coins are created by verified proofs only.  Over the deliveries of a block, the coins held and staked
  by a finite set of addresses that contains the parties of every decoded transaction grow by at most
  the base reward for each transaction that carries a verified proof; fees, registration fees and
  failed moves only lower them.\<close>

theorem block_supply_bound:
  assumes "documented cr" "finite A" "deliver_all (deliver_tx_inner cr pcr js pc st) c bs = Some (rs, c')"
    and "current_state c = Some s"
    and "\<forall>b\<in>set bs. \<forall>t. decode_request cr js pc b = Inr t \<longrightarrow> payload_parties (inner (tx_payload t)) \<subseteq> A"
  shows "\<exists>s'. current_state c' = Some s' \<and> total_supply cr st (app_envelope s') A \<le> total_supply cr st (app_envelope s) A +
      (\<Sum>b\<leftarrow>bs. case decode_request cr js pc b of Inr t \<Rightarrow> minted pc (inner (tx_payload t)) | Inl _ \<Rightarrow> 0)"
  using supply_run [OF assms(1-4)] assms(5) by blast

theorem block_supply_bound_witness:
  "\<exists>s' :: app_state. total_supply model_crates empty_store (app_envelope s') {demo_address 1, demo_address 2} \<le>
     total_supply model_crates empty_store demo_envelope {demo_address 1, demo_address 2}"
proof -
  obtain r c1 where d: "deliver_tx_inner model_crates demo_pcr demo_wire local_dev empty_store demo_connection demo_request = Some (r, c1)"
    using demo_delivery by blast
  then have a: "deliver_all (deliver_tx_inner model_crates demo_pcr demo_wire local_dev empty_store) demo_connection [demo_request]
      = Some ([r], c1)" by simp
  have p: "payload_parties (inner (tx_payload demo_transfer)) = {demo_address 1, demo_address 2}"
    "minted local_dev (inner (tx_payload demo_transfer)) = 0"
    by (simp_all add: demo_transfer_def payload_new_def)
  have "\<forall>b\<in>set [demo_request]. \<forall>t. decode_request model_crates demo_wire local_dev b = Inr t \<longrightarrow>
      payload_parties (inner (tx_payload t)) \<subseteq> {demo_address 1, demo_address 2}"
    using demo_ready(2) p by simp
  from block_supply_bound [OF model_crates_documented _ a demo_ready(4) this] show ?thesis
    by (auto simp: demo_ready(2) p demo_state_def)
qed

end
