(* ===== verification/Storage.thy ===== *)
theory Storage
  imports App_State
begin

text \<open>
  Persistent storage (\<^verbatim>\<open>node_app/src/storage\<close>): the security checks on object paths, the storage keys,
  reading and writing objects by path inside a database transaction, system deletion, the marker
  rows of settled challenges and the pinboard rows.  RocksDB is the parameter \<open>rocks\<close>, read and
  write operations over an abstract database and transaction; \<open>rocks_documented\<close> says that a transaction
  sees the database it was started on and its own writes, and that a commit makes exactly them visible.
  The main property is the refinement of the object store: after a write, the path reads the written
  object and every other path reads what it read before.
\<close>

section \<open>RocksDB and codecs\<close>

datatype column_family = CadoCf | CadoMapCf | PathIndexCf | IndexedTransactionsCf | IndexedEventsCf | MissingContentCf
  | PinboardMetaCf | PinboardTempBlobsCf | PinboardRefcountsCf | PinboardIdxWalletCf | PinboardIdxTagCf
  | PinboardIdxExpiryCf | PinboardIdxCommitCf | PinboardGcMetaCf | PinboardGcDeletedLogCf
  | VerifiedProofSubmissionsCf | DefaultCf

text \<open>What a reader returns for a column family and a key; the outer \<^term>\<open>None\<close> is an error of the engine.\<close>

type_synonym reader = "column_family \<Rightarrow> bytes \<Rightarrow> bytes option option"

record ('db, 'tx) rocks =
  db_get :: "'db \<Rightarrow> reader"
  db_put :: "'db \<Rightarrow> column_family \<Rightarrow> bytes \<Rightarrow> bytes \<Rightarrow> 'db option"
  transaction :: "'db \<Rightarrow> 'tx"
  tx_get :: "'tx \<Rightarrow> reader"
  tx_put :: "'tx \<Rightarrow> column_family \<Rightarrow> bytes \<Rightarrow> bytes \<Rightarrow> 'tx option"
  tx_delete :: "'tx \<Rightarrow> column_family \<Rightarrow> bytes \<Rightarrow> 'tx option"
  tx_commit :: "'db \<Rightarrow> 'tx \<Rightarrow> 'db option"

definition rd_update :: "reader \<Rightarrow> column_family \<Rightarrow> bytes \<Rightarrow> bytes option \<Rightarrow> reader" where
  "rd_update rd cf k v = (\<lambda>cf' k'. if cf' = cf \<and> k' = k then Some v else rd cf' k')"

definition rocks_documented :: "('db, 'tx) rocks \<Rightarrow> bool" where
  "rocks_documented R \<longleftrightarrow>
     (\<forall>db. tx_get R (transaction R db) = db_get R db) \<and>
     (\<forall>t cf k v t'. tx_put R t cf k v = Some t' \<longrightarrow> tx_get R t' = rd_update (tx_get R t) cf k (Some v)) \<and>
     (\<forall>t cf k t'. tx_delete R t cf k = Some t' \<longrightarrow> tx_get R t' = rd_update (tx_get R t) cf k None) \<and>
     (\<forall>db t db'. tx_commit R db t = Some db' \<longrightarrow> db_get R db' = tx_get R t) \<and>
     (\<forall>db cf k v db'. db_put R db cf k v = Some db' \<longrightarrow> db_get R db' = rd_update (db_get R db) cf k (Some v))"

text \<open>\<^verbatim>\<open>bincode\<close> for the stored rows.\<close>

record store_codec =
  enc_cado :: "cado_body \<Rightarrow> bytes option"
  dec_cado :: "bytes \<Rightarrow> cado_body option"
  enc_meta :: "pinboard_metadata \<Rightarrow> bytes option"
  dec_meta :: "bytes \<Rightarrow> pinboard_metadata option"
  enc_u64 :: "u64 \<Rightarrow> bytes option"
  dec_u64 :: "bytes \<Rightarrow> u64 option"
  dec_temp_blob :: "bytes \<Rightarrow> (bytes \<times> u64) option"
  enc_temp_blob :: "bytes \<Rightarrow> u64 \<Rightarrow> bytes option"

section \<open>Path security\<close>

definition MAX_PATH_LENGTH :: nat where "MAX_PATH_LENGTH = 512"

definition ALLOWED_SCOPES :: "string list" where
  "ALLOWED_SCOPES = [''@eld'', ''@user'', ''@public'', ''@test'', ''@other'', ''@eld'']"

text \<open>\<^verbatim>\<open>is_control\<close> without tab, line feed and carriage return, on UTF-8 bytes.\<close>

fun has_forbidden_control :: "string \<Rightarrow> bool" where
  "has_forbidden_control [] = False"
| "has_forbidden_control (c # cs) = (let v = (of_char c :: nat) in
     (v < 32 \<and> v \<noteq> 9 \<and> v \<noteq> 10 \<and> v \<noteq> 13) \<or> v = 127 \<or>
     (v = 194 \<and> (case cs of [] \<Rightarrow> False | d # _ \<Rightarrow> (let u = (of_char d :: nat) in 128 \<le> u \<and> u \<le> 159)))
     \<or> has_forbidden_control cs)"

definition backslash :: string where "backslash = [CHR 0x5C]"

definition traversal_patterns :: "string list" where
  "traversal_patterns = [''..'', ''//'', backslash, ''~'', ''..'' @ backslash, ''../'', backslash @ ''..'', ''/..'',
     ''..'' @ backslash, ''..//'', ''//..'', backslash @ ''..'' @ backslash, ''....'', ''..../'', ''....'' @ backslash,
     ''..%2f'', ''..%5c'', ''%2e%2e'', ''%2e%2e%2f'', ''%2e%2e%5c'', ''..%252f'', ''..%255c'',
     ''%252e%252e'', ''%252e%252e%252f'', ''%252e%252e%255c'']"

definition validate_name_hex :: "hex_lib \<Rightarrow> string \<Rightarrow> nat \<Rightarrow> string \<Rightarrow> unit res" where
  "validate_name_hex hx name n field =
    (if \<not> starts_with ''0x'' name then Err (ValidationError field)
     else (case hex_decode hx (drop 2 name) of
        None \<Rightarrow> Err (ValidationError ''cado_path_name_hex'')
      | Some bs \<Rightarrow> if length bs \<noteq> n then Err (ValidationError field) else Ok ()))"

definition validate_cado_path_internal :: "hex_lib \<Rightarrow> cado_path \<Rightarrow> unit res" where
  "validate_cado_path_internal hx p =
    (let s = path_str p in
     if length s > MAX_PATH_LENGTH then Err (ValidationError ''cado_path_length'')
     else if CHR 0x00 \<in> set s then Err (ValidationError ''cado_path_null_bytes'')
     else if has_forbidden_control s then Err (ValidationError ''cado_path_control_chars'')
     else if list_ex (\<lambda>pat. contains_str pat (to_ascii_lowercase s)) traversal_patterns
       then Err (ValidationError ''cado_path_traversal'')
     else if length (filter (\<lambda>w. w \<noteq> []) (split_on CHR ''/'' s)) < 3 then Err (ValidationError ''cado_path_structure'')
     else if path_scope p \<notin> set ALLOWED_SCOPES then Err (ValidationError ''cado_path_scope'')
     else if path_type p \<notin> set VALID_TYPES then Err (ValidationError ''cado_path_type'')
     else if path_name p = [] then Err (ValidationError ''cado_path_name'')
     else and_then
       (if path_type p = ''account'' \<or> path_type p = ''staking_account'' \<or> path_type p = ''storage_staking_account''
        then validate_name_hex hx (path_name p) 20 ''cado_path_name_address''
        else if path_type p = ''namespace'' then validate_namespace_slug (path_name p)
        else validate_name_hex hx (path_name p) 32 ''cado_path_name_hex'') (\<lambda>_.
         if contains_str ''//'' s \<or> contains_str (backslash @ backslash) s then Err (ValidationError ''cado_path_separators'')
         else if ends_with ''/'' s \<or> ends_with backslash s then Err (ValidationError ''cado_path_ending'')
         else Ok ()))"

section \<open>Storage keys\<close>

record cado_keys =
  original_key :: string
  latest_key :: "string option"

definition storage_key :: "('e) crates_scheme \<Rightarrow> cado_path \<Rightarrow> string \<Rightarrow> string" where
  "storage_key cr p h =
     ''0x'' @ hex_encode (hex cr) (sha256 cr (str_bytes (path_scope p @ ''|'' @ path_type p @ ''|'' @ h)))"

definition account_original_key :: "('e) crates_scheme \<Rightarrow> cado_path \<Rightarrow> cado_body \<Rightarrow> string res" where
  "account_original_key cr p b =
    (if \<not> starts_with ''0x'' (path_name p) then Err (ValidationError ''account_address'')
     else (case hex_decode (hex cr) (drop 2 (path_name p)) of
        None \<Rightarrow> Err (ValidationError ''account_address'')
      | Some bs \<Rightarrow>
         if length bs \<noteq> 20 then Err (ValidationError ''account_address'')
         else (case b of
             Immutable _ _ _ \<Rightarrow> Err (ValidationError ''cado_type'')
           | Mutable _ _ m _ \<Rightarrow>
               if meta_owner m \<noteq> path_name p then Err (ValidationError ''metadata_owner'')
               else Ok (storage_key cr p (hex_encode (hex cr) (sha256 cr (str_bytes (path_name p))))))))"

definition account_latest_key :: "('e) crates_scheme \<Rightarrow> cado_path \<Rightarrow> cado_body \<Rightarrow> string option res" where
  "account_latest_key cr p b = (case b of
      Immutable _ _ _ \<Rightarrow> Err (ValidationError ''cado_type'')
    | Mutable _ _ _ l \<Rightarrow> Ok (Some (storage_key cr p (hex_encode (hex cr) l))))"

definition general_original_key :: "('e) crates_scheme \<Rightarrow> cado_path \<Rightarrow> cado_body \<Rightarrow> string res" where
  "general_original_key cr p b =
     and_then
       (if starts_with ''0x'' (path_name p) then
          (case hex_decode (hex cr) (drop 2 (path_name p)) of
             None \<Rightarrow> Err (ValidationError ''path_name'')
           | Some name_bytes \<Rightarrow>
              if length name_bytes \<noteq> 32 then Err (ValidationError ''path_name'')
              else (case b of
                  Mutable h _ _ l \<Rightarrow>
                    if name_bytes \<noteq> h \<and> name_bytes \<noteq> l then Err (ValidationError ''path_name'') else Ok ()
                | Immutable _ _ _ \<Rightarrow> Ok ()))
        else Ok ())
       (\<lambda>_. Ok (storage_key cr p (hex_encode (hex cr) (body_hash b))))"

definition general_latest_key :: "('e) crates_scheme \<Rightarrow> cado_path \<Rightarrow> cado_body \<Rightarrow> string option res" where
  "general_latest_key cr p b = (case b of
      Mutable _ _ _ l \<Rightarrow> Ok (Some (storage_key cr p (hex_encode (hex cr) l)))
    | Immutable _ _ _ \<Rightarrow> Ok None)"

definition named_original_key :: "('e) crates_scheme \<Rightarrow> cado_path \<Rightarrow> cado_body \<Rightarrow> string res" where
  "named_original_key cr p b = Ok (storage_key cr p (path_name p))"

definition generate_key :: "('e) crates_scheme \<Rightarrow> cado_path \<Rightarrow> cado_body \<Rightarrow> string res" where
  "generate_key cr p b =
    (if path_type p \<in> {''account'', ''staking_account'', ''storage_staking_account''} then account_original_key cr p b
     else if path_type p \<in> {''app_state_tip'', ''app_state_snapshot'', ''epoch_record''} then named_original_key cr p b
     else if path_type p = ''namespace'' then named_original_key cr p b
     else if path_type p \<in> {''cado_map'', ''snapshot_metadata'', ''snapshot_chunk'', ''chunk_reference''}
       then general_original_key cr p b
     else Err (ValidationError ''cado_type''))"

definition generate_latest :: "('e) crates_scheme \<Rightarrow> cado_path \<Rightarrow> cado_body \<Rightarrow> string option res" where
  "generate_latest cr p b =
    (if path_type p \<in> {''account'', ''staking_account'', ''storage_staking_account''} then account_latest_key cr p b
     else if path_type p \<in> {''cado_map'', ''snapshot_metadata'', ''snapshot_chunk'', ''chunk_reference''}
       then general_latest_key cr p b
     else Ok None)"

definition generate_keys :: "('e) crates_scheme \<Rightarrow> cado_path \<Rightarrow> cado_body \<Rightarrow> cado_keys res" where
  "generate_keys cr p b =
     and_then (generate_key cr p b) (\<lambda>k.
     and_then (generate_latest cr p b) (\<lambda>l. Ok \<lparr>original_key = k, latest_key = l\<rparr>))"

section \<open>Objects by path\<close>

definition deserialize_stored_cado_type :: "store_codec \<Rightarrow> cado_path \<Rightarrow> bytes \<Rightarrow> cado_body res" where
  "deserialize_stored_cado_type sc p d =
     map_err (\<lambda>_. StorageError ''deserialize_cado'')
       (if path_type p = ''app_state_snapshot'' then safe_bincode_deserialize (dec_cado sc) d (256 * 1024 * 1024)
        else safe_deserialize_cado_data (dec_cado sc) d)"

definition get_cado_by_path :: "('e) crates_scheme \<Rightarrow> store_codec \<Rightarrow> reader \<Rightarrow> cado_path \<Rightarrow> cado_body option res" where
  "get_cado_by_path cr sc rd p =
     and_then (validate_cado_path_internal (hex cr) p) (\<lambda>_.
     and_then (ok_or (StorageError ''get_cf_path_index'') (rd PathIndexCf (str_bytes (path_str p)))) (\<lambda>found.
       case found of
         None \<Rightarrow> Ok None
       | Some key_bytes \<Rightarrow>
           and_then (ok_or (StorageError ''from_utf8_original_key'') (from_utf8 key_bytes)) (\<lambda>key.
           and_then (ok_or (StorageError ''get_cf_cado'') (rd CadoCf (str_bytes key))) (\<lambda>v.
             case v of
               None \<Rightarrow> Ok None
             | Some d \<Rightarrow>
                 and_then (deserialize_stored_cado_type sc p d) (\<lambda>b.
                 and_then (generate_keys cr p b) (\<lambda>keys.
                   if original_key keys \<noteq> key then Err (StorageError ''key_validation'') else Ok (Some b)))))))"

text \<open>The key and the value of a write; then the two writes.  A write that fails leaves in the transaction what
  was written before it.\<close>

definition put_cadotype_prepare ::
    "('e) crates_scheme \<Rightarrow> store_codec \<Rightarrow> reader \<Rightarrow> cado_path \<Rightarrow> cado_body \<Rightarrow> (string \<times> bytes) res" where
  "put_cadotype_prepare cr sc rd p b =
     and_then (validate_cado_path_internal (hex cr) p) (\<lambda>_.
     and_then (ok_or (StorageError ''get_cf_path_index'') (rd PathIndexCf (str_bytes (path_str p)))) (\<lambda>found.
     and_then (case found of
         Some bs \<Rightarrow> ok_or (StorageError ''utf8_decode_existing_key'') (from_utf8 bs)
       | None \<Rightarrow> map_err (\<lambda>_. StorageError ''key_generation'') (generate_key cr p b)) (\<lambda>key.
     and_then (ok_or (StorageError ''serialize_cado_type'') (enc_cado sc b)) (\<lambda>v. Ok (key, v)))))"

definition put_cadotype_by_path_with_tx ::
    "('e) crates_scheme \<Rightarrow> store_codec \<Rightarrow> ('db, 'tx) rocks \<Rightarrow> 'tx \<Rightarrow> cado_path \<Rightarrow> cado_body \<Rightarrow> unit res \<times> 'tx" where
  "put_cadotype_by_path_with_tx cr sc R tx p b =
    (case put_cadotype_prepare cr sc (tx_get R tx) p b of
       Inl err \<Rightarrow> (Err err, tx)
     | Inr (key, v) \<Rightarrow> (case tx_put R tx CadoCf (str_bytes key) v of
         None \<Rightarrow> (Err (StorageError ''put_cf_cado''), tx)
       | Some tx1 \<Rightarrow> (case tx_put R tx1 PathIndexCf (str_bytes (path_str p)) (str_bytes key) of
           None \<Rightarrow> (Err (StorageError ''put_cf_path_index''), tx1)
         | Some tx2 \<Rightarrow> (Ok (), tx2))))"

definition put_cado_type ::
    "('e) crates_scheme \<Rightarrow> store_codec \<Rightarrow> ('db, 'tx) rocks \<Rightarrow> 'db \<Rightarrow> cado_path \<Rightarrow> cado_body \<Rightarrow> 'db res" where
  "put_cado_type cr sc R db p b =
     and_then (validate_cado_path_internal (hex cr) p) (\<lambda>_.
     and_then (ok_or (StorageError ''get_cf'') (db_get R db PathIndexCf (str_bytes (path_str p)))) (\<lambda>found.
     and_then (case found of
         Some bs \<Rightarrow> ok_or (StorageError ''from_utf8'') (from_utf8 bs)
       | None \<Rightarrow> map_err (\<lambda>_. StorageError ''generate_key'') (generate_key cr p b)) (\<lambda>key.
     and_then (ok_or (StorageError ''serialize_cado_type'') (enc_cado sc b)) (\<lambda>v.
     and_then (ok_or (StorageError ''put_cf'') (db_put R db CadoCf (str_bytes key) v)) (\<lambda>db1.
       ok_or (StorageError ''put_cf_path_index'')
         (db_put R db1 PathIndexCf (str_bytes (path_str p)) (str_bytes key)))))))"

section \<open>System deletion\<close>

definition prepare_system_cado_deletion ::
    "('e) crates_scheme \<Rightarrow> store_codec \<Rightarrow> reader \<Rightarrow> cado_path \<Rightarrow> string \<Rightarrow> (cado_path \<times> cado_keys) res" where
  "prepare_system_cado_deletion cr sc rd p owner =
     and_then (validate_cado_path_internal (hex cr) p) (\<lambda>_.
     and_then (validate_system_deletion p) (\<lambda>_.
     and_then (get_cado_by_path cr sc rd p) (\<lambda>found.
     and_then (ok_or (StorageError ''get_cado_by_path'') found) (\<lambda>b.
       if meta_owner (body_metadata b) \<noteq> owner then Err (StorageError ''ownership_verification'')
       else and_then (generate_keys cr p b) (\<lambda>keys. Ok (p, keys))))))"

definition delete_cado_associated_keys_with_tx ::
    "('e) crates_scheme \<Rightarrow> ('db, 'tx) rocks \<Rightarrow> 'tx \<Rightarrow> cado_path \<Rightarrow> cado_keys \<Rightarrow> 'tx res" where
  "delete_cado_associated_keys_with_tx cr R tx p keys =
     and_then (ok_or (StorageError ''delete_cado_original_key_with_tx'')
         (tx_delete R tx CadoCf (str_bytes (original_key keys)))) (\<lambda>tx1.
     and_then (case latest_key keys of
         None \<Rightarrow> Ok tx1
       | Some k \<Rightarrow> ok_or (StorageError ''delete_cado_latest_key_with_tx'') (tx_delete R tx1 CadoCf (str_bytes k))) (\<lambda>tx2.
     and_then (cado_path_new (hex cr) CadoMapType (KeyName (path_name p))) (\<lambda>map_path.
     and_then (ok_or (StorageError ''delete_cado_map_with_tx'')
         (tx_delete R tx2 CadoMapCf (str_bytes (path_str map_path)))) (\<lambda>tx3.
       ok_or (StorageError ''delete_path_index_with_tx'')
         (tx_delete R tx3 PathIndexCf (str_bytes (path_str p)))))))"

definition system_delete_cado_with_tx ::
    "('e) crates_scheme \<Rightarrow> store_codec \<Rightarrow> ('db, 'tx) rocks \<Rightarrow> 'db \<Rightarrow> 'tx \<Rightarrow> cado_path \<Rightarrow> string \<Rightarrow> 'tx res" where
  "system_delete_cado_with_tx cr sc R db tx p owner =
     and_then (prepare_system_cado_deletion cr sc (db_get R db) p owner)
       (\<lambda>(p', keys). delete_cado_associated_keys_with_tx cr R tx p' keys)"

section \<open>Settled challenges\<close>

definition DUMMY_ROCKSDB_PAYLOAD :: bytes where "DUMMY_ROCKSDB_PAYLOAD = str_bytes ''1''"

definition verified_proof_submission_claim_key :: "string \<Rightarrow> string \<Rightarrow> bytes" where
  "verified_proof_submission_claim_key sender cid =
     str_bytes (''vp_submit:'' @ to_ascii_lowercase sender @ '':'' @ cid)"

definition verified_proof_challenge_rewarded_key :: "string \<Rightarrow> bytes" where
  "verified_proof_challenge_rewarded_key cid = str_bytes (''vp_rewarded:'' @ cid)"

definition verified_proof_challenge_failed_key :: "string \<Rightarrow> bytes" where
  "verified_proof_challenge_failed_key cid = str_bytes (''vp_failed:'' @ cid)"

definition insert_verified_proof_submission_claim ::
    "('db, 'tx) rocks \<Rightarrow> 'db \<Rightarrow> string \<Rightarrow> string \<Rightarrow> (bool \<times> 'db) res" where
  "insert_verified_proof_submission_claim R db sender cid =
    (let key = verified_proof_submission_claim_key sender cid in
     and_then (ok_or (StorageError ''verified_proof_submission_get'') (db_get R db VerifiedProofSubmissionsCf key)) (\<lambda>v.
       if v \<noteq> None then Ok (False, db)
       else and_then (ok_or (StorageError ''verified_proof_submission_put'')
              (db_put R db VerifiedProofSubmissionsCf key DUMMY_ROCKSDB_PAYLOAD)) (\<lambda>db'. Ok (True, db'))))"

definition has_verified_proof_submission_claim :: "reader \<Rightarrow> string \<Rightarrow> string \<Rightarrow> bool res" where
  "has_verified_proof_submission_claim rd sender cid =
     and_then (ok_or (StorageError ''verified_proof_submission_has'')
         (rd VerifiedProofSubmissionsCf (verified_proof_submission_claim_key sender cid))) (\<lambda>v. Ok (v \<noteq> None))"

definition db_challenge_rewarded :: "reader \<Rightarrow> string \<Rightarrow> bool res" where
  "db_challenge_rewarded rd cid =
     and_then (ok_or (StorageError ''verified_proof_challenge_rewarded_get'')
         (rd VerifiedProofSubmissionsCf (verified_proof_challenge_rewarded_key cid))) (\<lambda>v. Ok (v \<noteq> None))"

definition db_challenge_failed :: "reader \<Rightarrow> string \<Rightarrow> bool res" where
  "db_challenge_failed rd cid =
     and_then (ok_or (StorageError ''verified_proof_challenge_failed_get'')
         (rd VerifiedProofSubmissionsCf (verified_proof_challenge_failed_key cid))) (\<lambda>v. Ok (v \<noteq> None))"

definition put_verified_proof_challenge_rewarded_with_tx :: "('db, 'tx) rocks \<Rightarrow> string \<Rightarrow> 'tx \<Rightarrow> 'tx res" where
  "put_verified_proof_challenge_rewarded_with_tx R cid tx =
     ok_or (StorageError ''verified_proof_challenge_rewarded_put'')
       (tx_put R tx VerifiedProofSubmissionsCf (verified_proof_challenge_rewarded_key cid) DUMMY_ROCKSDB_PAYLOAD)"

definition put_verified_proof_challenge_failed_with_tx :: "('db, 'tx) rocks \<Rightarrow> string \<Rightarrow> 'tx \<Rightarrow> 'tx res" where
  "put_verified_proof_challenge_failed_with_tx R cid tx =
     ok_or (StorageError ''verified_proof_challenge_failed_put'')
       (tx_put R tx VerifiedProofSubmissionsCf (verified_proof_challenge_failed_key cid) DUMMY_ROCKSDB_PAYLOAD)"


section \<open>Pinboard rows\<close>

definition u64_hex_fixed :: "u64 \<Rightarrow> string" where
  "u64_hex_fixed v = pad_zero 16 (show_hex (unat v))"

definition pinboard_wallet_index_key :: "string \<Rightarrow> u64 \<Rightarrow> string \<Rightarrow> string" where
  "pinboard_wallet_index_key wallet h mid = wallet @ '':'' @ u64_hex_fixed h @ '':'' @ mid"

definition pinboard_tag_index_key :: "string \<Rightarrow> u64 \<Rightarrow> string \<Rightarrow> string" where
  "pinboard_tag_index_key tag h mid = tag @ '':'' @ u64_hex_fixed h @ '':'' @ mid"

definition pinboard_expiry_index_key :: "u64 \<Rightarrow> string \<Rightarrow> string" where
  "pinboard_expiry_index_key h mid = u64_hex_fixed h @ '':'' @ mid"

definition pinboard_commit_index_key :: "u64 \<Rightarrow> string \<Rightarrow> string" where
  "pinboard_commit_index_key h mid = u64_hex_fixed h @ '':'' @ mid"

definition pinboard_namespace_content_path :: "string \<Rightarrow> string \<Rightarrow> string" where
  "pinboard_namespace_content_path namespace mid = ''/@'' @ namespace @ ''/'' @ mid"

definition put_pinboard_metadata_with_tx ::
    "store_codec \<Rightarrow> ('db, 'tx) rocks \<Rightarrow> string \<Rightarrow> pinboard_metadata \<Rightarrow> 'tx \<Rightarrow> 'tx res" where
  "put_pinboard_metadata_with_tx sc R mid meta tx =
     and_then (ok_or (StorageError ''serialize_pinboard_metadata'') (enc_meta sc meta)) (\<lambda>d.
     and_then (ok_or (StorageError ''put_pinboard_metadata_with_tx'') (tx_put R tx PinboardMetaCf (str_bytes mid) d)) (\<lambda>tx1.
       case pb_namespace meta of
         None \<Rightarrow> Ok tx1
       | Some ns \<Rightarrow> ok_or (StorageError ''put_pinboard_metadata_namespace_path_with_tx'')
           (tx_put R tx1 PinboardMetaCf (str_bytes (pinboard_namespace_content_path ns mid)) d)))"

definition put_pinboard_wallet_index_with_tx ::
    "('db, 'tx) rocks \<Rightarrow> string \<Rightarrow> u64 \<Rightarrow> string \<Rightarrow> 'tx \<Rightarrow> 'tx res" where
  "put_pinboard_wallet_index_with_tx R wallet h mid tx =
     ok_or (StorageError ''put_pinboard_wallet_index_with_tx'')
       (tx_put R tx PinboardIdxWalletCf (str_bytes (pinboard_wallet_index_key wallet h mid)) [])"

definition put_pinboard_tag_index_with_tx ::
    "('db, 'tx) rocks \<Rightarrow> string \<Rightarrow> u64 \<Rightarrow> string \<Rightarrow> 'tx \<Rightarrow> 'tx res" where
  "put_pinboard_tag_index_with_tx R tag h mid tx =
     ok_or (StorageError ''put_pinboard_tag_index_with_tx'')
       (tx_put R tx PinboardIdxTagCf (str_bytes (pinboard_tag_index_key tag h mid)) [])"

definition put_pinboard_expiry_index_with_tx :: "('db, 'tx) rocks \<Rightarrow> u64 \<Rightarrow> string \<Rightarrow> 'tx \<Rightarrow> 'tx res" where
  "put_pinboard_expiry_index_with_tx R h mid tx =
     ok_or (StorageError ''put_pinboard_expiry_index_with_tx'')
       (tx_put R tx PinboardIdxExpiryCf (str_bytes (pinboard_expiry_index_key h mid)) [])"

definition put_pinboard_commit_index_with_tx :: "('db, 'tx) rocks \<Rightarrow> u64 \<Rightarrow> string \<Rightarrow> 'tx \<Rightarrow> 'tx res" where
  "put_pinboard_commit_index_with_tx R h mid tx =
     ok_or (StorageError ''put_pinboard_commit_index_with_tx'')
       (tx_put R tx PinboardIdxCommitCf (str_bytes (pinboard_commit_index_key h mid)) [])"

text \<open>The sum is taken in \<^verbatim>\<open>i128\<close>, where it cannot overflow, and cast back to \<^verbatim>\<open>u64\<close>.\<close>

definition update_pinboard_refcount_with_tx ::
    "store_codec \<Rightarrow> ('db, 'tx) rocks \<Rightarrow> string \<Rightarrow> int \<Rightarrow> 'tx \<Rightarrow> (u64 \<times> 'tx) res" where
  "update_pinboard_refcount_with_tx sc R content_key delta tx =
     and_then (ok_or (StorageError ''get_pinboard_refcount_with_tx'')
         (tx_get R tx PinboardRefcountsCf (str_bytes content_key))) (\<lambda>v.
     and_then (case v of
         None \<Rightarrow> Ok 0
       | Some d \<Rightarrow> ok_or (StorageError ''deserialize_pinboard_refcount'') (dec_u64 sc d)) (\<lambda>current.
       let next_i128 = uint current + delta in
       if next_i128 < 0 then Err (StorageError ''update_pinboard_refcount_with_tx'')
       else (let next = word_of_int next_i128 in
         and_then (ok_or (StorageError ''serialize_pinboard_refcount'') (enc_u64 sc next)) (\<lambda>d.
         and_then (ok_or (StorageError ''set_pinboard_refcount_with_tx'')
             (tx_put R tx PinboardRefcountsCf (str_bytes content_key) d)) (\<lambda>tx1. Ok (next, tx1))))))"

definition read_pinboard_temp_blob_record :: "store_codec \<Rightarrow> reader \<Rightarrow> string \<Rightarrow> (bytes \<times> u64) option res" where
  "read_pinboard_temp_blob_record sc rd content_key =
     and_then (ok_or (StorageError ''get_pinboard_temp_blob'') (rd PinboardTempBlobsCf (str_bytes content_key))) (\<lambda>v.
       case v of
         None \<Rightarrow> Ok None
       | Some d \<Rightarrow> and_then (ok_or (StorageError ''deserialize_pinboard_temp_blob'') (dec_temp_blob sc d)) (\<lambda>r. Ok (Some r)))"

definition get_pinboard_temp_blob :: "store_codec \<Rightarrow> reader \<Rightarrow> string \<Rightarrow> bytes option res" where
  "get_pinboard_temp_blob sc rd content_key =
     and_then (read_pinboard_temp_blob_record sc rd content_key) (\<lambda>r. Ok (map_option fst r))"

definition write_pinboard_temp_blob_record ::
    "store_codec \<Rightarrow> ('db, 'tx) rocks \<Rightarrow> 'db \<Rightarrow> string \<Rightarrow> bytes \<times> u64 \<Rightarrow> 'db res" where
  "write_pinboard_temp_blob_record sc R db content_key r =
     and_then (ok_or (StorageError ''serialize_pinboard_temp_blob'') (enc_temp_blob sc (fst r) (snd r))) (\<lambda>d.
       ok_or (StorageError ''put_pinboard_temp_blob'') (db_put R db PinboardTempBlobsCf (str_bytes content_key) d))"

definition put_pinboard_temp_blob ::
    "store_codec \<Rightarrow> ('db, 'tx) rocks \<Rightarrow> 'db \<Rightarrow> string \<Rightarrow> bytes \<Rightarrow> u64 \<Rightarrow> 'db res" where
  "put_pinboard_temp_blob sc R db content_key blob expires = write_pinboard_temp_blob_record sc R db content_key (blob, expires)"

definition extend_pinboard_temp_blob_ttl ::
    "store_codec \<Rightarrow> ('db, 'tx) rocks \<Rightarrow> 'db \<Rightarrow> string \<Rightarrow> u64 \<Rightarrow> (bool \<times> 'db) res" where
  "extend_pinboard_temp_blob_ttl sc R db content_key expires =
     and_then (read_pinboard_temp_blob_record sc (db_get R db) content_key) (\<lambda>found.
       case found of
         None \<Rightarrow> Ok (False, db)
       | Some (blob, old) \<Rightarrow>
           if max expires old = old then Ok (True, db)
           else and_then (write_pinboard_temp_blob_record sc R db content_key (blob, max expires old))
                  (\<lambda>db'. Ok (True, db')))"

definition delete_pinboard_temp_blob_with_tx :: "('db, 'tx) rocks \<Rightarrow> string \<Rightarrow> 'tx \<Rightarrow> 'tx res" where
  "delete_pinboard_temp_blob_with_tx R content_key tx =
     ok_or (StorageError ''delete_pinboard_temp_blob_with_tx'') (tx_delete R tx PinboardTempBlobsCf (str_bytes content_key))"

definition get_pinboard_metadata :: "store_codec \<Rightarrow> reader \<Rightarrow> string \<Rightarrow> pinboard_metadata option res" where
  "get_pinboard_metadata sc rd key =
     and_then (ok_or (StorageError ''get_pinboard_metadata'') (rd PinboardMetaCf (str_bytes key))) (\<lambda>v.
       case v of
         None \<Rightarrow> Ok None
       | Some d \<Rightarrow> and_then (ok_or (StorageError ''deserialize_pinboard_metadata'') (dec_meta sc d)) (\<lambda>m. Ok (Some m)))"

text \<open>The read side the consensus connection uses.\<close>

definition store_view_of :: "('e) crates_scheme \<Rightarrow> store_codec \<Rightarrow> reader \<Rightarrow> store_view" where
  "store_view_of cr sc rd = \<lparr>sv_get_cado = get_cado_by_path cr sc rd, sv_proof_rewarded = db_challenge_rewarded rd,
     sv_proof_failed = db_challenge_failed rd, sv_temp_blob = get_pinboard_temp_blob sc rd\<rparr>"

section \<open>Keys determined by the path\<close>

definition stable_type :: "string \<Rightarrow> bool" where
  "stable_type ty \<longleftrightarrow> ty \<in> {''account'', ''staking_account'', ''storage_staking_account'', ''app_state_tip'',
     ''app_state_snapshot'', ''epoch_record'', ''namespace''}"

definition stable_key :: "('e) crates_scheme \<Rightarrow> cado_path \<Rightarrow> string" where
  "stable_key cr p = storage_key cr p
     (if path_type p \<in> {''account'', ''staking_account'', ''storage_staking_account''}
      then hex_encode (hex cr) (sha256 cr (str_bytes (path_name p))) else path_name p)"

lemma generate_key_stable:
  assumes "stable_type (path_type p)" "generate_key cr p b = Ok k"
  shows "k = stable_key cr p" "\<exists>l. generate_keys cr p b = Ok \<lparr>original_key = stable_key cr p, latest_key = l\<rparr>"
  using assms
  by (auto simp: generate_key_def generate_keys_def generate_latest_def stable_type_def stable_key_def
      account_original_key_def named_original_key_def account_latest_key_def
      split: if_splits option.splits cado_body.splits)

lemma storage_key_utf8:
  assumes "hex_documented (hex cr)"
  shows "from_utf8 (str_bytes (storage_key cr p h)) = Some (storage_key cr p h)"
proof (rule from_utf8_ascii)
  let ?bs = "sha256 cr (str_bytes (path_scope p @ ''|'' @ path_type p @ ''|'' @ h))"
  have "(of_char c :: nat) < 128" if "is_lower_hex c" for c
    using that by (auto simp: is_lower_hex_def Let_def)
  then have "list_all (\<lambda>c. (of_char c :: nat) < 128) (hex_encode (hex cr) ?bs)"
    using hex_documentedD(3) [OF assms, of ?bs] unfolding list_all_iff by blast
  then show "list_all (\<lambda>c. (of_char c :: nat) < 128) (storage_key cr p h)"
    by (simp add: storage_key_def)
qed

lemma stable_key_utf8:
  "hex_documented (hex cr) \<Longrightarrow> from_utf8 (str_bytes (stable_key cr p)) = Some (stable_key cr p)"
  unfolding stable_key_def by (rule storage_key_utf8)

lemma str_bytes_inj [simp]: "str_bytes s = str_bytes t \<longleftrightarrow> s = t"
proof
  have b: "unat (of_nat (of_char c) :: u8) = of_char c" for c by (simp add: unat_of_nat)
  have inv: "map (\<lambda>b. char_of (unat b)) (str_bytes s) = s" for s
    by (simp add: str_bytes_def b map_idI)
  assume "str_bytes s = str_bytes t"
  then show "s = t" by (metis inv)
qed simp

section \<open>The object store as a map\<close>

text \<open>What a stored object needs: \<^verbatim>\<open>bincode\<close> round trips on it within the limit of the reader.\<close>

definition cado_codec_ok :: "store_codec \<Rightarrow> string \<Rightarrow> cado_body \<Rightarrow> bool" where
  "cado_codec_ok sc ty b \<longleftrightarrow> (\<exists>d. enc_cado sc b = Some d \<and> dec_cado sc d = Some b \<and> d \<noteq> [] \<and>
     int (length d) \<le> (if ty = ''app_state_snapshot'' then 256 * 1024 * 1024 else 1048576))"

text \<open>The index entry of a path, when there is one, is the key computed from the path.\<close>

definition index_ok :: "('e) crates_scheme \<Rightarrow> reader \<Rightarrow> cado_path \<Rightarrow> bool" where
  "index_ok cr rd p \<longleftrightarrow> (\<forall>k. rd PathIndexCf (str_bytes (path_str p)) = Some (Some k) \<longrightarrow> k = str_bytes (stable_key cr p))"

lemma rd_update_simps [simp]:
  "rd_update rd cf k v cf' k' = (if cf' = cf \<and> k' = k then Some v else rd cf' k')"
  by (simp add: rd_update_def)

lemma rocks_laws:
  assumes "rocks_documented R"
  shows "tx_get R (transaction R db) = db_get R db"
    and "tx_put R t cf k v = Some t' \<Longrightarrow> tx_get R t' = rd_update (tx_get R t) cf k (Some v)"
    and "tx_delete R t cf k = Some t' \<Longrightarrow> tx_get R t' = rd_update (tx_get R t) cf k None"
    and "tx_commit R db t = Some db' \<Longrightarrow> db_get R db' = tx_get R t"
    and "db_put R db cf k v = Some db' \<Longrightarrow> db_get R db' = rd_update (db_get R db) cf k (Some v)"
  using assms unfolding rocks_documented_def by blast+

lemma put_cado_reader:
  assumes "rocks_documented R" "hex_documented (hex cr)" "put_cadotype_by_path_with_tx cr sc R tx p b = (Ok (), tx')"
    and "index_ok cr (tx_get R tx) p" "stable_type (path_type p)"
  obtains d where "enc_cado sc b = Some d" "validate_cado_path_internal (hex cr) p = Ok ()"
    "tx_get R tx' = rd_update (rd_update (tx_get R tx) CadoCf (str_bytes (stable_key cr p)) (Some d))
       PathIndexCf (str_bytes (path_str p)) (Some (str_bytes (stable_key cr p)))"
proof -
  obtain key d tx1 where pr: "put_cadotype_prepare cr sc (tx_get R tx) p b = Ok (key, d)"
    and w: "tx_put R tx CadoCf (str_bytes key) d = Some tx1"
    "tx_put R tx1 PathIndexCf (str_bytes (path_str p)) (str_bytes key) = Some tx'"
    using assms(3) unfolding put_cadotype_by_path_with_tx_def by (auto split: sum.splits option.splits)
  from pr obtain found where s: "validate_cado_path_internal (hex cr) p = Ok ()"
    "tx_get R tx PathIndexCf (str_bytes (path_str p)) = Some found"
    "(case found of Some bs \<Rightarrow> ok_or (StorageError ''utf8_decode_existing_key'') (from_utf8 bs)
       | None \<Rightarrow> map_err (\<lambda>_. StorageError ''key_generation'') (generate_key cr p b)) = Ok key"
    "enc_cado sc b = Some d"
    unfolding put_cadotype_prepare_def by (auto simp: result_simps)
  have "key = stable_key cr p"
  proof (cases found)
    case None
    then show ?thesis using s(3) generate_key_stable(1) [OF assms(5)] by (auto simp: map_err_Inr_iff)
  next
    case (Some bs)
    then have "bs = str_bytes (stable_key cr p)" using assms(4) s(2) by (simp add: index_ok_def)
    then show ?thesis using s(3) Some stable_key_utf8 [OF assms(2)] by (simp add: ok_or_iff)
  qed
  then show thesis using that [OF s(4,1)] rocks_laws(2) [OF assms(1) w(1)] rocks_laws(2) [OF assms(1) w(2)] by simp
qed


lemma get_cado_after_put:
  assumes "rocks_documented R" "hex_documented (hex cr)" "put_cadotype_by_path_with_tx cr sc R tx p b = (Ok (), tx')"
    and "index_ok cr (tx_get R tx) p" "stable_type (path_type p)" "cado_codec_ok sc (path_type p) b"
    and "generate_key cr p b = Ok k"
  shows "get_cado_by_path cr sc (tx_get R tx') p = Ok (Some b)"
proof -
  obtain d where d: "enc_cado sc b = Some d" "dec_cado sc d = Some b" "d \<noteq> []"
     "int (length d) \<le> (if path_type p = ''app_state_snapshot'' then 256 * 1024 * 1024 else 1048576)"
    using assms(6) unfolding cado_codec_ok_def by blast
  have "deserialize_stored_cado_type sc p d = Ok b"
    using d(2-4) by (auto simp: deserialize_stored_cado_type_def safe_deserialize_cado_data_def
        safe_bincode_deserialize_def split: if_splits)
  moreover obtain l where "generate_keys cr p b = Ok \<lparr>original_key = stable_key cr p, latest_key = l\<rparr>"
    using generate_key_stable(2) [OF assms(5,7)] by blast
  moreover obtain d' where "enc_cado sc b = Some d'" and v: "validate_cado_path_internal (hex cr) p = Ok ()"
    and r: "tx_get R tx' = rd_update (rd_update (tx_get R tx) CadoCf (str_bytes (stable_key cr p)) (Some d'))
       PathIndexCf (str_bytes (path_str p)) (Some (str_bytes (stable_key cr p)))"
    by (rule put_cado_reader [OF assms(1-5)])
  moreover from this d(1) have "d' = d" by simp
  ultimately show ?thesis
    by (simp add: get_cado_by_path_def stable_key_utf8 [OF assms(2)])
qed

lemma get_cado_other_path:
  assumes "rocks_documented R" "hex_documented (hex cr)" "put_cadotype_by_path_with_tx cr sc R tx p b = (Ok (), tx')"
    and "index_ok cr (tx_get R tx) p" "stable_type (path_type p)"
    and "index_ok cr (tx_get R tx) q" "path_str q \<noteq> path_str p" "stable_key cr q \<noteq> stable_key cr p"
  shows "get_cado_by_path cr sc (tx_get R tx') q = get_cado_by_path cr sc (tx_get R tx) q"
    "index_ok cr (tx_get R tx') q"
proof -
  obtain d where r: "tx_get R tx' = rd_update (rd_update (tx_get R tx) CadoCf (str_bytes (stable_key cr p)) (Some d))
       PathIndexCf (str_bytes (path_str p)) (Some (str_bytes (stable_key cr p)))"
    by (rule put_cado_reader [OF assms(1-5)])
  have i: "tx_get R tx' PathIndexCf (str_bytes (path_str q)) = tx_get R tx PathIndexCf (str_bytes (path_str q))"
    using assms(7) by (simp add: r)
  show "index_ok cr (tx_get R tx') q" using assms(6) by (simp add: index_ok_def i)
  show "get_cado_by_path cr sc (tx_get R tx') q = get_cado_by_path cr sc (tx_get R tx) q"
  proof (cases "\<exists>kb. tx_get R tx PathIndexCf (str_bytes (path_str q)) = Some (Some kb)")
    case True
    then obtain kb where kb: "tx_get R tx PathIndexCf (str_bytes (path_str q)) = Some (Some kb)" by blast
    then have "kb = str_bytes (stable_key cr q)" using assms(6) by (simp add: index_ok_def)
    moreover have "tx_get R tx' CadoCf (str_bytes (stable_key cr q)) = tx_get R tx CadoCf (str_bytes (stable_key cr q))"
      using assms(8) by (simp add: r)
    ultimately show ?thesis using kb i by (simp add: get_cado_by_path_def stable_key_utf8 [OF assms(2)])
  next
    case False
    then show ?thesis using i by (auto simp: get_cado_by_path_def ok_or_def split: option.splits)
  qed
qed

lemma index_ok_after_put:
  assumes "rocks_documented R" "hex_documented (hex cr)" "put_cadotype_by_path_with_tx cr sc R tx p b = (Ok (), tx')"
    and "index_ok cr (tx_get R tx) p" "stable_type (path_type p)"
  shows "index_ok cr (tx_get R tx') p"
  by (rule put_cado_reader [OF assms]) (simp add: index_ok_def)


section \<open>Constructed paths pass the security checks\<close>

definition path_char :: "char \<Rightarrow> bool" where
  "path_char c = (let v = (of_char c :: nat) in 33 \<le> v \<and> v \<le> 122 \<and> v \<noteq> 46 \<and> v \<noteq> 92 \<and> v \<noteq> 37)"

lemma path_char_lower: "path_char c \<Longrightarrow> path_char (lower_char c)"
  by (auto simp: path_char_def lower_char_def Let_def)

lemma lower_char_slash [simp]: "lower_char c = CHR ''/'' \<longleftrightarrow> c = CHR ''/''"
proof
  assume "lower_char c = CHR ''/''"
  then have "(of_char (lower_char c) :: nat) = 47" by simp
  then have "(of_char c :: nat) = of_char CHR ''/''" by (auto simp: lower_char_def Let_def split: if_splits)
  then show "c = CHR ''/''" by (simp only: of_char_eq_iff)
qed (simp add: lower_char_def)

lemma slash_lower: "CHR ''/'' \<in> set (to_ascii_lowercase w) \<longleftrightarrow> CHR ''/'' \<in> set w" "to_ascii_lowercase w = [] \<longleftrightarrow> w = []"
proof -
  show "CHR ''/'' \<in> set (to_ascii_lowercase w) \<longleftrightarrow> CHR ''/'' \<in> set w"
    unfolding to_ascii_lowercase_def set_map image_iff by (metis lower_char_slash)
qed (simp add: to_ascii_lowercase_def)

lemma no_control: "list_all path_char s \<Longrightarrow> \<not> has_forbidden_control s"
  by (induction s) (auto simp: path_char_def Let_def)

lemma contains_str_set: "contains_str p s \<Longrightarrow> set p \<subseteq> set s"
proof (induction s)
  case (Cons c s)
  have "set p \<subseteq> set (c # s)" if "starts_with p (c # s)"
    using that set_take_subset [of "length p" "c # s"] by (simp add: starts_with_def)
  with Cons show ?case by auto
qed simp

lemma no_double_slash:
  "(\<And>w. w \<in> set ps \<Longrightarrow> w \<noteq> [] \<and> CHR ''/'' \<notin> set w) \<Longrightarrow> \<not> contains_str ''//'' (slash_join ps)"
proof (induction ps)
  case (Cons w ps)
  have skip: "CHR ''/'' \<notin> set u \<Longrightarrow> contains_str ''//'' (u @ v) = contains_str ''//'' v" for u v
    by (induction u) (auto simp: starts_with_def)
  have "\<not> starts_with ''//'' (CHR ''/'' # w @ slash_join ps)"
    using Cons.prems [of w] by (cases w) (auto simp: starts_with_def)
  then show ?case
    using Cons skip [of w "slash_join ps"] by (simp add: slash_join_def)
qed (simp add: slash_join_def)

lemma traversal_patterns_chars:
  "list_all (\<lambda>pat. pat = ''//'' \<or> \<not> list_all path_char pat) traversal_patterns"
  by code_simp


lemma name_chars:
  assumes "hex_documented hx" "cado_path_new hx ty key = Ok p"
  shows "list_all path_char (path_name p)" "path_name p \<noteq> []" "length (path_name p) \<le> 66"
proof -
  have hexd: "is_hex_digit c \<Longrightarrow> path_char c" for c by (auto simp: is_hex_digit_def path_char_def Let_def)
  have slugc: "is_ascii_lowercase c \<or> is_ascii_digit c \<or> c = CHR ''-'' \<Longrightarrow> path_char c" for c
    by (auto simp: is_ascii_lowercase_def is_ascii_digit_def path_char_def Let_def)
  have "list_all path_char (path_name p) \<and> path_name p \<noteq> [] \<and> length (path_name p) \<le> 66"
  proof (cases "ty = NamespaceType")
    case True
    then have v: "validate_namespace_slug (path_name p) = Ok ()"
      using cado_path_new_shape(2) [OF assms(2)] by simp
    then have l: "3 \<le> length (path_name p)" "length (path_name p) \<le> 32"
      and a: "list_all (\<lambda>c. is_ascii_lowercase c \<or> is_ascii_digit c \<or> c = CHR ''-'') (path_name p)"
      by (simp_all add: validate_namespace_slug_def SLUG_MIN_LEN_def SLUG_MAX_LEN_def split: if_splits)
    have "list_all path_char (path_name p)" by (rule list.pred_mono_strong [OF a slugc])
    moreover have "path_name p \<noteq> []" using l(1) by auto
    ultimately show ?thesis using l(2) by simp
  next
    case False
    then obtain bs where b: "starts_with ''0x'' (path_name p)" "hex_decode hx (drop 2 (path_name p)) = Some bs"
      "length bs = expected_hex_length ty"
      using cado_path_new_shape(2) [OF assms(2)] by (auto simp: path_validate_hex_Inr)
    then have s: "path_name p = ''0x'' @ drop 2 (path_name p)"
      by (metis append_take_drop_id starts_with_def length_Cons list.size(3) numeral_2_eq_2)
    have "list_all path_char (drop 2 (path_name p))" "length (drop 2 (path_name p)) = 2 * length bs"
      using hex_documentedD(4,5) [OF assms(1) b(2)] hexd by (auto simp: list_all_iff)
    moreover have "length bs \<le> 32" using b(3) by (simp add: expected_hex_length_def)
    ultimately show ?thesis
      by (subst (1 2 3) s) (simp add: path_char_def)
  qed
  then show "list_all path_char (path_name p)" "path_name p \<noteq> []" "length (path_name p) \<le> 66" by simp_all
qed

lemma type_chars: "list_all path_char (cado_type_as_str ty)" "length (cado_type_as_str ty) \<le> 23" "cado_type_as_str ty \<noteq> []"
  by (cases ty; simp add: path_char_def)+

lemma constructed_path_valid:
  assumes "hex_documented hx" "cado_path_new hx ty key = Ok p"
  shows "validate_cado_path_internal hx p = Ok ()"
proof -
  let ?s = "path_str p" and ?t = "cado_type_as_str ty"
  have s: "?s = slash_join [''@eld'', ?t, path_name p]" "path_scope p = ''@eld''" "path_type p = ?t"
    using cado_path_new_shape(1) [OF assms(2)] by (auto simp: SCOPE_ELD_ROOT_def)
  note nc = name_chars [OF assms] and tc = type_chars [of ty]
  have ns: "CHR ''/'' \<notin> set (path_name p)" "CHR ''/'' \<notin> set ?t"
    using cado_path_new_no_slash [OF assms] slug_no_slash_cado_type by auto
  have ch: "list_all path_char ?s" using nc(1) tc(1) by (simp add: s slash_join_def path_char_def)
  have low: "to_ascii_lowercase ?s = slash_join (map to_ascii_lowercase [''@eld'', ?t, path_name p])"
    by (simp add: s(1) to_ascii_lowercase_def slash_join_def lower_char_def)
  have chl: "list_all path_char (to_ascii_lowercase ?s)"
    using ch path_char_lower by (auto simp: list_all_iff to_ascii_lowercase_def)
  have "\<not> contains_str ''//'' (slash_join (map to_ascii_lowercase [''@eld'', ?t, path_name p]))"
    using nc(2) tc(3) ns by (intro no_double_slash) (auto simp: slash_lower)
  moreover have "\<not> contains_str ''//'' (slash_join [''@eld'', ?t, path_name p])"
    using nc(2) tc(3) ns by (intro no_double_slash) auto
  ultimately have ds: "\<not> contains_str ''//'' (to_ascii_lowercase ?s)" "\<not> contains_str ''//'' ?s"
    unfolding low unfolding s(1) by blast+
  have "\<not> contains_str pat (to_ascii_lowercase ?s)" if pat: "pat \<in> set traversal_patterns" for pat
  proof (cases "pat = ''//''")
    case False
    then obtain c where c: "c \<in> set pat" "\<not> path_char c"
      using bspec [OF traversal_patterns_chars [unfolded list_all_iff] pat] by (auto simp: list_all_iff)
    have "c \<notin> set (to_ascii_lowercase ?s)" using chl c(2) unfolding list_all_iff by blast
    then show ?thesis using contains_str_set [of pat "to_ascii_lowercase ?s"] c(1) by blast
  qed (use ds(1) in simp)
  then have tr: "\<not> list_ex (\<lambda>pat. contains_str pat (to_ascii_lowercase ?s)) traversal_patterns"
    by (auto simp: list_ex_iff)
  have nul: "CHR 0x00 \<notin> set ?s" using ch by (auto simp: list_all_iff path_char_def)
  have "\<not> path_char CHR 0x5C" by (simp add: path_char_def)
  then have "CHR 0x5C \<notin> set ?s" using ch unfolding list_all_iff by blast
  then have bs: "\<not> contains_str (backslash @ backslash) ?s"
    using contains_str_set [of "backslash @ backslash" ?s] by (auto simp: backslash_def)
  have "split_on CHR ''/'' ?s = [[], ''@eld'', ?t, path_name p]"
    using split_on_append [OF ns(2), of "path_name p"] split_on_single [OF ns(1)] by (simp add: s slash_join_def)
  then have parts: "length (filter (\<lambda>w. w \<noteq> []) (split_on CHR ''/'' ?s)) = 3" using nc(2) tc(3) by simp
  obtain l c where lc: "path_name p = l @ [c]" using nc(2) by (metis rev_exhaust)
  then have e: "\<not> ends_with ''/'' ?s" "\<not> ends_with backslash ?s"
    using ns(1) nc(1) by (auto simp: s slash_join_def ends_with_def starts_with_def backslash_def path_char_def)
  have nm: "(if ?t = ''account'' \<or> ?t = ''staking_account'' \<or> ?t = ''storage_staking_account''
        then validate_name_hex hx (path_name p) 20 ''cado_path_name_address''
        else if ?t = ''namespace'' then validate_namespace_slug (path_name p)
        else validate_name_hex hx (path_name p) 32 ''cado_path_name_hex'') = Ok ()"
    using cado_path_new_shape(2) [OF assms(2)]
    by (cases ty) (auto simp: validate_name_hex_def path_validate_hex_Inr expected_hex_length_def is_address_type_def)
  have "length ?s \<le> MAX_PATH_LENGTH" using nc(3) tc(2) by (simp add: s slash_join_def MAX_PATH_LENGTH_def)
  then show ?thesis
    unfolding validate_cado_path_internal_def Let_def s(2,3) nm
    using nul no_control [OF ch] tr parts ds(2) bs e nc(2) cado_type_as_str_valid [of ty]
    by (simp add: ALLOWED_SCOPES_def)
qed


section \<open>Writes succeed and keep the index\<close>

text \<open>An engine that does not fail.\<close>

definition rocks_reliable :: "('db, 'tx) rocks \<Rightarrow> bool" where
  "rocks_reliable R \<longleftrightarrow> (\<forall>t cf k. tx_get R t cf k \<noteq> None) \<and> (\<forall>t cf k v. tx_put R t cf k v \<noteq> None) \<and>
     (\<forall>t cf k. tx_delete R t cf k \<noteq> None) \<and> (\<forall>db t. tx_commit R db t \<noteq> None)"

definition object_path :: "('e) crates_scheme \<Rightarrow> cado_path \<Rightarrow> bool" where
  "object_path cr p \<longleftrightarrow> (\<exists>ty key. cado_path_new (hex cr) ty key = Ok p) \<and> stable_type (path_type p)"

definition db_ok :: "('e) crates_scheme \<Rightarrow> reader \<Rightarrow> bool" where
  "db_ok cr rd \<longleftrightarrow> (\<forall>p. object_path cr p \<longrightarrow> index_ok cr rd p)"

lemma object_path_eq:
  assumes "hex_documented (hex cr)" "object_path cr p" "object_path cr q" "path_str p = path_str q"
  shows "p = q"
proof -
  obtain ty key ty' key' where k: "cado_path_new (hex cr) ty key = Ok p" "cado_path_new (hex cr) ty' key' = Ok q"
    using assms(2,3) by (auto simp: object_path_def)
  then show ?thesis using cado_path_new_determines [OF assms(1) k assms(4)] by simp
qed

lemma put_cado_succeeds:
  assumes "rocks_reliable R" "hex_documented (hex cr)" "db_ok cr (tx_get R tx)" "object_path cr p"
    and "generate_key cr p b = Ok k" "enc_cado sc b = Some d"
  shows "\<exists>tx'. put_cadotype_by_path_with_tx cr sc R tx p b = (Ok (), tx')"
proof -
  have v: "validate_cado_path_internal (hex cr) p = Ok ()"
    using assms(2,4) constructed_path_valid unfolding object_path_def by blast
  obtain found where f: "tx_get R tx PathIndexCf (str_bytes (path_str p)) = Some found"
    using assms(1) unfolding rocks_reliable_def by blast
  have "found = Some bs \<Longrightarrow> from_utf8 bs = Some (stable_key cr p)" for bs
    using assms(3,4) f stable_key_utf8 [OF assms(2)] by (auto simp: db_ok_def index_ok_def)
  then have "\<exists>key. put_cadotype_prepare cr sc (tx_get R tx) p b = Ok (key, d)"
    using v f assms(5,6) by (cases found) (auto simp: put_cadotype_prepare_def)
  then obtain key where pr: "put_cadotype_prepare cr sc (tx_get R tx) p b = Ok (key, d)" by blast
  obtain tx1 where t1: "tx_put R tx CadoCf (str_bytes key) d = Some tx1"
    using assms(1) unfolding rocks_reliable_def by blast
  obtain tx2 where "tx_put R tx1 PathIndexCf (str_bytes (path_str p)) (str_bytes key) = Some tx2"
    using assms(1) unfolding rocks_reliable_def by blast
  then show ?thesis by (simp add: put_cadotype_by_path_with_tx_def pr t1)
qed

lemma db_ok_put:
  assumes "rocks_documented R" "hex_documented (hex cr)" "db_ok cr (tx_get R tx)" "object_path cr p"
    and "put_cadotype_by_path_with_tx cr sc R tx p b = (Ok (), tx')"
  shows "db_ok cr (tx_get R tx')"
  unfolding db_ok_def
proof (intro allI impI)
  fix q assume q: "object_path cr q"
  have i: "index_ok cr (tx_get R tx) p" "index_ok cr (tx_get R tx) q" and s: "stable_type (path_type p)"
    using assms(3,4) q by (auto simp: db_ok_def object_path_def)
  obtain d where r: "tx_get R tx' = rd_update (rd_update (tx_get R tx) CadoCf (str_bytes (stable_key cr p)) (Some d))
       PathIndexCf (str_bytes (path_str p)) (Some (str_bytes (stable_key cr p)))"
    by (rule put_cado_reader [OF assms(1,2,5) i(1) s])
  show "index_ok cr (tx_get R tx') q"
    using i(2) object_path_eq [OF assms(2) q assms(4)] by (auto simp: index_ok_def r)
qed

text \<open>Objects staged by the handlers: an account or a staking account under its own address.\<close>

lemma account_key_ok:
  assumes "cado_path_new (hex cr) ty (KeyAddress a) = Ok p" "ty = AccountType \<or> ty = StakingAccountType"
    and "b = cado_mutable_updated (sha256 cr) h d (cado_metadata_new ty (hex_with_prefix (hex cr) a)) \<or>
         b = cado_mutable_new (sha256 cr) d (cado_metadata_new ty (hex_with_prefix (hex cr) a))"
  shows "generate_key cr p b = Ok (stable_key cr p)"
proof -
  have n: "path_name p = hex_with_prefix (hex cr) a" "path_type p = cado_type_as_str ty"
    using assms(1,2) by (auto simp: cado_path_new_def Let_def FOUR_PART_PATH_TYPES_def result_simps)
  have "path_validate_hex (hex cr) (path_name p) 20 ''name'' = Ok ()"
    using cado_path_new_shape(2) [OF assms(1)] assms(2) by (auto simp: expected_hex_length_def is_address_type_def)
  then show ?thesis
    using assms(2,3) n
    by (auto simp: generate_key_def account_original_key_def stable_key_def path_validate_hex_Inr
        cado_mutable_updated_def cado_mutable_new_def cado_metadata_new_def)
qed

end
