(* ===== verification/Snapshot.thy ===== *)
theory Snapshot
  imports Storage
begin

text \<open>
  The persisted head of the chain and the restart of a node (\<^verbatim>\<open>node_app/src/app_state\<close>: \<^verbatim>\<open>tip.rs\<close>,
  \<^verbatim>\<open>app_state_snapshot.rs\<close> and \<^verbatim>\<open>app.rs\<close>): the tip, the epoch snapshot, restoring a state from a snapshot
  and \<^verbatim>\<open>initialize_with_data\<close>.  A call of \<^verbatim>\<open>handle_fatal_eld_error\<close> ends the process; it is the outer
  \<^term>\<open>None\<close>.
\<close>

section \<open>Tip and snapshot\<close>

record app_state_tip =
  tip_block_height :: int
  cado_root_hash :: bytes
  tip_app_hash :: bytes

record app_state_snapshot =
  sn_block_height :: int
  sn_app_hash :: bytes
  sn_chain_id :: string
  sn_current_epoch :: int
  sn_committed_cado_cache :: "(string \<times> cado_body) list"
  sn_state_trie_root :: bytes
  sn_epoch_records_index :: "int list"
  sn_namespace_registry_index :: "(string \<times> namespace_record) list"
  sn_validators :: "validator_info list"
  sn_active_validators :: "validator_info list"
  sn_capacity_validators :: "capacity_validator_info list"
  sn_active_capacity_validator :: "active_capacity_validator option"

text \<open>\<^verbatim>\<open>bincode\<close> for the two.\<close>

record head_codec =
  enc_tip :: "app_state_tip \<Rightarrow> bytes option"
  dec_tip :: "bytes \<Rightarrow> app_state_tip option"
  enc_snapshot :: "app_state_snapshot \<Rightarrow> bytes option"
  dec_snapshot :: "bytes \<Rightarrow> app_state_snapshot option"

definition tip_genesis :: "node_crates \<Rightarrow> app_state_tip" where
  "tip_genesis cr = \<lparr>tip_block_height = 0, cado_root_hash = trie_root cr [], tip_app_hash = sha256 cr (str_bytes ''genesis'')\<rparr>"

definition is_infrastructure_cado_path :: "hex_lib \<Rightarrow> string \<Rightarrow> bool" where
  "is_infrastructure_cado_path hx s = (case cado_path_parse hx s of Inl _ \<Rightarrow> False | Inr p \<Rightarrow> path_is_infrastructure p)"

definition without_infrastructure :: "hex_lib \<Rightarrow> (string \<times> cado_body) list \<Rightarrow> (string \<times> cado_body) list" where
  "without_infrastructure hx c = filter (\<lambda>(k, b). \<not> is_infrastructure_cado_path hx k) c"

definition app_hash_bytes :: "app_state \<Rightarrow> bytes res" where
  "app_hash_bytes s = ok_or (ValidationError ''app_hash'') (app_hash s)"

definition snapshot_new :: "node_crates \<Rightarrow> app_state \<Rightarrow> app_state_snapshot res" where
  "snapshot_new cr s = (let e = app_envelope s in
     and_then (app_hash_bytes s) (\<lambda>h.
       Ok \<lparr>sn_block_height = block_height e, sn_app_hash = h, sn_chain_id = chain_id s,
         sn_current_epoch = current_epoch e,
         sn_committed_cado_cache = without_infrastructure (hex cr) (committed_cado_cache e),
         sn_state_trie_root = trie_root cr (state_trie e),
         sn_epoch_records_index = epoch_records_index e,
         sn_namespace_registry_index = namespace_registry_index e,
         sn_validators = validators e, sn_active_validators = active_validators e,
         sn_capacity_validators = capacity_validators e,
         sn_active_capacity_validator = active_capacity_validator e\<rparr>))"

definition apply_to_state :: "node_crates \<Rightarrow> app_state_snapshot \<Rightarrow> app_state \<Rightarrow> bytes \<Rightarrow> app_state res" where
  "apply_to_state cr sn s root =
    (let e = (app_envelope s)\<lparr>block_height := sn_block_height sn, current_epoch := sn_current_epoch sn,
           committed_cado_cache := without_infrastructure (hex cr) (sn_committed_cado_cache sn),
           epoch_records_index := sn_epoch_records_index sn,
           namespace_registry_index := sn_namespace_registry_index sn,
           validators := sn_validators sn, active_validators := sn_active_validators sn,
           capacity_validators := sn_capacity_validators sn,
           active_capacity_validator := sn_active_capacity_validator sn\<rparr>;
         e' = rebuild_state_trie_from_cache e;
         s' = \<lparr>app_hash = Some (sn_app_hash sn), app_envelope = e', chain_id = sn_chain_id sn\<rparr> in
     if trie_root cr (state_trie e') \<noteq> root then Err (ValidationError ''trie_root_hash'')
     else if sn_state_trie_root sn \<noteq> root then Err (ValidationError ''state_trie_root'')
     else Ok s')"

definition snapshot_to_cado :: "node_crates \<Rightarrow> head_codec \<Rightarrow> app_state_snapshot \<Rightarrow> cado_body res" where
  "snapshot_to_cado cr hc sn =
     and_then (ok_or (StorageError ''serialize_app_state_snapshot'') (enc_snapshot hc sn)) (\<lambda>d.
       Ok (cado_immutable (sha256 cr) d (cado_metadata_new AppStateSnapshotType ''system'')))"

definition snapshot_create_path :: "node_crates \<Rightarrow> string \<Rightarrow> cado_path res" where
  "snapshot_create_path cr i =
     cado_path_new (hex cr) AppStateSnapshotType (KeyName (''0x'' @ hex_encode (hex cr) (sha256 cr (str_bytes i))))"

definition snapshot_latest_path :: "node_crates \<Rightarrow> cado_path res" where
  "snapshot_latest_path cr = snapshot_create_path cr ''latest''"

section \<open>Restart\<close>

definition get_deserialized_cado_by_path ::
    "node_crates \<Rightarrow> store_codec \<Rightarrow> reader \<Rightarrow> (bytes \<Rightarrow> 'a option) \<Rightarrow> cado_path \<Rightarrow> 'a res" where
  "get_deserialized_cado_by_path cr sc rd dec p =
     and_then (get_cado_by_path cr sc rd p) (\<lambda>found.
     and_then (ok_or (NotFoundError ''CADO'') found) (\<lambda>b.
       ok_or (StorageError ''deserialize'') (dec (body_data b))))"

definition has_persisted_app_state_tip :: "node_crates \<Rightarrow> store_codec \<Rightarrow> reader \<Rightarrow> bool res" where
  "has_persisted_app_state_tip cr sc rd =
     and_then (cado_path_new (hex cr) AppStateTipType (KeyName LATEST)) (\<lambda>p.
     and_then (get_cado_by_path cr sc rd p) (\<lambda>found. Ok (found \<noteq> None)))"

text \<open>The branch of \<^verbatim>\<open>initialize_with_data\<close> that found a tip: the snapshot must be there, of the same height
  and hash, and apply; everything else is fatal.\<close>

definition restore_snapshot ::
    "node_crates \<Rightarrow> store_codec \<Rightarrow> head_codec \<Rightarrow> reader \<Rightarrow> app_state_tip \<Rightarrow> app_state \<Rightarrow> app_state option" where
  "restore_snapshot cr sc hc rd tip s =
    (case snapshot_latest_path cr of
       Inl _ \<Rightarrow> None
     | Inr p \<Rightarrow> (case get_deserialized_cado_by_path cr sc rd (dec_snapshot hc) p of
         Inl _ \<Rightarrow> None
       | Inr sn \<Rightarrow>
          if sn_block_height sn \<noteq> tip_block_height tip then None
          else if sn_app_hash sn \<noteq> tip_app_hash tip then None
          else (case apply_to_state cr sn s (cado_root_hash tip) of Inl _ \<Rightarrow> None | Inr s' \<Rightarrow> Some s')))"

definition initialize_with_data ::
    "node_crates \<Rightarrow> store_codec \<Rightarrow> head_codec \<Rightarrow> reader \<Rightarrow> app_state \<Rightarrow> app_state res option" where
  "initialize_with_data cr sc hc rd s0 =
    (let s = s0\<lparr>app_envelope := (app_envelope s0)\<lparr>state_trie := []\<rparr>\<rparr> in
     case cado_path_new (hex cr) AppStateTipType (KeyName LATEST) of
       Inl _ \<Rightarrow> None
     | Inr p \<Rightarrow> (case get_deserialized_cado_by_path cr sc rd (dec_tip hc) p of
         Inl (NotFoundError _) \<Rightarrow>
           Some (Ok (s\<lparr>app_hash := Some (tip_app_hash (tip_genesis cr)),
              app_envelope := (app_envelope s)\<lparr>block_height := tip_block_height (tip_genesis cr)\<rparr>\<rparr>))
       | Inl err \<Rightarrow> Some (Err err)
       | Inr tip \<Rightarrow> map_option Ok (restore_snapshot cr sc hc rd tip
            (s\<lparr>app_hash := Some (tip_app_hash tip),
               app_envelope := (app_envelope s)\<lparr>block_height := tip_block_height tip\<rparr>\<rparr>))))"


section \<open>A snapshot and its restoration\<close>

text \<open>What commits maintain: the trie is the one of the committed objects, and no infrastructure object is
  among them.\<close>

definition trie_consistent :: "hex_lib \<Rightarrow> envelope \<Rightarrow> bool" where
  "trie_consistent hx e \<longleftrightarrow> state_trie e = state_trie (rebuild_state_trie_from_cache e) \<and>
     (\<forall>k b. (k, b) \<in> set (committed_cado_cache e) \<longrightarrow> \<not> is_infrastructure_cado_path hx k)"

lemma without_infrastructure_id:
  "(\<And>k b. (k, b) \<in> set c \<Longrightarrow> \<not> is_infrastructure_cado_path hx k) \<Longrightarrow> without_infrastructure hx c = c"
  unfolding without_infrastructure_def by (rule filter_True) auto

lemma rebuild_trie_eq:
  "committed_cado_cache e = committed_cado_cache e' \<Longrightarrow>
   state_trie (rebuild_state_trie_from_cache e) = state_trie (rebuild_state_trie_from_cache e')"
  by (simp add: rebuild_state_trie_from_cache_def)

lemma snapshot_applies:
  assumes "trie_consistent (hex cr) (app_envelope s)" "snapshot_new cr s = Ok sn"
  obtains s' where "apply_to_state cr sn s0 (trie_root cr (state_trie (app_envelope s))) = Ok s'"
    "app_hash s' = app_hash s" "chain_id s' = chain_id s"
    "committed_cado_cache (app_envelope s') = committed_cado_cache (app_envelope s)"
    "cado_cache (app_envelope s') = cado_cache (app_envelope s0)"
    "epoch_records_index (app_envelope s') = epoch_records_index (app_envelope s)"
    "namespace_registry_index (app_envelope s') = namespace_registry_index (app_envelope s)"
    "app_hash_fields cr (app_envelope s') =
       (app_hash_fields cr (app_envelope s))\<lparr>ah_failed_proof_counts := failed_proof_counts (app_envelope s0)\<rparr>"
proof -
  let ?e = "app_envelope s"
  obtain h where h: "app_hash s = Some h"
    using assms(2) by (auto simp: snapshot_new_def app_hash_bytes_def Let_def result_simps)
  have w: "without_infrastructure (hex cr) (committed_cado_cache ?e) = committed_cado_cache ?e"
    using assms(1) by (intro without_infrastructure_id) (auto simp: trie_consistent_def)
  have t: "state_trie (rebuild_state_trie_from_cache e0) = state_trie ?e"
    if "committed_cado_cache e0 = committed_cado_cache ?e" for e0
    using assms(1) rebuild_trie_eq [OF that] by (simp add: trie_consistent_def)
  have rb: "rebuild_state_trie_from_cache e0 = e0\<lparr>state_trie := state_trie ?e\<rparr>"
    if "committed_cado_cache e0 = committed_cado_cache ?e" for e0
    using t [OF that] by (simp add: rebuild_state_trie_from_cache_def)
  let ?e0 = "(app_envelope s0)\<lparr>block_height := block_height ?e, current_epoch := current_epoch ?e,
      committed_cado_cache := committed_cado_cache ?e, epoch_records_index := epoch_records_index ?e,
      namespace_registry_index := namespace_registry_index ?e, validators := validators ?e,
      active_validators := active_validators ?e, capacity_validators := capacity_validators ?e,
      active_capacity_validator := active_capacity_validator ?e\<rparr>"
  show thesis
    by (rule that [of "\<lparr>app_hash = app_hash s, app_envelope = rebuild_state_trie_from_cache ?e0, chain_id = chain_id s\<rparr>"])
      (use assms(2) h w in \<open>auto simp: snapshot_new_def app_hash_bytes_def apply_to_state_def Let_def
        rb app_hash_fields_def\<close>)
qed


lemma restore_snapshot_mismatch:
  assumes "\<And>p sn. snapshot_latest_path cr = Ok p \<Longrightarrow> get_deserialized_cado_by_path cr sc rd (dec_snapshot hc) p = Ok sn \<Longrightarrow>
      sn_block_height sn \<noteq> tip_block_height tip"
  shows "restore_snapshot cr sc hc rd tip s = None"
  using assms by (auto simp: restore_snapshot_def split: sum.splits)

section \<open>Properties\<close>


definition demo_failed_state :: app_state where
  "demo_failed_state = \<lparr>app_hash = Some [1], app_envelope = empty_envelope\<lparr>failed_proof_counts := [(Address [], 1)]\<rparr>, chain_id = []\<rparr>"


end
