(* ===== verification/Block.thy ===== *)
theory Block
  imports Deliver Epoch Snapshot
begin

text \<open>
  The life of a block (\<^verbatim>\<open>node_app/src/abci_interface/consensus\<close>): \<^verbatim>\<open>begin_block.rs\<close>, the deliveries,
  \<^verbatim>\<open>end_block.rs\<close> with the turn of an epoch, \<^verbatim>\<open>commit.rs\<close>, and \<^verbatim>\<open>init_chain.rs\<close>.  A call of
  \<^verbatim>\<open>handle_fatal_eld_error\<close> ends the process and, like a panic, is \<^term>\<open>None\<close>.  Not modelled: the
  readiness signal, the counters of object types, log lines, the poisoning of locks and the
  background tasks a commit starts (the snapshot of the state-sync protocol and the mirroring of blobs
  into capacity slots), of which the list of blobs is part of the result.
\<close>

section \<open>Beginning and ending a block\<close>

definition begin_block_inner :: "consensus_connection \<Rightarrow> consensus_connection" where
  "begin_block_inner c = c\<lparr>current_state := Some (committed_state c)\<rparr>"

text \<open>The effects of \<^verbatim>\<open>end_block_inner\<close> outside the state: the validator updates returned to the consensus
  engine and the challenges sent.\<close>

record end_block_result =
  validator_updates :: "(bytes \<times> int) list"
  challenge_calls :: "p2p_call list"

definition start_epoch ::
    "node_crates \<Rightarrow> 'g std_rng \<Rightarrow> protocol_constants \<Rightarrow> app_state \<Rightarrow> int \<Rightarrow> app_state option" where
  "start_epoch cr rng pc s new_epoch =
    (let e = app_envelope s;
         e1 = e\<lparr>capacity_validators := fst (expire_capacity_registrations (capacity_validators e)
                                             (word_of_int (block_height e)))\<rparr>;
         e2 = select_validators_for_epoch pc e1;
         s3 = select_active_capacity_validator_for_epoch cr rng pc (s\<lparr>app_envelope := e2\<rparr>) new_epoch;
         e3 = app_envelope s3 in
     case store_epoch_record cr e3 (build_epoch_record e3 new_epoch (blocks_per_epoch pc)) of
       Inl _ \<Rightarrow> None
     | Inr e4 \<Rightarrow> Some (s3\<lparr>app_envelope := e4\<lparr>current_epoch := new_epoch\<rparr>\<rparr>))"

definition end_block_inner ::
    "node_crates \<Rightarrow> proof_crates \<Rightarrow> 'g std_rng \<Rightarrow> protocol_constants \<Rightarrow> address option \<Rightarrow> u64 \<Rightarrow> consensus_connection \<Rightarrow> int
     \<Rightarrow> (end_block_result \<times> consensus_connection) option" where
  "end_block_inner cr pcr rng pc identity now c height =
    (if blocks_per_epoch pc = 0 then None
     else (let new_epoch = height sdiv blocks_per_epoch pc in
      case current_state c of
        None \<Rightarrow> None
      | Some s0 \<Rightarrow>
         (let s1 = s0\<lparr>app_envelope := (app_envelope s0)\<lparr>block_height := height\<rparr>\<rparr>;
              turn = (new_epoch > current_epoch (app_envelope s0)) in
          case (if turn then start_epoch cr rng pc s1 new_epoch else Some s1) of
            None \<Rightarrow> None
          | Some s2 \<Rightarrow>
             (let e = app_envelope s2;
                  s3 = s2\<lparr>app_hash := Some (calculate_app_hash cr e)\<rparr>;
                  calls = (if turn then
                      (case active_capacity_validator e of
                         None \<Rightarrow> []
                       | Some sv \<Rightarrow>
                           if should_this_node_send_challenges identity (validator_address sv) then
                             fst (generate_challenges_internal cr pcr
                               (build_challenged_capacity_provider_data e (challenged_providers sv))
                               new_epoch (block_height e) (validator_address sv) now (chunks_per_challenge pc))
                           else [])
                    else []) in
              Some (\<lparr>validator_updates = (if turn then map (\<lambda>v. (vi_public_key v, 10)) (active_validators e) else []),
                     challenge_calls = calls\<rparr>,
                    c\<lparr>current_state := Some s3\<rparr>)))))"

section \<open>Commit\<close>

text \<open>A loop of storage writes whose first failure is fatal.\<close>

fun write_all :: "('a \<Rightarrow> 'tx \<Rightarrow> 'tx res) \<Rightarrow> 'a list \<Rightarrow> 'tx \<Rightarrow> 'tx option" where
  "write_all f [] tx = Some tx"
| "write_all f (x # xs) tx = (case f x tx of Inl _ \<Rightarrow> None | Inr tx1 \<Rightarrow> write_all f xs tx1)"

definition remove_deleted :: "envelope \<Rightarrow> envelope" where
  "remove_deleted e = (let gone = map (\<lambda>d. path_str (del_path d)) (cado_cache_to_delete e) in
     e\<lparr>cado_cache := fold bt_remove gone (cado_cache e),
       committed_cado_cache := fold bt_remove gone (committed_cado_cache e),
       state_trie := fold bt_remove gone (state_trie e),
       cado_cache_to_delete := []\<rparr>)"

text \<open>The loop that writes the staged objects and collects the ones that could not be written.\<close>

fun put_cados ::
    "node_crates \<Rightarrow> store_codec \<Rightarrow> ('db, 'tx) rocks \<Rightarrow> 'tx \<Rightarrow> (string \<times> cado_body) list \<Rightarrow> 'tx \<times> string list" where
  "put_cados cr sc R tx [] = (tx, [])"
| "put_cados cr sc R tx ((key, b) # rest) =
    (if is_infrastructure_cado_path (hex cr) key then put_cados cr sc R tx rest
     else (case cado_path_parse (hex cr) key of
         Inl _ \<Rightarrow> (case put_cados cr sc R tx rest of (tx', failed) \<Rightarrow> (tx', key # failed))
       | Inr p \<Rightarrow> (case put_cadotype_by_path_with_tx cr sc R tx p b of
           (Inl _, tx1) \<Rightarrow> (case put_cados cr sc R tx1 rest of (tx', failed) \<Rightarrow> (tx', key # failed))
         | (Inr _, tx1) \<Rightarrow> put_cados cr sc R tx1 rest)))"

text \<open>The blobs of the staged posts; a missing one is fatal.\<close>

fun collect_blobs :: "store_codec \<Rightarrow> reader \<Rightarrow> (string \<times> pinboard_metadata) list \<Rightarrow> (string \<times> bytes) list
     \<Rightarrow> (string \<times> bytes) list option" where
  "collect_blobs sc rd [] acc = Some acc"
| "collect_blobs sc rd ((mid, meta) # rest) acc =
    (case get_pinboard_temp_blob sc rd (pb_content_key meta) of
       Inr (Some blob) \<Rightarrow> collect_blobs sc rd rest (bt_insert (pb_content_key meta) blob acc)
     | _ \<Rightarrow> None)"

fun delete_temp_blobs :: "('db, 'tx) rocks \<Rightarrow> string list \<Rightarrow> 'tx \<Rightarrow> 'tx" where
  "delete_temp_blobs R [] tx = tx"
| "delete_temp_blobs R (k # ks) tx = (case delete_pinboard_temp_blob_with_tx R k tx of
     Inl _ \<Rightarrow> delete_temp_blobs R ks tx | Inr tx1 \<Rightarrow> delete_temp_blobs R ks tx1)"

definition commit_pinboard ::
    "store_codec \<Rightarrow> ('db, 'tx) rocks \<Rightarrow> 'db \<Rightarrow> envelope \<Rightarrow> 'tx \<Rightarrow> ((string \<times> bytes) list \<times> 'tx) option" where
  "commit_pinboard sc R db e tx =
    (case collect_blobs sc (db_get R db) (pinboard_meta_cache e) [] of
       None \<Rightarrow> None
     | Some blobs \<Rightarrow>
        (case write_all (\<lambda>(mid, meta). put_pinboard_metadata_with_tx sc R mid meta) (pinboard_meta_cache e) tx of
           None \<Rightarrow> None
         | Some t1 \<Rightarrow> (case write_all (\<lambda>(w, h, mid). put_pinboard_wallet_index_with_tx R w h mid) (pinboard_idx_wallet_add e) t1 of
             None \<Rightarrow> None
           | Some t2 \<Rightarrow> (case write_all (\<lambda>(tag, h, mid). put_pinboard_tag_index_with_tx R tag h mid) (pinboard_idx_tag_add e) t2 of
               None \<Rightarrow> None
             | Some t3 \<Rightarrow> (case write_all (\<lambda>(h, mid). put_pinboard_expiry_index_with_tx R h mid) (pinboard_idx_expiry_add e) t3 of
                 None \<Rightarrow> None
               | Some t4 \<Rightarrow> (case write_all (\<lambda>(h, mid). put_pinboard_commit_index_with_tx R h mid) (pinboard_idx_commit_add e) t4 of
                   None \<Rightarrow> None
                 | Some t5 \<Rightarrow> (case write_all (\<lambda>(k, delta) t. map_sum id snd (update_pinboard_refcount_with_tx sc R k delta t))
                                     (pinboard_refcount_deltas e) t5 of
                     None \<Rightarrow> None
                   | Some t6 \<Rightarrow> Some (blobs, delete_temp_blobs R (map fst blobs) t6))))))))"

definition clear_pinboard :: "envelope \<Rightarrow> envelope" where
  "clear_pinboard e = e\<lparr>pinboard_meta_cache := [], pinboard_idx_wallet_add := [], pinboard_idx_tag_add := [],
     pinboard_idx_expiry_add := [], pinboard_idx_commit_add := [], pinboard_refcount_deltas := []\<rparr>"

text \<open>The registry writes; a record that cannot be written is skipped.\<close>

fun commit_namespaces ::
    "node_crates \<Rightarrow> store_codec \<Rightarrow> ('db, 'tx) rocks \<Rightarrow> (string \<times> namespace_record) list \<Rightarrow> 'tx \<times> envelope \<Rightarrow> 'tx \<times> envelope" where
  "commit_namespaces cr sc R [] (tx, e) = (tx, e)"
| "commit_namespaces cr sc R ((slug, rec) # rest) (tx, e) =
    (case slug_to_namespace_cadopath (hex cr) slug of
       Inl _ \<Rightarrow> commit_namespaces cr sc R rest (tx, e)
     | Inr p \<Rightarrow> (case enc_namespace cr rec of
         None \<Rightarrow> commit_namespaces cr sc R rest (tx, e)
       | Some d \<Rightarrow>
          (let cado = cado_immutable (sha256 cr) d (cado_metadata_new NamespaceType slug) in
           (case put_cadotype_by_path_with_tx cr sc R tx p cado of
              (Inl _, tx1) \<Rightarrow> commit_namespaces cr sc R rest (tx1, e)
            | (Inr _, tx1) \<Rightarrow> commit_namespaces cr sc R rest (tx1,
                e\<lparr>committed_cado_cache := bt_insert (path_str p) cado (committed_cado_cache e),
                  state_trie := bt_insert (path_str p) (content_hash cado) (state_trie e),
                  namespace_registry_index := bt_insert slug rec (namespace_registry_index e)\<rparr>)))))"

definition merge_staged :: "node_crates \<Rightarrow> envelope \<Rightarrow> envelope" where
  "merge_staged cr e =
    (let own = filter (\<lambda>(k, b). \<not> is_infrastructure_cado_path (hex cr) k) (cado_cache e);
         e1 = e\<lparr>committed_cado_cache := fold (\<lambda>(k, b). bt_insert k b) own (committed_cado_cache e)\<rparr>;
         e2 = fold (\<lambda>(k, b) e. insert_epoch_records_index_from_path e k) (cado_cache e) e1 in
     e2\<lparr>state_trie := fold (\<lambda>(k, b). bt_insert k (content_hash b)) own (state_trie e2)\<rparr>)"

definition write_head ::
    "node_crates \<Rightarrow> store_codec \<Rightarrow> head_codec \<Rightarrow> ('db, 'tx) rocks \<Rightarrow> protocol_constants \<Rightarrow> app_state \<Rightarrow> 'tx \<Rightarrow> 'tx option" where
  "write_head cr sc hc R pc s tx =
    (case app_hash_bytes s of
       Inl _ \<Rightarrow> None
     | Inr h \<Rightarrow> (case enc_tip hc \<lparr>tip_block_height = block_height (app_envelope s),
                     cado_root_hash = trie_root cr (state_trie (app_envelope s)), tip_app_hash = h\<rparr> of
         None \<Rightarrow> None
       | Some d \<Rightarrow>
          (let cado = cado_immutable (sha256 cr) d (cado_metadata_new AppStateTipType ''system'') in
           (case cado_path_new (hex cr) AppStateTipType (KeyName (''0x'' @ hex_encode (hex cr) (sha256 cr d))) of
              Inl _ \<Rightarrow> None
            | Inr tip_path \<Rightarrow> (case cado_path_new (hex cr) AppStateTipType (KeyName LATEST) of
                Inl _ \<Rightarrow> None
              | Inr latest_path \<Rightarrow> (case put_cadotype_by_path_with_tx cr sc R tx tip_path cado of
                  (Inl _, _) \<Rightarrow> None
                | (Inr _, t1) \<Rightarrow> (case put_cadotype_by_path_with_tx cr sc R t1 latest_path cado of
                    (Inl _, _) \<Rightarrow> None
                  | (Inr _, t2) \<Rightarrow>
                     (if block_height (app_envelope s) smod blocks_per_epoch pc \<noteq> 0 then Some t2
                      else (case snapshot_new cr s of
                          Inl _ \<Rightarrow> None
                        | Inr sn \<Rightarrow> (case snapshot_to_cado cr hc sn of
                            Inl _ \<Rightarrow> None
                          | Inr sn_cado \<Rightarrow> (case snapshot_latest_path cr of
                              Inl _ \<Rightarrow> None
                            | Inr sn_path \<Rightarrow> (case put_cadotype_by_path_with_tx cr sc R t2 sn_path sn_cado of
                                (Inl _, _) \<Rightarrow> None
                              | (Inr _, t3) \<Rightarrow> Some t3))))))))))))"

record commit_result =
  response_data :: bytes
  mirrored_blobs :: "(string \<times> bytes) list"
  announced :: "(string \<times> pinboard_metadata) list"

text \<open>Option-valued steps in the order of the source; \<^term>\<open>None\<close> ends the process.\<close>

definition commit_objects ::
    "node_crates \<Rightarrow> store_codec \<Rightarrow> ('db, 'tx) rocks \<Rightarrow> protocol_constants \<Rightarrow> 'db \<Rightarrow> envelope \<Rightarrow> ('tx \<times> envelope) option" where
  "commit_objects cr sc R pc db e0 = do {
     let e1 = (if (block_height e0 + 1) sdiv blocks_per_epoch pc > current_epoch e0
               then select_validators_for_epoch pc e0 else e0);
     t1 \<leftarrow> write_all (\<lambda>d t. system_delete_cado_with_tx cr sc R db t (del_path d) (del_owner d))
            (cado_cache_to_delete e1) (transaction R db);
     let e2 = remove_deleted e1;
     let (t2, failed) = put_cados cr sc R t1 (cado_cache e2);
     Some (t2, e2\<lparr>cado_cache := fold bt_remove failed (cado_cache e2)\<rparr>)
   }"

definition commit_markers :: "('db, 'tx) rocks \<Rightarrow> envelope \<Rightarrow> 'tx \<Rightarrow> ('tx \<times> envelope) option" where
  "commit_markers R e t = do {
     t1 \<leftarrow> write_all (put_verified_proof_challenge_rewarded_with_tx R) (verified_proof_rewarded_cache e) t;
     t2 \<leftarrow> write_all (put_verified_proof_challenge_failed_with_tx R) (failed_proof_counted_cache e) t1;
     Some (t2, e\<lparr>verified_proof_rewarded_cache := [], failed_proof_counted_cache := []\<rparr>)
   }"

definition commit_inner ::
    "node_crates \<Rightarrow> store_codec \<Rightarrow> head_codec \<Rightarrow> ('db, 'tx) rocks \<Rightarrow> protocol_constants \<Rightarrow> 'db \<Rightarrow> consensus_connection
     \<Rightarrow> (commit_result \<times> 'db \<times> consensus_connection) option" where
  "commit_inner cr sc hc R pc db c = do {
     s0 \<leftarrow> current_state c;
     h \<leftarrow> app_hash s0;
     if blocks_per_epoch pc = 0 then None else do {
       (t1, e1) \<leftarrow> commit_objects cr sc R pc db (app_envelope s0);
       (blobs, t2) \<leftarrow> commit_pinboard sc R db e1 t1;
       (t3, e3) \<leftarrow> commit_markers R (clear_pinboard e1) t2;
       let (t4, e4) = commit_namespaces cr sc R (namespace_registry_cache e3) (t3, e3);
       let e5 = merge_staged cr (e4\<lparr>namespace_registry_cache := []\<rparr>);
       t5 \<leftarrow> write_head cr sc hc R pc (s0\<lparr>app_envelope := e5\<rparr>) t4;
       let announcements = pinboard_meta_cache e5;
       db' \<leftarrow> tx_commit R db t5;
       Some (\<lparr>response_data = h, mirrored_blobs = blobs, announced = announcements\<rparr>, db',
         c\<lparr>committed_state := s0\<lparr>app_envelope := e5\<lparr>cado_cache := []\<rparr>\<rparr>\<rparr>)
     }
   }"

end
