(* ===== verification/Staging.thy ===== *)
theory Staging
  imports Deliver
begin

text \<open>
  What a delivery may do to the staged objects: it only adds account and staking objects, each at the path of
  its own address, and leaves the committed objects, the state trie, the pending deletions and the
  position of the block alone.  The relation \<open>stages\<close> says so; every handler run, failed ones
  included, and the charging of the sender satisfy it.
\<close>

section \<open>The relation\<close>

definition same_objects :: "envelope \<Rightarrow> envelope \<Rightarrow> bool" where
  "same_objects e e' \<longleftrightarrow> cado_cache e' = cado_cache e \<and> cado_cache_to_delete e' = cado_cache_to_delete e \<and>
     committed_cado_cache e' = committed_cado_cache e \<and> state_trie e' = state_trie e \<and>
     block_height e' = block_height e \<and> current_epoch e' = current_epoch e \<and>
     namespace_registry_index e' = namespace_registry_index e \<and> epoch_records_index e' = epoch_records_index e"

inductive stages :: "node_crates \<Rightarrow> envelope \<Rightarrow> envelope \<Rightarrow> bool" for cr where
  stages_same: "same_objects e e' \<Longrightarrow> stages cr e e'"
| stages_account: "stages cr e e1 \<Longrightarrow> stage_account cr e1 a h acc = Some e' \<Longrightarrow> stages cr e e'"
| stages_staking: "stages cr e e1 \<Longrightarrow> stage_staking cr e1 a h s = Some e' \<Longrightarrow> stages cr e e'"
| stages_after: "stages cr e e1 \<Longrightarrow> same_objects e1 e' \<Longrightarrow> stages cr e e'"

lemma same_objects_refl [simp]: "same_objects e e"
  by (simp add: same_objects_def)

lemma stages_refl [simp]: "stages cr e e"
  by (rule stages_same) simp

lemma stages_trans: "stages cr e1 e2 \<Longrightarrow> stages cr e e1 \<Longrightarrow> stages cr e e2"
  by (induction rule: stages.induct) (auto intro: stages.intros)

lemma stages_one:
  "stage_account cr e a h acc = Some e' \<Longrightarrow> stages cr e e'"
  "stage_staking cr e a h s = Some e' \<Longrightarrow> stages cr e e'"
  by (auto intro: stages_account stages_staking stages_refl)

section \<open>The handlers\<close>

lemma transfer_stages: "process_transfer_tx cr st e t = Some (r, e') \<Longrightarrow> stages cr e e'"
  unfolding process_transfer_tx_def
  by (auto split: sum.splits option.splits if_splits prod.splits intro: stages_one stages_account)

lemma stake_key_stages: "stake_public_key_step cr e t stake = Inr e' \<Longrightarrow> same_objects e e'"
  using stake_public_key_step_Inr [of cr e t stake e'] by (auto simp: same_objects_def)

lemma stake_stages: "process_stake_tx cr pc st e t = Some (r, e') \<Longrightarrow> stages cr e e'"
  unfolding process_stake_tx_def
  by (auto split: sum.splits option.splits if_splits prod.splits
      intro: stages_one stages_staking [OF stages_one(1)] stages_after [OF stages_staking [OF stages_one(1)] stake_key_stages])

lemma unstake_stages: "process_unstake_tx cr st e t = Some (r, e') \<Longrightarrow> stages cr e e'"
  unfolding process_unstake_tx_def
  by (auto split: sum.splits option.splits if_splits prod.splits intro: stages_one stages_account)

lemma registry_stages:
  "process_register_capacity_tx cr pc st e rc pk = Some (r, e') \<Longrightarrow> same_objects e e'"
  "process_unregister_capacity_tx cr st e uc = Some (r, e') \<Longrightarrow> same_objects e e'"
  "process_update_capacity_merkle_root_tx cr st e um = Some (r, e') \<Longrightarrow> same_objects e e'"
  "process_post_message_tx cr pc st e pm = Some (r, e') \<Longrightarrow> same_objects e e'"
  by (auto simp: process_register_capacity_tx_def process_unregister_capacity_tx_def
      process_update_capacity_merkle_root_tx_def process_post_message_tx_def stage_post_def Let_def same_objects_def
      split: sum.splits option.splits if_splits)

lemma add_namespace_stages: "process_add_namespace_tx cr st e t = Some (r, e') \<Longrightarrow> stages cr e e'"
  unfolding process_add_namespace_tx_def
  by (auto simp: same_objects_def split: sum.splits option.splits if_splits prod.splits
      intro: stages_one stages_after [OF stages_one(1)])

lemma settle_stages: "stages cr e (snd (settle_verified_proof cr pcr pc st e t reward b))"
proof -
  have credit: "stages cr e e1" if "credit_verified_proof_reward cr st e a reward = Ok e1" for a e1
    using that by (auto simp: credit_verified_proof_reward_def result_simps
        split: option.splits if_splits prod.splits intro: stages_one)
  have "same_objects e (snd (settle_verified_proof cr pcr pc st e t reward b)) \<or>
      (\<exists>e1. credit_verified_proof_reward cr st e (vp_capacity_provider t) reward = Ok e1 \<and>
         same_objects e1 (snd (settle_verified_proof cr pcr pc st e t reward b)))"
    by (auto simp: settle_verified_proof_def record_failed_capacity_proof_def extend_lease_def Let_def same_objects_def
        split: if_splits sum.splits)
  then show ?thesis using credit by (auto intro: stages_same stages_after)
qed

lemma verified_proof_stages: "process_verified_proof_tx cr pcr pc st e t = Some (r, e') \<Longrightarrow> stages cr e e'"
  using settle_stages unfolding process_verified_proof_tx_def
  by (auto split: sum.splits option.splits if_splits simp: prod_eq_iff)

lemma process_stages:
  assumes "process cr pcr pc st e t = Some (r, e')"
  shows "stages cr e e'"
  using assms
  by (auto simp: process_def split: payload_inner.splits if_splits sum.splits
      intro: transfer_stages stake_stages unstake_stages add_namespace_stages verified_proof_stages
        stages_same registry_stages)

lemma charge_sender_stages:
  assumes "documented cr" "charge_sender cr st e t = Inr e1"
  shows "stages cr e e1"
  by (rule charge_sender_Inr [OF assms]) (rule stages_one(1))

end
