(* ===== verification/Object_Log.thy ===== *)
theory Object_Log
  imports Storage
begin

text \<open>
  The object store as a map from paths to objects.  \<open>obj_writes\<close> describes what a sequence of successful
  object writes does to a reader, other column families aside; an induction over it gives the refinement:
  a path reads the last object written to it, and what it read before when none was.
\<close>

section \<open>Readers that agree on objects\<close>

definition same_cados :: "reader \<Rightarrow> reader \<Rightarrow> bool" where
  "same_cados rd rd' \<longleftrightarrow> rd' CadoCf = rd CadoCf \<and> rd' PathIndexCf = rd PathIndexCf"

lemma same_cados_refl [simp]: "same_cados rd rd"
  by (simp add: same_cados_def)

lemma same_cados_trans: "same_cados rd rd1 \<Longrightarrow> same_cados rd1 rd2 \<Longrightarrow> same_cados rd rd2"
  by (simp add: same_cados_def)

lemma same_cados_update: "cf \<noteq> CadoCf \<Longrightarrow> cf \<noteq> PathIndexCf \<Longrightarrow> same_cados rd (rd_update rd cf k v)"
  by (simp add: same_cados_def fun_eq_iff)

lemma same_cados_get:
  assumes "same_cados rd rd'"
  shows "get_cado_by_path cr sc rd' p = get_cado_by_path cr sc rd p" "index_ok cr rd' p = index_ok cr rd p"
    "db_ok cr rd' = db_ok cr rd"
  using assms by (simp_all add: same_cados_def get_cado_by_path_def index_ok_def db_ok_def cong: option.case_cong)

section \<open>Sequences of object writes\<close>

definition write_object :: "('e) crates_scheme \<Rightarrow> reader \<Rightarrow> cado_path \<Rightarrow> bytes \<Rightarrow> reader" where
  "write_object cr rd p d = rd_update (rd_update rd CadoCf (str_bytes (stable_key cr p)) (Some d))
     PathIndexCf (str_bytes (path_str p)) (Some (str_bytes (stable_key cr p)))"

inductive obj_writes ::
    "('e) crates_scheme \<Rightarrow> store_codec \<Rightarrow> reader \<Rightarrow> (cado_path \<times> cado_body) list \<Rightarrow> reader \<Rightarrow> bool" for cr sc rd where
  none: "same_cados rd rd' \<Longrightarrow> obj_writes cr sc rd [] rd'"
| snoc: "obj_writes cr sc rd ws rd1 \<Longrightarrow> object_path cr p \<Longrightarrow> enc_cado sc b = Some d \<Longrightarrow>
    same_cados (write_object cr rd1 p d) rd2 \<Longrightarrow> obj_writes cr sc rd (ws @ [(p, b)]) rd2"

lemma obj_writes_same:
  "obj_writes cr sc rd ws rd1 \<Longrightarrow> same_cados rd1 rd2 \<Longrightarrow> obj_writes cr sc rd ws rd2"
  by (cases rule: obj_writes.cases) (auto intro: obj_writes.intros same_cados_trans)

lemma obj_writes_append:
  "obj_writes cr sc rd1 ws' rd2 \<Longrightarrow> obj_writes cr sc rd ws rd1 \<Longrightarrow> obj_writes cr sc rd (ws @ ws') rd2"
proof (induction rule: obj_writes.induct)
  case (snoc ws1 rd1 p b d rd2)
  then show ?case using obj_writes.snoc [of cr sc rd "ws @ ws1"] by simp
qed (auto intro: obj_writes_same)

lemma write_object_index:
  "write_object cr rd p d PathIndexCf k =
     (if k = str_bytes (path_str p) then Some (Some (str_bytes (stable_key cr p))) else rd PathIndexCf k)"
  by (simp add: write_object_def)

lemma db_ok_write_object:
  assumes "hex_documented (hex cr)" "db_ok cr rd" "object_path cr p"
  shows "db_ok cr (write_object cr rd p d)"
  using assms object_path_eq [OF assms(1) _ assms(3)]
  by (fastforce simp: db_ok_def index_ok_def write_object_index)

lemma obj_writes_db_ok:
  assumes "hex_documented (hex cr)"
  shows "obj_writes cr sc rd ws rd' \<Longrightarrow> db_ok cr rd \<Longrightarrow> db_ok cr rd'"
  by (induction rule: obj_writes.induct) (auto simp: same_cados_get(3) db_ok_write_object [OF assms])

text \<open>One successful write is one entry of the log.\<close>

lemma put_cado_writes:
  assumes "rocks_documented R" "hex_documented (hex cr)" "db_ok cr (tx_get R tx)" "object_path cr p"
    and "put_cadotype_by_path_with_tx cr sc R tx p b = (Ok (), tx')"
  shows "obj_writes cr sc (tx_get R tx) [(p, b)] (tx_get R tx')"
proof -
  have i: "index_ok cr (tx_get R tx) p" "stable_type (path_type p)"
    using assms(3,4) by (auto simp: db_ok_def object_path_def)
  obtain d where d: "enc_cado sc b = Some d" and r: "tx_get R tx' = write_object cr (tx_get R tx) p d"
    unfolding write_object_def by (rule put_cado_reader [OF assms(1,2,5) i])
  show ?thesis
    using obj_writes.snoc [OF obj_writes.none [OF same_cados_refl] assms(4) d, of "tx_get R tx" "tx_get R tx'"] r by simp
qed

section \<open>The refinement\<close>

definition indexed :: "reader \<Rightarrow> cado_path \<Rightarrow> bool" where
  "indexed rd p \<longleftrightarrow> (\<exists>k. rd PathIndexCf (str_bytes (path_str p)) = Some (Some k))"

text \<open>The objects present in a database have pairwise different storage keys, which are SHA-256 hashes.\<close>

definition keys_distinct :: "('e) crates_scheme \<Rightarrow> reader \<Rightarrow> bool" where
  "keys_distinct cr rd \<longleftrightarrow> inj_on (stable_key cr) {p. object_path cr p \<and> indexed rd p}"

lemma indexed_writes:
  "obj_writes cr sc rd ws rd' \<Longrightarrow> indexed rd' p \<longleftrightarrow> indexed rd p \<or> path_str p \<in> (path_str \<circ> fst) ` set ws"
proof (induction arbitrary: p rule: obj_writes.induct)
  case (snoc ws rd1 q b d rd2)
  have "indexed rd2 p = indexed (write_object cr rd1 q d) p"
    using snoc(4) by (simp add: indexed_def same_cados_def)
  also have "\<dots> \<longleftrightarrow> path_str p = path_str q \<or> indexed rd1 p"
    by (auto simp: indexed_def write_object_index)
  finally show ?case by (auto simp: snoc.IH)
qed (simp add: indexed_def same_cados_def)

lemma get_write_same:
  assumes "hex_documented (hex cr)" "object_path cr p" "enc_cado sc b = Some d" "cado_codec_ok sc (path_type p) b"
    and "generate_key cr p b = Ok k"
  shows "get_cado_by_path cr sc (write_object cr rd p d) p = Ok (Some b)"
proof -
  have st: "stable_type (path_type p)" and v: "validate_cado_path_internal (hex cr) p = Ok ()"
    using assms(2) constructed_path_valid [OF assms(1)] unfolding object_path_def by blast+
  have "dec_cado sc d = Some b" "d \<noteq> []"
     "int (length d) \<le> (if path_type p = ''app_state_snapshot'' then 256 * 1024 * 1024 else 1048576)"
    using assms(3,4) unfolding cado_codec_ok_def by auto
  then have "deserialize_stored_cado_type sc p d = Ok b"
    by (auto simp: deserialize_stored_cado_type_def safe_deserialize_cado_data_def
        safe_bincode_deserialize_def split: if_splits)
  moreover obtain l where "generate_keys cr p b = Ok \<lparr>original_key = stable_key cr p, latest_key = l\<rparr>"
    using generate_key_stable(2) [OF st assms(5)] by blast
  ultimately show ?thesis
    using v by (simp add: get_cado_by_path_def write_object_def stable_key_utf8 [OF assms(1)])
qed

lemma get_write_other:
  assumes "hex_documented (hex cr)" "db_ok cr rd" "object_path cr p" "object_path cr q" "p \<noteq> q"
    and "indexed rd q \<Longrightarrow> stable_key cr q \<noteq> stable_key cr p"
  shows "get_cado_by_path cr sc (write_object cr rd p d) q = get_cado_by_path cr sc rd q"
proof -
  have i: "write_object cr rd p d PathIndexCf (str_bytes (path_str q)) = rd PathIndexCf (str_bytes (path_str q))"
    using object_path_eq [OF assms(1,3,4)] assms(5) by (auto simp: write_object_index)
  show ?thesis
  proof (cases "indexed rd q")
    case True
    then have k: "rd PathIndexCf (str_bytes (path_str q)) = Some (Some (str_bytes (stable_key cr q)))"
      using assms(2,4) by (auto simp: indexed_def db_ok_def index_ok_def)
    moreover have "write_object cr rd p d CadoCf (str_bytes (stable_key cr q)) = rd CadoCf (str_bytes (stable_key cr q))"
      using assms(6) [OF True] by (simp add: write_object_def)
    ultimately show ?thesis using i by (simp add: get_cado_by_path_def stable_key_utf8 [OF assms(1)])
  next
    case False
    then show ?thesis using i by (auto simp: get_cado_by_path_def indexed_def ok_or_def split: option.splits)
  qed
qed

text \<open>What a path reads after the log: the last object written to it, or what it read before.\<close>

lemma obj_writes_refine:
  assumes "hex_documented (hex cr)" "object_path cr q"
  shows "obj_writes cr sc rd ws rd' \<Longrightarrow> db_ok cr rd \<Longrightarrow> keys_distinct cr rd' \<Longrightarrow>
    (\<And>b. (q, b) \<in> set ws \<Longrightarrow> cado_codec_ok sc (path_type q) b \<and> (\<exists>k. generate_key cr q b = Ok k)) \<Longrightarrow>
    get_cado_by_path cr sc rd' q =
      (case map_of (rev ws) q of Some b \<Rightarrow> Ok (Some b) | None \<Rightarrow> get_cado_by_path cr sc rd q)"
proof (induction rule: obj_writes.induct)
  case (snoc ws rd1 p b d rd2)
  have w: "obj_writes cr sc rd (ws @ [(p, b)]) rd2" by (rule obj_writes.snoc [OF snoc(1-4)])
  note ok1 = obj_writes_db_ok [OF assms(1) snoc(1,6)]
  have g: "get_cado_by_path cr sc rd2 q = get_cado_by_path cr sc (write_object cr rd1 p d) q"
    by (rule same_cados_get(1) [OF snoc(4)])
  have ix: "indexed rd2 x" if "indexed rd1 x \<or> x = p" for x
    using that indexed_writes [OF w, of x] indexed_writes [OF snoc(1), of x] by auto
  show ?case
  proof (cases "p = q")
    case True
    then obtain k where "cado_codec_ok sc (path_type q) b" "generate_key cr q b = Ok k"
      using snoc.prems(3) [of b] by auto
    then show ?thesis using get_write_same [OF assms(1) snoc(2,3)] True g by simp
  next
    case False
    have "stable_key cr q \<noteq> stable_key cr p" if "indexed rd1 q"
      using snoc.prems(2) ix [of q] ix [of p] that False assms(2) snoc(2)
      unfolding keys_distinct_def inj_on_def by auto
    from get_write_other [OF assms(1) ok1 snoc(2) assms(2) False this]
    have "get_cado_by_path cr sc rd2 q = get_cado_by_path cr sc rd1 q" using g by simp
    moreover have "keys_distinct cr rd1"
      using snoc.prems(2) ix unfolding keys_distinct_def by (auto elim!: inj_on_subset)
    ultimately show ?thesis using snoc.IH snoc.prems False by auto
  qed
qed (simp add: same_cados_get(1))

end
