(* ===== verification/Block_Effects.thy ===== *)
theory Block_Effects
  imports Block Staging Object_Log
begin

text \<open>
  What the end of a block and its commit do to the staged objects.  Every staged object is \<open>storable\<close>, so that on
  a database engine that does not fail a commit drops nothing.
\<close>

section \<open>Staged objects can be stored\<close>

definition storable :: "node_crates \<Rightarrow> string \<Rightarrow> cado_body \<Rightarrow> bool" where
  "storable cr k b \<longleftrightarrow> (\<exists>p. cado_path_parse (hex cr) k = Ok p \<and> path_str p = k \<and> object_path cr p \<and>
     \<not> path_is_infrastructure p \<and> (\<exists>key. generate_key cr p b = Ok key))"

definition cache_ok :: "node_crates \<Rightarrow> envelope \<Rightarrow> bool" where
  "cache_ok cr e \<longleftrightarrow> (\<forall>(k, b) \<in> set (cado_cache e). storable cr k b) \<and> cado_cache_to_delete e = [] \<and>
     sorted_wrt (<) (map fst (cado_cache e))"

lemma set_bt_insert_subset: "set (bt_insert k v xs) \<subseteq> insert (k, v) (set xs)"
  by (induction k v xs rule: bt_insert.induct) auto

lemma cache_ok_update:
  assumes "cache_ok cr e" "storable cr (path_str p) b"
  shows "cache_ok cr (update_cado_cache e p b)"
  using assms set_bt_insert_subset [of "path_str p" b "cado_cache e"]
  by (auto simp: cache_ok_def update_cado_cache_def sorted_bt_insert)

lemma constructed_storable:
  assumes "hex_documented (hex cr)" "cado_path_new (hex cr) ty key = Ok p" "stable_type (path_type p)"
    and "\<not> path_is_infrastructure p" "generate_key cr p b = Ok k"
  shows "storable cr (path_str p) b"
  using assms cado_path_new_parse [OF assms(1,2)] unfolding storable_def object_path_def by blast

lemma address_storable:
  assumes "hex_documented (hex cr)" "cado_path_new (hex cr) ty (KeyAddress a) = Ok p"
    and "ty = AccountType \<or> ty = StakingAccountType"
  shows "storable cr (path_str p) (cado_mutable_updated (sha256 cr) h d (cado_metadata_new ty (hex_with_prefix (hex cr) a)))"
proof (rule constructed_storable [OF assms(1,2)])
  have "path_type p = cado_type_as_str ty" using cado_path_new_shape(1) [OF assms(2)] by simp
  then show "stable_type (path_type p)" "\<not> path_is_infrastructure p"
    using assms(3) by (auto simp: stable_type_def path_is_infrastructure_def INFRASTRUCTURE_CADO_TYPES_def)
  show "generate_key cr p (cado_mutable_updated (sha256 cr) h d (cado_metadata_new ty (hex_with_prefix (hex cr) a)))
      = Ok (stable_key cr p)"
    by (rule account_key_ok [OF assms(2,3) disjI1 [OF refl]])
qed

lemma stage_cache_ok:
  assumes "hex_documented (hex cr)" "cache_ok cr e"
  shows "stage_account cr e a h acc = Some e' \<Longrightarrow> cache_ok cr e'"
    and "stage_staking cr e a h s = Some e' \<Longrightarrow> cache_ok cr e'"
  using assms address_storable [OF assms(1)]
  by (auto simp: stage_account_def stage_staking_def split: option.splits sum.splits intro!: cache_ok_update)

lemma stages_cache_ok:
  assumes "hex_documented (hex cr)"
  shows "stages cr e e' \<Longrightarrow> cache_ok cr e \<Longrightarrow> cache_ok cr e'"
proof (induction rule: stages.induct)
  case (stages_same e e')
  then show ?case by (simp add: cache_ok_def same_objects_def)
next
  case (stages_after e e1 e')
  then show ?case by (simp add: cache_ok_def same_objects_def)
qed (auto intro: stage_cache_ok [OF assms])

lemma stages_keeps:
  "stages cr e e' \<Longrightarrow> committed_cado_cache e' = committed_cado_cache e \<and> state_trie e' = state_trie e \<and>
     block_height e' = block_height e \<and> current_epoch e' = current_epoch e \<and>
     (has_cado_in_working_set e p \<longrightarrow> has_cado_in_working_set e' p)"
proof (induction rule: stages.induct)
  case (stages_account e e1 a h acc e')
  then show ?case
    by (auto simp: stage_account_def update_cado_cache_def has_cado_in_working_set_def split: option.splits sum.splits if_splits)
next
  case (stages_staking e e1 a h s e')
  then show ?case
    by (auto simp: stage_staking_def update_cado_cache_def has_cado_in_working_set_def split: option.splits sum.splits if_splits)
qed (auto simp: same_objects_def has_cado_in_working_set_def)

section \<open>Nonces in the working set\<close>

text \<open>The nonce of an account that is staged or committed; the database is not consulted.\<close>

definition ws_nonce :: "node_crates \<Rightarrow> envelope \<Rightarrow> address \<Rightarrow> nat option" where
  "ws_nonce cr e a = map_option (\<lambda>(acc, _). unat (nonce_value (acc_nonce acc))) (account_of cr empty_store e a)"

lemma ws_account:
  "account_of cr empty_store e a = Some x \<longleftrightarrow>
     account_of cr st e a = Some x \<and>
     (\<exists>p. cado_path_new (hex cr) AccountType (KeyAddress a) = Ok p \<and> has_cado_in_working_set e p)"
  by (auto simp: account_of_def get_account_from_cado_def lookup_cado_def has_cado_in_working_set_def empty_store_def
      split: sum.splits option.splits)

lemma ws_nonce_Some:
  "ws_nonce cr e a = Some m \<longleftrightarrow> (\<exists>acc h p. account_of cr st e a = Some (acc, h) \<and> m = unat (nonce_value (acc_nonce acc)) \<and>
     cado_path_new (hex cr) AccountType (KeyAddress a) = Ok p \<and> has_cado_in_working_set e p)"
  unfolding ws_nonce_def using ws_account [of cr e a _ st] by auto

definition nonces_le :: "node_crates \<Rightarrow> envelope \<Rightarrow> envelope \<Rightarrow> bool" where
  "nonces_le cr e e' \<longleftrightarrow> (\<forall>a m. ws_nonce cr e a = Some m \<longrightarrow> (\<exists>m'\<ge>m. ws_nonce cr e' a = Some m'))"

lemma nonces_le_refl [simp]: "nonces_le cr e e"
  by (auto simp: nonces_le_def)

lemma nonces_le_trans: "nonces_le cr e e1 \<Longrightarrow> nonces_le cr e1 e2 \<Longrightarrow> nonces_le cr e e2"
  unfolding nonces_le_def by (meson le_trans)

lemma nonces_le_accounts:
  "(\<And>a. account_of cr empty_store e' a = account_of cr empty_store e a) \<Longrightarrow> nonces_le cr e e'"
  by (auto simp: nonces_le_def ws_nonce_def)

lemma stages_ws:
  assumes "stages cr e e'" "ws_nonce cr e a = Some m"
    and "account_of cr st e' a = Some (acc, h)"
  shows "ws_nonce cr e' a = Some (unat (nonce_value (acc_nonce acc)))"
  using assms stages_keeps [OF assms(1)] unfolding ws_nonce_Some [of cr _ a _ st] by blast

text \<open>A delivery: only staging, working-set nonces never fall, and a charged transaction leaves its sender's
  nonce at its own.\<close>

lemma deliver_ws:
  assumes "documented cr" "deliver_tx_inner cr pcr js pc st c b = Some (r, c')" "current_state c = Some s"
  obtains s' where "current_state c' = Some s'" "committed_state c' = committed_state c"
    "stages cr (app_envelope s) (app_envelope s')"
    "nonces_le cr (app_envelope s) (app_envelope s')"
    "c' \<noteq> c \<Longrightarrow> \<exists>a n. claimed_nonce cr js pc b = Some (a, n) \<and> ws_nonce cr (app_envelope s') a = Some n"
  using assms(2)
proof (cases rule: deliver_cases)
  case refused
  then show thesis using that [of s] assms(3) by auto
next
  case (charged t s0 e1 r0 e2)
  have s0: "s0 = s" using charged(3) assms(3) by simp
  let ?a = "payload_sender (inner (tx_payload t))"
  obtain h0 bal where st1: "stage_account cr (app_envelope s) ?a h0 \<lparr>acc_address = ?a, acc_balance = bal, acc_nonce = tx_nonce t\<rparr> = Some e1"
    by (rule charge_sender_Inr [OF assms(1) charged(4) [unfolded s0]])
  have sg: "stages cr (app_envelope s) e1" "stages cr e1 e2"
    using stages_one(1) [OF st1] process_stages [OF charged(5)] by blast+
  note sg12 = stages_trans [OF sg(2,1)]
  obtain p where p: "cado_path_new (hex cr) AccountType (KeyAddress ?a) = Ok p"
    and "e1 = update_cado_cache (app_envelope s) p (cado_mutable_updated (sha256 cr) h0
       (the (enc_account cr \<lparr>acc_address = ?a, acc_balance = bal, acc_nonce = tx_nonce t\<rparr>))
       (cado_metadata_new AccountType (hex_with_prefix (hex cr) ?a)))"
    using st1 by (auto simp: stage_account_def split: option.splits sum.splits)
  then have "has_cado_in_working_set e1 p"
    using address_type_not_infrastructure [OF p] by (simp add: has_cado_in_working_set_def update_cado_cache_def)
  then have ws: "has_cado_in_working_set e2 p" using stages_keeps [OF sg(2)] by blast
  show thesis
  proof (rule charged_ledger [OF assms(1) charged(1) charged(4) [unfolded s0] charged(5)])
    fix acc h acc2 h2
    assume l: "account_of cr st (app_envelope s) ?a = Some (acc, h)" "nonce_next (acc_nonce acc) = Some (tx_nonce t)"
      "account_of cr st e2 ?a = Some (acc2, h2)" "acc_nonce acc2 = tx_nonce t"
      "\<And>x ac k. x \<noteq> ?a \<Longrightarrow> account_of cr st (app_envelope s) x = Some (ac, k) \<Longrightarrow>
        \<exists>ac' k'. account_of cr st e2 x = Some (ac', k') \<and> acc_nonce ac' = acc_nonce ac"
    have n: "ws_nonce cr e2 ?a = Some (unat (nonce_value (tx_nonce t)))"
      using l(3,4) p ws unfolding ws_nonce_Some [of cr _ _ _ st] by auto
    have "nonces_le cr (app_envelope s) e2"
      unfolding nonces_le_def
    proof (intro allI impI)
      fix a m assume m: "ws_nonce cr (app_envelope s) a = Some m"
      then obtain ac k where ac: "account_of cr st (app_envelope s) a = Some (ac, k)" "m = unat (nonce_value (acc_nonce ac))"
        unfolding ws_nonce_Some [of cr _ a _ st] by blast
      show "\<exists>m'\<ge>m. ws_nonce cr e2 a = Some m'"
      proof (cases "a = ?a")
        case True
        then show ?thesis using n ac l(1,2) by (auto simp: nonce_next_Some)
      next
        case False
        with l(5) ac(1) obtain ac' k' where "account_of cr st e2 a = Some (ac', k')" "acc_nonce ac' = acc_nonce ac" by blast
        with stages_ws [OF sg12 m] ac(2) show ?thesis by auto
      qed
    qed
    then show thesis
      by (intro that [of "s\<lparr>app_envelope := e2\<rparr>"]) (use charged(1,7) s0 sg12 n in \<open>auto simp: claimed_nonce_def\<close>)
  qed
qed

lemma deliver_all_ws:
  assumes "documented cr"
  shows "deliver_all (deliver_tx_inner cr pcr js pc st) c bs = Some (rs, c') \<Longrightarrow> current_state c = Some s \<Longrightarrow>
    \<exists>s'. current_state c' = Some s' \<and> committed_state c' = committed_state c \<and>
      stages cr (app_envelope s) (app_envelope s') \<and>
      nonces_le cr (app_envelope s) (app_envelope s')"
proof (induction bs arbitrary: c s rs)
  case (Cons b bs)
  obtain r c1 rs' where d: "deliver_tx_inner cr pcr js pc st c b = Some (r, c1)"
    "deliver_all (deliver_tx_inner cr pcr js pc st) c1 bs = Some (rs', c')"
    using Cons.prems(1) unfolding deliver_all_Cons_Some by blast
  obtain s1 where s1: "current_state c1 = Some s1" "committed_state c1 = committed_state c"
    "stages cr (app_envelope s) (app_envelope s1)" "nonces_le cr (app_envelope s) (app_envelope s1)"
    by (rule deliver_ws [OF assms d(1) Cons.prems(2)]) (rule that)
  from Cons.IH [OF d(2) s1(1)] s1(2-4) show ?case
    by (auto intro: stages_trans nonces_le_trans)
qed auto

section \<open>End of a block\<close>

lemma epoch_path_storable:
  assumes "hex_documented (hex cr)" "cado_path_new (hex cr) EpochRecordType (KeyName k) = Ok p"
  shows "storable cr (path_str p) b" "\<not> path_is_infrastructure p" "path_type p = ''epoch_record''"
proof -
  show ty: "path_type p = ''epoch_record''" using cado_path_new_shape(1) [OF assms(2)] by simp
  then show ni: "\<not> path_is_infrastructure p" by (simp add: path_is_infrastructure_def INFRASTRUCTURE_CADO_TYPES_def)
  show "storable cr (path_str p) b"
    by (rule constructed_storable [OF assms _ ni, of _ "stable_key cr p"])
      (simp_all add: ty stable_type_def generate_key_def named_original_key_def stable_key_def)
qed

text \<open>What the end of a block leaves alone: the committed objects, the trie and the accounts.\<close>

lemma account_of_update_other:
  assumes "hex_documented (hex cr)" "cado_path_new (hex cr) EpochRecordType (KeyName k) = Ok p"
  shows "account_of cr st (update_cado_cache e p b) a = account_of cr st e a"
proof (cases "cado_path_new (hex cr) AccountType (KeyAddress a)")
  case (Inr q)
  then have "path_str q \<noteq> path_str p"
    using cado_path_new_determines [OF assms(1) Inr assms(2)] cado_path_new_shape(1) [OF Inr]
      epoch_path_storable(3) [OF assms] by auto
  then show ?thesis
    using Inr epoch_path_storable(2) [OF assms] by (simp add: account_of_def get_account_from_cado_def ws.look_stage)
qed (simp add: account_of_def)

lemma store_epoch_record_effect:
  assumes "hex_documented (hex cr)" "store_epoch_record cr e rec = Ok e'"
  shows "\<exists>c. e' = e\<lparr>cado_cache := c\<rparr>" "cache_ok cr e \<Longrightarrow> cache_ok cr e'"
    "account_of cr st e' a = account_of cr st e a"
proof -
  obtain k p q b where pq: "cado_path_new (hex cr) EpochRecordType (KeyName k) = Ok p"
    "cado_path_new (hex cr) EpochRecordType (KeyName LATEST) = Ok q"
    and e': "e' = update_cado_cache (update_cado_cache e p b) q b"
    using assms(2) by (auto simp: store_epoch_record_def Let_def result_simps)
  show "\<exists>c. e' = e\<lparr>cado_cache := c\<rparr>"
    using epoch_path_storable(2) [OF assms(1)] pq by (auto simp: e' update_cado_cache_def)
  show "cache_ok cr e \<Longrightarrow> cache_ok cr e'"
    using epoch_path_storable(1) [OF assms(1)] pq by (auto simp: e' intro!: cache_ok_update)
  show "account_of cr st e' a = account_of cr st e a"
    by (simp add: e' account_of_update_other [OF assms(1) pq(1)] account_of_update_other [OF assms(1) pq(2)])
qed

definition same_ledger :: "envelope \<Rightarrow> envelope \<Rightarrow> bool" where
  "same_ledger e e' \<longleftrightarrow> cado_cache e' = cado_cache e \<and> cado_cache_to_delete e' = cado_cache_to_delete e \<and>
     committed_cado_cache e' = committed_cado_cache e \<and> state_trie e' = state_trie e"

lemma same_ledger_ok:
  assumes "same_ledger e e'"
  shows "cache_ok cr e' = cache_ok cr e" "account_of cr st e' a = account_of cr st e a"
  using assms accounts_frame [of e' e] by (simp_all add: same_ledger_def cache_ok_def)

lemma select_same_ledger:
  "same_ledger e (select_validators_for_epoch pc e)"
  "same_ledger (app_envelope s) (app_envelope (select_active_capacity_validator_for_epoch cr rng pc s n))"
  by (auto simp: same_ledger_def select_validators_for_epoch_def select_active_capacity_validator_for_epoch_def Let_def
      split: prod.splits)

text \<open>Steps that keep the committed objects, the trie and every account.\<close>

definition quiet :: "node_crates \<Rightarrow> envelope \<Rightarrow> envelope \<Rightarrow> bool" where
  "quiet cr e e' \<longleftrightarrow> committed_cado_cache e' = committed_cado_cache e \<and> state_trie e' = state_trie e \<and>
     (cache_ok cr e \<longrightarrow> cache_ok cr e') \<and> (\<forall>st a. account_of cr st e' a = account_of cr st e a)"

lemma quiet_trans: "quiet cr e e1 \<Longrightarrow> quiet cr e1 e2 \<Longrightarrow> quiet cr e e2"
  by (simp add: quiet_def)

lemma same_ledger_quiet: "same_ledger e e' \<Longrightarrow> quiet cr e e'"
  by (simp add: quiet_def same_ledger_ok) (simp add: same_ledger_def)

lemma start_epoch_quiet:
  assumes "hex_documented (hex cr)" "start_epoch cr rng pc s n = Some s'"
  shows "quiet cr (app_envelope s) (app_envelope s')" "chain_id s' = chain_id s"
    "current_epoch (app_envelope s') = n"
proof -
  let ?e1 = "(app_envelope s)\<lparr>capacity_validators := fst (expire_capacity_registrations (capacity_validators (app_envelope s))
                                             (word_of_int (block_height (app_envelope s))))\<rparr>"
  let ?s2 = "s\<lparr>app_envelope := select_validators_for_epoch pc ?e1\<rparr>"
  let ?s3 = "select_active_capacity_validator_for_epoch cr rng pc ?s2 n"
  obtain e4 where e4: "store_epoch_record cr (app_envelope ?s3) (build_epoch_record (app_envelope ?s3) n (blocks_per_epoch pc)) = Ok e4"
    and s': "s' = ?s3\<lparr>app_envelope := e4\<lparr>current_epoch := n\<rparr>\<rparr>"
    using assms(2) by (auto simp: start_epoch_def Let_def split: sum.splits)
  have "quiet cr (app_envelope s) ?e1" by (rule same_ledger_quiet) (simp add: same_ledger_def)
  moreover have "quiet cr ?e1 (app_envelope ?s2)" using select_same_ledger(1) by (auto intro: same_ledger_quiet)
  moreover have "quiet cr (app_envelope ?s2) (app_envelope ?s3)" by (rule same_ledger_quiet [OF select_same_ledger(2)])
  moreover have "quiet cr (app_envelope ?s3) e4"
    using store_epoch_record_effect [OF assms(1) e4] by (auto simp: quiet_def)
  moreover have "quiet cr e4 (app_envelope s')" by (rule same_ledger_quiet) (simp add: same_ledger_def s')
  ultimately show "quiet cr (app_envelope s) (app_envelope s')" by (meson quiet_trans)
  show "chain_id s' = chain_id s" "current_epoch (app_envelope s') = n"
    by (auto simp: s' select_active_capacity_validator_for_epoch_def Let_def split: prod.splits)
qed

lemma end_block_effect:
  assumes "hex_documented (hex cr)" "end_block_inner cr pcr rng pc ident now c h = Some (r, c')" "current_state c = Some s"
  obtains s' where "current_state c' = Some s'" "committed_state c' = committed_state c"
    "quiet cr (app_envelope s) (app_envelope s')" "app_hash s' = Some (calculate_app_hash cr (app_envelope s'))"
proof -
  let ?s1 = "s\<lparr>app_envelope := (app_envelope s)\<lparr>block_height := h\<rparr>\<rparr>" and ?n = "h sdiv blocks_per_epoch pc"
  let ?fin = "\<lambda>s2. c\<lparr>current_state := Some (s2\<lparr>app_hash := Some (calculate_app_hash cr (app_envelope s2))\<rparr>)\<rparr>"
  have "c' = ?fin ?s1 \<or> (\<exists>s2. start_epoch cr rng pc ?s1 ?n = Some s2 \<and> c' = ?fin s2)"
    using assms(2,3) by (auto simp: end_block_inner_def Let_def split: if_splits option.splits)
  then obtain s2 where s2: "s2 = ?s1 \<or> start_epoch cr rng pc ?s1 ?n = Some s2" and c': "c' = ?fin s2" by blast
  have "quiet cr (app_envelope s) (app_envelope ?s1)" by (rule same_ledger_quiet) (simp add: same_ledger_def)
  moreover have "quiet cr (app_envelope ?s1) (app_envelope s2)"
    using s2 by (elim disjE) (simp add: same_ledger_quiet same_ledger_def, rule start_epoch_quiet(1) [OF assms(1)])
  ultimately have "quiet cr (app_envelope s) (app_envelope s2)" by (rule quiet_trans)
  then show thesis
    by (intro that [of "s2\<lparr>app_hash := Some (calculate_app_hash cr (app_envelope s2))\<rparr>"]) (simp_all add: c')
qed

end
