(* ===== verification/Commit_Effects.thy ===== *)
theory Commit_Effects
  imports Block_Effects
begin

text \<open>
  What \<^verbatim>\<open>commit_inner\<close> does on a database engine that does not fail: the sequence of object writes it
  makes, the objects of the new committed state, and that no staged object is dropped.
\<close>

section \<open>The staged objects\<close>

definition staged_writes :: "node_crates \<Rightarrow> (string \<times> cado_body) list \<Rightarrow> (cado_path \<times> cado_body) list" where
  "staged_writes cr xs = map (\<lambda>(k, b). (projr (cado_path_parse (hex cr) k), b)) xs"

text \<open>What the commit relies on: documented crates, an engine that behaves as documented and does not fail, and a
  codec that encodes every object.\<close>

definition sound_store :: "node_crates \<Rightarrow> store_codec \<Rightarrow> ('db, 'tx) rocks \<Rightarrow> bool" where
  "sound_store cr sc R \<longleftrightarrow> documented cr \<and> rocks_documented R \<and> rocks_reliable R \<and> (\<forall>b. enc_cado sc b \<noteq> None)"

lemma sound_storeD:
  assumes "sound_store cr sc R"
  shows "documented cr" "hex_documented (hex cr)" "rocks_documented R" "rocks_reliable R" "\<exists>d. enc_cado sc b = Some d"
  using assms documentedD(1) unfolding sound_store_def by blast+

lemma storable_not_infrastructure: "storable cr k b \<Longrightarrow> \<not> is_infrastructure_cado_path (hex cr) k"
  by (auto simp: storable_def is_infrastructure_cado_path_def)

lemma put_cados_ok:
  assumes "sound_store cr sc R"
  shows "db_ok cr (tx_get R tx) \<Longrightarrow> (\<And>k b. (k, b) \<in> set xs \<Longrightarrow> storable cr k b) \<Longrightarrow>
    \<exists>tx'. put_cados cr sc R tx xs = (tx', []) \<and> obj_writes cr sc (tx_get R tx) (staged_writes cr xs) (tx_get R tx')"
proof (induction xs arbitrary: tx)
  case Nil
  show ?case by (simp add: staged_writes_def obj_writes.none)
next
  case (Cons x xs)
  note sd = sound_storeD [OF assms]
  obtain k b where x: "x = (k, b)" by (cases x)
  obtain p key where p: "cado_path_parse (hex cr) k = Ok p" "object_path cr p" "generate_key cr p b = Ok key"
    using Cons.prems(2) [of k b] x by (auto simp: storable_def)
  obtain d where "enc_cado sc b = Some d" using sd(5) by blast
  from put_cado_succeeds [OF sd(4,2) Cons.prems(1) p(2,3) this]
  obtain tx1 where t1: "put_cadotype_by_path_with_tx cr sc R tx p b = (Ok (), tx1)" by blast
  note w = put_cado_writes [OF sd(3,2) Cons.prems(1) p(2) t1]
  obtain tx2 where t2: "put_cados cr sc R tx1 xs = (tx2, [])"
      "obj_writes cr sc (tx_get R tx1) (staged_writes cr xs) (tx_get R tx2)"
    using Cons.IH [OF db_ok_put [OF sd(3,2) Cons.prems(1) p(2) t1]] Cons.prems(2) by auto
  from obj_writes_append [OF t2(2) w] have "obj_writes cr sc (tx_get R tx) (staged_writes cr (x # xs)) (tx_get R tx2)"
    by (simp add: staged_writes_def x p(1))
  moreover have "put_cados cr sc R tx (x # xs) = (tx2, [])"
    using storable_not_infrastructure Cons.prems(2) [of k b] by (simp add: x p(1) t1 t2(1))
  ultimately show ?case by blast
qed

section \<open>Rows that are not objects\<close>

lemma write_all_same:
  assumes "\<And>x t t'. f x t = Ok t' \<Longrightarrow> same_cados (tx_get R t) (tx_get R t')"
  shows "write_all f xs t = Some t' \<Longrightarrow> same_cados (tx_get R t) (tx_get R t')"
proof (induction xs arbitrary: t)
  case (Cons x xs)
  then show ?case using assms by (auto split: sum.splits) (meson same_cados_trans)
qed simp

lemma tx_put_same:
  "rocks_documented R \<Longrightarrow> tx_put R t cf k v = Some t' \<Longrightarrow> cf \<noteq> CadoCf \<Longrightarrow> cf \<noteq> PathIndexCf \<Longrightarrow>
   same_cados (tx_get R t) (tx_get R t')"
  by (simp add: rocks_laws(2) same_cados_update)

lemma delete_temp_blobs_same: "rocks_documented R \<Longrightarrow> same_cados (tx_get R t) (tx_get R (delete_temp_blobs R ks t))"
proof (induction ks arbitrary: t)
  case (Cons k ks)
  have "same_cados (tx_get R t) (tx_get R t1)" if "delete_pinboard_temp_blob_with_tx R k t = Ok t1" for t1
    using that Cons.prems
    by (auto simp: delete_pinboard_temp_blob_with_tx_def ok_or_iff rocks_laws(3) intro!: same_cados_update)
  then show ?case using Cons by (auto split: sum.splits intro: same_cados_trans)
qed simp

lemma pinboard_rows_same:
  assumes "rocks_documented R"
  shows "put_pinboard_metadata_with_tx sc R mid meta t = Ok t' \<Longrightarrow> same_cados (tx_get R t) (tx_get R t')"
    "put_pinboard_wallet_index_with_tx R w h mid t = Ok t' \<Longrightarrow> same_cados (tx_get R t) (tx_get R t')"
    "put_pinboard_tag_index_with_tx R w h mid t = Ok t' \<Longrightarrow> same_cados (tx_get R t) (tx_get R t')"
    "put_pinboard_expiry_index_with_tx R h mid t = Ok t' \<Longrightarrow> same_cados (tx_get R t) (tx_get R t')"
    "put_pinboard_commit_index_with_tx R h mid t = Ok t' \<Longrightarrow> same_cados (tx_get R t) (tx_get R t')"
    "update_pinboard_refcount_with_tx sc R w i t = Ok (n, t') \<Longrightarrow> same_cados (tx_get R t) (tx_get R t')"
    "put_verified_proof_challenge_rewarded_with_tx R w t = Ok t' \<Longrightarrow> same_cados (tx_get R t) (tx_get R t')"
    "put_verified_proof_challenge_failed_with_tx R w t = Ok t' \<Longrightarrow> same_cados (tx_get R t) (tx_get R t')"
  by (auto simp: put_pinboard_metadata_with_tx_def put_pinboard_wallet_index_with_tx_def
      put_pinboard_tag_index_with_tx_def put_pinboard_expiry_index_with_tx_def put_pinboard_commit_index_with_tx_def
      update_pinboard_refcount_with_tx_def put_verified_proof_challenge_rewarded_with_tx_def
      put_verified_proof_challenge_failed_with_tx_def Let_def result_simps split: option.splits if_splits
      intro: same_cados_trans tx_put_same [OF assms])

lemma commit_pinboard_same:
  assumes "rocks_documented R" "commit_pinboard sc R db e t = Some (blobs, t')"
  shows "same_cados (tx_get R t) (tx_get R t')"
proof -
  note rows = pinboard_rows_same [OF assms(1)]
  have s: "write_all (\<lambda>(mid, meta). put_pinboard_metadata_with_tx sc R mid meta) xs t1 = Some t2 \<Longrightarrow> same_cados (tx_get R t1) (tx_get R t2)"
    "write_all (\<lambda>(w, h, mid). put_pinboard_wallet_index_with_tx R w h mid) ys t1 = Some t2 \<Longrightarrow> same_cados (tx_get R t1) (tx_get R t2)"
    "write_all (\<lambda>(w, h, mid). put_pinboard_tag_index_with_tx R w h mid) ys t1 = Some t2 \<Longrightarrow> same_cados (tx_get R t1) (tx_get R t2)"
    "write_all (\<lambda>(h, mid). put_pinboard_expiry_index_with_tx R h mid) zs t1 = Some t2 \<Longrightarrow> same_cados (tx_get R t1) (tx_get R t2)"
    "write_all (\<lambda>(h, mid). put_pinboard_commit_index_with_tx R h mid) zs t1 = Some t2 \<Longrightarrow> same_cados (tx_get R t1) (tx_get R t2)"
    for xs ys zs t1 t2
    by (erule write_all_same [rotated], auto intro: rows)+
  have "map_sum id snd (update_pinboard_refcount_with_tx sc R k delta t1) = Ok t2 \<Longrightarrow> same_cados (tx_get R t1) (tx_get R t2)" for k delta t1 t2
    using rows(6) by (cases "update_pinboard_refcount_with_tx sc R k delta t1") auto
  then have s6: "write_all (\<lambda>(k, delta) t. map_sum id snd (update_pinboard_refcount_with_tx sc R k delta t)) us t1 = Some t2
       \<Longrightarrow> same_cados (tx_get R t1) (tx_get R t2)" for us t1 t2
    by (elim write_all_same [rotated]) auto
  show ?thesis
    using assms(2) delete_temp_blobs_same [OF assms(1)] s s6
    by (auto simp: commit_pinboard_def split: option.splits) (meson same_cados_trans)
qed

lemma commit_markers_same:
  assumes "rocks_documented R" "commit_markers R e t = Some (t', e')"
  shows "same_cados (tx_get R t) (tx_get R t')"
    "e' = e\<lparr>verified_proof_rewarded_cache := [], failed_proof_counted_cache := []\<rparr>"
proof -
  have s: "write_all (put_verified_proof_challenge_rewarded_with_tx R) xs t1 = Some t2 \<Longrightarrow> same_cados (tx_get R t1) (tx_get R t2)"
    "write_all (put_verified_proof_challenge_failed_with_tx R) xs t1 = Some t2 \<Longrightarrow> same_cados (tx_get R t1) (tx_get R t2)" for xs t1 t2
    by (rule write_all_same, erule pinboard_rows_same [OF assms(1)], assumption)+
  show "same_cados (tx_get R t) (tx_get R t')" "e' = e\<lparr>verified_proof_rewarded_cache := [], failed_proof_counted_cache := []\<rparr>"
    using assms(2) s by (auto simp: commit_markers_def split: bind_splits) (meson same_cados_trans)
qed

section \<open>The committed objects and their trie\<close>

definition objects_ok :: "node_crates \<Rightarrow> envelope \<Rightarrow> bool" where
  "objects_ok cr e \<longleftrightarrow> sorted_wrt (<) (map fst (committed_cado_cache e)) \<and>
     state_trie e = map (\<lambda>(k, b). (k, content_hash b)) (committed_cado_cache e) \<and>
     (\<forall>(k, b) \<in> set (committed_cado_cache e). \<not> is_infrastructure_cado_path (hex cr) k)"

lemma bt_insert_map: "bt_insert k (f v) (map (\<lambda>(k, b). (k, f b)) xs) = map (\<lambda>(k, b). (k, f b)) (bt_insert k v xs)"
  by (induction xs) auto

lemma bt_insert_last: "(\<And>x. x \<in> set xs \<Longrightarrow> fst x < k) \<Longrightarrow> bt_insert k v xs = xs @ [(k, v)]"
  by (induction xs) force+

lemma fold_bt_insert_sorted:
  "sorted_wrt (<) (map fst xs) \<Longrightarrow> fold (\<lambda>(p, b) t. bt_insert p (f b) t) xs [] = map (\<lambda>(k, b). (k, f b)) xs"
proof (induction xs rule: rev_induct)
  case (snoc x xs)
  then show ?case
    by (cases x) (auto simp: sorted_wrt_append case_prod_beta intro!: bt_insert_last)
qed simp

lemma objects_ok_trie: "objects_ok cr e \<Longrightarrow> trie_consistent (hex cr) e"
  by (auto simp: objects_ok_def trie_consistent_def rebuild_state_trie_from_cache_def fold_bt_insert_sorted)

lemma objects_ok_insert:
  assumes "objects_ok cr e" "\<not> is_infrastructure_cado_path (hex cr) k"
    and "committed_cado_cache e' = bt_insert k b (committed_cado_cache e)"
    and "state_trie e' = bt_insert k (content_hash b) (state_trie e)"
  shows "objects_ok cr e'"
  using assms set_bt_insert_subset [of k b "committed_cado_cache e"]
  by (auto simp: objects_ok_def sorted_bt_insert bt_insert_map)

lemma objects_ok_cong:
  "committed_cado_cache e' = committed_cado_cache e \<Longrightarrow> state_trie e' = state_trie e \<Longrightarrow> objects_ok cr e' = objects_ok cr e"
  by (simp add: objects_ok_def)

section \<open>Namespace records\<close>

lemma namespace_path:
  assumes "slug_to_namespace_cadopath (hex cr) slug = Ok p" "hex_documented (hex cr)"
  shows "object_path cr p" "path_type p = ''namespace''" "generate_key cr p b = Ok (stable_key cr p)"
    "\<not> is_infrastructure_cado_path (hex cr) (path_str p)" "\<not> path_is_infrastructure p"
proof -
  obtain key where n: "cado_path_new (hex cr) NamespaceType key = Ok p"
    using assms(1) by (auto simp: slug_to_namespace_cadopath_def result_simps split: if_splits)
  show ty: "path_type p = ''namespace''" using cado_path_new_shape(1) [OF n] by simp
  show "object_path cr p" using n ty unfolding object_path_def stable_type_def by blast
  show "generate_key cr p b = Ok (stable_key cr p)"
    by (simp add: generate_key_def named_original_key_def stable_key_def ty)
  show "\<not> path_is_infrastructure p" by (simp add: path_is_infrastructure_def INFRASTRUCTURE_CADO_TYPES_def ty)
  then show "\<not> is_infrastructure_cado_path (hex cr) (path_str p)"
    using cado_path_new_parse [OF assms(2) n] by (simp add: is_infrastructure_cado_path_def)
qed

lemma commit_namespaces_effect:
  assumes "sound_store cr sc R"
  shows "commit_namespaces cr sc R xs (tx, e) = (tx', e') \<Longrightarrow> db_ok cr (tx_get R tx) \<Longrightarrow>
    \<exists>ws. obj_writes cr sc (tx_get R tx) ws (tx_get R tx') \<and> (\<forall>(p, b) \<in> set ws. path_type p = ''namespace'') \<and>
      (objects_ok cr e \<longrightarrow> objects_ok cr e') \<and>
      (\<forall>k. k \<notin> (path_str \<circ> fst) ` set ws \<longrightarrow> map_of (committed_cado_cache e') k = map_of (committed_cado_cache e) k) \<and>
      (\<exists>c t n. e' = e\<lparr>committed_cado_cache := c, state_trie := t, namespace_registry_index := n\<rparr>) \<and> (xs = [] \<longrightarrow> ws = [])"
proof (induction xs arbitrary: tx e)
  case Nil
  then show ?case
    by (intro exI [of _ "[]"]) (auto simp: obj_writes.none intro!: exI [of _ "committed_cado_cache e"]
        exI [of _ "state_trie e"] exI [of _ "namespace_registry_index e"])
next
  case (Cons x xs)
  note sd = sound_storeD [OF assms]
  obtain slug rec where x: "x = (slug, rec)" by (cases x)
  show ?case
  proof (cases "\<exists>p d. slug_to_namespace_cadopath (hex cr) slug = Ok p \<and> enc_namespace cr rec = Some d")
    case False
    then have "commit_namespaces cr sc R xs (tx, e) = (tx', e')"
      using Cons.prems(1) by (auto simp: x split: sum.splits option.splits)
    then show ?thesis using Cons.IH Cons.prems(2) by blast
  next
    case True
    then obtain p d where p: "slug_to_namespace_cadopath (hex cr) slug = Ok p" "enc_namespace cr rec = Some d" by blast
    let ?b = "cado_immutable (sha256 cr) d (cado_metadata_new NamespaceType slug)"
    let ?e = "e\<lparr>committed_cado_cache := bt_insert (path_str p) ?b (committed_cado_cache e),
                  state_trie := bt_insert (path_str p) (content_hash ?b) (state_trie e),
                  namespace_registry_index := bt_insert slug rec (namespace_registry_index e)\<rparr>"
    note np = namespace_path [OF p(1) sd(2)]
    obtain v where "enc_cado sc ?b = Some v" using sd(5) by blast
    from put_cado_succeeds [OF sd(4,2) Cons.prems(2) np(1,3) this]
    obtain tx1 where t1: "put_cadotype_by_path_with_tx cr sc R tx p ?b = (Ok (), tx1)" by blast
    have run: "commit_namespaces cr sc R xs (tx1, ?e) = (tx', e')"
      using Cons.prems(1) by (simp add: x p t1 Let_def)
    obtain ws where ws: "obj_writes cr sc (tx_get R tx1) ws (tx_get R tx')" "\<forall>(p, b) \<in> set ws. path_type p = ''namespace''"
      "objects_ok cr ?e \<longrightarrow> objects_ok cr e'"
      "\<forall>k. k \<notin> (path_str \<circ> fst) ` set ws \<longrightarrow> map_of (committed_cado_cache e') k = map_of (committed_cado_cache ?e) k"
      "\<exists>c t n. e' = ?e\<lparr>committed_cado_cache := c, state_trie := t, namespace_registry_index := n\<rparr>"
      using Cons.IH [OF run db_ok_put [OF sd(3,2) Cons.prems(2) np(1) t1]] by blast
    have "objects_ok cr e \<longrightarrow> objects_ok cr e'"
      using ws(3) objects_ok_insert [OF _ np(4), of e ?e ?b] by simp
    moreover note obj_writes_append [OF ws(1) put_cado_writes [OF sd(3,2) Cons.prems(2) np(1) t1]]
    ultimately show ?thesis
      using ws(2,4,5) np(2) by (intro exI [of _ "[(p, ?b)] @ ws"]) auto
  qed
qed

section \<open>Merging the staged objects\<close>

lemma map_of_fold_bt_insert:
  "distinct (map fst xs) \<Longrightarrow> map_of (fold (\<lambda>(k, b). bt_insert k b) xs c) = map_of c ++ map_of xs"
proof (induction xs arbitrary: c)
  case (Cons x xs)
  then have "map_of xs (fst x) = None" by (simp add: map_of_eq_None_iff)
  then show ?case using Cons by (cases x) (auto simp: map_add_def fun_eq_iff split: option.splits)
qed simp

lemma fold_bt_insert_map:
  "fold (\<lambda>(k, b). bt_insert k (f b)) xs (map (\<lambda>(k, b). (k, f b)) c) = map (\<lambda>(k, b). (k, f b)) (fold (\<lambda>(k, b). bt_insert k b) xs c)"
  by (induction xs arbitrary: c) (auto simp: bt_insert_map)

lemma fold_bt_insert_facts:
  "sorted_wrt (<) (map fst c) \<Longrightarrow> sorted_wrt (<) (map fst (fold (\<lambda>(k, b). bt_insert k b) xs c))"
  "set (fold (\<lambda>(k, b). bt_insert k b) xs c) \<subseteq> set xs \<union> set c"
proof -
  show "sorted_wrt (<) (map fst c) \<Longrightarrow> sorted_wrt (<) (map fst (fold (\<lambda>(k, b). bt_insert k b) xs c))"
    by (induction xs arbitrary: c) (auto simp: sorted_bt_insert)
  show "set (fold (\<lambda>(k, b). bt_insert k b) xs c) \<subseteq> set xs \<union> set c"
  proof (induction xs arbitrary: c)
    case (Cons x xs)
    then show ?case
      using Cons.IH [of "bt_insert (fst x) (snd x) c"] set_bt_insert_subset [of "fst x" "snd x" c] by (cases x) auto
  qed simp
qed

lemma fold_epoch_index:
  "\<exists>i. fold (\<lambda>(k, b) e. insert_epoch_records_index_from_path e k) xs e = e\<lparr>epoch_records_index := i\<rparr>"
proof (induction xs arbitrary: e)
  case Nil
  show ?case by (rule exI [of _ "epoch_records_index e"]) simp
next
  case (Cons x xs)
  have "\<exists>i. insert_epoch_records_index_from_path e (fst x) = e\<lparr>epoch_records_index := i\<rparr>"
    by (cases "epoch_number_from_record_path (fst x)")
      (auto simp: insert_epoch_records_index_from_path_def intro: exI [of _ "epoch_records_index e"])
  then obtain i where "insert_epoch_records_index_from_path e (fst x) = e\<lparr>epoch_records_index := i\<rparr>" by blast
  then show ?case
    using Cons [of "e\<lparr>epoch_records_index := i\<rparr>"] by (cases x) auto
qed

lemma sorted_distinct_keys: "sorted_wrt (<) (map fst (xs :: ('k :: linorder \<times> 'v) list)) \<Longrightarrow> distinct (map fst xs)"
  by (simp add: strict_sorted_iff)

lemma merge_staged_effect:
  assumes "cache_ok cr e"
  shows "map_of (committed_cado_cache (merge_staged cr e)) = map_of (committed_cado_cache e) ++ map_of (cado_cache e)"
    "objects_ok cr e \<Longrightarrow> objects_ok cr (merge_staged cr e)"
    "\<exists>c t i. merge_staged cr e = e\<lparr>committed_cado_cache := c, epoch_records_index := i, state_trie := t\<rparr>"
proof -
  have ni: "\<not> is_infrastructure_cado_path (hex cr) k" if "(k, b) \<in> set (cado_cache e)" for k b
    using assms that storable_not_infrastructure by (fastforce simp: cache_ok_def)
  then have own: "filter (\<lambda>(k, b). \<not> is_infrastructure_cado_path (hex cr) k) (cado_cache e) = cado_cache e"
    by (intro filter_True) auto
  let ?c = "fold (\<lambda>(k, b). bt_insert k b) (cado_cache e) (committed_cado_cache e)"
  obtain i where i: "fold (\<lambda>(k, b) e. insert_epoch_records_index_from_path e k) (cado_cache e)
      (e\<lparr>committed_cado_cache := ?c\<rparr>) = e\<lparr>committed_cado_cache := ?c, epoch_records_index := i\<rparr>"
    using fold_epoch_index [of "cado_cache e" "e\<lparr>committed_cado_cache := ?c\<rparr>"] by auto
  have m: "merge_staged cr e = e\<lparr>committed_cado_cache := ?c, epoch_records_index := i,
      state_trie := fold (\<lambda>(k, b). bt_insert k (content_hash b)) (cado_cache e) (state_trie e)\<rparr>"
    by (simp add: merge_staged_def Let_def own i)
  show "map_of (committed_cado_cache (merge_staged cr e)) = map_of (committed_cado_cache e) ++ map_of (cado_cache e)"
    using assms by (simp add: m map_of_fold_bt_insert sorted_distinct_keys cache_ok_def)
  show "\<exists>c t i. merge_staged cr e = e\<lparr>committed_cado_cache := c, epoch_records_index := i, state_trie := t\<rparr>"
    by (auto simp: m)
  assume "objects_ok cr e"
  then show "objects_ok cr (merge_staged cr e)"
    using fold_bt_insert_facts(1) [of "committed_cado_cache e" "cado_cache e"]
      fold_bt_insert_facts(2) [of "cado_cache e" "committed_cado_cache e"] ni
    by (auto simp: objects_ok_def m fold_bt_insert_map)
qed

section \<open>The head\<close>

definition tip_of :: "node_crates \<Rightarrow> app_state \<Rightarrow> bytes \<Rightarrow> app_state_tip" where
  "tip_of cr s h = \<lparr>tip_block_height = block_height (app_envelope s),
     cado_root_hash = trie_root cr (state_trie (app_envelope s)), tip_app_hash = h\<rparr>"

definition tip_cado :: "node_crates \<Rightarrow> bytes \<Rightarrow> cado_body" where
  "tip_cado cr d = cado_immutable (sha256 cr) d (cado_metadata_new AppStateTipType ''system'')"

definition head_type :: "cado_type \<Rightarrow> bool" where
  "head_type ty \<longleftrightarrow> ty = AppStateTipType \<or> ty = AppStateSnapshotType"

lemma head_path:
  assumes "cado_path_new (hex cr) ty key = Ok p" "head_type ty"
  shows "object_path cr p" "generate_key cr p b = Ok (stable_key cr p)" "path_type p = cado_type_as_str ty"
proof -
  show ty: "path_type p = cado_type_as_str ty" using cado_path_new_shape(1) [OF assms(1)] by simp
  with assms show "object_path cr p" by (auto simp: object_path_def stable_type_def head_type_def)
  show "generate_key cr p b = Ok (stable_key cr p)"
    using assms(2) by (auto simp: generate_key_def named_original_key_def stable_key_def ty head_type_def)
qed

lemma put_head:
  assumes "sound_store cr sc R" "db_ok cr (tx_get R t)" "cado_path_new (hex cr) ty key = Ok p" "head_type ty"
    and "put_cadotype_by_path_with_tx cr sc R t p b = (Ok u, t')"
  shows "obj_writes cr sc (tx_get R t) [(p, b)] (tx_get R t')" "db_ok cr (tx_get R t')"
  using put_cado_writes [OF sound_storeD(3,2) [OF assms(1)] assms(2) head_path(1) [OF assms(3,4)]]
    db_ok_put [OF sound_storeD(3,2) [OF assms(1)] assms(2) head_path(1) [OF assms(3,4)]] assms(5) by simp_all

lemma write_head_effect:
  assumes "sound_store cr sc R" "db_ok cr (tx_get R t)" "write_head cr sc hc R pc s t = Some t'"
  obtains h d tip_path latest ws where "app_hash s = Some h" "enc_tip hc (tip_of cr s h) = Some d"
    "cado_path_new (hex cr) AppStateTipType (KeyName (''0x'' @ hex_encode (hex cr) (sha256 cr d))) = Ok tip_path"
    "cado_path_new (hex cr) AppStateTipType (KeyName LATEST) = Ok latest"
    "obj_writes cr sc (tx_get R t) ([(tip_path, tip_cado cr d), (latest, tip_cado cr d)] @ ws) (tx_get R t')"
    "if block_height (app_envelope s) smod blocks_per_epoch pc \<noteq> 0 then ws = []
     else \<exists>sn sn_cado sn_path. snapshot_new cr s = Ok sn \<and> snapshot_to_cado cr hc sn = Ok sn_cado \<and>
       snapshot_latest_path cr = Ok sn_path \<and> ws = [(sn_path, sn_cado)]"
proof -
  obtain h d p q u1 u2 t1 t2 where hd: "app_hash s = Some h" "enc_tip hc (tip_of cr s h) = Some d"
    "cado_path_new (hex cr) AppStateTipType (KeyName (''0x'' @ hex_encode (hex cr) (sha256 cr d))) = Ok p"
    "cado_path_new (hex cr) AppStateTipType (KeyName LATEST) = Ok q"
    "put_cadotype_by_path_with_tx cr sc R t p (tip_cado cr d) = (Ok u1, t1)"
    "put_cadotype_by_path_with_tx cr sc R t1 q (tip_cado cr d) = (Ok u2, t2)"
    and last: "(if block_height (app_envelope s) smod blocks_per_epoch pc \<noteq> 0 then t' = t2
     else \<exists>sn sn_cado sn_path u3. snapshot_new cr s = Ok sn \<and> snapshot_to_cado cr hc sn = Ok sn_cado \<and>
       snapshot_latest_path cr = Ok sn_path \<and> put_cadotype_by_path_with_tx cr sc R t2 sn_path sn_cado = (Ok u3, t'))"
    using assms(3)
    by (auto simp: write_head_def tip_of_def tip_cado_def app_hash_bytes_def result_simps Let_def
        split: sum.splits option.splits prod.splits if_splits)
  have ty: "head_type AppStateTipType" "head_type AppStateSnapshotType" by (simp_all add: head_type_def)
  note w1 = put_head [OF assms(1,2) hd(3) ty(1) hd(5)]
  note w2 = put_head [OF assms(1) w1(2) hd(4) ty(1) hd(6)]
  note w12 = obj_writes_append [OF w2(1) w1(1), simplified]
  show thesis
  proof (cases "block_height (app_envelope s) smod blocks_per_epoch pc \<noteq> 0")
    case True
    with last that [OF hd(1-4), of "[]"] w12 show thesis by simp
  next
    case False
    with last obtain sn sn_cado sn_path u3 where sn: "snapshot_new cr s = Ok sn" "snapshot_to_cado cr hc sn = Ok sn_cado"
       "snapshot_latest_path cr = Ok sn_path" "put_cadotype_by_path_with_tx cr sc R t2 sn_path sn_cado = (Ok u3, t')" by auto
    note w3 = put_head [OF assms(1) w2(2) sn(3) [unfolded snapshot_latest_path_def snapshot_create_path_def] ty(2) sn(4)]
    from that [OF hd(1-4), of "[(sn_path, sn_cado)]"] obj_writes_append [OF w3(1) w12] sn False show thesis by auto
  qed
qed

section \<open>The whole commit\<close>

lemma commit_objects_effect:
  assumes "sound_store cr sc R" "db_ok cr (db_get R db)" "cache_ok cr e"
    and "commit_objects cr sc R pc db e = Some (t, e')"
  shows "obj_writes cr sc (db_get R db) (staged_writes cr (cado_cache e)) (tx_get R t)" "\<exists>v. e' = e\<lparr>active_validators := v\<rparr>"
proof -
  note sd = sound_storeD [OF assms(1)]
  obtain v where v: "(if (block_height e + 1) sdiv blocks_per_epoch pc > current_epoch e
      then select_validators_for_epoch pc e else e) = e\<lparr>active_validators := v\<rparr>" (is "?e1 = _")
    by (cases "(block_height e + 1) sdiv blocks_per_epoch pc > current_epoch e")
      (auto simp: select_validators_for_epoch_def intro: that [of "active_validators e"])
  have nd: "cado_cache_to_delete e = []" using assms(3) by (simp add: cache_ok_def)
  have st: "storable cr k b" if "(k, b) \<in> set (cado_cache e)" for k b using assms(3) that by (auto simp: cache_ok_def)
  have t0: "tx_get R (transaction R db) = db_get R db" by (rule rocks_laws(1) [OF sd(3)])
  obtain t' where t': "put_cados cr sc R (transaction R db) (cado_cache e) = (t', [])"
    "obj_writes cr sc (db_get R db) (staged_writes cr (cado_cache e)) (tx_get R t')"
    using put_cados_ok [OF assms(1), of "transaction R db" "cado_cache e"] st assms(2) t0 by auto
  have rm: "remove_deleted (e\<lparr>active_validators := v\<rparr>) = e\<lparr>active_validators := v\<rparr>"
    using nd by (simp add: remove_deleted_def)
  have "t = t' \<and> e' = e\<lparr>active_validators := v\<rparr>"
    using assms(4) unfolding commit_objects_def Let_def v by (simp add: nd rm t'(1))
  then show "obj_writes cr sc (db_get R db) (staged_writes cr (cado_cache e)) (tx_get R t)" "\<exists>v. e' = e\<lparr>active_validators := v\<rparr>"
    using t'(2) by blast+
qed

lemma commit_effect:
  assumes "sound_store cr sc R" "db_ok cr (db_get R db)" "current_state c = Some s" "cache_ok cr (app_envelope s)"
    and "commit_inner cr sc hc R pc db c = Some (res, db', c')"
  obtains e ns h d tip_path latest ws where "app_hash s = Some h" "response_data res = h"
    "c' = c\<lparr>committed_state := s\<lparr>app_envelope := e\<lparr>cado_cache := []\<rparr>\<rparr>\<rparr>"
    "enc_tip hc (tip_of cr (s\<lparr>app_envelope := e\<rparr>) h) = Some d"
    "cado_path_new (hex cr) AppStateTipType (KeyName (''0x'' @ hex_encode (hex cr) (sha256 cr d))) = Ok tip_path"
    "cado_path_new (hex cr) AppStateTipType (KeyName LATEST) = Ok latest"
    "obj_writes cr sc (db_get R db) (staged_writes cr (cado_cache (app_envelope s)) @ ns @
       [(tip_path, tip_cado cr d), (latest, tip_cado cr d)] @ ws) (db_get R db')"
    "\<forall>(p, b) \<in> set ns. path_type p = ''namespace''"
    "if block_height e smod blocks_per_epoch pc \<noteq> 0 then ws = []
     else \<exists>sn sn_cado sn_path. snapshot_new cr (s\<lparr>app_envelope := e\<rparr>) = Ok sn \<and> snapshot_to_cado cr hc sn = Ok sn_cado \<and>
       snapshot_latest_path cr = Ok sn_path \<and> ws = [(sn_path, sn_cado)]"
    "objects_ok cr (app_envelope s) \<Longrightarrow> objects_ok cr e"
    "\<And>k. k \<notin> (path_str \<circ> fst) ` set ns \<Longrightarrow> map_of (committed_cado_cache e) k =
       (map_of (committed_cado_cache (app_envelope s)) ++ map_of (cado_cache (app_envelope s))) k"
    "cado_cache_to_delete e = []" "block_height e = block_height (app_envelope s)"
    "current_epoch e = current_epoch (app_envelope s)" "namespace_registry_cache (app_envelope s) = [] \<Longrightarrow> ns = []"
proof -
  note sd = sound_storeD [OF assms(1)]
  let ?e0 = "app_envelope s"
  obtain h t1 e1 blobs t2 t3 e3 t4 e4 t5 where run: "app_hash s = Some h"
    "commit_objects cr sc R pc db ?e0 = Some (t1, e1)" "commit_pinboard sc R db e1 t1 = Some (blobs, t2)"
    "commit_markers R (clear_pinboard e1) t2 = Some (t3, e3)"
    "commit_namespaces cr sc R (namespace_registry_cache e3) (t3, e3) = (t4, e4)"
    "write_head cr sc hc R pc (s\<lparr>app_envelope := merge_staged cr (e4\<lparr>namespace_registry_cache := []\<rparr>)\<rparr>) t4 = Some t5"
    "tx_commit R db t5 = Some db'" "response_data res = h"
    "c' = c\<lparr>committed_state := s\<lparr>app_envelope := (merge_staged cr (e4\<lparr>namespace_registry_cache := []\<rparr>))\<lparr>cado_cache := []\<rparr>\<rparr>\<rparr>"
    using assms(5) unfolding commit_inner_def assms(3) Let_def
    by (auto split: bind_splits if_splits prod.splits)
  let ?e5 = "merge_staged cr (e4\<lparr>namespace_registry_cache := []\<rparr>)"
  obtain v where e1: "e1 = ?e0\<lparr>active_validators := v\<rparr>"
    using commit_objects_effect(2) [OF assms(1,2,4) run(2)] by blast
  note w1 = commit_objects_effect(1) [OF assms(1,2,4) run(2)]
  note mk = commit_markers_same [OF sd(3) run(4)]
  have w3: "obj_writes cr sc (db_get R db) (staged_writes cr (cado_cache ?e0)) (tx_get R t3)"
    by (rule obj_writes_same [OF obj_writes_same [OF w1 commit_pinboard_same [OF sd(3) run(3)]] mk(1)])
  have e3: "committed_cado_cache e3 = committed_cado_cache ?e0" "state_trie e3 = state_trie ?e0" "cado_cache e3 = cado_cache ?e0"
     "cado_cache_to_delete e3 = cado_cache_to_delete ?e0" "block_height e3 = block_height ?e0" "current_epoch e3 = current_epoch ?e0"
     "namespace_registry_cache e3 = namespace_registry_cache ?e0"
    by (simp_all add: mk(2) clear_pinboard_def e1)
  obtain ns cc tr idx where ns: "obj_writes cr sc (tx_get R t3) ns (tx_get R t4)" "\<forall>(p, b) \<in> set ns. path_type p = ''namespace''"
    "objects_ok cr e3 \<longrightarrow> objects_ok cr e4"
    "\<forall>k. k \<notin> (path_str \<circ> fst) ` set ns \<longrightarrow> map_of (committed_cado_cache e4) k = map_of (committed_cado_cache e3) k"
    "namespace_registry_cache e3 = [] \<longrightarrow> ns = []"
    and e4: "e4 = e3\<lparr>committed_cado_cache := cc, state_trie := tr, namespace_registry_index := idx\<rparr>"
    using commit_namespaces_effect [OF assms(1) run(5) obj_writes_db_ok [OF sd(2) w3 assms(2)]] by blast
  note w4 = obj_writes_append [OF ns(1) w3]
  have ck: "cache_ok cr (e4\<lparr>namespace_registry_cache := []\<rparr>)"
    using assms(4) by (simp add: cache_ok_def e4 e3)
  note mg = merge_staged_effect [OF ck]
  obtain c5 t5' i5 where e5: "?e5 = e4\<lparr>namespace_registry_cache := [], committed_cado_cache := c5, epoch_records_index := i5, state_trie := t5'\<rparr>"
    using mg(3) by auto
  have bh: "block_height ?e5 = block_height ?e0" "current_epoch ?e5 = current_epoch ?e0" "cado_cache_to_delete ?e5 = []"
    using assms(4) unfolding e5 by (simp_all add: e4 e3 cache_ok_def)
  show thesis
  proof (rule write_head_effect [OF assms(1) obj_writes_db_ok [OF sd(2) w4 assms(2)] run(6)])
    fix h' d tip_path latest ws
    assume hd: "app_hash (s\<lparr>app_envelope := ?e5\<rparr>) = Some h'" "enc_tip hc (tip_of cr (s\<lparr>app_envelope := ?e5\<rparr>) h') = Some d"
      "cado_path_new (hex cr) AppStateTipType (KeyName (''0x'' @ hex_encode (hex cr) (sha256 cr d))) = Ok tip_path"
      "cado_path_new (hex cr) AppStateTipType (KeyName LATEST) = Ok latest"
      "obj_writes cr sc (tx_get R t4) ([(tip_path, tip_cado cr d), (latest, tip_cado cr d)] @ ws) (tx_get R t5)"
      "if block_height (app_envelope (s\<lparr>app_envelope := ?e5\<rparr>)) smod blocks_per_epoch pc \<noteq> 0 then ws = []
       else \<exists>sn sn_cado sn_path. snapshot_new cr (s\<lparr>app_envelope := ?e5\<rparr>) = Ok sn \<and> snapshot_to_cado cr hc sn = Ok sn_cado \<and>
         snapshot_latest_path cr = Ok sn_path \<and> ws = [(sn_path, sn_cado)]"
    have h': "h' = h" using hd(1) run(1) by simp
    have db': "db_get R db' = tx_get R t5" by (rule rocks_laws(4) [OF sd(3) run(7)])
    have w5: "obj_writes cr sc (db_get R db) (staged_writes cr (cado_cache ?e0) @ ns @
       [(tip_path, tip_cado cr d), (latest, tip_cado cr d)] @ ws) (db_get R db')"
      using obj_writes_append [OF hd(5) w4] by (simp add: db')
    have obj: "objects_ok cr ?e0 \<Longrightarrow> objects_ok cr ?e5"
      using ns(3) mg(2) objects_ok_cong [of e3 ?e0 cr] objects_ok_cong [of "e4\<lparr>namespace_registry_cache := []\<rparr>" e4 cr] e3 by simp
    have look: "map_of (committed_cado_cache ?e5) k = (map_of (committed_cado_cache ?e0) ++ map_of (cado_cache ?e0)) k"
      if "k \<notin> (path_str \<circ> fst) ` set ns" for k
    proof -
      have "map_of (committed_cado_cache e4) k = map_of (committed_cado_cache ?e0) k" "cado_cache e4 = cado_cache ?e0"
        using ns(4) that e3(1,3) by (simp, simp add: e4)
      then show ?thesis unfolding mg(1) by (simp add: map_add_def split: option.split)
    qed
    show thesis
      by (rule that [of h ?e5 d tip_path latest ns ws])
        (use run(1,8,9) hd(2-4,6) h' w5 ns(2,5) e3(7) obj look bh in \<open>simp_all split: if_splits\<close>)
  qed
qed

end
