(* ===== verification/Commit_Liveness.thy ===== *)
theory Commit_Liveness
  imports Commit_Effects
begin

text \<open>
  When a commit completes.  On an engine that does not fail and with codecs that encode, the only thing that can
  end the process in \<^verbatim>\<open>commit_inner\<close> is a staged post whose blob is not in the temporary blob store.
\<close>

section \<open>Rows\<close>

lemma write_all_total:
  assumes "\<And>x t. x \<in> set xs \<Longrightarrow> I t \<Longrightarrow> \<exists>t'. f x t = Ok t' \<and> I t'"
  shows "I t \<Longrightarrow> \<exists>t'. write_all f xs t = Some t' \<and> I t'"
  using assms
proof (induction xs arbitrary: t)
  case (Cons x xs)
  obtain t1 where t1: "f x t = Ok t1" "I t1" using Cons.prems by (metis list.set_intros(1))
  then show ?case using Cons.IH [OF t1(2)] Cons.prems(2) by simp
qed simp

lemma write_all_always: "(\<And>x t. \<exists>t'. f x t = Ok t') \<Longrightarrow> \<exists>t'. write_all f xs t = Some t'"
  using write_all_total [of xs "\<lambda>_. True" f t] by blast

text \<open>The reference counts in the database decode.\<close>

definition refcounts_ok :: "store_codec \<Rightarrow> reader \<Rightarrow> bool" where
  "refcounts_ok sc rd \<longleftrightarrow> (\<forall>k v. rd PinboardRefcountsCf k = Some (Some v) \<longrightarrow> dec_u64 sc v \<noteq> None)"

definition row_codecs_ok :: "store_codec \<Rightarrow> bool" where
  "row_codecs_ok sc \<longleftrightarrow> (\<forall>m. enc_meta sc m \<noteq> None) \<and> (\<forall>n. \<exists>d. enc_u64 sc n = Some d \<and> dec_u64 sc d = Some n)"

lemma refcounts_update: "cf \<noteq> PinboardRefcountsCf \<Longrightarrow> refcounts_ok sc (rd_update rd cf k v) = refcounts_ok sc rd"
  by (simp add: refcounts_ok_def)

lemma rocks_reliableD:
  assumes "rocks_reliable R"
  shows "\<exists>v. tx_get R t cf k = Some v" "\<exists>t'. tx_put R t cf k v = Some t'" "\<exists>db'. tx_commit R db t = Some db'"
  using assms unfolding rocks_reliable_def by blast+

lemma put_row:
  assumes "rocks_documented R" "rocks_reliable R" "cf \<noteq> PinboardRefcountsCf" "refcounts_ok sc (tx_get R t)"
  shows "\<exists>t'. tx_put R t cf k v = Some t' \<and> refcounts_ok sc (tx_get R t')"
proof -
  obtain t' where "tx_put R t cf k v = Some t'" using rocks_reliableD [OF assms(2)] by blast
  then show ?thesis using assms(3,4) rocks_laws(2) [OF assms(1)] by (auto simp: refcounts_update)
qed

lemma put_rows_total:
  assumes "rocks_documented R" "rocks_reliable R" "row_codecs_ok sc" "refcounts_ok sc (tx_get R t)"
  shows "\<exists>t'. put_pinboard_metadata_with_tx sc R mid meta t = Ok t' \<and> refcounts_ok sc (tx_get R t')"
    "\<exists>t'. put_pinboard_wallet_index_with_tx R w h mid t = Ok t' \<and> refcounts_ok sc (tx_get R t')"
    "\<exists>t'. put_pinboard_tag_index_with_tx R w h mid t = Ok t' \<and> refcounts_ok sc (tx_get R t')"
    "\<exists>t'. put_pinboard_expiry_index_with_tx R h mid t = Ok t' \<and> refcounts_ok sc (tx_get R t')"
    "\<exists>t'. put_pinboard_commit_index_with_tx R h mid t = Ok t' \<and> refcounts_ok sc (tx_get R t')"
    "\<exists>t'. put_verified_proof_challenge_rewarded_with_tx R w t = Ok t' \<and> refcounts_ok sc (tx_get R t')"
    "\<exists>t'. put_verified_proof_challenge_failed_with_tx R w t = Ok t' \<and> refcounts_ok sc (tx_get R t')"
    "0 \<le> i \<Longrightarrow> \<exists>t'. map_sum id snd (update_pinboard_refcount_with_tx sc R w i t) = Ok t' \<and> refcounts_ok sc (tx_get R t')"
proof -
  note put = put_row [OF assms(1,2) _ assms(4)]
  obtain d where d: "enc_meta sc meta = Some d" using assms(3) by (auto simp: row_codecs_ok_def)
  obtain t1 where t1: "tx_put R t PinboardMetaCf (str_bytes mid) d = Some t1" "refcounts_ok sc (tx_get R t1)"
    using put by blast
  show "\<exists>t'. put_pinboard_metadata_with_tx sc R mid meta t = Ok t' \<and> refcounts_ok sc (tx_get R t')"
    using t1 d put_row [OF assms(1,2) _ t1(2), of PinboardMetaCf "str_bytes (pinboard_namespace_content_path (the (pb_namespace meta)) mid)" d]
    by (cases "pb_namespace meta") (auto simp: put_pinboard_metadata_with_tx_def)
  show "\<exists>t'. put_pinboard_wallet_index_with_tx R w h mid t = Ok t' \<and> refcounts_ok sc (tx_get R t')"
    "\<exists>t'. put_pinboard_tag_index_with_tx R w h mid t = Ok t' \<and> refcounts_ok sc (tx_get R t')"
    "\<exists>t'. put_pinboard_expiry_index_with_tx R h mid t = Ok t' \<and> refcounts_ok sc (tx_get R t')"
    "\<exists>t'. put_pinboard_commit_index_with_tx R h mid t = Ok t' \<and> refcounts_ok sc (tx_get R t')"
    "\<exists>t'. put_verified_proof_challenge_rewarded_with_tx R w t = Ok t' \<and> refcounts_ok sc (tx_get R t')"
    "\<exists>t'. put_verified_proof_challenge_failed_with_tx R w t = Ok t' \<and> refcounts_ok sc (tx_get R t')"
    using put by (simp_all add: put_pinboard_wallet_index_with_tx_def put_pinboard_tag_index_with_tx_def
        put_pinboard_expiry_index_with_tx_def put_pinboard_commit_index_with_tx_def ok_or_iff
        put_verified_proof_challenge_rewarded_with_tx_def put_verified_proof_challenge_failed_with_tx_def)
  assume i: "0 \<le> i"
  obtain v where v: "tx_get R t PinboardRefcountsCf (str_bytes w) = Some v" using rocks_reliableD [OF assms(2)] by blast
  have "\<exists>n. (case v of None \<Rightarrow> Ok 0 | Some d \<Rightarrow> ok_or (StorageError ''deserialize_pinboard_refcount'') (dec_u64 sc d)) = Ok n"
    using assms(4) v by (cases v) (auto simp: refcounts_ok_def ok_or_iff)
  then obtain n where n: "(case v of None \<Rightarrow> Ok 0 | Some d \<Rightarrow> ok_or (StorageError ''deserialize_pinboard_refcount'') (dec_u64 sc d)) = Ok n" ..
  let ?m = "word_of_int (uint n + i) :: u64"
  obtain d' where d': "enc_u64 sc ?m = Some d'" "dec_u64 sc d' = Some ?m" using assms(3) by (auto simp: row_codecs_ok_def)
  obtain t' where t': "tx_put R t PinboardRefcountsCf (str_bytes w) d' = Some t'" using rocks_reliableD [OF assms(2)] by blast
  have "refcounts_ok sc (tx_get R t')"
    using assms(4) rocks_laws(2) [OF assms(1) t'] d'(2) by (auto simp: refcounts_ok_def)
  moreover have "\<not> uint n + i < 0" using i uint_ge_0 [of n] by linarith
  ultimately show "\<exists>t'. map_sum id snd (update_pinboard_refcount_with_tx sc R w i t) = Ok t' \<and> refcounts_ok sc (tx_get R t')"
    using v n d'(1) t' by (simp add: update_pinboard_refcount_with_tx_def Let_def)
qed

section \<open>Blobs\<close>

definition blobs_present :: "store_codec \<Rightarrow> reader \<Rightarrow> envelope \<Rightarrow> bool" where
  "blobs_present sc rd e \<longleftrightarrow> (\<forall>(mid, meta) \<in> set (pinboard_meta_cache e).
     \<exists>blob. get_pinboard_temp_blob sc rd (pb_content_key meta) = Ok (Some blob))"

lemma collect_blobs_iff:
  "collect_blobs sc rd xs acc \<noteq> None \<longleftrightarrow>
     (\<forall>(mid, meta) \<in> set xs. \<exists>blob. get_pinboard_temp_blob sc rd (pb_content_key meta) = Ok (Some blob))"
proof (induction xs arbitrary: acc)
  case (Cons x xs)
  obtain mid meta where x: "x = (mid, meta)" by (cases x)
  show ?case using Cons.IH by (auto simp: x split: sum.splits option.splits)
qed simp

lemma commit_pinboard_iff:
  assumes "rocks_documented R" "rocks_reliable R" "row_codecs_ok sc" "refcounts_ok sc (tx_get R t)"
    and "\<forall>(k, i) \<in> set (pinboard_refcount_deltas e). 0 \<le> i"
  shows "(\<exists>r. commit_pinboard sc R db e t = Some r) \<longleftrightarrow> blobs_present sc (db_get R db) e"
proof (cases "collect_blobs sc (db_get R db) (pinboard_meta_cache e) []")
  case None
  then show ?thesis using collect_blobs_iff [of sc "db_get R db" "pinboard_meta_cache e" "[]"]
    by (simp add: commit_pinboard_def blobs_present_def)
next
  case (Some blobs)
  let ?I = "\<lambda>t. refcounts_ok sc (tx_get R t)"
  note rows = put_rows_total [OF assms(1-3)]
  obtain t1 where t1: "write_all (\<lambda>(mid, meta). put_pinboard_metadata_with_tx sc R mid meta) (pinboard_meta_cache e) t = Some t1" "?I t1"
    using write_all_total [of _ ?I, OF _ assms(4)] rows(1) by (metis (mono_tags, lifting) case_prod_beta')
  obtain t2 where t2: "write_all (\<lambda>(w, h, mid). put_pinboard_wallet_index_with_tx R w h mid) (pinboard_idx_wallet_add e) t1 = Some t2" "?I t2"
    using write_all_total [of _ ?I, OF _ t1(2)] rows(2) by (metis (mono_tags, lifting) case_prod_beta')
  obtain t3 where t3: "write_all (\<lambda>(w, h, mid). put_pinboard_tag_index_with_tx R w h mid) (pinboard_idx_tag_add e) t2 = Some t3" "?I t3"
    using write_all_total [of _ ?I, OF _ t2(2)] rows(3) by (metis (mono_tags, lifting) case_prod_beta')
  obtain t4 where t4: "write_all (\<lambda>(h, mid). put_pinboard_expiry_index_with_tx R h mid) (pinboard_idx_expiry_add e) t3 = Some t4" "?I t4"
    using write_all_total [of _ ?I, OF _ t3(2)] rows(4) by (metis (mono_tags, lifting) case_prod_beta')
  obtain t5 where t5: "write_all (\<lambda>(h, mid). put_pinboard_commit_index_with_tx R h mid) (pinboard_idx_commit_add e) t4 = Some t5" "?I t5"
    using write_all_total [of _ ?I, OF _ t4(2)] rows(5) by (metis (mono_tags, lifting) case_prod_beta')
  have "\<exists>t6. write_all (\<lambda>(k, delta) t. map_sum id snd (update_pinboard_refcount_with_tx sc R k delta t)) (pinboard_refcount_deltas e) t5 = Some t6 \<and> ?I t6"
    by (rule write_all_total [of _ ?I, OF _ t5(2)]) (use assms(5) rows(8) in \<open>auto simp: case_prod_beta'\<close>)
  then obtain t6 where t6: "write_all (\<lambda>(k, delta) t. map_sum id snd (update_pinboard_refcount_with_tx sc R k delta t)) (pinboard_refcount_deltas e) t5 = Some t6" by blast
  show ?thesis
    using Some t1(1) t2(1) t3(1) t4(1) t5(1) t6 collect_blobs_iff [of sc "db_get R db" "pinboard_meta_cache e" "[]"]
    by (simp add: commit_pinboard_def blobs_present_def)
qed

section \<open>The whole commit\<close>

text \<open>What writing the head needs: 32-byte hashes and encodings of the tip and the snapshot.\<close>

definition head_encodes :: "node_crates \<Rightarrow> head_codec \<Rightarrow> bool" where
  "head_encodes cr hc \<longleftrightarrow> (\<forall>bs. length (sha256 cr bs) = 32) \<and> (\<forall>x. enc_tip hc x \<noteq> None) \<and> (\<forall>x. enc_snapshot hc x \<noteq> None)"

lemma sha_name_path:
  assumes "hex_documented (hex cr)" "length (sha256 cr d) = 32" "head_type ty"
  shows "\<exists>p. cado_path_new (hex cr) ty (KeyName (''0x'' @ hex_encode (hex cr) (sha256 cr d))) = Ok p"
proof -
  have "list_all is_lower_hex (hex_encode (hex cr) (sha256 cr d))" "length (hex_encode (hex cr) (sha256 cr d)) = 64"
    using hex_documentedD [OF assms(1)] assms(2) by (simp_all add: list_all_iff)
  from hex_name_path [OF assms(1) this, of ty] assms(3) show ?thesis
    by (auto simp: head_type_def is_address_type_def)
qed

lemma latest_name_path:
  assumes "hex_documented (hex cr)"
  shows "\<exists>p. cado_path_new (hex cr) AppStateTipType (KeyName LATEST) = Ok p"
proof -
  have l: "list_all is_lower_hex (drop 2 LATEST)" "length (drop 2 LATEST) = 64" "LATEST = ''0x'' @ drop 2 LATEST"
    by (simp_all add: LATEST_def is_lower_hex_def)
  show ?thesis using hex_name_path [OF assms l(1,2), of AppStateTipType] l(3) by (auto simp: is_address_type_def)
qed

lemma put_head_total:
  assumes "sound_store cr sc R" "db_ok cr (tx_get R t)" "cado_path_new (hex cr) ty key = Ok p" "head_type ty"
  shows "\<exists>t'. put_cadotype_by_path_with_tx cr sc R t p b = (Ok (), t') \<and> db_ok cr (tx_get R t')"
proof -
  obtain v where "enc_cado sc b = Some v" using sound_storeD(5) [OF assms(1)] by blast
  from put_cado_succeeds [OF sound_storeD(4,2) [OF assms(1)] assms(2) head_path(1,2) [OF assms(3,4)] this]
  show ?thesis using put_head(2) [OF assms] by blast
qed

lemma write_head_total:
  assumes "sound_store cr sc R" "db_ok cr (tx_get R t)" "head_encodes cr hc" "app_hash s = Some h"
  shows "\<exists>t'. write_head cr sc hc R pc s t = Some t'"
proof -
  note hx = sound_storeD(2) [OF assms(1)]
  have ty: "head_type AppStateTipType" "head_type AppStateSnapshotType" by (simp_all add: head_type_def)
  obtain d where d: "enc_tip hc (tip_of cr s h) = Some d" using assms(3) unfolding head_encodes_def by blast
  have sha: "length (sha256 cr bs) = 32" for bs using assms(3) by (simp add: head_encodes_def)
  obtain p where p: "cado_path_new (hex cr) AppStateTipType (KeyName (''0x'' @ hex_encode (hex cr) (sha256 cr d))) = Ok p"
    using sha_name_path [OF hx sha ty(1)] by blast
  obtain q where q: "cado_path_new (hex cr) AppStateTipType (KeyName LATEST) = Ok q" using latest_name_path [OF hx] by blast
  obtain t1 where t1: "put_cadotype_by_path_with_tx cr sc R t p (tip_cado cr d) = (Ok (), t1)" "db_ok cr (tx_get R t1)"
    using put_head_total [OF assms(1,2) p ty(1)] by blast
  obtain t2 where t2: "put_cadotype_by_path_with_tx cr sc R t1 q (tip_cado cr d) = (Ok (), t2)" "db_ok cr (tx_get R t2)"
    using put_head_total [OF assms(1) t1(2) q ty(1)] by blast
  obtain sn where sn: "snapshot_new cr s = Ok sn" using assms(4) by (simp add: snapshot_new_def app_hash_bytes_def Let_def)
  obtain ds where ds: "enc_snapshot hc sn = Some ds" using assms(3) unfolding head_encodes_def by blast
  obtain r where r: "snapshot_latest_path cr = Ok r"
    using sha_name_path [OF hx sha ty(2)] by (auto simp: snapshot_latest_path_def snapshot_create_path_def)
  obtain t3 where "put_cadotype_by_path_with_tx cr sc R t2 r (cado_immutable (sha256 cr) ds (cado_metadata_new AppStateSnapshotType ''system'')) = (Ok (), t3)"
    using put_head_total [OF assms(1) t2(2) r [unfolded snapshot_latest_path_def snapshot_create_path_def] ty(2)] by blast
  then show ?thesis
    using assms(4) d p q t1(1) t2(1) sn ds r
    by (simp add: write_head_def app_hash_bytes_def tip_of_def tip_cado_def snapshot_to_cado_def Let_def)
qed

lemma commit_objects_total:
  assumes "cache_ok cr e"
  shows "\<exists>t e'. commit_objects cr sc R pc db e = Some (t, e')"
  using assms by (auto simp: commit_objects_def cache_ok_def select_validators_for_epoch_def Let_def split: prod.splits)

text \<open>Writing objects does not touch the other rows.\<close>

lemma put_cado_rows:
  assumes "rocks_documented R" "put_cadotype_by_path_with_tx cr sc R tx p b = (r, tx')"
  shows "tx_get R tx' PinboardRefcountsCf = tx_get R tx PinboardRefcountsCf"
  using assms(2)
  by (auto simp: put_cadotype_by_path_with_tx_def rocks_laws(2) [OF assms(1)] fun_eq_iff split: sum.splits option.splits)

lemma put_cados_rows:
  assumes "rocks_documented R"
  shows "put_cados cr sc R tx xs = (tx', failed) \<Longrightarrow> tx_get R tx' PinboardRefcountsCf = tx_get R tx PinboardRefcountsCf"
proof (induction xs arbitrary: tx failed)
  case (Cons x xs)
  then show ?case
    by (cases x) (auto split: if_splits sum.splits prod.splits simp: put_cado_rows [OF assms])
qed simp

lemma commit_objects_rows:
  assumes "rocks_documented R" "cache_ok cr e" "commit_objects cr sc R pc db e = Some (t, e')"
  shows "tx_get R t PinboardRefcountsCf = db_get R db PinboardRefcountsCf"
  using assms rocks_laws(1) [OF assms(1)] put_cados_rows [OF assms(1)]
  by (auto simp: commit_objects_def cache_ok_def select_validators_for_epoch_def Let_def split: prod.splits if_splits)

lemma commit_iff_blobs:
  assumes "sound_store cr sc R" "db_ok cr (db_get R db)" "current_state c = Some s" "cache_ok cr (app_envelope s)"
    and "app_hash s = Some h" "blocks_per_epoch pc \<noteq> 0" "row_codecs_ok sc" "refcounts_ok sc (db_get R db)"
    and "\<forall>(k, i) \<in> set (pinboard_refcount_deltas (app_envelope s)). 0 \<le> i" "head_encodes cr hc"
  shows "(\<exists>r. commit_inner cr sc hc R pc db c = Some r) \<longleftrightarrow> blobs_present sc (db_get R db) (app_envelope s)"
proof -
  note sd = sound_storeD [OF assms(1)]
  obtain t1 e1 where o1: "commit_objects cr sc R pc db (app_envelope s) = Some (t1, e1)"
    using commit_objects_total [OF assms(4), of sc R pc db] by blast
  obtain v where e1: "e1 = (app_envelope s)\<lparr>active_validators := v\<rparr>"
    using commit_objects_effect(2) [OF assms(1,2,4) o1] by blast
  note w1 = commit_objects_effect(1) [OF assms(1,2,4) o1]
  have rc: "refcounts_ok sc (tx_get R t1)"
    using assms(8) commit_objects_rows [OF sd(3) assms(4) o1] by (simp add: refcounts_ok_def)
  have pb: "(\<exists>r. commit_pinboard sc R db e1 t1 = Some r) \<longleftrightarrow> blobs_present sc (db_get R db) (app_envelope s)"
    using commit_pinboard_iff [OF sd(3,4) assms(7) rc, of e1 db] assms(9) by (simp add: e1 blobs_present_def)
  show ?thesis
  proof (cases "commit_pinboard sc R db e1 t1")
    case None
    then show ?thesis using pb by (simp add: commit_inner_def assms(3,5) o1)
  next
    case (Some bt)
    then obtain blobs t2 where t2: "commit_pinboard sc R db e1 t1 = Some (blobs, t2)" by (cases bt) auto
    note w2 = obj_writes_same [OF w1 commit_pinboard_same [OF sd(3) t2]]
    have "\<exists>t3 e3. commit_markers R (clear_pinboard e1) t2 = Some (t3, e3)"
    proof -
      have p: "\<exists>t'. put_verified_proof_challenge_rewarded_with_tx R x t = Ok t'" "\<exists>t'. put_verified_proof_challenge_failed_with_tx R x t = Ok t'" for x t
        using rocks_reliableD(2) [OF sd(4)]
        by (simp_all add: put_verified_proof_challenge_rewarded_with_tx_def put_verified_proof_challenge_failed_with_tx_def ok_or_iff)
      obtain t' where t': "write_all (put_verified_proof_challenge_rewarded_with_tx R) (verified_proof_rewarded_cache (clear_pinboard e1)) t2 = Some t'"
        using write_all_always [of "put_verified_proof_challenge_rewarded_with_tx R"] p by blast
      obtain t'' where "write_all (put_verified_proof_challenge_failed_with_tx R) (failed_proof_counted_cache (clear_pinboard e1)) t' = Some t''"
        using write_all_always [of "put_verified_proof_challenge_failed_with_tx R"] p by blast
      then show ?thesis by (simp add: commit_markers_def t')
    qed
    then obtain t3 e3 where t3: "commit_markers R (clear_pinboard e1) t2 = Some (t3, e3)" by blast
    note w3 = obj_writes_same [OF w2 commit_markers_same(1) [OF sd(3) t3]]
    obtain t4 e4 where t4: "commit_namespaces cr sc R (namespace_registry_cache e3) (t3, e3) = (t4, e4)" by fastforce
    obtain ns where "obj_writes cr sc (tx_get R t3) ns (tx_get R t4)"
      using commit_namespaces_effect [OF assms(1) t4 obj_writes_db_ok [OF sd(2) w3 assms(2)]] by blast
    from obj_writes_db_ok [OF sd(2) obj_writes_append [OF this w3] assms(2)]
    obtain t5 where t5: "write_head cr sc hc R pc (s\<lparr>app_envelope := merge_staged cr (e4\<lparr>namespace_registry_cache := []\<rparr>)\<rparr>) t4 = Some t5"
      using write_head_total [OF assms(1) _ assms(10), of t4] assms(5) by fastforce
    obtain db' where "tx_commit R db t5 = Some db'" using rocks_reliableD(3) [OF sd(4)] by blast
    then show ?thesis using pb t2 t3 t4 t5 assms(6) by (simp add: commit_inner_def assms(3,5) o1 Let_def)
  qed
qed

end
