(* ===== verification/Chain.thy ===== *)
theory Chain
  imports Commit_Liveness
begin

text \<open>
  The chain as the composition of blocks: begin, deliver, end, commit, and so on for any number of blocks.
  Properties over blocks: no transaction is charged twice in the life of the chain, and a commit completes
  exactly when the blobs of its posts are present.
\<close>

section \<open>Blocks\<close>

text \<open>The libraries, the configuration and the database engine of a node.\<close>

record ('g, 'db, 'tx) platform =
  pf_crates :: node_crates
  pf_proof :: proof_crates
  pf_serde :: serde_lib
  pf_rng :: "'g std_rng"
  pf_codec :: store_codec
  pf_head :: head_codec
  pf_rocks :: "('db, 'tx) rocks"
  pf_constants :: protocol_constants
  pf_identity :: "address option"

record block =
  block_txs :: "bytes list"
  height_of_block :: int
  block_now :: u64

definition deliver_on ::
    "('g, 'db, 'tx) platform \<Rightarrow> 'db \<Rightarrow> consensus_connection \<Rightarrow> bytes \<Rightarrow> (response \<times> consensus_connection) option" where
  "deliver_on P db = deliver_tx_inner (pf_crates P) (pf_proof P) (pf_serde P) (pf_constants P)
     (store_view_of (pf_crates P) (pf_codec P) (db_get (pf_rocks P) db))"

definition run_block ::
    "('g, 'db, 'tx) platform \<Rightarrow> consensus_connection \<times> 'db \<Rightarrow> block
     \<Rightarrow> ((response list \<times> end_block_result \<times> commit_result) \<times> consensus_connection \<times> 'db) option" where
  "run_block P N B = do {
     (rs, c1) \<leftarrow> deliver_all (deliver_on P (snd N)) (begin_block_inner (fst N)) (block_txs B);
     (ub, c2) \<leftarrow> end_block_inner (pf_crates P) (pf_proof P) (pf_rng P) (pf_constants P) (pf_identity P) (block_now B) c1
                   (height_of_block B);
     (res, db', c3) \<leftarrow> commit_inner (pf_crates P) (pf_codec P) (pf_head P) (pf_rocks P) (pf_constants P) (snd N) c2;
     Some ((rs, ub, res), c3, db')
   }"

fun run_blocks :: "('g, 'db, 'tx) platform \<Rightarrow> consensus_connection \<times> 'db \<Rightarrow> block list \<Rightarrow> (consensus_connection \<times> 'db) option" where
  "run_blocks P N [] = Some N"
| "run_blocks P N (B # Bs) = (case run_block P N B of None \<Rightarrow> None | Some (_, N') \<Rightarrow> run_blocks P N' Bs)"

definition sound_platform :: "('g, 'db, 'tx) platform \<Rightarrow> bool" where
  "sound_platform P \<longleftrightarrow> sound_store (pf_crates P) (pf_codec P) (pf_rocks P)"

definition committed_envelope :: "consensus_connection \<times> 'db \<Rightarrow> envelope" where
  "committed_envelope N = app_envelope (committed_state (fst N))"

text \<open>Between blocks nothing is staged, the trie is the one of the committed objects, and the path index of the
  database is consistent.\<close>

definition chain_ok :: "('g, 'db, 'tx) platform \<Rightarrow> consensus_connection \<times> 'db \<Rightarrow> bool" where
  "chain_ok P N \<longleftrightarrow> cado_cache (committed_envelope N) = [] \<and> cado_cache_to_delete (committed_envelope N) = [] \<and>
     objects_ok (pf_crates P) (committed_envelope N) \<and> db_ok (pf_crates P) (db_get (pf_rocks P) (snd N))"

section \<open>One block\<close>

lemma account_path_not_namespace:
  assumes "hex_documented (hex cr)" "cado_path_new (hex cr) ty key = Ok p" "ty \<noteq> NamespaceType"
    and "\<forall>(q, b) \<in> set ns. path_type q = ''namespace'' \<and> object_path cr q"
  shows "path_str p \<notin> (path_str \<circ> fst) ` set ns"
proof
  assume "path_str p \<in> (path_str \<circ> fst) ` set ns"
  then obtain q b where q: "(q, b) \<in> set ns" "path_str p = path_str q" by auto
  then obtain ty' key' where n: "cado_path_new (hex cr) ty' key' = Ok q" "path_type q = ''namespace''"
    using assms(4) by (auto simp: object_path_def)
  have "ty' = NamespaceType"
    using cado_path_new_shape(1) [OF n(1)] n(2) cado_type_as_str_inj [of ty' NamespaceType] by simp
  then show False using cado_path_new_determines [OF assms(1,2) n(1) q(2)] assms(3) by simp
qed

lemma obj_writes_paths: "obj_writes cr sc rd ws rd' \<Longrightarrow> \<forall>(p, b) \<in> set ws. object_path cr p"
  by (induction rule: obj_writes.induct) auto

text \<open>What a commit leaves: the accounts of the state that was committed, nothing staged, and a consistent trie
  and path index.\<close>

lemma commit_keeps:
  assumes "sound_store cr sc R" "db_ok cr (db_get R db)" "current_state c = Some s" "cache_ok cr (app_envelope s)"
    and "commit_inner cr sc hc R pc db c = Some (res, db', c')"
  defines "e' \<equiv> app_envelope (committed_state c')"
  shows "account_of cr empty_store e' a = account_of cr empty_store (app_envelope s) a"
    and "objects_ok cr (app_envelope s) \<Longrightarrow> objects_ok cr e'"
    and "cado_cache e' = []" "cado_cache_to_delete e' = []" "db_ok cr (db_get R db')"
    and "block_height e' = block_height (app_envelope s)"
proof -
  note hx = sound_storeD(2) [OF assms(1)]
  obtain e ns d tip_path latest ws where c': "c' = c\<lparr>committed_state := s\<lparr>app_envelope := e\<lparr>cado_cache := []\<rparr>\<rparr>\<rparr>"
    and w: "obj_writes cr sc (db_get R db) (staged_writes cr (cado_cache (app_envelope s)) @ ns @
       [(tip_path, tip_cado cr d), (latest, tip_cado cr d)] @ ws) (db_get R db')"
    and ns: "\<forall>(p, b) \<in> set ns. path_type p = ''namespace''"
    and obj: "objects_ok cr (app_envelope s) \<Longrightarrow> objects_ok cr e"
    and look: "\<And>k. k \<notin> (path_str \<circ> fst) ` set ns \<Longrightarrow> map_of (committed_cado_cache e) k =
       (map_of (committed_cado_cache (app_envelope s)) ++ map_of (cado_cache (app_envelope s))) k"
    and kept: "cado_cache_to_delete e = []" "block_height e = block_height (app_envelope s)"
    by (rule commit_effect [OF assms(1-5)]) (rule that)
  show "cado_cache e' = []" "cado_cache_to_delete e' = []" "block_height e' = block_height (app_envelope s)"
    "objects_ok cr (app_envelope s) \<Longrightarrow> objects_ok cr e'"
    using kept obj by (simp_all add: e'_def c' objects_ok_def)
  show "db_ok cr (db_get R db')" by (rule obj_writes_db_ok [OF hx w assms(2)])
  show "account_of cr empty_store e' a = account_of cr empty_store (app_envelope s) a"
  proof (cases "cado_path_new (hex cr) AccountType (KeyAddress a)")
    case (Inr p)
    have "path_str p \<notin> (path_str \<circ> fst) ` set ns"
      using obj_writes_paths [OF w] ns by (intro account_path_not_namespace [OF hx Inr]) auto
    from look [OF this] show ?thesis
      by (simp add: account_of_def Inr get_account_from_cado_def lookup_cado_def e'_def c' empty_store_def map_add_def
          split: option.splits)
  qed (simp add: account_of_def)
qed

lemma begin_block_state [simp]:
  "current_state (begin_block_inner c) = Some (committed_state c)" "committed_state (begin_block_inner c) = committed_state c"
  by (simp_all add: begin_block_inner_def)

lemma chain_ok_cache: "chain_ok P N \<Longrightarrow> cache_ok (pf_crates P) (committed_envelope N)"
  by (simp add: chain_ok_def cache_ok_def)

lemma run_block_phases:
  assumes "run_block P N B = Some (out, N')"
  obtains rs c1 ub c2 res where
    "deliver_all (deliver_on P (snd N)) (begin_block_inner (fst N)) (block_txs B) = Some (rs, c1)"
    "end_block_inner (pf_crates P) (pf_proof P) (pf_rng P) (pf_constants P) (pf_identity P) (block_now B) c1
       (height_of_block B) = Some (ub, c2)"
    "commit_inner (pf_crates P) (pf_codec P) (pf_head P) (pf_rocks P) (pf_constants P) (snd N) c2 = Some (res, snd N', fst N')"
  using assms unfolding run_block_def by (cases N') (auto split: bind_splits prod.splits)

text \<open>Ending and committing a block after its deliveries: the nonces of the working set become those of the committed
  state.\<close>

lemma finish_block:
  assumes "sound_platform P" "chain_ok P N" "current_state c1 = Some s1"
    and "stages (pf_crates P) (committed_envelope N) (app_envelope s1)"
    and "end_block_inner (pf_crates P) (pf_proof P) (pf_rng P) (pf_constants P) (pf_identity P) now c1 h = Some (ub, c2)"
    and "commit_inner (pf_crates P) (pf_codec P) (pf_head P) (pf_rocks P) (pf_constants P) (snd N) c2 = Some (res, snd N', fst N')"
  shows "chain_ok P N'" "nonces_le (pf_crates P) (app_envelope s1) (committed_envelope N')"
proof -
  let ?cr = "pf_crates P"
  have ss: "sound_store ?cr (pf_codec P) (pf_rocks P)" using assms(1) by (simp add: sound_platform_def)
  note hx = sound_storeD(2) [OF ss]
  have ok1: "cache_ok ?cr (app_envelope s1)" by (rule stages_cache_ok [OF hx assms(4) chain_ok_cache [OF assms(2)]])
  have obj1: "objects_ok ?cr (app_envelope s1)"
    using assms(2) stages_keeps [OF assms(4)] by (simp add: chain_ok_def objects_ok_def)
  obtain s2 where s2: "current_state c2 = Some s2" "quiet ?cr (app_envelope s1) (app_envelope s2)"
    by (rule end_block_effect [OF hx assms(5,3)]) (rule that)
  have ok2: "cache_ok ?cr (app_envelope s2)" "objects_ok ?cr (app_envelope s2)"
    using s2(2) ok1 obj1 by (simp_all add: quiet_def objects_ok_def)
  have db: "db_ok ?cr (db_get (pf_rocks P) (snd N))" using assms(2) by (simp add: chain_ok_def)
  note k = commit_keeps [OF ss db s2(1) ok2(1) assms(6)]
  show "chain_ok P N'"
    using k(3-5) k(2) [OF ok2(2)] by (simp add: chain_ok_def committed_envelope_def)
  show "nonces_le ?cr (app_envelope s1) (committed_envelope N')"
    using s2(2) k(1) by (intro nonces_le_accounts) (simp add: committed_envelope_def quiet_def)
qed

lemma run_block_ok:
  assumes "sound_platform P" "chain_ok P N" "run_block P N B = Some (out, N')"
  shows "chain_ok P N'" "nonces_le (pf_crates P) (committed_envelope N) (committed_envelope N')"
proof -
  have doc: "documented (pf_crates P)" using assms(1) sound_storeD(1) by (auto simp: sound_platform_def)
  obtain rs c1 ub c2 res where ph:
    "deliver_all (deliver_on P (snd N)) (begin_block_inner (fst N)) (block_txs B) = Some (rs, c1)"
    "end_block_inner (pf_crates P) (pf_proof P) (pf_rng P) (pf_constants P) (pf_identity P) (block_now B) c1
       (height_of_block B) = Some (ub, c2)"
    "commit_inner (pf_crates P) (pf_codec P) (pf_head P) (pf_rocks P) (pf_constants P) (snd N) c2 = Some (res, snd N', fst N')"
    by (rule run_block_phases [OF assms(3)])
  from deliver_all_ws [OF doc ph(1) [unfolded deliver_on_def] begin_block_state(1)]
  obtain s1 where s1: "current_state c1 = Some s1" "stages (pf_crates P) (committed_envelope N) (app_envelope s1)"
    "nonces_le (pf_crates P) (committed_envelope N) (app_envelope s1)" by (auto simp: committed_envelope_def)
  note f = finish_block [OF assms(1,2) s1(1,2) ph(2,3)]
  show "chain_ok P N'" by (rule f(1))
  show "nonces_le (pf_crates P) (committed_envelope N) (committed_envelope N')" by (rule nonces_le_trans [OF s1(3) f(2)])
qed

lemma run_blocks_ok:
  assumes "sound_platform P"
  shows "run_blocks P N Bs = Some N' \<Longrightarrow> chain_ok P N \<Longrightarrow>
    chain_ok P N' \<and> nonces_le (pf_crates P) (committed_envelope N) (committed_envelope N')"
proof (induction Bs arbitrary: N)
  case (Cons B Bs)
  obtain out N1 where 1: "run_block P N B = Some (out, N1)" "run_blocks P N1 Bs = Some N'"
    using Cons.prems(1) by (auto split: option.splits)
  from Cons.IH [OF 1(2)] run_block_ok [OF assms Cons.prems(2) 1(1)] show ?case by (blast intro: nonces_le_trans)
qed simp

section \<open>No replay over the life of the chain\<close>

text \<open>The replay guard of \<^verbatim>\<open>Deliver\<close> at the level of blocks: once a request was charged, the committed nonce of its
  sender has reached the number it claims.\<close>

lemma charged_block:
  assumes "sound_platform P" "chain_ok P N" "run_block P N B = Some (out, N')" "block_txs B = bs1 @ b # bs2"
    and "deliver_all (deliver_on P (snd N)) (begin_block_inner (fst N)) bs1 = Some (rs1, c1)"
    and "deliver_on P (snd N) c1 b = Some (r, c2)" "c2 \<noteq> c1"
  shows "\<exists>a n m. claimed_nonce (pf_crates P) (pf_serde P) (pf_constants P) b = Some (a, n) \<and>
    ws_nonce (pf_crates P) (committed_envelope N') a = Some m \<and> n \<le> m"
proof -
  let ?cr = "pf_crates P" and ?D = "deliver_on P (snd N)"
  have doc: "documented ?cr" using assms(1) sound_storeD(1) by (auto simp: sound_platform_def)
  obtain rs c4 ub c5 res where ph: "deliver_all ?D (begin_block_inner (fst N)) (block_txs B) = Some (rs, c4)"
    "end_block_inner ?cr (pf_proof P) (pf_rng P) (pf_constants P) (pf_identity P) (block_now B) c4
       (height_of_block B) = Some (ub, c5)"
    "commit_inner ?cr (pf_codec P) (pf_head P) (pf_rocks P) (pf_constants P) (snd N) c5 = Some (res, snd N', fst N')"
    by (rule run_block_phases [OF assms(3)])
  have app: "deliver_all ?D c (xs @ ys) = Some (rs, c') \<Longrightarrow> \<exists>rs1 c1 rs2. deliver_all ?D c xs = Some (rs1, c1) \<and>
      deliver_all ?D c1 ys = Some (rs2, c')" for c xs ys rs c'
    by (induction xs arbitrary: c rs) (auto simp: deliver_all_Cons_Some simp del: deliver_all.simps(2), metis)
  obtain rs2 where rest: "deliver_all ?D c2 bs2 = Some (rs2, c4)"
    using app [OF ph(1) [unfolded assms(4)]] assms(5,6) by (auto simp: deliver_all_Cons_Some simp del: deliver_all.simps(2))
  from deliver_all_ws [OF doc assms(5) [unfolded deliver_on_def] begin_block_state(1)]
  obtain s1 where s1: "current_state c1 = Some s1" "stages ?cr (committed_envelope N) (app_envelope s1)"
    by (auto simp: committed_envelope_def)
  obtain s2 where s2: "current_state c2 = Some s2" "stages ?cr (app_envelope s1) (app_envelope s2)"
    and cl: "\<exists>a n. claimed_nonce ?cr (pf_serde P) (pf_constants P) b = Some (a, n) \<and> ws_nonce ?cr (app_envelope s2) a = Some n"
    by (rule deliver_ws [OF doc assms(6) [unfolded deliver_on_def] s1(1)]) (use assms(7) that in blast)
  from deliver_all_ws [OF doc rest [unfolded deliver_on_def] s2(1)]
  obtain s4 where s4: "current_state c4 = Some s4" "stages ?cr (app_envelope s2) (app_envelope s4)"
    "nonces_le ?cr (app_envelope s2) (app_envelope s4)" by blast
  have "stages ?cr (committed_envelope N) (app_envelope s4)"
    by (rule stages_trans [OF s4(2) stages_trans [OF s2(2) s1(2)]])
  from finish_block(2) [OF assms(1,2) s4(1) this ph(2,3)]
  have "nonces_le ?cr (app_envelope s2) (committed_envelope N')" by (rule nonces_le_trans [OF s4(3)])
  with cl show ?thesis unfolding nonces_le_def by blast
qed

lemma replay_refused:
  assumes "sound_platform P" "run_blocks P N Bs = Some N'" "chain_ok P N"
    and "claimed_nonce (pf_crates P) (pf_serde P) (pf_constants P) b = Some (a, n)"
    and "ws_nonce (pf_crates P) (committed_envelope N) a = Some m" "n \<le> m"
    and "deliver_all (deliver_on P (snd N')) (begin_block_inner (fst N')) bs = Some (rs, c)"
    and "deliver_on P (snd N') c b = Some (r, c')"
  shows "c' = c \<and> code r \<noteq> 0"
proof -
  let ?cr = "pf_crates P" and ?st = "store_view_of (pf_crates P) (pf_codec P) (db_get (pf_rocks P) (snd N'))"
  have doc: "documented ?cr" using assms(1) sound_storeD(1) by (auto simp: sound_platform_def)
  from run_blocks_ok [OF assms(1-3)] assms(5) obtain m1 where m1: "m \<le> m1" "ws_nonce ?cr (committed_envelope N') a = Some m1"
    unfolding nonces_le_def by blast
  from deliver_all_ws [OF doc assms(7) [unfolded deliver_on_def] begin_block_state(1)] m1(2)
  obtain s m2 where s: "current_state c = Some s" "m1 \<le> m2" "ws_nonce ?cr (app_envelope s) a = Some m2"
    unfolding nonces_le_def committed_envelope_def by blast
  have "nonce_of ?cr ?st c a = Some m2"
    using s(1,3) unfolding ws_nonce_Some [of ?cr _ a _ ?st] by (auto simp: nonce_of_def)
  from replay.spent [OF doc assms(4) this _ assms(8) [unfolded deliver_on_def]] s(2) m1(1) assms(6) show ?thesis by simp
qed

section \<open>A concrete chain\<close>

text \<open>An engine over functions and codecs that are enough for it.\<close>

definition model_rocks :: "(column_family \<Rightarrow> bytes \<Rightarrow> bytes option, column_family \<Rightarrow> bytes \<Rightarrow> bytes option) rocks" where
  "model_rocks = \<lparr>db_get = (\<lambda>db cf k. Some (db cf k)), db_put = (\<lambda>db cf k v. Some (db(cf := (db cf)(k \<mapsto> v)))),
     transaction = (\<lambda>db. db), tx_get = (\<lambda>db cf k. Some (db cf k)),
     tx_put = (\<lambda>db cf k v. Some (db(cf := (db cf)(k \<mapsto> v)))),
     tx_delete = (\<lambda>db cf k. Some (db(cf := (db cf)(k := None)))), tx_commit = (\<lambda>db t. Some t)\<rparr>"

definition model_codec :: store_codec where
  "model_codec = \<lparr>enc_cado = (\<lambda>b. Some (0 # body_data b)), dec_cado = (\<lambda>d. None), enc_meta = (\<lambda>m. Some []),
     dec_meta = (\<lambda>d. None), enc_u64 = (\<lambda>n. Some (le_bytes 8 (uint n))), dec_u64 = (\<lambda>d. Some (word_of_int (le_val d))),
     dec_temp_blob = (\<lambda>d. Some (d, 0)), enc_temp_blob = (\<lambda>d n. Some d)\<rparr>"

definition model_head :: head_codec where
  "model_head = \<lparr>enc_tip = (\<lambda>t. Some (le_bytes 8 (tip_block_height t) @ tip_app_hash t)), dec_tip = (\<lambda>d. None),
     enc_snapshot = (\<lambda>s. Some (sn_app_hash s)), dec_snapshot = (\<lambda>d. None)\<rparr>"

lemma model_rocks_ok: "rocks_documented model_rocks" "rocks_reliable model_rocks"
  by (auto simp: rocks_documented_def rocks_reliable_def model_rocks_def intro!: ext)

lemma model_sound_store: "sound_store model_crates model_codec model_rocks"
  using model_crates_documented model_rocks_ok by (simp add: sound_store_def model_codec_def)

lemma model_rows: "row_codecs_ok model_codec" "refcounts_ok model_codec rd"
proof -
  have w8: "word_of_int (le_val (le_bytes 8 (uint w))) = w" for w :: u64
    using uint_bounded [of w] by (simp add: le_val_le_bytes)
  show "row_codecs_ok model_codec" by (simp add: row_codecs_ok_def model_codec_def w8)
  show "refcounts_ok model_codec rd" by (simp add: refcounts_ok_def model_codec_def)
qed

lemma model_head_encodes: "head_encodes model_crates model_head"
  by (auto simp: head_encodes_def model_head_def model_crates_def min_def)

definition demo_platform :: "(unit, column_family \<Rightarrow> bytes \<Rightarrow> bytes option, column_family \<Rightarrow> bytes \<Rightarrow> bytes option) platform" where
  "demo_platform = \<lparr>pf_crates = model_crates, pf_proof = demo_pcr, pf_serde = demo_wire, pf_rng = demo_rng,
     pf_codec = model_codec, pf_head = model_head, pf_rocks = model_rocks, pf_constants = local_dev, pf_identity = None\<rparr>"

definition demo_committed :: app_state where
  "demo_committed = \<lparr>app_hash = None, app_envelope = empty_envelope\<lparr>committed_cado_cache := cado_cache demo_envelope,
     state_trie := map (\<lambda>(k, b). (k, content_hash b)) (cado_cache demo_envelope)\<rparr>, chain_id = []\<rparr>"

definition demo_posted :: consensus_connection where
  "demo_posted = (let s = demo_committed\<lparr>app_hash := Some [], app_envelope := (app_envelope demo_committed)\<lparr>
     pinboard_meta_cache := [(''m'', \<lparr>pb_message_id = ''m'', pb_original_signer = demo_address 1, pb_content_key = ''k'',
       pb_content_type = [], pb_expires_height = 9, pb_visibility = [], pb_topic = None, pb_tags = [],
       pb_committed_height = 1, pb_received_timestamp = 0, pb_namespace = None\<rparr>)]\<rparr>\<rparr>
   in \<lparr>committed_state = demo_committed, current_state = Some s\<rparr>)"

definition demo_node :: "consensus_connection \<times> (column_family \<Rightarrow> bytes \<Rightarrow> bytes option)" where
  "demo_node = (\<lparr>committed_state = demo_committed, current_state = None\<rparr>, \<lambda>cf k. None)"

definition demo_block :: block where
  "demo_block = \<lparr>block_txs = [demo_request], height_of_block = 1, block_now = 0\<rparr>"

lemma demo_platform_sound: "sound_platform demo_platform"
  using model_sound_store by (simp add: sound_platform_def demo_platform_def)

lemma demo_cache_ok: "cache_ok model_crates demo_envelope"
proof -
  note hx = documentedD(1) [OF model_crates_documented]
  have "cache_ok model_crates empty_envelope" by (simp add: cache_ok_def empty_envelope_def)
  moreover obtain e1 where e: "stage_account model_crates empty_envelope (demo_address 1) (replicate 32 0) (demo_account 1 100000 0) = Some e1"
    "stage_account model_crates e1 (demo_address 2) (replicate 32 0) (demo_account 2 50 0) = Some demo_envelope"
    by (rule demo_envelope_parts)
  ultimately show ?thesis using stage_cache_ok(1) [OF hx _ e(2)] stage_cache_ok(1) [OF hx _ e(1)] by blast
qed

lemma demo_chain_ok: "chain_ok demo_platform demo_node"
  using demo_cache_ok storable_not_infrastructure
  by (fastforce simp: chain_ok_def demo_node_def committed_envelope_def demo_committed_def empty_envelope_def objects_ok_def
      cache_ok_def demo_platform_def db_ok_def index_ok_def model_rocks_def)

text \<open>The block with the one transfer runs to its end.\<close>

lemma transfer_frame: "process_transfer_tx cr st e t = Some (r, e') \<Longrightarrow> \<exists>c. e' = e\<lparr>cado_cache := c\<rparr>"
  unfolding process_transfer_tx_def
  by (auto split: sum.splits option.splits if_splits prod.splits dest!: stage_frame(1) intro: exI [of _ "cado_cache e"])

abbreviation demo_view :: store_view where
  "demo_view \<equiv> store_view_of model_crates model_codec (db_get model_rocks (snd demo_node))"

lemma demo_committed_account:
  "account_of model_crates st (app_envelope demo_committed) (demo_address 1) = Some (demo_account 1 100000 0, zero_hash)"
proof -
  have "cado_cache demo_envelope = cado_cache e \<Longrightarrow> committed_cado_cache e = [] \<Longrightarrow>
    account_of model_crates empty_store (e\<lparr>cado_cache := [], committed_cado_cache := cado_cache e\<rparr>) a = account_of model_crates empty_store e a" for e a
    by (auto simp: account_of_def get_account_from_cado_def lookup_cado_def split: sum.splits option.splits)
  moreover obtain c where "demo_envelope = empty_envelope\<lparr>cado_cache := c\<rparr>" using demo_envelope_frame by blast
  ultimately have "account_of model_crates empty_store (app_envelope demo_committed) (demo_address 1) =
      account_of model_crates empty_store demo_envelope (demo_address 1)"
    by (simp add: demo_committed_def account_of_def get_account_from_cado_def lookup_cado_def empty_envelope_def
        split: sum.splits option.splits)
  then show ?thesis using demo_accounts(1) ws_account [of model_crates "app_envelope demo_committed" "demo_address 1" _ st] by auto
qed

lemma demo_block_runs:
  "\<exists>r c1 out N. deliver_on demo_platform (snd demo_node) (begin_block_inner (fst demo_node)) demo_request = Some (r, c1) \<and>
     c1 \<noteq> begin_block_inner (fst demo_node) \<and> run_block demo_platform demo_node demo_block = Some (out, N)"
proof -
  let ?c0 = "begin_block_inner (fst demo_node)"
  have c0: "current_state ?c0 = Some demo_committed" "committed_state ?c0 = demo_committed"
    by (simp_all add: demo_node_def)
  have chk: "check_signature_and_fee model_crates local_dev (chain_id (committed_state ?c0)) demo_transfer = None"
    using demo_checked by (simp add: demo_node_def demo_committed_def)
  have acc: "account_of model_crates demo_view (app_envelope demo_committed) (payload_sender (inner (tx_payload demo_transfer)))
      = Some (demo_account 1 100000 0, zero_hash)"
    using demo_committed_account by (simp add: demo_transfer_def payload_new_def)
  obtain r c1 where d: "deliver_tx_inner model_crates demo_pcr demo_wire local_dev demo_view ?c0 demo_request = Some (r, c1)" "c1 \<noteq> ?c0"
    using delivery_accepted [OF model_crates_documented demo_ready(1,2) chk c0(1) acc demo_ready(6-8), of demo_pcr] by blast
  have run: "deliver_on demo_platform (snd demo_node) ?c0 demo_request = Some (r, c1)"
    using d(1) by (simp add: deliver_on_def demo_platform_def)
  obtain s1 where s1: "current_state c1 = Some s1" "stages model_crates (app_envelope demo_committed) (app_envelope s1)"
    by (rule deliver_ws [OF model_crates_documented d(1) c0(1)]) (rule that)
  obtain cc where e1: "app_envelope s1 = (app_envelope demo_committed)\<lparr>cado_cache := cc\<rparr>"
    using d(1)
  proof (cases rule: deliver_cases)
    case (charged t s e1 r0 e2)
    have t: "t = demo_transfer" "s = demo_committed" using charged(1,3) demo_decoded c0(1) by auto
    obtain p where "inner (tx_payload t) = Transfer p" by (auto simp: t demo_transfer_def payload_new_def)
    then have "process_transfer_tx model_crates demo_view e1 p = Some (r0, e2)" using charged(5) by (simp add: process_def)
    moreover obtain c where "e1 = (app_envelope demo_committed)\<lparr>cado_cache := c\<rparr>"
      using charge_sender_Inr [OF model_crates_documented charged(4)] stage_frame(1) t(2) by metis
    ultimately obtain c' where "e2 = (app_envelope demo_committed)\<lparr>cado_cache := c'\<rparr>" using transfer_frame by fastforce
    then show thesis using that [of c'] charged(7) s1(1) by auto
  qed (use d(2) in simp)
  let ?s2 = "s1\<lparr>app_envelope := (app_envelope s1)\<lparr>block_height := 1\<rparr>\<rparr>"
  let ?s3 = "?s2\<lparr>app_hash := Some (calculate_app_hash model_crates (app_envelope ?s2))\<rparr>"
  have e0: "(1::int) sdiv 20 = 0" by (simp add: signed_divide_int_def)
  have eb: "end_block_inner model_crates demo_pcr demo_rng local_dev None 0 c1 1 =
      Some (\<lparr>validator_updates = [], challenge_calls = []\<rparr>, c1\<lparr>current_state := Some ?s3\<rparr>)"
    by (simp add: end_block_inner_def s1(1) local_dev_def Let_def e0 e1 demo_committed_def empty_envelope_def)
  note hx = documentedD(1) [OF model_crates_documented]
  have co: "cache_ok model_crates (app_envelope demo_committed)"
    by (simp add: cache_ok_def demo_committed_def empty_envelope_def)
  have ck: "cache_ok model_crates (app_envelope ?s3)"
    using stages_cache_ok [OF hx s1(2) co] by (simp add: cache_ok_def)
  have db: "db_ok model_crates (db_get model_rocks (snd demo_node))"
    using demo_chain_ok by (simp add: chain_ok_def demo_platform_def)
  have bl: "blobs_present model_codec (db_get model_rocks (snd demo_node)) (app_envelope ?s3)"
    "\<forall>(k, i) \<in> set (pinboard_refcount_deltas (app_envelope ?s3)). 0 \<le> i"
    by (simp_all add: blobs_present_def e1 demo_committed_def empty_envelope_def)
  obtain out where "commit_inner model_crates model_codec model_head model_rocks local_dev (snd demo_node) (c1\<lparr>current_state := Some ?s3\<rparr>) = Some out"
    using commit_iff_blobs [OF model_sound_store db _ ck _ demo_ready(1) model_rows bl(2) model_head_encodes, of "c1\<lparr>current_state := Some ?s3\<rparr>"] bl(1) by auto
  then have "\<exists>out N. run_block demo_platform demo_node demo_block = Some (out, N)"
    using run eb by (cases out) (auto simp: run_block_def demo_block_def, simp add: demo_platform_def)
  then show ?thesis using run d(2) by blast
qed

section \<open>Properties\<close>

text \<open>C2: no transaction is charged twice in the life of the chain.  On an engine that does not fail, once a delivery
  in a block that was committed has been charged, the same bytes are refused, with an error code and no change, in
  every later block, after any further blocks and any other deliveries.\<close>

theorem no_replay_across_blocks:
  assumes "sound_platform P" "chain_ok P N" "run_block P N B = Some (out, N1)" "block_txs B = bs1 @ b # bs2"
    and "deliver_all (deliver_on P (snd N)) (begin_block_inner (fst N)) bs1 = Some (rs1, c1)"
    and "deliver_on P (snd N) c1 b = Some (r, c2)" "c2 \<noteq> c1"
    and "run_blocks P N1 Bs = Some N2"
    and "deliver_all (deliver_on P (snd N2)) (begin_block_inner (fst N2)) bs3 = Some (rs3, c3)"
    and "deliver_on P (snd N2) c3 b = Some (r', c4)"
  shows "c4 = c3 \<and> code r' \<noteq> 0"
proof -
  obtain a n m where "claimed_nonce (pf_crates P) (pf_serde P) (pf_constants P) b = Some (a, n)"
    "ws_nonce (pf_crates P) (committed_envelope N1) a = Some m" "n \<le> m"
    using charged_block [OF assms(1-7)] by blast
  then show ?thesis
    by (rule replay_refused [OF assms(1,8) run_block_ok(1) [OF assms(1-3)] _ _ _ assms(9,10)])
qed

theorem no_replay_across_blocks_witness:
  "\<exists>out N1 r. run_block demo_platform demo_node demo_block = Some (out, N1) \<and>
     deliver_on demo_platform (snd N1) (begin_block_inner (fst N1)) demo_request = Some (r, begin_block_inner (fst N1)) \<and> code r \<noteq> 0"
proof -
  obtain r c1 out N1 where d: "deliver_on demo_platform (snd demo_node) (begin_block_inner (fst demo_node)) demo_request = Some (r, c1)"
    "c1 \<noteq> begin_block_inner (fst demo_node)" "run_block demo_platform demo_node demo_block = Some (out, N1)"
    using demo_block_runs by blast
  obtain r' c4 where e: "deliver_on demo_platform (snd N1) (begin_block_inner (fst N1)) demo_request = Some (r', c4)"
    using deliver_not_None [OF model_crates_documented demo_ready(1)]
    by (simp add: deliver_on_def demo_platform_def) blast
  have bs: "block_txs demo_block = [] @ demo_request # []" by (simp add: demo_block_def)
  have n: "deliver_all f c [] = Some ([], c)" "run_blocks demo_platform N1 [] = Some N1" for f :: "'c \<Rightarrow> 'b \<Rightarrow> ('r \<times> 'c) option" and c
    by simp_all
  from no_replay_across_blocks [OF demo_platform_sound demo_chain_ok d(3) bs n(1) d(1,2) n(2) n(1) e] d(3) e show ?thesis by blast
qed

text \<open>C5: on an engine that does not fail and with codecs that encode, the commit of a block completes exactly when
  every staged post has its blob in the temporary blob store; otherwise the process ends, although the delivery of the
  post had answered with success.\<close>

theorem commit_completes_iff_blobs_present:
  assumes "sound_store cr sc R" "db_ok cr (db_get R db)" "current_state c = Some s" "cache_ok cr (app_envelope s)"
    and "app_hash s = Some h" "blocks_per_epoch pc \<noteq> 0" "row_codecs_ok sc" "refcounts_ok sc (db_get R db)"
    and "\<forall>(k, i) \<in> set (pinboard_refcount_deltas (app_envelope s)). 0 \<le> i" "head_encodes cr hc"
  shows "commit_inner cr sc hc R pc db c \<noteq> None \<longleftrightarrow>
    (\<forall>(mid, meta) \<in> set (pinboard_meta_cache (app_envelope s)).
       \<exists>blob. get_pinboard_temp_blob sc (db_get R db) (pb_content_key meta) = Ok (Some blob))"
  using commit_iff_blobs [OF assms] unfolding blobs_present_def by blast

theorem commit_completes_iff_blobs_present_witness:
  "commit_inner model_crates model_codec model_head model_rocks local_dev (\<lambda>cf k. None) demo_posted = None \<and>
   commit_inner model_crates model_codec model_head model_rocks local_dev
     (\<lambda>cf k. if cf = PinboardTempBlobsCf then Some [7] else None) demo_posted \<noteq> None"
proof -
  obtain s where s: "current_state demo_posted = Some s" "app_hash s = Some []" "cache_ok model_crates (app_envelope s)"
    "pinboard_refcount_deltas (app_envelope s) = []" "map (pb_content_key \<circ> snd) (pinboard_meta_cache (app_envelope s)) = [''k'']"
    by (simp add: demo_posted_def demo_committed_def empty_envelope_def cache_ok_def)
  have db: "db_ok model_crates (db_get model_rocks (\<lambda>cf k. None))"
    "db_ok model_crates (db_get model_rocks (\<lambda>cf k. if cf = PinboardTempBlobsCf then Some [7] else None))"
    by (simp_all add: db_ok_def index_ok_def model_rocks_def)
  have dl: "\<forall>(k, i) \<in> set (pinboard_refcount_deltas (app_envelope s)). 0 \<le> i" using s(4) by simp
  note it = commit_completes_iff_blobs_present [OF model_sound_store _ s(1,3,2) demo_ready(1) model_rows dl model_head_encodes]
  have "(''k'' \<in> (\<lambda>x. pb_content_key (snd x)) ` set (pinboard_meta_cache (app_envelope s)))"
    "(\<lambda>x. pb_content_key (snd x)) ` set (pinboard_meta_cache (app_envelope s)) \<subseteq> {''k''}"
    using s(5) by (metis (no_types, lifting) comp_apply image_set list.set_intros(1) map_eq_conv,
        metis (no_types, lifting) comp_apply empty_set image_set list.simps(15) map_eq_conv order_refl)
  then show ?thesis
    using it [OF db(1)] it [OF db(2)]
    by (auto simp: get_pinboard_temp_blob_def read_pinboard_temp_blob_record_def model_rocks_def model_codec_def)
qed

end
