(* ===== verification/Mempool.thy ===== *)
theory Mempool
  imports Chain
begin

text \<open>
  Admission to the mempool (\<^verbatim>\<open>abci_interface/mempool/mod.rs\<close>): \<^verbatim>\<open>check_tx\<close> answers with a code, 0 for admission, from the
  committed state and the database.  It decodes with the same \<^verbatim>\<open>serde_json::from_str\<close> as the delivery but without its body
  and structure checks; that decoder is the parameter \<open>from_json\<close>.
\<close>

section \<open>The check\<close>

definition lookup_cado_by_path_excluding_current_cache :: "store_view \<Rightarrow> app_state \<Rightarrow> cado_path \<Rightarrow> cado_body option res" where
  "lookup_cado_by_path_excluding_current_cache st committed p =
    (case map_of (committed_cado_cache (app_envelope committed)) (path_str p) of
       Some b \<Rightarrow> Ok (Some b) | None \<Rightarrow> sv_get_cado st p)"

definition check_fee :: "node_crates \<Rightarrow> protocol_constants \<Rightarrow> tx \<Rightarrow> nat" where
  "check_fee cr pc t = (case calculate_dynamic_fee cr t (pc_fee_config pc) of
      Inl _ \<Rightarrow> 75
    | Inr required_fee \<Rightarrow> (case coin_new (tx_fee t) of
        Inl _ \<Rightarrow> 11
      | Inr provided_fee \<Rightarrow> if amount provided_fee < amount required_fee then 11 else 0))"

definition check_sender :: "node_crates \<Rightarrow> store_view \<Rightarrow> app_state \<Rightarrow> tx \<Rightarrow> nat + account" where
  "check_sender cr st committed t =
    (case cado_path_new (hex cr) AccountType (KeyAddress (payload_sender (inner (tx_payload t)))) of
       Inl _ \<Rightarrow> Inl 4
     | Inr p \<Rightarrow> (case lookup_cado_by_path_excluding_current_cache st committed p of
         Inr (Some (Mutable h d m l)) \<Rightarrow> (case safe_deserialize_account_data (dec_account cr) d of Inr a \<Rightarrow> Inr a | Inl _ \<Rightarrow> Inl 4)
       | Inr (Some _) \<Rightarrow> Inl 4
       | Inr None \<Rightarrow> Inl 9
       | Inl _ \<Rightarrow> Inl 4))"

definition check_tx ::
    "node_crates \<Rightarrow> (string \<Rightarrow> tx option) \<Rightarrow> protocol_constants option \<Rightarrow> string \<Rightarrow> store_view \<Rightarrow> app_state \<Rightarrow> bytes \<Rightarrow> nat" where
  "check_tx cr from_json handle chain st committed tx_bytes = (case handle of
      None \<Rightarrow> 75
    | Some pc \<Rightarrow>
      if int (length tx_bytes) > uint (max_tx_bytes pc) then 7
      else (case from_utf8 tx_bytes of None \<Rightarrow> 76
        | Some hex_str \<Rightarrow> (case hex_decode (hex cr) hex_str of None \<Rightarrow> 77
          | Some decoded \<Rightarrow> (case from_utf8 decoded of None \<Rightarrow> 76
            | Some body \<Rightarrow> (case from_json body of None \<Rightarrow> 78
              | Some t \<Rightarrow>
                if tx_verify cr t chain \<noteq> Ok True then 4
                else (case check_sender cr st committed t of Inl c \<Rightarrow> c
                  | Inr acc \<Rightarrow> (case nonce_next (acc_nonce acc) of None \<Rightarrow> 6
                    | Some expected \<Rightarrow> if expected \<noteq> tx_nonce t then 3 else check_fee cr pc t)))))))"

text \<open>The decoder of the check and of the delivery are one function.\<close>

definition same_decoder :: "node_crates \<Rightarrow> ('j) serde_lib_scheme \<Rightarrow> (string \<Rightarrow> tx option) \<Rightarrow> bool" where
  "same_decoder cr js from_json \<longleftrightarrow> (\<forall>body v. json_parse js body = Some v \<longrightarrow>
     validate_transaction_structure (hex cr) js v = Ok () \<longrightarrow> from_json body = decode_tx cr js v)"

section \<open>Comparison with the delivery\<close>

lemma decode_request_text:
  assumes "decode_request cr js pc b = Inr t" "same_decoder cr js from_json"
  obtains hex_str decoded body where "\<not> int (length b) > uint (max_tx_bytes pc)" "from_utf8 b = Some hex_str"
    "hex_decode (hex cr) hex_str = Some decoded" "from_utf8 decoded = Some body" "from_json body = Some t"
  using assms
  by (auto simp: decode_request_def same_decoder_def is_ok_iff split: if_splits option.splits)

lemma check_sender_account:
  assumes "cado_cache (app_envelope s) = []" "account_of cr st (app_envelope s) (payload_sender (inner (tx_payload t))) = Some (acc, h)"
  shows "check_sender cr st s t = Inr acc"
  using assms
  by (auto simp: account_of_def get_account_from_cado_def lookup_cado_def check_sender_def lookup_cado_by_path_excluding_current_cache_def
      split: sum.splits option.splits cado_body.splits)

lemma check_fee_zero: "check_signature_and_fee cr pc chain t = None \<Longrightarrow> tx_verify cr t chain = Ok True \<and> check_fee cr pc t = 0"
  by (auto simp: check_signature_and_fee_def check_fee_def split: if_splits sum.splits)

lemma check_tx_passes:
  assumes "decode_request cr js pc b = Inr t" "same_decoder cr js from_json" "check_signature_and_fee cr pc chain t = None"
    "check_sender cr st s t = Inr acc" "nonce_next (acc_nonce acc) = Some (tx_nonce t)"
  shows "check_tx cr from_json (Some pc) chain st s b = 0"
proof (rule decode_request_text [OF assms(1,2)])
  fix hex_str decoded body
  assume "\<not> int (length b) > uint (max_tx_bytes pc)" "from_utf8 b = Some hex_str" "hex_decode (hex cr) hex_str = Some decoded"
    "from_utf8 decoded = Some body" "from_json body = Some t"
  then show ?thesis using check_fee_zero [OF assms(3)] assms(4,5) by (simp add: check_tx_def)
qed

section \<open>Properties\<close>

text \<open>C10: the mempool refuses nothing that the chain would execute.  When the first delivery of a block on a committed
  state charges a transaction, the check of the same bytes on that state admits it.\<close>

theorem check_tx_admits_deliverable:
  assumes "same_decoder cr js from_json" "cado_cache (app_envelope (committed_state c)) = []"
    and "deliver_tx_inner cr pcr js pc st (begin_block_inner c) b = Some (r, c')" "c' \<noteq> begin_block_inner c"
  shows "check_tx cr from_json (Some pc) (chain_id (committed_state c)) st (committed_state c) b = 0"
  using assms(3)
proof (cases rule: deliver_cases)
  case refused
  then show ?thesis using assms(4) by simp
next
  case (charged t s e1 r0 e2)
  have s: "s = committed_state c" using charged(3) by (simp add: begin_block_inner_def)
  obtain acc h where acc: "account_of cr st (app_envelope s) (payload_sender (inner (tx_payload t))) = Some (acc, h)"
    "nonce_next (acc_nonce acc) = Some (tx_nonce t)"
    using charged(4) by (auto simp: charge_sender_def account_of_def Let_def split: sum.splits option.splits if_splits)
  have "check_sender cr st (committed_state c) t = Inr acc" using check_sender_account assms(2) acc(1) unfolding s by blast
  then show ?thesis
    using check_tx_passes [OF charged(1) assms(1)] charged(2) acc(2) by (simp add: begin_block_inner_def)
qed

theorem check_tx_admits_deliverable_witness:
  "check_tx model_crates (\<lambda>body. Option.bind (json_parse demo_wire body) (decode_tx model_crates demo_wire)) (Some local_dev) []
     demo_view demo_committed demo_request = 0"
proof -
  let ?f = "\<lambda>body. Option.bind (json_parse demo_wire body) (decode_tx model_crates demo_wire)"
  have dec: "same_decoder model_crates demo_wire ?f" by (simp add: same_decoder_def)
  obtain r c1 where d: "deliver_on demo_platform (snd demo_node) (begin_block_inner (fst demo_node)) demo_request = Some (r, c1)"
    "c1 \<noteq> begin_block_inner (fst demo_node)" using demo_block_runs by blast
  have "cado_cache (app_envelope (committed_state (fst demo_node))) = []" "chain_id (committed_state (fst demo_node)) = []"
    "committed_state (fst demo_node) = demo_committed"
    by (simp_all add: demo_node_def demo_committed_def empty_envelope_def)
  with check_tx_admits_deliverable [OF dec, of "fst demo_node" demo_pcr local_dev demo_view demo_request r c1] d
  show ?thesis by (simp add: deliver_on_def demo_platform_def)
qed

text \<open>The mempool does not look at balances.  A well-formed, signed transaction with the right nonce and a fee that
  covers the price is admitted although its sender cannot pay; the delivery then refuses it without charging anything, so
  it occupies a block for free.\<close>

lemma unaffordable_tx_admitted_for_free:
  assumes "same_decoder cr js from_json" "cado_cache (app_envelope (committed_state c)) = []" "decode_request cr js pc b = Inr t"
    and "check_signature_and_fee cr pc (chain_id (committed_state c)) t = None"
    and "account_of cr st (app_envelope (committed_state c)) (payload_sender (inner (tx_payload t))) = Some (acc, h)"
    and "nonce_next (acc_nonce acc) = Some (tx_nonce t)" "amount (acc_balance acc) < tx_fee t"
  shows "check_tx cr from_json (Some pc) (chain_id (committed_state c)) st (committed_state c) b = 0 \<and>
    (\<exists>r. deliver_tx_inner cr pcr js pc st (begin_block_inner c) b = Some (r, begin_block_inner c) \<and> code r \<in> {5, 66})"
proof -
  have "check_tx cr from_json (Some pc) (chain_id (committed_state c)) st (committed_state c) b = 0"
    using check_tx_passes [OF assms(3,1,4) check_sender_account [OF assms(2,5)] assms(6)] .
  moreover obtain fee where fee: "coin_new (tx_fee t) = Ok fee" "amount fee = tx_fee t"
    using assms(4) by (auto simp: check_signature_and_fee_def coin_new_Inr split: if_splits sum.splits)
  have "\<exists>r. charge_sender cr st (app_envelope (committed_state c)) t = Inl r \<and> code r \<in> {5, 66}"
    using assms(5-7) fee
    by (auto simp: charge_sender_def account_of_def Let_def err_insufficient_funds_def err_fee_validation_failed_def fail_def split: sum.splits)
  then have "\<exists>r. deliver_tx_inner cr pcr js pc st (begin_block_inner c) b = Some (r, begin_block_inner c) \<and> code r \<in> {5, 66}"
    using assms(3,4) by (auto simp: deliver_tx_inner_def begin_block_inner_def)
  ultimately show ?thesis by blast
qed

definition poor_connection :: consensus_connection where
  "poor_connection = (let e = the (stage_account model_crates empty_envelope (demo_address 1) (replicate 32 0) (demo_account 1 0 0)) in
     \<lparr>committed_state = \<lparr>app_hash = None, app_envelope = e\<lparr>cado_cache := [], committed_cado_cache := cado_cache e\<rparr>, chain_id = []\<rparr>,
      current_state = None\<rparr>)"

lemma poor_account:
  "cado_cache (app_envelope (committed_state poor_connection)) = []" "chain_id (committed_state poor_connection) = []"
  "account_of model_crates st (app_envelope (committed_state poor_connection)) (demo_address 1) = Some (demo_account 1 0 0, replicate 32 0)"
proof -
  have ok: "account_ok (demo_account 1 0 0)" by code_simp
  obtain e where e: "stage_account model_crates empty_envelope (demo_address 1) (replicate 32 0) (demo_account 1 0 0) = Some e"
    by (rule stage_account_Some [OF model_crates_documented _ ok, of "demo_address 1"]) simp_all
  obtain c where c: "e = empty_envelope\<lparr>cado_cache := c\<rparr>" using stage_frame(1) [OF e] by blast
  have acc: "account_of model_crates empty_store e (demo_address 1) = Some (demo_account 1 0 0, replicate 32 0)"
    using account_of_stage_account [OF model_crates_documented ok e] by simp
  have env: "app_envelope (committed_state poor_connection) = e\<lparr>cado_cache := [], committed_cado_cache := cado_cache e\<rparr>"
    unfolding poor_connection_def e by (simp add: Let_def)
  have "committed_cado_cache e = []" by (simp add: c empty_envelope_def)
  then have "account_of model_crates empty_store (app_envelope (committed_state poor_connection)) (demo_address 1) =
      account_of model_crates empty_store e (demo_address 1)"
    unfolding env by (auto simp: account_of_def get_account_from_cado_def lookup_cado_def split: sum.splits option.splits)
  then show "account_of model_crates st (app_envelope (committed_state poor_connection)) (demo_address 1) = Some (demo_account 1 0 0, replicate 32 0)"
    using acc ws_account [of model_crates "app_envelope (committed_state poor_connection)" "demo_address 1" _ st] by auto
qed (simp_all add: poor_connection_def Let_def)

theorem unaffordable_tx_admitted_for_free_witness:
  "check_tx model_crates (\<lambda>body. Option.bind (json_parse demo_wire body) (decode_tx model_crates demo_wire)) (Some local_dev) []
     empty_store (committed_state poor_connection) demo_request = 0 \<and>
   (\<exists>r. deliver_tx_inner model_crates demo_pcr demo_wire local_dev empty_store (begin_block_inner poor_connection) demo_request =
      Some (r, begin_block_inner poor_connection) \<and> code r \<in> {5, 66})"
proof -
  let ?f = "\<lambda>body. Option.bind (json_parse demo_wire body) (decode_tx model_crates demo_wire)"
  have dec: "same_decoder model_crates demo_wire ?f" by (simp add: same_decoder_def)
  have chk: "check_signature_and_fee model_crates local_dev (chain_id (committed_state poor_connection)) demo_transfer = None"
    using demo_checked poor_account(2) by simp
  have acc: "account_of model_crates empty_store (app_envelope (committed_state poor_connection)) (payload_sender (inner (tx_payload demo_transfer))) =
      Some (demo_account 1 0 0, replicate 32 0)"
    using poor_account(3) by (simp add: demo_transfer_def payload_new_def)
  have n: "nonce_next (acc_nonce (demo_account 1 0 0)) = Some (tx_nonce demo_transfer)" "amount (acc_balance (demo_account 1 0 0)) < tx_fee demo_transfer"
    by code_simp+
  from unaffordable_tx_admitted_for_free [OF dec poor_account(1) demo_decoded chk acc n, of demo_pcr]
  show ?thesis unfolding poor_account(2) .
qed

end
