(* ===== verification/Slots.thy ===== *)
theory Slots
  imports Verified_Proof
begin

text \<open>
  The slot allocator of a capacity provider (\<^verbatim>\<open>common/src/capacity/slot_allocator.rs\<close>): the slot map, the map from
  content to slots, their files, and reading and writing the slots of the capacity file.

  A file system is a map from names to bytes.  What the operating system answers beyond that is the parameter
  \<open>host\<close>: which calls succeed and what a failed write leaves behind; so are the JSON texts of \<^verbatim>\<open>serde_json\<close>
  and the extendable output of \<^verbatim>\<open>blake3\<close>.
  Operations on \<^verbatim>\<open>&mut self\<close> return the allocator also when they fail, since a failure leaves earlier changes in place.
\<close>

section \<open>Files\<close>

type_synonym disk = "string \<Rightarrow> bytes option"

record slot = slot_offset :: nat slot_size :: nat slot_st :: slot_state

record slot_map =
  sm_slots :: "slot list"
  sm_capacity_bytes :: u64
  sm_seed :: bytes
  sm_provider_id :: address

type_synonym content_map = "string \<Rightarrow> (nat \<times> nat) list option"

record host =
  os_ok :: "string \<Rightarrow> string \<Rightarrow> bool"
  os_torn :: "string \<Rightarrow> bytes option \<Rightarrow> bytes option"
  slot_map_to_json :: "slot_map \<Rightarrow> string option"
  slot_map_of_json :: "string \<Rightarrow> slot_map option"
  content_map_to_json :: "content_map \<Rightarrow> string option"
  content_map_of_json :: "string \<Rightarrow> content_map option"
  blake3_xof :: "bytes \<Rightarrow> nat \<Rightarrow> bytes"

definition os_reliable :: "host \<Rightarrow> bool" where
  "os_reliable H \<longleftrightarrow> (\<forall>op p. os_ok H op p)"

definition path_exists :: "host \<Rightarrow> disk \<Rightarrow> string \<Rightarrow> bool" where
  "path_exists H d p = (os_ok H ''exists'' p \<and> d p \<noteq> None)"

definition read_to_string :: "host \<Rightarrow> disk \<Rightarrow> string \<Rightarrow> string option" where
  "read_to_string H d p = (if os_ok H ''read'' p then Option.bind (d p) from_utf8 else None)"

text \<open>\<^verbatim>\<open>std::fs::write\<close>, after the directory has been created.\<close>

definition fs_write :: "host \<Rightarrow> disk \<Rightarrow> string \<Rightarrow> string \<Rightarrow> bool \<times> disk" where
  "fs_write H d p s = (if \<not> os_ok H ''create_dir_all'' p then (False, d)
     else if os_ok H ''write'' p then (True, d(p := Some (str_bytes s)))
     else (False, d(p := os_torn H p (d p))))"

text \<open>Reading exactly \<open>n\<close> bytes at an offset, and writing there; a write past the end fills the gap with zeros.
  \<^verbatim>\<open>lseek\<close> refuses offsets that are negative as \<^verbatim>\<open>i64\<close>.\<close>

definition read_at :: "bytes \<Rightarrow> nat \<Rightarrow> nat \<Rightarrow> bytes option" where
  "read_at f off n = (if n = 0 \<or> off + n \<le> length f then Some (take n (drop off f)) else None)"

definition write_at :: "bytes \<Rightarrow> nat \<Rightarrow> bytes \<Rightarrow> bytes" where
  "write_at f off b = (if b = [] then f
     else take off f @ replicate (off - length f) 0 @ b @ drop (off + length b) f)"

definition seek_ok :: "host \<Rightarrow> string \<Rightarrow> nat \<Rightarrow> bool" where
  "seek_ok H p off = (os_ok H ''seek'' p \<and> off < 2 ^ 63)"

lemma length_write_at: "off + length b \<le> length f \<Longrightarrow> length (write_at f off b) = length f"
  by (simp add: write_at_def)

lemma read_write_same: "off + length b \<le> length f \<Longrightarrow> read_at (write_at f off b) off (length b) = Some b"
  by (simp add: read_at_def write_at_def)

lemma write_at_nth:
  assumes "off + length b \<le> length f" "i < length f"
  shows "write_at f off b ! i = (if off \<le> i \<and> i < off + length b then b ! (i - off) else f ! i)"
  using assms by (auto simp: write_at_def nth_append)

lemma read_at_nth:
  "read_at f off n = Some d \<longleftrightarrow> (n = 0 \<and> d = [] \<or> off + n \<le> length f \<and> length d = n \<and> (\<forall>i<n. d ! i = f ! (off + i)))"
  by (auto simp: read_at_def intro!: nth_equalityI)

lemma read_write_other:
  assumes "off + length b \<le> length f" "off' + n \<le> off \<or> off + length b \<le> off'"
  shows "read_at (write_at f off b) off' n = read_at f off' n"
proof -
  have "take n (drop off' (write_at f off b)) = take n (drop off' f)" if "off' + n \<le> length f"
    using that assms by (intro nth_equalityI) (auto simp: length_write_at write_at_nth)
  then show ?thesis using length_write_at [OF assms(1)] by (simp add: read_at_def)
qed

section \<open>The allocator\<close>

definition CONTENT_ID_NOT_IN_SLOT_MAP :: string where
  "CONTENT_ID_NOT_IN_SLOT_MAP = ''content_id_not_in_slot_map''"

record slot_allocator =
  sa_slot_map :: "slot_map option"
  sa_slots_file :: string
  sa_capacity_file :: string
  sa_content_slot_map :: content_map
  sa_content_slot_map_file :: string

text \<open>An address prints without a dot, so \<^verbatim>\<open>with_extension\<close> replaces \<^verbatim>\<open>.dat\<close>.\<close>

definition slot_allocator_new :: "hex_lib \<Rightarrow> string \<Rightarrow> address \<Rightarrow> slot_allocator" where
  "slot_allocator_new hx capacity_dir provider_id =
    (let stem = capacity_dir @ ''/capacity_'' @ hex_with_prefix hx provider_id in
     \<lparr>sa_slot_map = None, sa_slots_file = stem @ ''.slots.json'', sa_capacity_file = stem @ ''.dat'',
      sa_content_slot_map = Map.empty, sa_content_slot_map_file = stem @ ''.content-slot-map.json''\<rparr>)"

definition slot_map_exists :: "host \<Rightarrow> disk \<Rightarrow> slot_allocator \<Rightarrow> bool" where
  "slot_map_exists H d a = path_exists H d (sa_slots_file a)"

definition load_content_slot_map :: "host \<Rightarrow> disk \<Rightarrow> slot_allocator \<Rightarrow> unit res \<times> slot_allocator" where
  "load_content_slot_map H d a =
    (if \<not> path_exists H d (sa_content_slot_map_file a) then (Err (StorageError ''load_content_slot_map''), a)
     else (case Option.bind (read_to_string H d (sa_content_slot_map_file a)) (content_map_of_json H) of
         None \<Rightarrow> (Err (StorageError ''load_content_slot_map''), a)
       | Some m \<Rightarrow> (Ok (), a\<lparr>sa_content_slot_map := m\<rparr>)))"

definition load_slot_map :: "host \<Rightarrow> disk \<Rightarrow> slot_allocator \<Rightarrow> unit res \<times> slot_allocator" where
  "load_slot_map H d a =
    (if \<not> slot_map_exists H d a then (Err (StorageError ''load_slot_map''), a)
     else (case read_to_string H d (sa_slots_file a) of
         None \<Rightarrow> (Err (StorageError ''load_slot_map''), a)
       | Some s \<Rightarrow> (case slot_map_of_json H s of
             None \<Rightarrow> (Err (StorageError ''deserialize_slot_map''), a)
           | Some m \<Rightarrow> (Ok (), snd (load_content_slot_map H d (a\<lparr>sa_slot_map := Some m\<rparr>))))))"

definition save_content_slot_map :: "host \<Rightarrow> disk \<Rightarrow> slot_allocator \<Rightarrow> unit res \<times> disk" where
  "save_content_slot_map H d a = (case content_map_to_json H (sa_content_slot_map a) of
       None \<Rightarrow> (Err (StorageError ''save_content_slot_map''), d)
     | Some s \<Rightarrow> (case fs_write H d (sa_content_slot_map_file a) s of
           (ok, d') \<Rightarrow> (ensure ok (StorageError ''save_content_slot_map''), d')))"

definition slot_map_ref :: "slot_allocator \<Rightarrow> slot_map res" where
  "slot_map_ref a = ok_or (StorageError ''slot_map_ref'') (sa_slot_map a)"

definition slot_map_mut :: "slot_allocator \<Rightarrow> slot_map res" where
  "slot_map_mut a = ok_or (StorageError ''slot_map_mut'') (sa_slot_map a)"

definition save_slot_map :: "host \<Rightarrow> disk \<Rightarrow> slot_allocator \<Rightarrow> unit res \<times> disk" where
  "save_slot_map H d a = (case slot_map_ref a of Inl e \<Rightarrow> (Err e, d)
     | Inr m \<Rightarrow> (case slot_map_to_json H m of
           None \<Rightarrow> (Err (StorageError ''serialize_slot_map''), d)
         | Some s \<Rightarrow> (case fs_write H d (sa_slots_file a) s of
               (ok, d') \<Rightarrow> (ensure ok (StorageError ''save_slot_map''), d'))))"

definition set_slot_map :: "slot_map \<Rightarrow> slot_allocator \<Rightarrow> slot_allocator" where
  "set_slot_map m a = a\<lparr>sa_slot_map := Some m\<rparr>"

text \<open>The loop of \<^verbatim>\<open>find_open_slots\<close> stops once it has enough; asked for none it still takes one.\<close>

fun scan_open :: "nat \<Rightarrow> nat \<Rightarrow> slot list \<Rightarrow> nat list \<Rightarrow> nat list" where
  "scan_open need idx [] found = found"
| "scan_open need idx (s # ss) found =
    (if slot_st s = SlotOpen
     then (if length (found @ [idx]) \<ge> need then found @ [idx] else scan_open need (Suc idx) ss (found @ [idx]))
     else scan_open need (Suc idx) ss found)"

definition find_open_slots :: "slot_allocator \<Rightarrow> nat \<Rightarrow> nat list res" where
  "find_open_slots a need = and_then (slot_map_ref a) (\<lambda>m.
     let found = scan_open need 0 (sm_slots m) [] in
     if length found < need then Err (StorageError ''find_open_slots'') else Ok found)"

text \<open>Setting the state of slots one after the other; an index out of bounds ends the loop and keeps what was set.\<close>

fun set_states :: "slot_state \<Rightarrow> nat list \<Rightarrow> slot list \<Rightarrow> bool \<times> slot list" where
  "set_states st [] ss = (True, ss)"
| "set_states st (i # is) ss = (if i \<ge> length ss then (False, ss)
     else set_states st is (ss[i := (ss ! i)\<lparr>slot_st := st\<rparr>]))"

definition mark_slots_as_content ::
    "host \<Rightarrow> disk \<Rightarrow> slot_allocator \<Rightarrow> (nat \<times> nat) list \<Rightarrow> string \<Rightarrow> bytes \<Rightarrow> unit res \<times> slot_allocator \<times> disk" where
  "mark_slots_as_content H d a slot_sizes did h = (case slot_map_mut a of Inl e \<Rightarrow> (Err e, a, d)
     | Inr m \<Rightarrow> (case set_states (SlotContent did h) (map fst slot_sizes) (sm_slots m) of (ok, ss) \<Rightarrow>
         let a1 = a\<lparr>sa_slot_map := Some (m\<lparr>sm_slots := ss\<rparr>)\<rparr> in
         if \<not> ok then (Err (StorageError ''mark_slots_as_content''), a1, d)
         else (let a2 = a1\<lparr>sa_content_slot_map := (sa_content_slot_map a1)(did \<mapsto> slot_sizes)\<rparr> in
           case save_content_slot_map H d a2 of (r, d') \<Rightarrow> (r, a2, d'))))"

definition find_slots_by_content_id :: "slot_allocator \<Rightarrow> string \<Rightarrow> (nat \<times> nat) list res" where
  "find_slots_by_content_id a cid = ok_or (NotFoundError CONTENT_ID_NOT_IN_SLOT_MAP) (sa_content_slot_map a cid)"

definition remove_content_by_id ::
    "host \<Rightarrow> disk \<Rightarrow> slot_allocator \<Rightarrow> string \<Rightarrow> (nat \<times> nat) list res \<times> slot_allocator \<times> disk" where
  "remove_content_by_id H d a cid = (case find_slots_by_content_id a cid of Inl e \<Rightarrow> (Err e, a, d)
     | Inr slot_sizes \<Rightarrow> (case slot_map_mut a of Inl e \<Rightarrow> (Err e, a, d)
       | Inr m \<Rightarrow> (case set_states SlotOpen (map fst slot_sizes) (sm_slots m) of (ok, ss) \<Rightarrow>
           let a1 = a\<lparr>sa_slot_map := Some (m\<lparr>sm_slots := ss\<rparr>)\<rparr> in
           if \<not> ok then (Err (StorageError ''remove_content_by_id''), a1, d)
           else (let a2 = a1\<lparr>sa_content_slot_map := (sa_content_slot_map a1)(cid := None)\<rparr> in
             case save_content_slot_map H d a2 of (r, d') \<Rightarrow> (and_then r (\<lambda>_. Ok slot_sizes), a2, d')))))"

definition write_chunk_to_slot ::
    "node_crates \<Rightarrow> host \<Rightarrow> disk \<Rightarrow> slot_allocator \<Rightarrow> nat \<Rightarrow> bytes \<Rightarrow> bytes res \<times> disk" where
  "write_chunk_to_slot cr H d a i dat = (case slot_map_ref a of Inl e \<Rightarrow> (Err e, d)
     | Inr m \<Rightarrow>
       if i \<ge> length (sm_slots m) then (Err (StorageError ''write_chunk_to_slot''), d)
       else (let s = sm_slots m ! i; p = sa_capacity_file a in
         if length dat > slot_size s then (Err (StorageError ''write_chunk_to_slot''), d)
         else (let chunk = dat @ replicate (slot_size s - length dat) 0 in
           case d p of None \<Rightarrow> (Err (StorageError ''write_chunk_to_slot''), d)
           | Some f \<Rightarrow>
             if \<not> os_ok H ''open'' p \<or> \<not> seek_ok H p (slot_offset s) then (Err (StorageError ''write_chunk_to_slot''), d)
             else if \<not> os_ok H ''write'' p then (Err (StorageError ''write_chunk_to_slot''), d(p := os_torn H p (d p)))
             else (Ok (hash_chunk cr chunk), d(p := Some (write_at f (slot_offset s) chunk))))))"

definition read_slot :: "host \<Rightarrow> disk \<Rightarrow> string \<Rightarrow> slot \<Rightarrow> bytes option" where
  "read_slot H d p s = (case d p of None \<Rightarrow> None
     | Some f \<Rightarrow> if os_ok H ''open'' p \<and> seek_ok H p (slot_offset s) \<and> os_ok H ''read'' p
         then read_at f (slot_offset s) (slot_size s) else None)"

definition read_chunk_from_slot :: "host \<Rightarrow> disk \<Rightarrow> slot_allocator \<Rightarrow> nat \<Rightarrow> bytes res" where
  "read_chunk_from_slot H d a i = and_then (slot_map_ref a) (\<lambda>m.
     if i \<ge> length (sm_slots m) then Err (StorageError ''read_chunk_from_slot'')
     else ok_or (StorageError ''read_chunk_from_slot'') (read_slot H d (sa_capacity_file a) (sm_slots m ! i)))"

end
