(* ===== verification/Capacity_Manager.thy ===== *)
theory Capacity_Manager
  imports Slots
begin

text \<open>
  The capacity manager of a provider (\<^verbatim>\<open>node_app/src/capacity/capacity_manager\<close>): allocation of the capacity file
  (\<^verbatim>\<open>allocation.rs\<close>), storing, reading and deleting content in slots (\<^verbatim>\<open>slot_io.rs\<close>), the Merkle tree over the slots
  (\<^verbatim>\<open>merkle.rs\<close>), answers to challenges (\<^verbatim>\<open>proofs.rs\<close>) and the start of a node (\<^verbatim>\<open>mod.rs\<close>).

  An operation returns its result with the disk and the manager it leaves; \<^term>\<open>None\<close> is a panic.  The locks are not
  modelled: one operation runs at a time.  The transactions that announce a new root are collected in the outbox.
\<close>

section \<open>Deterministic data\<close>

definition MAX_CHUNK_SIZE :: nat where "MAX_CHUNK_SIZE = 1024"

definition xof_documented :: "host \<Rightarrow> bool" where
  "xof_documented H \<longleftrightarrow> (\<forall>b n. length (blake3_xof H b n) = n)"

text \<open>What is fed to the hasher that \<^verbatim>\<open>create_deterministic_hasher\<close> returns.\<close>

definition deterministic_input :: "node_crates \<Rightarrow> string \<Rightarrow> capacity_seed \<Rightarrow> address \<Rightarrow> bytes" where
  "deterministic_input cr prefix seed provider_id =
     str_bytes prefix @ seed_bytes seed @ str_bytes (hex_with_prefix (hex cr) provider_id)"

definition generate_chunk_data :: "node_crates \<Rightarrow> host \<Rightarrow> address \<Rightarrow> capacity_seed \<Rightarrow> nat \<Rightarrow> bytes" where
  "generate_chunk_data cr H provider_id seed i =
     blake3_xof H (deterministic_input cr ''CAPACITY_PROOF'' seed provider_id @ le_bytes 8 (int i)) MAX_CHUNK_SIZE"

definition random_u64 :: "proof_crates \<Rightarrow> bytes \<Rightarrow> nat" where
  "random_u64 pcr b = nat (le_val (take 8 (blake3 pcr b)))"

section \<open>The manager\<close>

record capacity_manager =
  cm_provider_id :: address
  cm_allocator :: slot_allocator
  cm_merkle_tree :: "merkle_tree option"
  cm_initialized :: bool
  cm_outbox :: "capacity_merkle_root list"

type_synonym 'a managed = "('a res \<times> disk \<times> capacity_manager) option"

definition capacity_manager_new :: "hex_lib \<Rightarrow> string \<Rightarrow> address \<Rightarrow> capacity_manager" where
  "capacity_manager_new hx capacity_dir provider_id =
     \<lparr>cm_provider_id = provider_id, cm_allocator = slot_allocator_new hx capacity_dir provider_id,
      cm_merkle_tree = None, cm_initialized = False, cm_outbox = []\<rparr>"

section \<open>Allocation\<close>

definition swap_at :: "nat \<Rightarrow> nat \<Rightarrow> 'a list \<Rightarrow> 'a list" where
  "swap_at i j xs = xs[i := xs ! j, j := xs ! i]"

definition slot_permutation :: "node_crates \<Rightarrow> proof_crates \<Rightarrow> capacity_seed \<Rightarrow> address \<Rightarrow> nat \<Rightarrow> nat list" where
  "slot_permutation cr pcr seed provider_id n =
     fold (\<lambda>i xs. swap_at i
         (random_u64 pcr (deterministic_input cr ''OFFSET_MAP'' seed provider_id @ le_bytes 8 (int i)) mod (i + 1)) xs)
       (rev [1..<n]) [0..<n]"

definition chunk_count_of :: "u64 \<Rightarrow> nat" where
  "chunk_count_of capacity = (unat capacity + MAX_CHUNK_SIZE - 1) div MAX_CHUNK_SIZE"

definition chunk_offsets :: "node_crates \<Rightarrow> proof_crates \<Rightarrow> capacity_seed \<Rightarrow> address \<Rightarrow> u64 \<Rightarrow> (nat \<times> nat) list" where
  "chunk_offsets cr pcr seed provider_id capacity =
    (let remainder = unat capacity mod MAX_CHUNK_SIZE;
         last_chunk_size = (if remainder > 0 then remainder else MAX_CHUNK_SIZE) in
     map (\<lambda>i. (i * MAX_CHUNK_SIZE, MAX_CHUNK_SIZE))
       (slot_permutation cr pcr seed provider_id (chunk_count_of capacity - 1)) @
     [(unat capacity - last_chunk_size, last_chunk_size)])"

fun overlapping :: "(nat \<times> nat) list \<Rightarrow> bool" where
  "overlapping [] = False"
| "overlapping ((o1, s1) # rest) = (list_ex (\<lambda>(o2, s2). o1 < o2 + s2 \<and> o1 + s1 > o2) rest \<or> overlapping rest)"

definition initial_state :: "node_crates \<Rightarrow> proof_crates \<Rightarrow> capacity_seed \<Rightarrow> address \<Rightarrow> nat \<Rightarrow> slot_state" where
  "initial_state cr pcr seed provider_id i =
    (if random_u64 pcr (blake3 pcr (deterministic_input cr ''SLOT_STATE_MAP'' seed provider_id) @ le_bytes 8 (int i)) mod 100 < 80
     then SlotProof else SlotOpen)"

definition initial_slots :: "node_crates \<Rightarrow> proof_crates \<Rightarrow> capacity_seed \<Rightarrow> address \<Rightarrow> u64 \<Rightarrow> slot list" where
  "initial_slots cr pcr seed provider_id capacity =
     map (\<lambda>(i, off, n). \<lparr>slot_offset = off, slot_size = n, slot_st = initial_state cr pcr seed provider_id i\<rparr>)
       (zip [0..<chunk_count_of capacity] (chunk_offsets cr pcr seed provider_id capacity))"

text \<open>The data of a slot that holds no content.\<close>

definition filler :: "node_crates \<Rightarrow> host \<Rightarrow> address \<Rightarrow> capacity_seed \<Rightarrow> nat \<Rightarrow> slot \<Rightarrow> bytes" where
  "filler cr H provider_id seed i s = (case slot_st s of
       SlotProof \<Rightarrow> take (slot_size s) (generate_chunk_data cr H provider_id seed i)
     | _ \<Rightarrow> replicate (slot_size s) 0)"

fun write_slots ::
    "node_crates \<Rightarrow> host \<Rightarrow> address \<Rightarrow> capacity_seed \<Rightarrow> string \<Rightarrow> (nat \<times> slot) list \<Rightarrow> disk \<Rightarrow> bytes list res \<times> disk" where
  "write_slots cr H provider_id seed p [] d = (Ok [], d)"
| "write_slots cr H provider_id seed p ((i, s) # rest) d =
    (case slot_st s of SlotContent _ _ \<Rightarrow> (Err (StorageError ''allocate_capacity''), d)
     | _ \<Rightarrow> let dat = filler cr H provider_id seed i s in
       if \<not> seek_ok H p (slot_offset s) then (Err (StorageError ''allocate_capacity''), d)
       else if \<not> os_ok H ''write'' p then (Err (StorageError ''allocate_capacity''), d(p := os_torn H p (d p)))
       else (case write_slots cr H provider_id seed p rest (d(p := map_option (\<lambda>f. write_at f (slot_offset s) dat) (d p))) of
           (Inl e, d') \<Rightarrow> (Err e, d')
         | (Inr hs, d') \<Rightarrow> (Ok (hash_chunk cr dat # hs), d')))"

definition allocate_capacity_internal ::
    "node_crates \<Rightarrow> proof_crates \<Rightarrow> host \<Rightarrow> disk \<Rightarrow> capacity_manager \<Rightarrow> u64 \<Rightarrow> capacity_seed \<Rightarrow> capacity_merkle_root managed" where
  "allocate_capacity_internal cr pcr H d m capacity seed =
    (let a = cm_allocator m; p = sa_capacity_file a; err = Err (StorageError ''allocate_capacity'');
         ss = initial_slots cr pcr seed (cm_provider_id m) capacity;
         d1 = d(p := Some (replicate (unat capacity) 0)) in
     if \<not> os_ok H ''create_dir_all'' p \<or> \<not> os_ok H ''create'' p then Some (err, d, m)
     else if \<not> os_ok H ''set_len'' p then Some (err, d(p := Some []), m)
     else if overlapping (chunk_offsets cr pcr seed (cm_provider_id m) capacity) then Some (err, d1, m)
     else (case write_slots cr H (cm_provider_id m) seed p (zip [0..<length ss] ss) d1 of
         (Inl e, d2) \<Rightarrow> Some (Err e, d2, m)
       | (Inr leaves, d2) \<Rightarrow>
         if \<not> os_ok H ''fsync'' p then Some (err, d2, m)
         else (let a' = set_slot_map \<lparr>sm_slots = ss, sm_capacity_bytes = capacity, sm_seed = seed_bytes seed,
                 sm_provider_id = cm_provider_id m\<rparr> a; m' = m\<lparr>cm_allocator := a'\<rparr> in
           case save_slot_map H d2 a' of
             (Inl e, d3) \<Rightarrow> Some (Err e, d3, m')
           | (Inr _, d3) \<Rightarrow> (case merkle_build (blake3 pcr) leaves of None \<Rightarrow> None
               | Some t \<Rightarrow> Some (Ok (mt_root t), d3, m'\<lparr>cm_merkle_tree := Some t\<rparr>)))))"

text \<open>The seed is drawn from the random generator of the operating system.  \<^verbatim>\<open>u64\<close> multiplication wraps in release builds.\<close>

definition allocate_capacity ::
    "node_crates \<Rightarrow> proof_crates \<Rightarrow> host \<Rightarrow> disk \<Rightarrow> capacity_manager \<Rightarrow> u64 \<Rightarrow> bytes \<Rightarrow> unit managed" where
  "allocate_capacity cr pcr H d m capacity_size_mb random =
    (if slot_map_exists H d (cm_allocator m) then Some (Ok (), d, m)
     else (case allocate_capacity_internal cr pcr H d m (capacity_size_mb * 1024 * 1024) (CapacitySeed random) of
         None \<Rightarrow> None
       | Some (r, d', m') \<Rightarrow> Some (and_then r (\<lambda>_. Ok ()), d', m')))"

section \<open>The Merkle tree\<close>

text \<open>The hash of a slot: generated data, zeros, or what the file holds.  Slicing generated data past its end panics.\<close>

definition slot_leaf :: "node_crates \<Rightarrow> host \<Rightarrow> disk \<Rightarrow> string \<Rightarrow> slot_map \<Rightarrow> nat \<Rightarrow> slot \<Rightarrow> bytes res option" where
  "slot_leaf cr H d p sm i s = (case slot_st s of
       SlotProof \<Rightarrow> (let dat = generate_chunk_data cr H (sm_provider_id sm) (CapacitySeed (sm_seed sm)) i in
         if slot_size s > length dat then None else Some (Ok (hash_chunk cr (take (slot_size s) dat))))
     | SlotOpen \<Rightarrow> Some (Ok (hash_chunk cr (replicate (slot_size s) 0)))
     | SlotContent _ _ \<Rightarrow> Some (map_err (\<lambda>_. StorageError ''build_merkle_tree'')
         (ok_or () (map_option (hash_chunk cr) (read_slot H d p s)))))"

fun slot_leaves ::
    "node_crates \<Rightarrow> host \<Rightarrow> disk \<Rightarrow> string \<Rightarrow> slot_map \<Rightarrow> (nat \<times> slot) list \<Rightarrow> bytes list res option" where
  "slot_leaves cr H d p sm [] = Some (Ok [])"
| "slot_leaves cr H d p sm ((i, s) # rest) = (case slot_leaf cr H d p sm i s of
       None \<Rightarrow> None
     | Some (Inl e) \<Rightarrow> Some (Err e)
     | Some (Inr h) \<Rightarrow> map_option (\<lambda>r. and_then r (\<lambda>hs. Ok (h # hs))) (slot_leaves cr H d p sm rest))"

definition is_content :: "slot_state \<Rightarrow> bool" where
  "is_content st = (case st of SlotContent _ _ \<Rightarrow> True | _ \<Rightarrow> False)"

definition build_merkle_tree ::
    "node_crates \<Rightarrow> proof_crates \<Rightarrow> host \<Rightarrow> disk \<Rightarrow> capacity_manager \<Rightarrow> slot_map \<Rightarrow> merkle_tree res option" where
  "build_merkle_tree cr pcr H d m sm = (let p = sa_capacity_file (cm_allocator m); ss = sm_slots sm in
     if list_ex (\<lambda>s. is_content (slot_st s)) ss \<and> \<not> (d p \<noteq> None \<and> os_ok H ''open'' p)
     then Some (Err (StorageError ''build_merkle_tree''))
     else (case slot_leaves cr H d p sm (zip [0..<length ss] ss) of
         None \<Rightarrow> None
       | Some (Inl e) \<Rightarrow> Some (Err e)
       | Some (Inr leaves) \<Rightarrow> map_option Inr (merkle_build (blake3 pcr) leaves)))"

definition update_merkle_tree_for_content ::
    "proof_crates \<Rightarrow> capacity_manager \<Rightarrow> nat list \<Rightarrow> bytes list \<Rightarrow> (capacity_merkle_root res \<times> capacity_manager) option" where
  "update_merkle_tree_for_content pcr m indices hashes =
    (let err = Err (StorageError ''update_merkle_tree_for_content'') in
     if length indices \<noteq> length hashes then Some (err, m)
     else (case cm_merkle_tree m of None \<Rightarrow> Some (err, m)
       | Some t \<Rightarrow>
         if list_ex (\<lambda>i. i \<ge> merkle_leaf_count t) indices then Some (err, m)
         else (case update_leaves (blake3 pcr) t (zip indices hashes) of None \<Rightarrow> None
           | Some t' \<Rightarrow> Some (Ok (mt_root t'), m\<lparr>cm_merkle_tree := Some t'\<rparr>))))"

definition get_merkle_root :: "capacity_manager \<Rightarrow> capacity_merkle_root res" where
  "get_merkle_root m = ok_or (StorageError ''get_merkle_root'') (map_option mt_root (cm_merkle_tree m))"

definition get_registration_info :: "capacity_manager \<Rightarrow> (u64 \<times> capacity_seed \<times> capacity_merkle_root) res" where
  "get_registration_info m =
     and_then (ok_or (StorageError ''get_registration_info'') (sa_slot_map (cm_allocator m))) (\<lambda>sm.
     and_then (get_merkle_root m) (\<lambda>root. Ok (sm_capacity_bytes sm, CapacitySeed (sm_seed sm), root)))"

definition capacity_initialize :: "node_crates \<Rightarrow> proof_crates \<Rightarrow> host \<Rightarrow> disk \<Rightarrow> capacity_manager \<Rightarrow> unit managed" where
  "capacity_initialize cr pcr H d m =
    (if cm_initialized m then Some (Ok (), d, m)
     else if \<not> slot_map_exists H d (cm_allocator m) then Some (Ok (), d, m\<lparr>cm_initialized := True\<rparr>)
     else (case load_slot_map H d (cm_allocator m) of (r, a) \<Rightarrow>
       let m1 = m\<lparr>cm_allocator := a\<rparr> in
       (case r of Inl e \<Rightarrow> Some (Err e, d, m1)
       | Inr _ \<Rightarrow> (case sa_slot_map a of None \<Rightarrow> Some (Ok (), d, m1\<lparr>cm_initialized := True\<rparr>)
         | Some sm \<Rightarrow> (case build_merkle_tree cr pcr H d m1 sm of
               None \<Rightarrow> None
             | Some (Inl e) \<Rightarrow> Some (Err e, d, m1)
             | Some (Inr t) \<Rightarrow> Some (Ok (), d, m1\<lparr>cm_merkle_tree := Some t, cm_initialized := True\<rparr>))))))"

section \<open>Content\<close>

fun write_chunks ::
    "node_crates \<Rightarrow> host \<Rightarrow> slot_allocator \<Rightarrow> nat list \<Rightarrow> bytes list \<Rightarrow> disk \<Rightarrow> (bytes list \<times> (nat \<times> nat) list) res \<times> disk" where
  "write_chunks cr H a indices [] d = (Ok ([], []), d)"
| "write_chunks cr H a [] (c # cs) d = (Err (StorageError ''store_content_chunks''), d)"
| "write_chunks cr H a (i # indices) (c # cs) d =
    (if length c > MAX_CHUNK_SIZE then (Err (StorageError ''store_content_chunks''), d)
     else (case write_chunk_to_slot cr H d a i (c @ replicate (MAX_CHUNK_SIZE - length c) 0) of
         (Inl e, d1) \<Rightarrow> (Err e, d1)
       | (Inr h, d1) \<Rightarrow> (case write_chunks cr H a indices cs d1 of
             (Inl e, d2) \<Rightarrow> (Err e, d2)
           | (Inr (hs, sizes), d2) \<Rightarrow> (Ok (h # hs, (i, length c) # sizes), d2))))"

definition committed_hash_of :: "node_crates \<Rightarrow> bytes list \<Rightarrow> bytes" where
  "committed_hash_of cr hashes = sha256 cr (str_bytes ''CONTENT_COMMIT'' @ concat hashes)"

definition store_content_chunks ::
    "node_crates \<Rightarrow> proof_crates \<Rightarrow> host \<Rightarrow> disk \<Rightarrow> capacity_manager \<Rightarrow> string \<Rightarrow> bytes list \<Rightarrow> nat list managed" where
  "store_content_chunks cr pcr H d m cid chunks =
    (case find_open_slots (cm_allocator m) (length chunks) of Inl e \<Rightarrow> Some (Err e, d, m)
     | Inr indices \<Rightarrow> (case write_chunks cr H (cm_allocator m) indices chunks d of
         (Inl e, d1) \<Rightarrow> Some (Err e, d1, m)
       | (Inr (hashes, slot_sizes), d1) \<Rightarrow>
         (case mark_slots_as_content H d1 (cm_allocator m) slot_sizes cid (committed_hash_of cr hashes) of (r, a, d2) \<Rightarrow>
          let m1 = m\<lparr>cm_allocator := a\<rparr> in
          (case r of Inl e \<Rightarrow> Some (Err e, d2, m1)
          | Inr _ \<Rightarrow> (case save_slot_map H d2 a of (Inl e, d3) \<Rightarrow> Some (Err e, d3, m1)
            | (Inr _, d3) \<Rightarrow> (case update_merkle_tree_for_content pcr m1 (map fst slot_sizes) hashes of
                None \<Rightarrow> None
              | Some (Inl e, m2) \<Rightarrow> Some (Err e, d3, m2)
              | Some (Inr root, m2) \<Rightarrow> Some (Ok (map fst slot_sizes), d3, m2\<lparr>cm_outbox := cm_outbox m2 @ [root]\<rparr>)))))))"

fun read_chunks :: "host \<Rightarrow> disk \<Rightarrow> slot_allocator \<Rightarrow> (nat \<times> nat) list \<Rightarrow> bytes res" where
  "read_chunks H d a [] = Ok []"
| "read_chunks H d a ((i, n) # rest) = and_then (read_chunk_from_slot H d a i) (\<lambda>c.
     if length c \<ge> n then and_then (read_chunks H d a rest) (\<lambda>cs. Ok (take n c @ cs))
     else Err (StorageError ''get_content_from_slots''))"

definition get_content_from_slots :: "host \<Rightarrow> disk \<Rightarrow> capacity_manager \<Rightarrow> string \<Rightarrow> bytes option res" where
  "get_content_from_slots H d m cid = (case find_slots_by_content_id (cm_allocator m) cid of
       Inl e \<Rightarrow> (if e = NotFoundError CONTENT_ID_NOT_IN_SLOT_MAP then Ok None else Err e)
     | Inr slot_sizes \<Rightarrow> and_then (read_chunks H d (cm_allocator m) slot_sizes) (\<lambda>c. Ok (Some c)))"

fun zero_hashes :: "node_crates \<Rightarrow> slot list \<Rightarrow> nat list \<Rightarrow> bytes list res" where
  "zero_hashes cr ss [] = Ok []"
| "zero_hashes cr ss (i # is) = (if i \<ge> length ss then Err (StorageError ''delete_content_from_slots'')
     else and_then (zero_hashes cr ss is) (\<lambda>hs. Ok (hash_chunk cr (replicate (slot_size (ss ! i)) 0) # hs)))"

fun zero_slots :: "node_crates \<Rightarrow> host \<Rightarrow> slot_allocator \<Rightarrow> nat list \<Rightarrow> disk \<Rightarrow> unit res \<times> disk" where
  "zero_slots cr H a [] d = (Ok (), d)"
| "zero_slots cr H a (i # is) d = (case write_chunk_to_slot cr H d a i [] of
       (Inl e, d1) \<Rightarrow> (Err e, d1)
     | (Inr _, d1) \<Rightarrow> zero_slots cr H a is d1)"

definition delete_content_from_slots ::
    "node_crates \<Rightarrow> proof_crates \<Rightarrow> host \<Rightarrow> disk \<Rightarrow> capacity_manager \<Rightarrow> string \<Rightarrow> unit managed" where
  "delete_content_from_slots cr pcr H d m cid = (let a = cm_allocator m in
    case find_slots_by_content_id a cid of Inl e \<Rightarrow> Some (Err e, d, m)
    | Inr slot_sizes \<Rightarrow>
     (case and_then (slot_map_ref a) (\<lambda>sm. zero_hashes cr (sm_slots sm) (map fst slot_sizes)) of Inl e \<Rightarrow> Some (Err e, d, m)
     | Inr zeros \<Rightarrow>
      (case zero_slots cr H a (map fst slot_sizes) d of (Inl e, d1) \<Rightarrow> Some (Err e, d1, m)
      | (Inr _, d1) \<Rightarrow>
       (case remove_content_by_id H d1 a cid of (r, a1, d2) \<Rightarrow>
        let m1 = m\<lparr>cm_allocator := a1\<rparr> in
        (case r of Inl e \<Rightarrow> Some (Err e, d2, m1)
        | Inr released \<Rightarrow>
         (case save_slot_map H d2 a1 of (Inl e, d3) \<Rightarrow> Some (Err e, d3, m1)
         | (Inr _, d3) \<Rightarrow>
          (case get_merkle_root m1 of Inl e \<Rightarrow> Some (Err e, d3, m1)
          | Inr previous \<Rightarrow>
           (case update_merkle_tree_for_content pcr m1 (map fst released) zeros of None \<Rightarrow> None
            | Some (Inl e, m2) \<Rightarrow> Some (Err e, d3, m2)
            | Some (Inr root, m2) \<Rightarrow>
               Some (Ok (), d3, if previous = root then m2 else m2\<lparr>cm_outbox := cm_outbox m2 @ [root]\<rparr>)))))))))"

section \<open>Answers to challenges\<close>

record challenge_proof =
  ch_challenge_id :: string
  ch_provider_id :: address
  ch_challenger :: address
  ch_block_height :: int
  ch_proofs :: "chunk_proof list"
  ch_generated_at :: u64

record capacity_proof_generation_params =
  gp_challenge_id :: challenge_id
  gp_challenger :: address
  gp_provider_id :: address
  gp_chunk_indices :: "nat list"
  gp_block_height :: int
  gp_expected_merkle_root :: capacity_merkle_root
  gp_expiration_block :: int
  gp_timestamp :: u64

fun prove_chunks ::
    "node_crates \<Rightarrow> host \<Rightarrow> disk \<Rightarrow> string \<Rightarrow> slot list \<Rightarrow> merkle_tree \<Rightarrow> nat list \<Rightarrow> chunk_proof list res option" where
  "prove_chunks cr H d p ss t [] = Some (Ok [])"
| "prove_chunks cr H d p ss t (i # is) =
    (if i \<ge> length ss then Some (Err (ValidationError ''chunk_index''))
     else if \<not> seek_ok H p (slot_offset (ss ! i)) then Some (Err (StorageError ''seek_chunk''))
     else (case read_slot H d p (ss ! i) of None \<Rightarrow> Some (Err (StorageError ''read_chunk''))
       | Some dat \<Rightarrow> (case generate_proof t i of None \<Rightarrow> None
         | Some prf \<Rightarrow> map_option (\<lambda>r. and_then r (\<lambda>ps. Ok (\<lparr>chunk_index = i, chunk_data = dat, chunk_hash = hash_chunk cr dat,
               cp_merkle_proof = prf, cp_slot_state = slot_st (ss ! i)\<rparr> # ps))) (prove_chunks cr H d p ss t is))))"

definition generate_capacity_proof ::
    "node_crates \<Rightarrow> host \<Rightarrow> disk \<Rightarrow> capacity_manager \<Rightarrow> capacity_proof_generation_params \<Rightarrow> u64 \<Rightarrow> challenge_proof res option" where
  "generate_capacity_proof cr H d m g now =
    (let p = sa_capacity_file (cm_allocator m) in
     if gp_provider_id g \<noteq> cm_provider_id m then Some (Err (ValidationError ''provider_id''))
     else if \<not> cm_initialized m then Some (Err (ValidationError ''initialized''))
     else (case cm_merkle_tree m of None \<Rightarrow> Some (Err (ValidationError ''merkle_tree''))
       | Some t \<Rightarrow>
         if mt_root t \<noteq> gp_expected_merkle_root g then Some (Err (ValidationError ''merkle_root''))
         else (case sa_slot_map (cm_allocator m) of None \<Rightarrow> Some (Err (ValidationError ''slot_map''))
           | Some sm \<Rightarrow>
             if d p = None \<or> \<not> os_ok H ''open'' p then Some (Err (StorageError ''open_capacity_file''))
             else map_option (\<lambda>r. and_then r (\<lambda>ps. Ok \<lparr>ch_challenge_id = challenge_id_to_hex (hex cr) (gp_challenge_id g),
                 ch_provider_id = gp_provider_id g, ch_challenger = gp_challenger g, ch_block_height = gp_block_height g,
                 ch_proofs = ps, ch_generated_at = now\<rparr>))
               (prove_chunks cr H d p (sm_slots sm) t (gp_chunk_indices g)))))"

end
