(* ===== verification/Capacity_Store.thy ===== *)
theory Capacity_Store
  imports Capacity_Manager
begin

text \<open>
  Correctness of the capacity manager.  The capacity file is seen as the list of the blocks its slots hold; writing a
  slot updates the list, and the Merkle tree commits to the hashes of the blocks.  \<open>capacity_state\<close> is the invariant of a
  manager with its files; \<open>store_effect\<close> and \<open>delete_effect\<close> say what storing and deleting content do to it on a host
  whose calls succeed.
\<close>

section \<open>Blocks\<close>

definition layout_ok :: "slot list \<Rightarrow> nat \<Rightarrow> bool" where
  "layout_ok ss n \<longleftrightarrow> n < 2 ^ 63 \<and>
     (\<forall>i < length ss. slot_size (ss ! i) = MAX_CHUNK_SIZE \<and> slot_offset (ss ! i) + MAX_CHUNK_SIZE \<le> n) \<and>
     (\<forall>i < length ss. \<forall>j < length ss. i \<noteq> j \<longrightarrow>
        slot_offset (ss ! i) + MAX_CHUNK_SIZE \<le> slot_offset (ss ! j) \<or> slot_offset (ss ! j) + MAX_CHUNK_SIZE \<le> slot_offset (ss ! i))"

definition slot_bytes :: "bytes \<Rightarrow> slot \<Rightarrow> bytes" where
  "slot_bytes f s = take (slot_size s) (drop (slot_offset s) f)"

definition blocks :: "slot list \<Rightarrow> bytes \<Rightarrow> bytes list" where
  "blocks ss f = map (slot_bytes f) ss"

definition pad :: "bytes \<Rightarrow> bytes" where
  "pad b = b @ replicate (MAX_CHUNK_SIZE - length b) 0"

lemma length_pad [simp]: "length b \<le> MAX_CHUNK_SIZE \<Longrightarrow> length (pad b) = MAX_CHUNK_SIZE"
  by (simp add: pad_def)

lemma pad_full [simp]: "length b = MAX_CHUNK_SIZE \<Longrightarrow> pad b = b"
  by (simp add: pad_def)

lemma pad_prefix: "n = length b \<Longrightarrow> take n (pad b) = b"
  by (simp add: pad_def)

lemma length_blocks [simp]: "length (blocks ss f) = length ss"
  by (simp add: blocks_def)

lemma layout_okD:
  assumes "layout_ok ss n" "i < length ss"
  shows "slot_size (ss ! i) = MAX_CHUNK_SIZE" "slot_offset (ss ! i) + MAX_CHUNK_SIZE \<le> n" "slot_offset (ss ! i) < 2 ^ 63"
  using assms by (auto simp: layout_ok_def MAX_CHUNK_SIZE_def)

lemma read_at_slot:
  assumes "layout_ok ss (length f)" "i < length ss"
  shows "read_at f (slot_offset (ss ! i)) (slot_size (ss ! i)) = Some (blocks ss f ! i)" "length (blocks ss f ! i) = MAX_CHUNK_SIZE"
  using layout_okD [OF assms] assms(2) by (simp_all add: read_at_def blocks_def slot_bytes_def)

lemma blocks_write:
  assumes "layout_ok ss (length f)" "i < length ss" "length b = MAX_CHUNK_SIZE"
  shows "blocks ss (write_at f (slot_offset (ss ! i)) b) = (blocks ss f)[i := b]"
    "length (write_at f (slot_offset (ss ! i)) b) = length f"
proof -
  note D = layout_okD [OF assms(1)]
  let ?f = "write_at f (slot_offset (ss ! i)) b"
  show len: "length ?f = length f" using D(2) [OF assms(2)] assms(3) by (simp add: length_write_at)
  have "blocks ss ?f ! j = (blocks ss f)[i := b] ! j" if "j < length ss" for j
  proof (cases "j = i")
    case True
    then show ?thesis
      using read_at_slot(1) [of ss ?f i] read_write_same [of "slot_offset (ss ! i)" b f] D(1,2) [OF assms(2)] assms len by simp
  next
    case False
    then have "slot_offset (ss ! j) + MAX_CHUNK_SIZE \<le> slot_offset (ss ! i) \<or> slot_offset (ss ! i) + MAX_CHUNK_SIZE \<le> slot_offset (ss ! j)"
      using assms(1,2) that by (auto simp: layout_ok_def)
    then have "read_at ?f (slot_offset (ss ! j)) (slot_size (ss ! j)) = read_at f (slot_offset (ss ! j)) (slot_size (ss ! j))"
      using D(2) [OF assms(2)] D(1) [OF that] assms(3) by (intro read_write_other) auto
    then show ?thesis using read_at_slot(1) [of ss ?f j] read_at_slot(1) [OF assms(1) that] False that assms(1) len by simp
  qed
  then show "blocks ss ?f = (blocks ss f)[i := b]" by (intro nth_equalityI) simp_all
qed

lemma set_leaves_simps [simp]:
  "set_leaves [] xs = xs" "set_leaves ((i, b) # us) xs = set_leaves us (xs[i := b])"
  by (simp_all add: set_leaves_def)

lemma map_set_leaves: "map g (set_leaves us xs) = set_leaves (map (\<lambda>(i, b). (i, g b)) us) (map g xs)"
  by (induction us arbitrary: xs) (auto simp: map_update)

lemma fst_zip: "length xs = length ys \<Longrightarrow> fst ` set (zip xs ys) = set xs"
  by (metis map_fst_zip set_map)

lemma set_leaves_in:
  "distinct is \<Longrightarrow> length is = length bs \<Longrightarrow> k < length is \<Longrightarrow> is ! k < length xs \<Longrightarrow> set_leaves (zip is bs) xs ! (is ! k) = bs ! k"
proof (induction "is" bs arbitrary: xs k rule: list_induct2')
  case (4 i "is" b bs)
  show ?case
  proof (cases k)
    case 0
    show ?thesis using 0 4(2-5) set_leaves_nth [of i "zip is bs" "xs[i := b]"] by (simp add: fst_zip)
  qed (use 4 in auto)
qed auto

section \<open>Slot states\<close>

text \<open>Slots that differ in their states only.\<close>

definition same_places :: "slot list \<Rightarrow> slot list \<Rightarrow> bool" where
  "same_places ss ss' \<longleftrightarrow> map slot_offset ss = map slot_offset ss' \<and> map slot_size ss = map slot_size ss'"

lemma same_placesD:
  assumes "same_places ss ss'"
  shows "length ss' = length ss" "blocks ss' f = blocks ss f" "layout_ok ss' n = layout_ok ss n"
proof -
  show l: "length ss' = length ss" using assms unfolding same_places_def by (metis length_map)
  have "slot_offset (ss' ! i) = slot_offset (ss ! i) \<and> slot_size (ss' ! i) = slot_size (ss ! i)" if "i < length ss" for i
    using assms that by (simp add: same_places_def list_eq_iff_nth_eq)
  then show "blocks ss' f = blocks ss f" "layout_ok ss' n = layout_ok ss n"
    using l by (simp_all add: list_eq_iff_nth_eq blocks_def slot_bytes_def layout_ok_def cong: conj_cong imp_cong)
qed

lemma set_states_ok:
  assumes "\<forall>i \<in> set is. i < length ss"
  obtains ss' where "set_states st is ss = (True, ss')" "same_places ss ss'"
    "\<And>j. j < length ss \<Longrightarrow> slot_st (ss' ! j) = (if j \<in> set is then st else slot_st (ss ! j))"
  using assms
proof (induction "is" arbitrary: ss thesis)
  case Nil
  then show ?case by (simp add: same_places_def)
next
  case (Cons i "is")
  let ?ss = "ss[i := (ss ! i)\<lparr>slot_st := st\<rparr>]"
  have i: "i < length ss" using Cons.prems(2) by simp
  obtain ss' where s: "set_states st is ?ss = (True, ss')" "same_places ?ss ss'"
    "\<And>j. j < length ?ss \<Longrightarrow> slot_st (ss' ! j) = (if j \<in> set is then st else slot_st (?ss ! j))"
    using Cons.IH [of ?ss] Cons.prems(2) by auto
  have "(map g ss)[i := g (ss ! i)] = map g ss" for g :: "slot \<Rightarrow> nat" using i by (metis list_update_id nth_map)
  then have "same_places ss ?ss" by (simp add: same_places_def map_update)
  then have "same_places ss ss'" using s(2) by (simp add: same_places_def)
  then show ?case using Cons.prems(1) s i by (auto simp: nth_list_update)
qed

fun open_indices :: "nat \<Rightarrow> slot list \<Rightarrow> nat list" where
  "open_indices k [] = []"
| "open_indices k (s # ss) = (if slot_st s = SlotOpen then k # open_indices (Suc k) ss else open_indices (Suc k) ss)"

lemma scan_open_indices:
  "length found < max 1 need \<Longrightarrow> scan_open need k ss found = found @ take (max 1 need - length found) (open_indices k ss)"
proof (induction ss arbitrary: k found)
  case (Cons s ss)
  consider "slot_st s \<noteq> SlotOpen" | "slot_st s = SlotOpen" "length found + 1 < need" | "slot_st s = SlotOpen" "need \<le> length found + 1"
    by linarith
  then show ?case
  proof cases
    case 2
    then have "max (Suc 0) need - length found = Suc (max (Suc 0) need - Suc (length found))" by auto
    then show ?thesis using 2 Cons.IH [of "found @ [k]" "Suc k"] by simp
  next
    case 3
    then have "max 1 need - length found = Suc 0" using Cons.prems by (auto simp: max_def split: if_splits)
    then show ?thesis using 3 by simp
  qed (use Cons in simp)
qed simp

lemma in_open_indices: "j \<in> set (open_indices k ss) \<longleftrightarrow> k \<le> j \<and> j < k + length ss \<and> slot_st (ss ! (j - k)) = SlotOpen"
proof (induction ss arbitrary: k)
  case (Cons s ss)
  show ?case
  proof (cases "k < j")
    case True
    then have "j - k = Suc (j - Suc k)" by simp
    then show ?thesis using Cons.IH [of "Suc k"] True by auto
  qed (use Cons.IH [of "Suc k"] in auto)
qed simp

lemma distinct_open_indices: "distinct (open_indices k ss)"
proof (induction ss arbitrary: k)
  case (Cons s ss)
  then show ?case by (simp add: in_open_indices)
qed simp

definition open_count :: "slot list \<Rightarrow> nat" where
  "open_count ss = length (open_indices 0 ss)"

lemma find_open_slots_iff:
  assumes "sa_slot_map a = Some sm"
  shows "find_open_slots a n = (if n \<le> open_count (sm_slots sm) then Ok (take (max 1 n) (open_indices 0 (sm_slots sm)))
    else Err (StorageError ''find_open_slots''))"
  using assms by (auto simp: find_open_slots_def slot_map_ref_def scan_open_indices open_count_def Let_def)

section \<open>Hosts and states\<close>

definition host_ok :: "host \<Rightarrow> bool" where
  "host_ok H \<longleftrightarrow> os_reliable H \<and> xof_documented H \<and> (\<forall>m. slot_map_to_json H m \<noteq> None) \<and> (\<forall>c. content_map_to_json H c \<noteq> None)"

definition slots_filled :: "node_crates \<Rightarrow> host \<Rightarrow> slot_map \<Rightarrow> bytes list \<Rightarrow> bool" where
  "slots_filled cr H sm bs \<longleftrightarrow> (\<forall>i < length (sm_slots sm).
     (slot_st (sm_slots sm ! i) = SlotOpen \<longrightarrow> bs ! i = replicate MAX_CHUNK_SIZE 0) \<and>
     (slot_st (sm_slots sm ! i) = SlotProof \<longrightarrow>
        bs ! i = generate_chunk_data cr H (sm_provider_id sm) (CapacitySeed (sm_seed sm)) i))"

definition contents_ok :: "slot list \<Rightarrow> content_map \<Rightarrow> bool" where
  "contents_ok ss c \<longleftrightarrow> (\<forall>cid l. c cid = Some l \<longrightarrow> distinct (map fst l) \<and>
     (\<forall>(i, n) \<in> set l. i < length ss \<and> n \<le> MAX_CHUNK_SIZE \<and> (\<exists>h. slot_st (ss ! i) = SlotContent cid h)))"

lemma contents_okD:
  assumes "contents_ok ss c" "c cid = Some l"
  shows "distinct (map fst l)"
    "(i, n) \<in> set l \<Longrightarrow> i < length ss \<and> n \<le> MAX_CHUNK_SIZE \<and> (\<exists>h. slot_st (ss ! i) = SlotContent cid h)"
  using assms unfolding contents_ok_def by blast+

lemma contents_okI:
  assumes "\<And>cid l. c cid = Some l \<Longrightarrow> distinct (map fst l)"
    "\<And>cid l i n. c cid = Some l \<Longrightarrow> (i, n) \<in> set l \<Longrightarrow> i < length ss \<and> n \<le> MAX_CHUNK_SIZE \<and> (\<exists>h. slot_st (ss ! i) = SlotContent cid h)"
  shows "contents_ok ss c"
  using assms unfolding contents_ok_def by blast

definition files_apart :: "slot_allocator \<Rightarrow> bool" where
  "files_apart a \<longleftrightarrow> distinct [sa_slots_file a, sa_capacity_file a, sa_content_slot_map_file a]"

text \<open>The slot map \<open>sm\<close>, the file \<open>f\<close> and the tree \<open>t\<close> of a manager: the slots lie apart in the file, open slots are zero,
  proof slots hold the generated data, the tree commits to the blocks, and content is in slots marked with it.\<close>

definition capacity_state ::
    "node_crates \<Rightarrow> proof_crates \<Rightarrow> host \<Rightarrow> disk \<Rightarrow> capacity_manager \<Rightarrow> slot_map \<Rightarrow> bytes \<Rightarrow> merkle_tree \<Rightarrow> bool" where
  "capacity_state cr pcr H d m sm f t \<longleftrightarrow> (let a = cm_allocator m in
     sa_slot_map a = Some sm \<and> d (sa_capacity_file a) = Some f \<and> files_apart a \<and> layout_ok (sm_slots sm) (length f) \<and>
     cm_merkle_tree m = Some t \<and> merkle_build (blake3 pcr) (map (hash_chunk cr) (blocks (sm_slots sm) f)) = Some t \<and>
     slots_filled cr H sm (blocks (sm_slots sm) f) \<and> contents_ok (sm_slots sm) (sa_content_slot_map a))"

lemma capacity_stateD:
  assumes "capacity_state cr pcr H d m sm f t"
  shows "sa_slot_map (cm_allocator m) = Some sm" "d (sa_capacity_file (cm_allocator m)) = Some f" "files_apart (cm_allocator m)"
    "layout_ok (sm_slots sm) (length f)" "cm_merkle_tree m = Some t"
    "merkle_build (blake3 pcr) (map (hash_chunk cr) (blocks (sm_slots sm) f)) = Some t"
    "slots_filled cr H sm (blocks (sm_slots sm) f)" "contents_ok (sm_slots sm) (sa_content_slot_map (cm_allocator m))"
  using assms by (simp_all add: capacity_state_def Let_def)

definition persisted :: "host \<Rightarrow> disk \<Rightarrow> slot_allocator \<Rightarrow> bool" where
  "persisted H d a \<longleftrightarrow>
     (\<exists>sm s. sa_slot_map a = Some sm \<and> slot_map_to_json H sm = Some s \<and> d (sa_slots_file a) = Some (str_bytes s)) \<and>
     (d (sa_content_slot_map_file a) = None \<and> sa_content_slot_map a = Map.empty \<or>
      (\<exists>s. content_map_to_json H (sa_content_slot_map a) = Some s \<and> d (sa_content_slot_map_file a) = Some (str_bytes s)))"

section \<open>Writing slots\<close>

lemma write_chunk_ok:
  assumes "os_reliable H" "sa_slot_map a = Some sm" "d (sa_capacity_file a) = Some f" "layout_ok (sm_slots sm) (length f)"
    "i < length (sm_slots sm)" "length b \<le> MAX_CHUNK_SIZE"
  shows "write_chunk_to_slot cr H d a i b =
    (Ok (hash_chunk cr (pad b)), d(sa_capacity_file a \<mapsto> write_at f (slot_offset (sm_slots sm ! i)) (pad b)))"
  using assms layout_okD [OF assms(4,5)]
  by (simp add: write_chunk_to_slot_def slot_map_ref_def os_reliable_def seek_ok_def pad_def Let_def)

lemma write_chunks_ok:
  assumes "os_reliable H" "sa_slot_map a = Some sm" "d (sa_capacity_file a) = Some f" "layout_ok (sm_slots sm) (length f)"
    "length cs \<le> length is" "\<forall>i \<in> set is. i < length (sm_slots sm)" "\<forall>c \<in> set cs. length c \<le> MAX_CHUNK_SIZE"
  shows "\<exists>f'. write_chunks cr H a is cs d =
      (Ok (map (\<lambda>c. hash_chunk cr (pad c)) cs, zip is (map length cs)), d(sa_capacity_file a \<mapsto> f')) \<and>
    length f' = length f \<and> blocks (sm_slots sm) f' = set_leaves (zip is (map pad cs)) (blocks (sm_slots sm) f)"
  using assms(3-7)
proof (induction cs arbitrary: "is" d f)
  case Nil
  have "d(sa_capacity_file a \<mapsto> f) = d" using Nil.prems(1) by (rule fun_upd_idem)
  then show ?case by (intro exI [of _ f]) simp
next
  case (Cons c cs)
  obtain i js where ijs: "is = i # js" using Cons.prems(3) by (cases "is") auto
  let ?p = "sa_capacity_file a" and ?f = "write_at f (slot_offset (sm_slots sm ! i)) (pad c)"
  have c: "length c \<le> MAX_CHUNK_SIZE" "i < length (sm_slots sm)" using Cons.prems(4,5) ijs by simp_all
  have w: "write_chunk_to_slot cr H d a i (c @ replicate (MAX_CHUNK_SIZE - length c) 0) = (Ok (hash_chunk cr (pad c)), d(?p \<mapsto> ?f))"
    using write_chunk_ok [of H a sm d f i "pad c", OF assms(1,2) Cons.prems(1,2) c(2)] c(1) by (simp add: pad_def [symmetric])
  note b = blocks_write [OF Cons.prems(2) c(2), of "pad c"]
  have "(d(?p \<mapsto> ?f)) ?p = Some ?f" "layout_ok (sm_slots sm) (length ?f)" "length cs \<le> length js"
    "\<forall>i \<in> set js. i < length (sm_slots sm)" "\<forall>c \<in> set cs. length c \<le> MAX_CHUNK_SIZE"
    using Cons.prems ijs b(2) c(1) by simp_all
  from Cons.IH [where d = "d(?p \<mapsto> ?f)" and f = ?f, OF this] obtain f' where f': "write_chunks cr H a js cs (d(?p \<mapsto> ?f)) =
      (Ok (map (\<lambda>c. hash_chunk cr (pad c)) cs, zip js (map length cs)), (d(?p \<mapsto> ?f))(?p \<mapsto> f'))"
    "length f' = length ?f" "blocks (sm_slots sm) f' = set_leaves (zip js (map pad cs)) (blocks (sm_slots sm) ?f)" by blast
  show ?case by (rule exI [of _ f']) (use w f' b c ijs in \<open>simp add: fun_upd_def cong: if_cong\<close>)
qed

lemma zero_slots_ok:
  assumes "os_reliable H" "sa_slot_map a = Some sm" "d (sa_capacity_file a) = Some f" "layout_ok (sm_slots sm) (length f)"
    "\<forall>i \<in> set is. i < length (sm_slots sm)"
  shows "\<exists>f'. zero_slots cr H a is d = (Ok (), d(sa_capacity_file a \<mapsto> f')) \<and> length f' = length f \<and>
    blocks (sm_slots sm) f' = set_leaves (zip is (map (\<lambda>i. replicate MAX_CHUNK_SIZE 0) is)) (blocks (sm_slots sm) f)"
  using assms(3-5)
proof (induction "is" arbitrary: d f)
  case Nil
  have "d(sa_capacity_file a \<mapsto> f) = d" using Nil.prems(1) by (rule fun_upd_idem)
  then show ?case by (intro exI [of _ f]) simp
next
  case (Cons i "is")
  let ?p = "sa_capacity_file a" and ?f = "write_at f (slot_offset (sm_slots sm ! i)) (pad [])"
  have i: "i < length (sm_slots sm)" using Cons.prems(3) by simp
  have p: "pad [] = replicate MAX_CHUNK_SIZE 0" by (simp add: pad_def)
  note w = write_chunk_ok [of H a sm d f i "[]" cr, OF assms(1,2) Cons.prems(1,2) i]
  note b = blocks_write [OF Cons.prems(2) i, of "pad []"]
  have "(d(?p \<mapsto> ?f)) ?p = Some ?f" "layout_ok (sm_slots sm) (length ?f)" "\<forall>i \<in> set is. i < length (sm_slots sm)"
    using Cons.prems b(2) by simp_all
  from Cons.IH [where d = "d(?p \<mapsto> ?f)" and f = ?f, OF this] obtain f' where f': "zero_slots cr H a is (d(?p \<mapsto> ?f)) = (Ok (), (d(?p \<mapsto> ?f))(?p \<mapsto> f'))"
    "length f' = length ?f"
    "blocks (sm_slots sm) f' = set_leaves (zip is (map (\<lambda>i. replicate MAX_CHUNK_SIZE 0) is)) (blocks (sm_slots sm) ?f)" by blast
  show ?case by (rule exI [of _ f']) (use w f' b p in \<open>simp add: fun_upd_def cong: if_cong\<close>)
qed

lemma zero_hashes_ok:
  assumes "\<forall>i \<in> set is. i < length ss \<and> slot_size (ss ! i) = MAX_CHUNK_SIZE"
  shows "zero_hashes cr ss is = Ok (map (\<lambda>i. hash_chunk cr (replicate MAX_CHUNK_SIZE 0)) is)"
  using assms by (induction "is") auto

section \<open>The files of the allocator\<close>

lemma save_slot_map_ok:
  assumes "host_ok H" "sa_slot_map a = Some sm"
  obtains s where "slot_map_to_json H sm = Some s" "save_slot_map H d a = (Ok (), d(sa_slots_file a \<mapsto> str_bytes s))"
proof -
  obtain s where "slot_map_to_json H sm = Some s" using assms(1) by (auto simp: host_ok_def)
  then show thesis
    using assms by (intro that [of s]) (simp_all add: host_ok_def save_slot_map_def slot_map_ref_def fs_write_def os_reliable_def ensure_def)
qed

lemma save_content_slot_map_ok:
  assumes "host_ok H"
  obtains s where "content_map_to_json H (sa_content_slot_map a) = Some s"
    "save_content_slot_map H d a = (Ok (), d(sa_content_slot_map_file a \<mapsto> str_bytes s))"
proof -
  obtain s where "content_map_to_json H (sa_content_slot_map a) = Some s" using assms by (auto simp: host_ok_def)
  then show thesis
    using assms by (intro that [of s]) (simp_all add: host_ok_def save_content_slot_map_def fs_write_def os_reliable_def ensure_def)
qed

text \<open>Setting the states of slots and the entry of a content: the common part of marking and releasing slots.\<close>

lemma tree_update_ok:
  assumes "merkle_build h (map g bs) = Some t" "cm_merkle_tree m = Some t" "length is = length xs" "\<forall>i \<in> set is. i < length bs"
    "h = blake3 pcr"
  obtains t' where "update_merkle_tree_for_content pcr m is (map g xs) = Some (Ok (mt_root t'), m\<lparr>cm_merkle_tree := Some t'\<rparr>)"
    "merkle_build h (map g (set_leaves (zip is xs) bs)) = Some t'"
proof -
  have "mt_leaves t = map g bs" "bs \<noteq> []" using assms(1) by (auto simp: merkle_build_def Let_def split: if_splits)
  then have n: "merkle_leaf_count t = length bs" by (simp add: merkle_leaf_count_def)
  have z: "zip is (map g xs) = map (\<lambda>(i, b). (i, g b)) (zip is xs)" by (simp add: zip_map2)
  have "set_leaves (zip is (map g xs)) (map g bs) = map g (set_leaves (zip is xs) bs)" by (simp add: map_set_leaves z)
  moreover have "update_leaves h t (zip is (map g xs)) = merkle_build h (set_leaves (zip is (map g xs)) (map g bs))"
    using assms(4) by (intro update_leaves_rebuilds [OF assms(1)]) (auto dest: set_zip_leftD)
  moreover obtain t' where "merkle_build h (map g (set_leaves (zip is xs) bs)) = Some t'"
    using \<open>bs \<noteq> []\<close> length_set_leaves [of "zip is xs" bs] by (cases "set_leaves (zip is xs) bs") (simp_all add: merkle_build_def Let_def)
  ultimately show thesis
    using assms(2-5) n by (intro that [of t']) (auto simp: update_merkle_tree_for_content_def Let_def list_ex_iff)
qed

section \<open>Effects of the operations\<close>

text \<open>The state that a change of states, blocks and one entry of the content map leaves.\<close>

lemma capacity_state_step:
  assumes st: "capacity_state cr pcr H d m sm f t" and pl: "same_places (sm_slots sm) ss"
    and len: "length f' = length f" and b: "blocks (sm_slots sm) f' = set_leaves (zip is bs) (blocks (sm_slots sm) f)"
    and eq: "length is = length bs" "distinct is" "\<forall>i \<in> set is. i < length (sm_slots sm)"
    and sts: "\<And>j. j < length (sm_slots sm) \<Longrightarrow> slot_st (ss ! j) = (if j \<in> set is then s else slot_st (sm_slots sm ! j))"
    and new: "s = SlotOpen \<and> (\<forall>b \<in> set bs. b = replicate MAX_CHUNK_SIZE 0) \<or> is_content s"
    and c: "contents_ok ss c'" and tr: "merkle_build (blake3 pcr) (map (hash_chunk cr) (blocks (sm_slots sm) f')) = Some t'"
    and m': "cm_merkle_tree m' = Some t'" "cm_allocator m' = (cm_allocator m)\<lparr>sa_slot_map := Some (sm\<lparr>sm_slots := ss\<rparr>), sa_content_slot_map := c'\<rparr>"
    and d': "d' (sa_capacity_file (cm_allocator m)) = Some f'"
  shows "capacity_state cr pcr H d' m' (sm\<lparr>sm_slots := ss\<rparr>) f' t'"
proof -
  note S = capacity_stateD [OF st] and P = same_placesD [OF pl]
  have "slots_filled cr H (sm\<lparr>sm_slots := ss\<rparr>) (blocks ss f')"
    unfolding slots_filled_def
  proof (intro allI impI)
    fix i assume i: "i < length (sm_slots (sm\<lparr>sm_slots := ss\<rparr>))"
    then have il: "i < length (sm_slots sm)" using P(1) by simp
    have "blocks ss f' ! i = blocks (sm_slots sm) f ! i" if "i \<notin> set is"
      using that b P(2) eq(1) set_leaves_nth [of i "zip is bs"] by (simp add: fst_zip)
    moreover have "s = SlotOpen \<and> blocks ss f' ! i = replicate MAX_CHUNK_SIZE 0 \<or> is_content s" if mem: "i \<in> set is"
    proof -
      obtain k where "k < length is" "is ! k = i" using mem unfolding in_set_conv_nth by blast
      then show ?thesis using set_leaves_in [OF eq(2,1), of k "blocks (sm_slots sm) f"] eq(1) il b P(2) new by auto
    qed
    ultimately show "(slot_st (sm_slots (sm\<lparr>sm_slots := ss\<rparr>) ! i) = SlotOpen \<longrightarrow> blocks ss f' ! i = replicate MAX_CHUNK_SIZE 0) \<and>
      (slot_st (sm_slots (sm\<lparr>sm_slots := ss\<rparr>) ! i) = SlotProof \<longrightarrow> blocks ss f' ! i =
         generate_chunk_data cr H (sm_provider_id (sm\<lparr>sm_slots := ss\<rparr>)) (CapacitySeed (sm_seed (sm\<lparr>sm_slots := ss\<rparr>))) i)"
      using S(7) il sts [OF il] by (cases "i \<in> set is") (auto simp: slots_filled_def is_content_def split: slot_state.splits)
  qed
  then show ?thesis
    using S P tr m' d' c len by (simp add: capacity_state_def Let_def files_apart_def)
qed

lemma opens_taken:
  assumes "n \<le> open_count ss"
  shows "length (take n (open_indices 0 ss)) = n" "distinct (take n (open_indices 0 ss))"
    "\<forall>i \<in> set (take n (open_indices 0 ss)). i < length ss \<and> slot_st (ss ! i) = SlotOpen"
proof -
  show "length (take n (open_indices 0 ss)) = n" "distinct (take n (open_indices 0 ss))"
    using assms distinct_open_indices by (simp_all add: open_count_def)
  show "\<forall>i \<in> set (take n (open_indices 0 ss)). i < length ss \<and> slot_st (ss ! i) = SlotOpen"
    using in_open_indices [of _ 0 ss] by (auto dest: in_set_takeD)
qed

lemma contents_ok_store:
  assumes "contents_ok ss c" "length ss' = length ss" "\<forall>i \<in> set is. i < length ss \<and> slot_st (ss ! i) = SlotOpen"
    "\<And>j. j < length ss \<Longrightarrow> slot_st (ss' ! j) = (if j \<in> set is then SlotContent cid h else slot_st (ss ! j))"
    "distinct is" "length ns = length is" "\<forall>n \<in> set ns. n \<le> MAX_CHUNK_SIZE"
  shows "contents_ok ss' (c(cid \<mapsto> zip is ns))"
proof (rule contents_okI)
  fix x l assume l: "(c(cid \<mapsto> zip is ns)) x = Some l"
  show "distinct (map fst l)" using l assms(5,6) contents_okD(1) [OF assms(1)] by (auto split: if_splits)
  fix i n assume i: "(i, n) \<in> set l"
  show "i < length ss' \<and> n \<le> MAX_CHUNK_SIZE \<and> (\<exists>h. slot_st (ss' ! i) = SlotContent x h)"
  proof (cases "x = cid")
    case True
    then show ?thesis using l i assms by (auto dest: set_zip_leftD set_zip_rightD)
  next
    case False
    then have "i < length ss \<and> n \<le> MAX_CHUNK_SIZE \<and> (\<exists>h. slot_st (ss ! i) = SlotContent x h)"
      using contents_okD(2) [OF assms(1), of x l] l i by simp
    moreover from this have "i \<notin> set is" using assms(3) by auto
    ultimately show ?thesis using assms(2,4) by simp
  qed
qed

text \<open>What a content identifier stands for: the prefixes of the blocks of its slots.\<close>

definition content_of :: "slot list \<Rightarrow> bytes \<Rightarrow> content_map \<Rightarrow> string \<Rightarrow> bytes option" where
  "content_of ss f c cid = map_option (\<lambda>l. concat (map (\<lambda>(i, n). take n (blocks ss f ! i)) l)) (c cid)"

lemma read_slot_ok:
  assumes "os_reliable H" "d p = Some f" "layout_ok ss (length f)" "i < length ss"
  shows "read_slot H d p (ss ! i) = Some (blocks ss f ! i)"
  using assms read_at_slot(1) [OF assms(3,4)] layout_okD(3) [OF assms(3,4)]
  by (simp add: read_slot_def os_reliable_def seek_ok_def)

lemma get_content:
  assumes "os_reliable H" "capacity_state cr pcr H d m sm f t"
  shows "get_content_from_slots H d m cid = Ok (content_of (sm_slots sm) f (sa_content_slot_map (cm_allocator m)) cid)"
proof -
  note S = capacity_stateD [OF assms(2)]
  have "read_chunks H d (cm_allocator m) l = Ok (concat (map (\<lambda>(i, n). take n (blocks (sm_slots sm) f ! i)) l))"
    if "\<forall>(i, n) \<in> set l. i < length (sm_slots sm) \<and> n \<le> MAX_CHUNK_SIZE" for l
    using that
  proof (induction l)
    case (Cons x l)
    obtain i n where x: "x = (i, n)" by force
    have "read_chunk_from_slot H d (cm_allocator m) i = Ok (blocks (sm_slots sm) f ! i)"
      using Cons.prems x S(1) read_slot_ok [of H d "sa_capacity_file (cm_allocator m)" f "sm_slots sm" i, OF assms(1) S(2,4)] by (simp add: read_chunk_from_slot_def slot_map_ref_def)
    then show ?case using Cons x read_at_slot(2) [OF S(4), of i] by simp
  qed simp
  moreover have "\<forall>(i, n) \<in> set l. i < length (sm_slots sm) \<and> n \<le> MAX_CHUNK_SIZE"
    if "sa_content_slot_map (cm_allocator m) cid = Some l" for l
    using S(8) that unfolding contents_ok_def by blast
  ultimately show ?thesis
    by (cases "sa_content_slot_map (cm_allocator m) cid")
      (simp_all add: get_content_from_slots_def find_slots_by_content_id_def content_of_def)
qed

lemma persistedI:
  assumes "sa_slot_map a = Some sm" "slot_map_to_json H sm = Some s" "content_map_to_json H (sa_content_slot_map a) = Some s'"
    "d (sa_slots_file a) = Some (str_bytes s)" "d (sa_content_slot_map_file a) = Some (str_bytes s')"
  shows "persisted H d a"
  using assms unfolding persisted_def by blast

lemma store_effect:
  assumes H: "host_ok H" and st: "capacity_state cr pcr H d m sm f t" and n: "length chunks \<le> open_count (sm_slots sm)"
    and fit: "\<forall>c \<in> set chunks. length c \<le> MAX_CHUNK_SIZE"
  obtains d' m' ss f' t' js where
    "store_content_chunks cr pcr H d m cid chunks = Some (Ok js, d', m')" "js = take (length chunks) (open_indices 0 (sm_slots sm))"
    "capacity_state cr pcr H d' m' (sm\<lparr>sm_slots := ss\<rparr>) f' t'" "same_places (sm_slots sm) ss"
    "\<And>j. j < length (sm_slots sm) \<Longrightarrow> j \<notin> set js \<Longrightarrow> slot_st (ss ! j) = slot_st (sm_slots sm ! j)"
    "\<And>j. j < length (sm_slots sm) \<Longrightarrow> slot_st (ss ! j) = SlotOpen \<longleftrightarrow> j \<notin> set js \<and> slot_st (sm_slots sm ! j) = SlotOpen"
    "blocks ss f' = set_leaves (zip js (map pad chunks)) (blocks (sm_slots sm) f)"
    "sa_content_slot_map (cm_allocator m') = (sa_content_slot_map (cm_allocator m))(cid \<mapsto> zip js (map length chunks))"
    "persisted H d' (cm_allocator m')" "cm_outbox m' = cm_outbox m @ [mt_root t']"
    "cm_provider_id m' = cm_provider_id m" "cm_initialized m' = cm_initialized m"
proof -
  note S = capacity_stateD [OF st]
  define js where jd: "js = take (length chunks) (open_indices 0 (sm_slots sm))"
  let ?a = "cm_allocator m" and ?hs = "map (\<lambda>c. hash_chunk cr (pad c)) chunks"
  let ?st = "SlotContent cid (committed_hash_of cr ?hs)" and ?p = "sa_capacity_file (cm_allocator m)"
  note js = opens_taken [OF n, folded jd]
  have rel: "os_reliable H" using H by (simp add: host_ok_def)
  obtain f' where f': "write_chunks cr H ?a js chunks d = (Ok (?hs, zip js (map length chunks)), d(?p \<mapsto> f'))" "length f' = length f"
    "blocks (sm_slots sm) f' = set_leaves (zip js (map pad chunks)) (blocks (sm_slots sm) f)"
    using write_chunks_ok [of H ?a sm d f chunks js cr, OF rel S(1,2,4)] js fit by auto
  have wc: "write_chunks cr H ?a (take (max 1 (length chunks)) (open_indices 0 (sm_slots sm))) chunks d =
      (Ok (?hs, zip js (map length chunks)), d(?p \<mapsto> f'))"
    using f'(1) by (cases chunks) (simp_all add: max_def jd)
  obtain ss where ss: "set_states ?st js (sm_slots sm) = (True, ss)" "same_places (sm_slots sm) ss"
    "\<And>j. j < length (sm_slots sm) \<Longrightarrow> slot_st (ss ! j) = (if j \<in> set js then ?st else slot_st (sm_slots sm ! j))"
    using set_states_ok [of js "sm_slots sm" ?st] js(3) by blast
  have fst: "map fst (zip js (map length chunks)) = js" using js(1) by (intro map_fst_zip) simp
  define c' where "c' = (sa_content_slot_map ?a)(cid \<mapsto> zip js (map length chunks))"
  define a' where "a' = ?a\<lparr>sa_slot_map := Some (sm\<lparr>sm_slots := ss\<rparr>), sa_content_slot_map := c'\<rparr>"
  obtain s' where s': "content_map_to_json H c' = Some s'"
    "save_content_slot_map H (d(?p \<mapsto> f')) a' = (Ok (), (d(?p \<mapsto> f'))(sa_content_slot_map_file ?a \<mapsto> str_bytes s'))"
    using save_content_slot_map_ok [OF H, of a'] by (auto simp: a'_def)
  obtain s where s: "slot_map_to_json H (sm\<lparr>sm_slots := ss\<rparr>) = Some s"
    "\<And>d. save_slot_map H d a' = (Ok (), d(sa_slots_file ?a \<mapsto> str_bytes s))"
  proof -
    obtain s where s: "slot_map_to_json H (sm\<lparr>sm_slots := ss\<rparr>) = Some s" using H by (auto simp: host_ok_def)
    have "save_slot_map H d a' = (Ok (), d(sa_slots_file ?a \<mapsto> str_bytes s))" for d
      using save_slot_map_ok [OF H, of a' "sm\<lparr>sm_slots := ss\<rparr>" d] s by (auto simp: a'_def)
    with s show thesis by (rule that)
  qed
  define d' where "d' = (d(?p \<mapsto> f'))(sa_content_slot_map_file ?a \<mapsto> str_bytes s', sa_slots_file ?a \<mapsto> str_bytes s)"
  obtain t' where t': "update_merkle_tree_for_content pcr (m\<lparr>cm_allocator := a'\<rparr>) js (map (hash_chunk cr) (map pad chunks)) =
      Some (Ok (mt_root t'), m\<lparr>cm_allocator := a', cm_merkle_tree := Some t'\<rparr>)"
    "merkle_build (blake3 pcr) (map (hash_chunk cr) (blocks (sm_slots sm) f')) = Some t'"
    using tree_update_ok [OF S(6), of "m\<lparr>cm_allocator := a'\<rparr>" js "map pad chunks" pcr] S(5) js f'(3) by auto
  define m' where "m' = m\<lparr>cm_allocator := a', cm_merkle_tree := Some t', cm_outbox := cm_outbox m @ [mt_root t']\<rparr>"
  have run: "store_content_chunks cr pcr H d m cid chunks = Some (Ok js, d', m')"
    using n wc ss(1) fst s' s(2) t'(1)
    by (simp add: store_content_chunks_def find_open_slots_iff [OF S(1)] mark_slots_as_content_def slot_map_mut_def S(1)
        a'_def [symmetric] c'_def [symmetric] Let_def comp_def m'_def d'_def)
  have ap: "sa_slots_file ?a \<noteq> ?p" "sa_content_slot_map_file ?a \<noteq> ?p" "sa_slots_file ?a \<noteq> sa_content_slot_map_file ?a"
    using S(3) by (auto simp: files_apart_def)
  have cst: "capacity_state cr pcr H d' m' (sm\<lparr>sm_slots := ss\<rparr>) f' t'"
    by (rule capacity_state_step [OF st ss(2) f'(2,3) _ js(2) _ ss(3) _ contents_ok_store [OF S(8) same_placesD(1) [OF ss(2)] js(3) ss(3) js(2)]])
      (use js fit t'(2) ap in \<open>auto simp: m'_def a'_def c'_def d'_def is_content_def\<close>)
  show thesis
    by (rule that [OF run jd cst ss(2)])
      (use ss js f'(3) same_placesD(2) [OF ss(2)] s s' ap in \<open>auto simp: m'_def a'_def c'_def d'_def is_content_def persisted_def\<close>)
qed

lemma contents_ok_delete:
  assumes "contents_ok ss c" "length ss' = length ss" "c cid = Some l"
    "\<And>j. j < length ss \<Longrightarrow> slot_st (ss' ! j) = (if j \<in> set (map fst l) then SlotOpen else slot_st (ss ! j))"
  shows "contents_ok ss' (c(cid := None))"
proof (rule contents_okI)
  fix x l' assume "(c(cid := None)) x = Some l'"
  then have x: "x \<noteq> cid" "c x = Some l'" by (auto split: if_splits)
  show "distinct (map fst l')" using contents_okD(1) [OF assms(1) x(2)] .
  fix i n assume "(i, n) \<in> set l'"
  then have i: "i < length ss" "n \<le> MAX_CHUNK_SIZE" "\<exists>h. slot_st (ss ! i) = SlotContent x h" using contents_okD(2) [OF assms(1) x(2)] by auto
  have "i \<notin> set (map fst l)"
  proof
    assume "i \<in> set (map fst l)"
    then obtain n' where "(i, n') \<in> set l" by auto
    then show False using contents_okD(2) [OF assms(1,3)] i(3) x(1) by fastforce
  qed
  then show "i < length ss' \<and> n \<le> MAX_CHUNK_SIZE \<and> (\<exists>h. slot_st (ss' ! i) = SlotContent x h)" using i assms(2,4) by simp
qed

lemma delete_effect:
  assumes H: "host_ok H" and st: "capacity_state cr pcr H d m sm f t" and l: "sa_content_slot_map (cm_allocator m) cid = Some l"
  obtains d' m' ss f' t' where
    "delete_content_from_slots cr pcr H d m cid = Some (Ok (), d', m')"
    "capacity_state cr pcr H d' m' (sm\<lparr>sm_slots := ss\<rparr>) f' t'" "same_places (sm_slots sm) ss"
    "\<And>j. j < length (sm_slots sm) \<Longrightarrow> slot_st (ss ! j) = (if j \<in> set (map fst l) then SlotOpen else slot_st (sm_slots sm ! j))"
    "blocks ss f' = set_leaves (zip (map fst l) (map (\<lambda>i. replicate MAX_CHUNK_SIZE 0) (map fst l))) (blocks (sm_slots sm) f)"
    "sa_content_slot_map (cm_allocator m') = (sa_content_slot_map (cm_allocator m))(cid := None)"
    "persisted H d' (cm_allocator m')" "cm_provider_id m' = cm_provider_id m" "cm_initialized m' = cm_initialized m"
proof -
  note S = capacity_stateD [OF st]
  define js where jd: "js = map fst l"
  define zs where zd: "zs = map (\<lambda>i. replicate MAX_CHUNK_SIZE (0 :: u8)) js"
  let ?a = "cm_allocator m" and ?p = "sa_capacity_file (cm_allocator m)"
  have js: "distinct js" "\<forall>i \<in> set js. i < length (sm_slots sm)" "length js = length zs"
    using contents_okD [OF S(8) l] by (auto simp: jd zd)
  have rel: "os_reliable H" using H by (simp add: host_ok_def)
  obtain f' where f': "zero_slots cr H ?a js d = (Ok (), d(?p \<mapsto> f'))" "length f' = length f"
    "blocks (sm_slots sm) f' = set_leaves (zip js zs) (blocks (sm_slots sm) f)"
    using zero_slots_ok [of H ?a sm d f js cr, OF rel S(1,2,4) js(2)] unfolding zd by blast
  have zh: "zero_hashes cr (sm_slots sm) js = Ok (map (hash_chunk cr) zs)"
    using zero_hashes_ok [of js "sm_slots sm" cr] js(2) layout_okD(1) [OF S(4)] by (simp add: zd comp_def)
  obtain ss where ss: "set_states SlotOpen js (sm_slots sm) = (True, ss)" "same_places (sm_slots sm) ss"
    "\<And>j. j < length (sm_slots sm) \<Longrightarrow> slot_st (ss ! j) = (if j \<in> set js then SlotOpen else slot_st (sm_slots sm ! j))"
    using set_states_ok [of js "sm_slots sm" SlotOpen] js(2) by blast
  define c' where "c' = (sa_content_slot_map ?a)(cid := None)"
  define a' where "a' = ?a\<lparr>sa_slot_map := Some (sm\<lparr>sm_slots := ss\<rparr>), sa_content_slot_map := c'\<rparr>"
  obtain s' where s': "content_map_to_json H c' = Some s'"
    "save_content_slot_map H (d(?p \<mapsto> f')) a' = (Ok (), (d(?p \<mapsto> f'))(sa_content_slot_map_file ?a \<mapsto> str_bytes s'))"
    using save_content_slot_map_ok [OF H, of a'] by (auto simp: a'_def)
  let ?d2 = "(d(?p \<mapsto> f'))(sa_content_slot_map_file ?a \<mapsto> str_bytes s')"
  obtain s where s: "slot_map_to_json H (sm\<lparr>sm_slots := ss\<rparr>) = Some s"
    "save_slot_map H ?d2 a' = (Ok (), ?d2(sa_slots_file ?a \<mapsto> str_bytes s))"
    using save_slot_map_ok [OF H, of a' "sm\<lparr>sm_slots := ss\<rparr>" ?d2] by (auto simp: a'_def)
  define d' where "d' = ?d2(sa_slots_file ?a \<mapsto> str_bytes s)"
  obtain t' where t': "update_merkle_tree_for_content pcr (m\<lparr>cm_allocator := a'\<rparr>) js (map (hash_chunk cr) zs) =
      Some (Ok (mt_root t'), m\<lparr>cm_allocator := a', cm_merkle_tree := Some t'\<rparr>)"
    "merkle_build (blake3 pcr) (map (hash_chunk cr) (blocks (sm_slots sm) f')) = Some t'"
    using tree_update_ok [OF S(6), of "m\<lparr>cm_allocator := a'\<rparr>" js zs pcr] S(5) js f'(3) by auto
  define m' where "m' = (let m2 = m\<lparr>cm_allocator := a', cm_merkle_tree := Some t'\<rparr> in
     if mt_root t = mt_root t' then m2 else m2\<lparr>cm_outbox := cm_outbox m2 @ [mt_root t']\<rparr>)"
  have root: "get_merkle_root (m\<lparr>cm_allocator := a'\<rparr>) = Ok (mt_root t)" using S(5) by (simp add: get_merkle_root_def)
  have rem: "remove_content_by_id H (d(?p \<mapsto> f')) ?a cid = (Ok l, a', ?d2)"
    using ss(1) s'(2) l by (simp add: remove_content_by_id_def find_slots_by_content_id_def slot_map_mut_def S(1) Let_def
        jd [symmetric] a'_def [symmetric] c'_def [symmetric])
  have run: "delete_content_from_slots cr pcr H d m cid = Some (Ok (), d', m')"
    using f'(1) zh s(2) t'(1) root rem l
    by (simp add: delete_content_from_slots_def find_slots_by_content_id_def slot_map_ref_def S(1) jd [symmetric] d'_def m'_def Let_def)
  have ap: "sa_slots_file ?a \<noteq> ?p" "sa_content_slot_map_file ?a \<noteq> ?p" "sa_slots_file ?a \<noteq> sa_content_slot_map_file ?a"
    using S(3) by (auto simp: files_apart_def)
  have m'f: "cm_allocator m' = a'" "cm_merkle_tree m' = Some t'" "cm_provider_id m' = cm_provider_id m" "cm_initialized m' = cm_initialized m"
    by (simp_all add: m'_def Let_def)
  have cok: "contents_ok ss c'"
    unfolding c'_def by (rule contents_ok_delete [OF S(8) same_placesD(1) [OF ss(2)] l]) (simp add: ss(3) jd)
  have cst: "capacity_state cr pcr H d' m' (sm\<lparr>sm_slots := ss\<rparr>) f' t'"
    by (rule capacity_state_step [OF st ss(2) f'(2,3) js(3,1,2) ss(3) _ cok]) (use t'(2) ap m'f in \<open>auto simp: a'_def d'_def zd\<close>)
  show thesis
    by (rule that [OF run cst ss(2)])
      (use ss f'(3) same_placesD(2) [OF ss(2)] s s' ap m'f in \<open>auto simp: a'_def c'_def d'_def jd zd persisted_def\<close>)
qed

lemma set_leaves_back:
  assumes "distinct is" "length bs = length is" "length zs = length is" "\<forall>k < length is. is ! k < length xs \<and> xs ! (is ! k) = zs ! k"
  shows "set_leaves (zip is zs) (set_leaves (zip is bs) xs) = xs"
proof (rule nth_equalityI)
  fix j assume "j < length (set_leaves (zip is zs) (set_leaves (zip is bs) xs))"
  show "set_leaves (zip is zs) (set_leaves (zip is bs) xs) ! j = xs ! j"
  proof (cases "j \<in> set is")
    case True
    then obtain k where "k < length is" "is ! k = j" unfolding in_set_conv_nth by blast
    then show ?thesis using set_leaves_in [of "is" zs k "set_leaves (zip is bs) xs"] assms by auto
  next
    case False
    then show ?thesis using assms(2,3) by (simp add: set_leaves_nth fst_zip)
  qed
qed simp

end
