(* ===== verification/Capacity_Alloc.thy ===== *)
theory Capacity_Alloc
  imports Capacity_Store "HOL-Library.Multiset"
begin

text \<open>
  Allocation and restart of the capacity file.  The seeded exchange of positions is a permutation, so the slots tile the
  file and the check for overlaps never fires; writing the slots in that order leaves the generated data and the zeros in
  place; and a manager started on the files of another one builds the same tree.
\<close>

section \<open>The order of the slots\<close>

lemma mset_swap_at: "i < length xs \<Longrightarrow> j < length xs \<Longrightarrow> mset (swap_at i j xs) = mset xs"
  by (simp add: swap_at_def mset_swap)

lemma mset_swaps: "\<forall>i \<in> set js. i < length xs \<Longrightarrow> mset (fold (\<lambda>i. swap_at i (r i mod (i + 1))) js xs) = mset xs"
proof (induction js arbitrary: xs)
  case (Cons i js)
  have "r i mod (i + 1) < i + 1" by simp
  moreover have "i + 1 \<le> length xs" using Cons.prems by simp
  ultimately have "r i mod (i + 1) < length xs" by (rule less_le_trans)
  then have "mset (swap_at i (r i mod (i + 1)) xs) = mset xs" using Cons.prems by (simp add: mset_swap_at)
  moreover from this have "length (swap_at i (r i mod (i + 1)) xs) = length xs" by (metis size_mset)
  ultimately show ?case using Cons.IH [of "swap_at i (r i mod (i + 1)) xs"] Cons.prems by simp
qed simp

definition slot_order :: "node_crates \<Rightarrow> proof_crates \<Rightarrow> capacity_seed \<Rightarrow> address \<Rightarrow> nat \<Rightarrow> nat list" where
  "slot_order cr pcr seed p k = slot_permutation cr pcr seed p (k - 1) @ [k - 1]"

lemma slot_order_perm:
  assumes "0 < k"
  shows "mset (slot_order cr pcr seed p k) = mset [0..<k]" "distinct (slot_order cr pcr seed p k)"
    "set (slot_order cr pcr seed p k) = {0..<k}" "length (slot_order cr pcr seed p k) = k"
proof -
  have "mset (slot_permutation cr pcr seed p (k - 1)) = mset [0..<k - 1]"
    unfolding slot_permutation_def by (rule mset_swaps) auto
  then show m: "mset (slot_order cr pcr seed p k) = mset [0..<k]"
    using assms upt_Suc_append [of 0 "k - 1"] by (simp add: slot_order_def)
  show "distinct (slot_order cr pcr seed p k)" using mset_eq_imp_distinct_iff [OF m] by simp
  show "set (slot_order cr pcr seed p k) = {0..<k}" using mset_eq_setD [OF m] by simp
  show "length (slot_order cr pcr seed p k) = k" using mset_eq_length [OF m] by simp
qed

lemma chunk_offsets_order:
  assumes "unat c = MAX_CHUNK_SIZE * k" "0 < k"
  shows "chunk_count_of c = k"
    "chunk_offsets cr pcr seed p c = map (\<lambda>i. (i * MAX_CHUNK_SIZE, MAX_CHUNK_SIZE)) (slot_order cr pcr seed p k)"
proof -
  show k: "chunk_count_of c = k" using assms by (simp add: chunk_count_of_def MAX_CHUNK_SIZE_def)
  have "unat c - MAX_CHUNK_SIZE = (k - 1) * MAX_CHUNK_SIZE" using assms by (simp add: algebra_simps)
  then show "chunk_offsets cr pcr seed p c = map (\<lambda>i. (i * MAX_CHUNK_SIZE, MAX_CHUNK_SIZE)) (slot_order cr pcr seed p k)"
    using assms k by (simp add: chunk_offsets_def slot_order_def Let_def)
qed

lemma slots_apart: "i \<noteq> j \<Longrightarrow> i * MAX_CHUNK_SIZE + MAX_CHUNK_SIZE \<le> j * MAX_CHUNK_SIZE \<or> j * MAX_CHUNK_SIZE + MAX_CHUNK_SIZE \<le> i * MAX_CHUNK_SIZE"
  by (auto simp: MAX_CHUNK_SIZE_def)

lemma tiles_not_overlapping: "distinct q \<Longrightarrow> \<not> overlapping (map (\<lambda>i. (i * MAX_CHUNK_SIZE, MAX_CHUNK_SIZE)) q)"
proof (induction q)
  case (Cons i q)
  have "\<not> (i * MAX_CHUNK_SIZE < j * MAX_CHUNK_SIZE + MAX_CHUNK_SIZE \<and> i * MAX_CHUNK_SIZE + MAX_CHUNK_SIZE > j * MAX_CHUNK_SIZE)"
    if "j \<in> set q" for j
  proof -
    have "i \<noteq> j" using Cons.prems that by auto
    from slots_apart [OF this] show ?thesis by linarith
  qed
  then show ?case using Cons by (auto simp: list_ex_iff)
qed simp

lemma initial_slots_nth:
  assumes "unat c = MAX_CHUNK_SIZE * k" "0 < k"
  shows "length (initial_slots cr pcr seed p c) = k"
    "i < k \<Longrightarrow> initial_slots cr pcr seed p c ! i =
       \<lparr>slot_offset = slot_order cr pcr seed p k ! i * MAX_CHUNK_SIZE, slot_size = MAX_CHUNK_SIZE, slot_st = initial_state cr pcr seed p i\<rparr>"
  using chunk_offsets_order(1) [OF assms] chunk_offsets_order(2) [OF assms, of cr pcr seed p] slot_order_perm(4) [OF assms(2), of cr pcr seed p] by (simp_all add: initial_slots_def)

lemma initial_layout:
  assumes "unat c = MAX_CHUNK_SIZE * k" "0 < k" "unat c < 2 ^ 63"
  shows "layout_ok (initial_slots cr pcr seed p c) (unat c)"
proof -
  note I = initial_slots_nth [where cr = cr and pcr = pcr and seed = seed and p = p, OF assms(1,2)] and Q = slot_order_perm [OF assms(2), of cr pcr seed p]
  have lt: "slot_order cr pcr seed p k ! i < k" if "i < k" for i
    using that Q(3,4) nth_mem [of i "slot_order cr pcr seed p k"] by simp
  have "slot_order cr pcr seed p k ! i * MAX_CHUNK_SIZE + MAX_CHUNK_SIZE \<le> unat c" if "i < k" for i
    using lt [OF that] assms(1) by (simp add: MAX_CHUNK_SIZE_def)
  moreover have "slot_order cr pcr seed p k ! i \<noteq> slot_order cr pcr seed p k ! j" if "i < k" "j < k" "i \<noteq> j" for i j
    using that Q(2,4) by (simp add: nth_eq_iff_index_eq)
  ultimately show ?thesis unfolding layout_ok_def I(1) using assms(3) I(2) slots_apart by simp
qed

section \<open>Writing the slots\<close>

lemma filler_length:
  assumes "xof_documented H" "slot_size s = MAX_CHUNK_SIZE"
  shows "length (filler cr H p seed i s) = MAX_CHUNK_SIZE"
  using assms by (simp add: filler_def generate_chunk_data_def xof_documented_def split: slot_state.splits)

lemma write_slots_ok:
  assumes "os_reliable H" "xof_documented H" "d q = Some f" "layout_ok ss (length f)"
    "\<forall>(i, s) \<in> set es. i < length ss \<and> s = ss ! i \<and> \<not> is_content (slot_st s)"
  shows "\<exists>f'. write_slots cr H p seed q es d = (Ok (map (\<lambda>(i, s). hash_chunk cr (filler cr H p seed i s)) es), d(q \<mapsto> f')) \<and>
    length f' = length f \<and> blocks ss f' = set_leaves (map (\<lambda>(i, s). (i, filler cr H p seed i s)) es) (blocks ss f)"
  using assms(3-5)
proof (induction es arbitrary: d f)
  case Nil
  have "d(q \<mapsto> f) = d" using Nil.prems(1) by (rule fun_upd_idem)
  then show ?case by (intro exI [of _ f]) simp
next
  case (Cons e es)
  obtain i where e: "e = (i, ss ! i)" "i < length ss" "\<not> is_content (slot_st (ss ! i))" using Cons.prems(3) by (cases e) auto
  let ?b = "filler cr H p seed i (ss ! i)"
  let ?f = "write_at f (slot_offset (ss ! i)) ?b"
  note L = layout_okD [OF Cons.prems(2) e(2)]
  note b = blocks_write [OF Cons.prems(2) e(2) filler_length [OF assms(2) L(1), of cr p seed i]]
  have "(d(q \<mapsto> ?f)) q = Some ?f" "layout_ok ss (length ?f)" "\<forall>(i, s) \<in> set es. i < length ss \<and> s = ss ! i \<and> \<not> is_content (slot_st s)"
    using Cons.prems b(2) by simp_all
  from Cons.IH [where d = "d(q \<mapsto> ?f)" and f = ?f, OF this] obtain f' where
    f': "write_slots cr H p seed q es (d(q \<mapsto> ?f)) = (Ok (map (\<lambda>(i, s). hash_chunk cr (filler cr H p seed i s)) es), (d(q \<mapsto> ?f))(q \<mapsto> f'))"
    "length f' = length ?f" "blocks ss f' = set_leaves (map (\<lambda>(i, s). (i, filler cr H p seed i s)) es) (blocks ss ?f)" by blast
  have "write_slots cr H p seed q (e # es) d = (Ok (map (\<lambda>(i, s). hash_chunk cr (filler cr H p seed i s)) (e # es)), d(q \<mapsto> f'))"
    using e f'(1) L(3) assms(1) Cons.prems(1)
    by (cases "slot_st (ss ! i)") (simp_all add: is_content_def Let_def seek_ok_def os_reliable_def)
  moreover have "blocks ss f' = set_leaves (map (\<lambda>(i, s). (i, filler cr H p seed i s)) (e # es)) (blocks ss f)" "length f' = length f"
    using f'(2,3) b e(1) by simp_all
  ultimately show ?case by blast
qed

lemma set_leaves_all:
  assumes "length xs = n" "length ss = n"
  shows "set_leaves (map (\<lambda>(i, s). (i, g i s)) (zip [0..<n] ss)) xs = map (\<lambda>i. g i (ss ! i)) [0..<n]"
proof -
  have "map (\<lambda>(i, s). (i, g i s)) (zip [0..<n] ss) = zip [0..<n] (map (\<lambda>i. g i (ss ! i)) [0..<n])"
    using assms(2) by (intro nth_equalityI) simp_all
  then show ?thesis
    using set_leaves_in [of "[0..<n]" "map (\<lambda>i. g i (ss ! i)) [0..<n]" _ xs] assms(1) by (intro nth_equalityI) simp_all
qed

section \<open>Allocation\<close>

lemma capacity_bytes_of:
  assumes "0 < unat mb" "unat mb < 2 ^ 43"
  shows "unat (mb * 1024 * 1024 :: u64) = MAX_CHUNK_SIZE * (1024 * unat mb)" "unat (mb * 1024 * 1024 :: u64) < 2 ^ 63"
proof -
  have "unat (mb * (1048576 :: u64)) = unat mb * unat (1048576 :: u64)" using assms by (intro unat_mult_lem [THEN iffD1]) simp
  then show "unat (mb * 1024 * 1024 :: u64) = MAX_CHUNK_SIZE * (1024 * unat mb)" by (simp add: MAX_CHUNK_SIZE_def mult.assoc)
  then show "unat (mb * 1024 * 1024 :: u64) < 2 ^ 63" using assms by (simp add: MAX_CHUNK_SIZE_def)
qed

text \<open>A manager on a disk without its files.\<close>

definition unallocated :: "disk \<Rightarrow> capacity_manager \<Rightarrow> bool" where
  "unallocated d m \<longleftrightarrow> (let a = cm_allocator m in files_apart a \<and> sa_content_slot_map a = Map.empty \<and>
     d (sa_slots_file a) = None \<and> d (sa_content_slot_map_file a) = None)"

lemma files_apart_new: "files_apart (slot_allocator_new hx dir p)"
  by (simp add: files_apart_def slot_allocator_new_def Let_def)

lemma allocate_effect:
  assumes H: "host_ok H" and un: "unallocated d m" and mb: "0 < unat mb" "unat mb < 2 ^ 43"
  obtains d' m' sm f t where
    "allocate_capacity cr pcr H d m mb random = Some (Ok (), d', m')" "capacity_state cr pcr H d' m' sm f t"
    "sm = \<lparr>sm_slots = initial_slots cr pcr (CapacitySeed random) (cm_provider_id m) (mb * 1024 * 1024),
       sm_capacity_bytes = mb * 1024 * 1024, sm_seed = random, sm_provider_id = cm_provider_id m\<rparr>"
    "length f = unat mb * 1024 * 1024" "persisted H d' (cm_allocator m')"
    "cm_provider_id m' = cm_provider_id m" "cm_initialized m' = cm_initialized m" "cm_outbox m' = cm_outbox m"
proof -
  define c :: u64 where cd: "c = mb * 1024 * 1024"
  let ?seed = "CapacitySeed random" and ?p = "cm_provider_id m" and ?a = "cm_allocator m"
  let ?q = "sa_capacity_file ?a" and ?k = "1024 * unat mb"
  note C = capacity_bytes_of [OF mb, folded cd]
  have k: "0 < ?k" using mb by simp
  define ss where "ss = initial_slots cr pcr ?seed ?p c"
  define sm where "sm = \<lparr>sm_slots = ss, sm_capacity_bytes = c, sm_seed = random, sm_provider_id = ?p\<rparr>"
  have rel: "os_reliable H" "xof_documented H" using H by (simp_all add: host_ok_def)
  have len: "length ss = ?k" using initial_slots_nth(1) [OF C(1) k] by (simp add: ss_def)
  have st: "slot_st (ss ! i) = initial_state cr pcr ?seed ?p i" "slot_size (ss ! i) = MAX_CHUNK_SIZE" if "i < ?k" for i
    using initial_slots_nth(2) [OF C(1) k that] by (simp_all add: ss_def)
  have lay: "layout_ok ss (unat c)" unfolding ss_def by (rule initial_layout [OF C(1) k C(2)])
  have es: "\<forall>(i, s) \<in> set (zip [0..<length ss] ss). i < length ss \<and> s = ss ! i \<and> \<not> is_content (slot_st s)"
  proof -
    have "\<not> is_content (slot_st (ss ! i))" if "i < length ss" for i using st(1) [of i] that len by (simp add: initial_state_def is_content_def)
    then show ?thesis by (auto simp: set_zip)
  qed
  let ?d1 = "d(?q := Some (replicate (unat c) 0))"
  obtain f where f: "write_slots cr H ?p ?seed ?q (zip [0..<length ss] ss) ?d1 =
      (Ok (map (\<lambda>(i, s). hash_chunk cr (filler cr H ?p ?seed i s)) (zip [0..<length ss] ss)), ?d1(?q \<mapsto> f))" "length f = unat c"
    "blocks ss f = set_leaves (map (\<lambda>(i, s). (i, filler cr H ?p ?seed i s)) (zip [0..<length ss] ss)) (blocks ss (replicate (unat c) 0))"
    using write_slots_ok [where d = ?d1 and f = "replicate (unat c) 0" and q = ?q, OF rel _ _ es, of cr ?p ?seed] lay by auto
  have bl: "blocks ss f = map (\<lambda>i. filler cr H ?p ?seed i (ss ! i)) [0..<length ss]" using f(3) by (simp add: set_leaves_all)
  have lv: "map (\<lambda>(i, s). hash_chunk cr (filler cr H ?p ?seed i s)) (zip [0..<length ss] ss) = map (hash_chunk cr) (blocks ss f)"
    unfolding bl by (intro nth_equalityI) simp_all
  have no: "\<not> overlapping (chunk_offsets cr pcr ?seed ?p c)"
    unfolding chunk_offsets_order(2) [OF C(1) k] by (rule tiles_not_overlapping [OF slot_order_perm(2) [OF k]])
  define a' where "a' = set_slot_map sm ?a"
  obtain s where s: "slot_map_to_json H sm = Some s" "save_slot_map H (d(?q \<mapsto> f)) a' = (Ok (), (d(?q \<mapsto> f))(sa_slots_file ?a \<mapsto> str_bytes s))"
    using save_slot_map_ok [OF H, of a' sm "d(?q \<mapsto> f)"] by (auto simp: a'_def set_slot_map_def)
  have "map (hash_chunk cr) (blocks ss f) \<noteq> []" using len k by (simp flip: length_greater_0_conv)
  then obtain t where t: "merkle_build (blake3 pcr) (map (hash_chunk cr) (blocks ss f)) = Some t" by (simp add: merkle_build_def Let_def)
  define m' where "m' = m\<lparr>cm_allocator := a', cm_merkle_tree := Some t\<rparr>"
  define d' where "d' = (d(?q \<mapsto> f))(sa_slots_file ?a \<mapsto> str_bytes s)"
  have un': "files_apart ?a" "sa_content_slot_map ?a = Map.empty" "d (sa_slots_file ?a) = None" "d (sa_content_slot_map_file ?a) = None"
    using un by (simp_all add: unallocated_def Let_def)
  have "allocate_capacity_internal cr pcr H d m c ?seed = Some (Ok (mt_root t), d', m')"
    using rel(1) f(1) no s(2) t
    by (simp add: allocate_capacity_internal_def ss_def [symmetric] sm_def [symmetric] a'_def [symmetric] lv Let_def os_reliable_def d'_def m'_def)
  then have run: "allocate_capacity cr pcr H d m mb random = Some (Ok (), d', m')"
    using un'(3) by (simp add: allocate_capacity_def cd [symmetric] slot_map_exists_def path_exists_def)
  have ap: "sa_slots_file ?a \<noteq> ?q" "sa_content_slot_map_file ?a \<noteq> ?q" "sa_slots_file ?a \<noteq> sa_content_slot_map_file ?a"
    using un'(1) by (auto simp: files_apart_def)
  have "slots_filled cr H sm (blocks ss f)"
    using rel(2) st len by (auto simp: slots_filled_def sm_def bl filler_def initial_state_def generate_chunk_data_def xof_documented_def)
  then have cst: "capacity_state cr pcr H d' m' sm f t"
    using un' ap lay f(2) t by (simp add: capacity_state_def Let_def m'_def a'_def set_slot_map_def d'_def sm_def files_apart_def contents_ok_def)
  show thesis
    by (rule that [OF run cst])
      (use f(2) C(1) s(1) un' ap in \<open>auto simp: sm_def ss_def cd m'_def a'_def set_slot_map_def d'_def persisted_def MAX_CHUNK_SIZE_def\<close>)
qed

end
