(* ===== verification/Capacity_Answers.thy ===== *)
theory Capacity_Answers
  imports Capacity_Alloc
begin

text \<open>
  The pinboard content that a commit mirrors into slots (the background task of \<^verbatim>\<open>consensus/commit.rs\<close>), the manager as
  a content store (locale \<open>content_store\<close>), and its answers to challenges.
\<close>

section \<open>Mirroring pinboard content\<close>

text \<open>\<^verbatim>\<open>slice::chunks\<close>.\<close>

function chunks_of :: "bytes \<Rightarrow> bytes list" where
  "chunks_of b = (if b = [] then [] else take MAX_CHUNK_SIZE b # chunks_of (drop MAX_CHUNK_SIZE b))"
  by pat_completeness auto
termination
  by (relation "measure length") (auto simp: MAX_CHUNK_SIZE_def)

declare chunks_of.simps [simp del]

definition mirror_blob ::
    "node_crates \<Rightarrow> proof_crates \<Rightarrow> host \<Rightarrow> string \<times> bytes \<Rightarrow> disk \<times> capacity_manager \<Rightarrow> (disk \<times> capacity_manager) option" where
  "mirror_blob cr pcr H = (\<lambda>(key, b) (d, m). (case get_content_from_slots H d m key of
       Inr None \<Rightarrow> map_option snd (store_content_chunks cr pcr H d m key (chunks_of b))
     | _ \<Rightarrow> Some (d, m)))"

fun mirror_blobs ::
    "node_crates \<Rightarrow> proof_crates \<Rightarrow> host \<Rightarrow> (string \<times> bytes) list \<Rightarrow> disk \<times> capacity_manager \<Rightarrow> (disk \<times> capacity_manager) option" where
  "mirror_blobs cr pcr H [] s = Some s"
| "mirror_blobs cr pcr H (b # bs) s = Option.bind (mirror_blob cr pcr H b s) (mirror_blobs cr pcr H bs)"

lemma chunks_of_facts: "concat (chunks_of b) = b" "\<forall>c \<in> set (chunks_of b). length c \<le> MAX_CHUNK_SIZE"
proof (induction b rule: chunks_of.induct)
  case (1 b)
  { case 1 then show ?case using \<open>b \<noteq> [] \<Longrightarrow> concat (chunks_of (drop MAX_CHUNK_SIZE b)) = drop MAX_CHUNK_SIZE b\<close>
      by (simp add: chunks_of.simps [of b]) }
  { case 2 then show ?case
      using \<open>b \<noteq> [] \<Longrightarrow> \<forall>c \<in> set (chunks_of (drop MAX_CHUNK_SIZE b)). length c \<le> MAX_CHUNK_SIZE\<close>
      by (simp add: chunks_of.simps [of b]) }
qed

section \<open>A store of contents\<close>

text \<open>What a client relies on: a store with room takes a content under a key, returns it, and keeps the rest.\<close>

locale content_store =
  fixes ok :: "'s \<Rightarrow> bool"
    and free :: "'s \<Rightarrow> nat"
    and size_of :: "'v \<Rightarrow> nat"
    and put :: "'s \<Rightarrow> 'k \<Rightarrow> 'v \<Rightarrow> 's"
    and get :: "'s \<Rightarrow> 'k \<Rightarrow> 'v option"
  assumes put_ok: "ok s \<Longrightarrow> size_of v \<le> free s \<Longrightarrow> ok (put s k v)"
    and put_free: "ok s \<Longrightarrow> size_of v \<le> free s \<Longrightarrow> free (put s k v) = free s - size_of v"
    and get_put: "ok s \<Longrightarrow> size_of v \<le> free s \<Longrightarrow> get (put s k v) k' = (if k' = k then Some v else get s k')"
begin

definition put_all :: "('k \<times> 'v) list \<Rightarrow> 's \<Rightarrow> 's" where
  "put_all = fold (\<lambda>(k, v) s. put s k v)"

lemma put_all_stores:
  assumes "ok s" "distinct (map fst kvs)" "sum_list (map (\<lambda>(k, v). size_of v) kvs) \<le> free s"
  shows "ok (put_all kvs s)" "free (put_all kvs s) = free s - sum_list (map (\<lambda>(k, v). size_of v) kvs)"
    "get (put_all kvs s) k = (case map_of kvs k of Some v \<Rightarrow> Some v | None \<Rightarrow> get s k)"
proof -
  have "ok (put_all kvs s) \<and> free (put_all kvs s) = free s - sum_list (map (\<lambda>(k, v). size_of v) kvs) \<and>
      get (put_all kvs s) k = (case map_of kvs k of Some v \<Rightarrow> Some v | None \<Rightarrow> get s k)"
    using assms
  proof (induction kvs arbitrary: s)
    case Nil
    then show ?case by (simp add: put_all_def)
  next
    case (Cons kv kvs)
    obtain k' v where kv: "kv = (k', v)" by force
    have room: "size_of v \<le> free s" using Cons.prems(3) kv by simp
    note IH = Cons.IH [of "put s k' v"]
    have "map_of kvs k' = None" using Cons.prems(2) kv by (simp add: map_of_eq_None_iff)
    then show ?case
      using IH Cons.prems kv put_ok [OF Cons.prems(1) room] put_free [OF Cons.prems(1) room] get_put [OF Cons.prems(1) room]
      by (auto simp: put_all_def split: option.splits)
  qed
  then show "ok (put_all kvs s)" "free (put_all kvs s) = free s - sum_list (map (\<lambda>(k, v). size_of v) kvs)"
    "get (put_all kvs s) k = (case map_of kvs k of Some v \<Rightarrow> Some v | None \<Rightarrow> get s k)" by simp_all
qed

end

definition slots_of :: "capacity_manager \<Rightarrow> slot list" where
  "slots_of m = (case sa_slot_map (cm_allocator m) of None \<Rightarrow> [] | Some sm \<Rightarrow> sm_slots sm)"

definition provider_ok :: "node_crates \<Rightarrow> proof_crates \<Rightarrow> host \<Rightarrow> disk \<times> capacity_manager \<Rightarrow> bool" where
  "provider_ok cr pcr H s \<longleftrightarrow> host_ok H \<and> (\<exists>sm f t. capacity_state cr pcr H (fst s) (snd s) sm f t)"

definition free_slots :: "disk \<times> capacity_manager \<Rightarrow> nat" where
  "free_slots s = open_count (slots_of (snd s))"

definition put_content :: "node_crates \<Rightarrow> proof_crates \<Rightarrow> host \<Rightarrow> disk \<times> capacity_manager \<Rightarrow> string \<Rightarrow> bytes \<Rightarrow> disk \<times> capacity_manager" where
  "put_content cr pcr H s k b = (case store_content_chunks cr pcr H (fst s) (snd s) k (chunks_of b) of
     None \<Rightarrow> s | Some (r, s') \<Rightarrow> s')"

definition get_content_of :: "host \<Rightarrow> disk \<times> capacity_manager \<Rightarrow> string \<Rightarrow> bytes option" where
  "get_content_of H s k = (case get_content_from_slots H (fst s) (snd s) k of Inl e \<Rightarrow> None | Inr c \<Rightarrow> c)"

lemma open_count_card: "open_count ss = card {i. i < length ss \<and> slot_st (ss ! i) = SlotOpen}"
proof -
  have "set (open_indices 0 ss) = {i. i < length ss \<and> slot_st (ss ! i) = SlotOpen}" using in_open_indices [of _ 0 ss] by auto
  then show ?thesis using distinct_card [OF distinct_open_indices, of 0 ss] by (simp add: open_count_def)
qed

lemma store_content:
  assumes H: "host_ok H" and st: "capacity_state cr pcr H d m sm f t" and n: "length chunks \<le> open_count (sm_slots sm)"
    and fit: "\<forall>c \<in> set chunks. length c \<le> MAX_CHUNK_SIZE"
  obtains js d' m' ss f' t' where "store_content_chunks cr pcr H d m cid chunks = Some (Ok js, d', m')"
    "capacity_state cr pcr H d' m' (sm\<lparr>sm_slots := ss\<rparr>) f' t'" "open_count ss = open_count (sm_slots sm) - length chunks"
    "\<And>k. get_content_from_slots H d' m' k = (if k = cid then Ok (Some (concat chunks)) else get_content_from_slots H d m k)"
    "persisted H d' (cm_allocator m')" "cm_provider_id m' = cm_provider_id m" "cm_initialized m' = cm_initialized m"
proof (rule store_effect [OF H st n fit, of cid])
  fix d' m' ss f' t' js
  assume a: "store_content_chunks cr pcr H d m cid chunks = Some (Ok js, d', m')" "js = take (length chunks) (open_indices 0 (sm_slots sm))"
    "capacity_state cr pcr H d' m' (sm\<lparr>sm_slots := ss\<rparr>) f' t'" "same_places (sm_slots sm) ss"
    "\<And>j. j < length (sm_slots sm) \<Longrightarrow> slot_st (ss ! j) = SlotOpen \<longleftrightarrow> j \<notin> set js \<and> slot_st (sm_slots sm ! j) = SlotOpen"
    "blocks ss f' = set_leaves (zip js (map pad chunks)) (blocks (sm_slots sm) f)"
    "sa_content_slot_map (cm_allocator m') = (sa_content_slot_map (cm_allocator m))(cid \<mapsto> zip js (map length chunks))"
    "persisted H d' (cm_allocator m')" "cm_provider_id m' = cm_provider_id m" "cm_initialized m' = cm_initialized m"
  note S = capacity_stateD [OF st] and js = opens_taken [OF n, folded a(2)]
  have rel: "os_reliable H" using H by (simp add: host_ok_def)
  have "{i. i < length ss \<and> slot_st (ss ! i) = SlotOpen} = {i. i < length (sm_slots sm) \<and> slot_st (sm_slots sm ! i) = SlotOpen} - set js"
    using a(5) same_placesD(1) [OF a(4)] by auto
  then have cnt: "open_count ss = open_count (sm_slots sm) - length chunks"
    using js distinct_card [OF js(2)] by (simp add: open_count_card card_Diff_subset subset_iff)
  let ?c = "content_of ss f' (sa_content_slot_map (cm_allocator m'))" and ?old = "content_of (sm_slots sm) f (sa_content_slot_map (cm_allocator m))"
  have "concat (map (\<lambda>(i, n). take n (blocks ss f' ! i)) (zip js (map length chunks))) = concat chunks"
  proof -
    have "map (\<lambda>(i, n). take n (blocks ss f' ! i)) (zip js (map length chunks)) = chunks"
      using js fit set_leaves_in [OF js(2), of "map pad chunks" _ "blocks (sm_slots sm) f"]
      by (intro nth_equalityI) (simp_all add: a(6) pad_prefix)
    then show ?thesis by simp
  qed
  then have same: "?c cid = Some (concat chunks)" by (simp add: content_of_def a(7))
  have other: "?c k = ?old k" if k: "k \<noteq> cid" for k
  proof (cases "sa_content_slot_map (cm_allocator m) k")
    case (Some l)
    have "blocks ss f' ! i = blocks (sm_slots sm) f ! i" if "(i, n) \<in> set l" for i n
    proof -
      have "i \<notin> set js" using contents_okD(2) [OF S(8) Some that] js(3) by auto
      then show ?thesis using js(1) by (simp add: a(6) set_leaves_nth fst_zip)
    qed
    then have "map (\<lambda>(i, n). take n (blocks ss f' ! i)) l = map (\<lambda>(i, n). take n (blocks (sm_slots sm) f ! i)) l" by auto
    from arg_cong [OF this, of concat] show ?thesis using k Some by (simp add: content_of_def a(7) del: map_eq_conv)
  qed (use k in \<open>simp add: content_of_def a(7)\<close>)
  show thesis
    by (rule that [OF a(1,3) cnt _ a(8-10)]) (use get_content [OF rel a(3)] get_content [OF rel st] same other in simp)
qed

interpretation slots: content_store "provider_ok cr pcr H" free_slots "\<lambda>b. length (chunks_of b)" "put_content cr pcr H" "get_content_of H"
  for cr pcr H
proof
  fix s v k k' assume ok: "provider_ok cr pcr H s" and room: "length (chunks_of v) \<le> free_slots s"
  obtain d m sm f t where s: "s = (d, m)" "host_ok H" "capacity_state cr pcr H d m sm f t" using ok by (cases s) (auto simp: provider_ok_def)
  have slots: "slots_of m = sm_slots sm" using capacity_stateD(1) [OF s(3)] by (simp add: slots_of_def)
  obtain js d' m' ss f' t' where r: "store_content_chunks cr pcr H d m k (chunks_of v) = Some (Ok js, d', m')"
    "capacity_state cr pcr H d' m' (sm\<lparr>sm_slots := ss\<rparr>) f' t'" "open_count ss = open_count (sm_slots sm) - length (chunks_of v)"
    "\<And>x. get_content_from_slots H d' m' x = (if x = k then Ok (Some (concat (chunks_of v))) else get_content_from_slots H d m x)"
    by (rule store_content [OF s(2,3) room [unfolded s(1) free_slots_def snd_conv slots] chunks_of_facts(2), of k]) (rule that)
  have "slots_of m' = ss" using capacity_stateD(1) [OF r(2)] by (simp add: slots_of_def)
  moreover have p: "put_content cr pcr H s k v = (d', m')" by (simp add: put_content_def s(1) r(1))
  ultimately show "provider_ok cr pcr H (put_content cr pcr H s k v)"
    "free_slots (put_content cr pcr H s k v) = free_slots s - length (chunks_of v)"
    "get_content_of H (put_content cr pcr H s k v) k' = (if k' = k then Some v else get_content_of H s k')"
    using r s(2) slots by (auto simp: provider_ok_def free_slots_def s(1) get_content_of_def chunks_of_facts(1))
qed

lemma provider_reads:
  assumes "provider_ok cr pcr H s"
  shows "get_content_from_slots H (fst s) (snd s) k = Ok (get_content_of H s k)"
  using assms get_content [of H cr pcr "fst s" "snd s"] by (auto simp: provider_ok_def host_ok_def get_content_of_def)

lemma mirror_puts:
  assumes "provider_ok cr pcr H s" "distinct (map fst bs)" "sum_list (map (\<lambda>(k, b). length (chunks_of b)) bs) \<le> free_slots s"
    "\<forall>k \<in> fst ` set bs. get_content_of H s k = None"
  shows "mirror_blobs cr pcr H bs s = Some (slots.put_all cr pcr H bs s)"
  using assms
proof (induction bs arbitrary: s)
  case Nil
  then show ?case by (simp add: slots.put_all_def)
next
  case (Cons kb bs)
  obtain k b where kb: "kb = (k, b)" by force
  let ?s = "put_content cr pcr H s k b"
  have room: "length (chunks_of b) \<le> free_slots s" using Cons.prems(3) kb by simp
  note P = slots.put_ok [OF Cons.prems(1) room, of k] slots.put_free [OF Cons.prems(1) room, of k] slots.get_put [OF Cons.prems(1) room, of k]
  obtain d m sm f t where s: "s = (d, m)" "host_ok H" "capacity_state cr pcr H d m sm f t"
    using Cons.prems(1) by (cases s) (auto simp: provider_ok_def)
  have "get_content_from_slots H d m k = Ok None" using provider_reads [OF Cons.prems(1), of k] Cons.prems(4) kb s(1) by simp
  moreover have "\<exists>js d' m'. store_content_chunks cr pcr H d m k (chunks_of b) = Some (Ok js, d', m')"
  proof -
    have "length (chunks_of b) \<le> open_count (sm_slots sm)" using room capacity_stateD(1) [OF s(3)] by (simp add: free_slots_def s(1) slots_of_def)
    from store_content [OF s(2,3) this chunks_of_facts(2), of k] show ?thesis by metis
  qed
  ultimately have "mirror_blob cr pcr H kb s = Some ?s" by (auto simp: mirror_blob_def kb s(1) put_content_def)
  moreover have "mirror_blobs cr pcr H bs ?s = Some (slots.put_all cr pcr H bs ?s)"
    using Cons.prems(2-4) kb P by (intro Cons.IH) auto
  ultimately show ?case by (simp add: kb slots.put_all_def)
qed

section \<open>Answers to challenges\<close>

lemma prove_chunks_ok:
  assumes "host_ok H" "capacity_state cr pcr H d m sm f t" "\<forall>i \<in> set is. i < length (sm_slots sm)"
  shows "prove_chunks cr H d (sa_capacity_file (cm_allocator m)) (sm_slots sm) t is = Some (Ok (map (\<lambda>i.
    \<lparr>chunk_index = i, chunk_data = blocks (sm_slots sm) f ! i, chunk_hash = hash_chunk cr (blocks (sm_slots sm) f ! i),
     cp_merkle_proof = the (generate_proof t i), cp_slot_state = slot_st (sm_slots sm ! i)\<rparr>) is))"
  using assms(3)
proof (induction "is")
  case (Cons i "is")
  note S = capacity_stateD [OF assms(2)]
  have rel: "os_reliable H" using assms(1) by (simp add: host_ok_def)
  have i: "i < length (sm_slots sm)" using Cons.prems by simp
  note r = read_slot_ok [of H d "sa_capacity_file (cm_allocator m)" f "sm_slots sm" i, OF rel S(2,4) i]
  obtain p where "generate_proof t i = Some p" using built_tree_proves [OF S(6), of i] i by auto
  then show ?case using Cons i r rel layout_okD(3) [OF S(4) i] by (simp add: seek_ok_def os_reliable_def)
qed simp

lemma answer_valid:
  assumes "capacity_state cr pcr H d m sm f t" "\<forall>i \<in> set is. i < length (sm_slots sm)"
  shows "is_valid (validate_challenge_proof cr pcr (map (\<lambda>i.
    \<lparr>chunk_index = i, chunk_data = blocks (sm_slots sm) f ! i, chunk_hash = hash_chunk cr (blocks (sm_slots sm) f ! i),
     cp_merkle_proof = the (generate_proof t i), cp_slot_state = slot_st (sm_slots sm ! i)\<rparr>) is) (mt_root t) is)"
proof -
  note S = capacity_stateD [OF assms(1)]
  have "chunk_proof_error cr pcr (mt_root t) i
    \<lparr>chunk_index = i, chunk_data = blocks (sm_slots sm) f ! i, chunk_hash = hash_chunk cr (blocks (sm_slots sm) f ! i),
     cp_merkle_proof = the (generate_proof t i), cp_slot_state = slot_st (sm_slots sm ! i)\<rparr> = []" if "i \<in> set is" for i
  proof -
    have i: "i < length (sm_slots sm)" using assms(2) that by simp
    have "verify_proof (blake3 pcr) (hash_chunk cr (blocks (sm_slots sm) f ! i)) (the (generate_proof t i)) (mt_root t) i"
      using built_tree_proves [OF S(6), of i] i by auto
    moreover have "slot_st (sm_slots sm ! i) = SlotOpen \<Longrightarrow> list_all (\<lambda>b. b = 0) (blocks (sm_slots sm) f ! i)"
      using S(7) i by (simp add: slots_filled_def list_all_length)
    ultimately show ?thesis by (simp add: chunk_proof_error_def split: slot_state.splits)
  qed
  then show ?thesis by (auto simp: validate_challenge_proof_valid set_zip)
qed

end
