(* ===== verification/Provider.thy ===== *)
theory Provider
  imports Capacity_Answers
begin

text \<open>
  The properties of a capacity provider: its slots tile the capacity file; the content mirrored into them is read back;
  deleting undoes storing; a restart rebuilds the same tree; and in every state it goes through, its answers to
  challenges pass the validator of \<^verbatim>\<open>challenge_validator.rs\<close>.
\<close>

section \<open>States of a provider\<close>

text \<open>Chunks over the size of a slot are the exception: they are refused in the middle of the loop, after earlier chunks
  have been written into open slots.\<close>

inductive operates :: "node_crates \<Rightarrow> proof_crates \<Rightarrow> host \<Rightarrow> disk \<Rightarrow> capacity_manager \<Rightarrow> bool" for cr pcr H where
  allocated: "\<lbrakk>unallocated d m; 0 < unat mb; unat mb < 2 ^ 43; allocate_capacity cr pcr H d m mb random = Some (r, d', m')\<rbrakk>
    \<Longrightarrow> operates cr pcr H d' m'"
| stored: "\<lbrakk>operates cr pcr H d m; \<forall>c \<in> set chunks. length c \<le> MAX_CHUNK_SIZE;
    store_content_chunks cr pcr H d m cid chunks = Some (r, d', m')\<rbrakk> \<Longrightarrow> operates cr pcr H d' m'"
| deleted: "\<lbrakk>operates cr pcr H d m; delete_content_from_slots cr pcr H d m cid = Some (r', d', m')\<rbrakk> \<Longrightarrow> operates cr pcr H d' m'"

lemma operates_state:
  assumes "host_ok H" "operates cr pcr H d m"
  shows "\<exists>sm f t. capacity_state cr pcr H d m sm f t \<and> persisted H d (cm_allocator m)"
  using assms(2)
proof (induction rule: operates.induct)
  case (allocated d m mb random r d' m')
  from allocate_effect [OF assms(1) allocated(1-3), of cr pcr random] show ?case using allocated(4) by (metis option.inject prod.inject)
next
  case (stored d m chunks cid r d' m')
  then obtain sm f t where s: "capacity_state cr pcr H d m sm f t" "persisted H d (cm_allocator m)" by blast
  show ?case
  proof (cases "length chunks \<le> open_count (sm_slots sm)")
    case True
    from store_effect [OF assms(1) s(1) True stored(2), of cid] show ?thesis using stored(3) by (metis option.inject prod.inject)
  next
    case False
    then have "d' = d" "m' = m" using stored(3) find_open_slots_iff [OF capacity_stateD(1) [OF s(1)]] by (simp_all add: store_content_chunks_def)
    then show ?thesis using s by blast
  qed
next
  case (deleted d m cid r' d' m')
  then obtain sm f t where s: "capacity_state cr pcr H d m sm f t" "persisted H d (cm_allocator m)" by blast
  show ?case
  proof (cases "sa_content_slot_map (cm_allocator m) cid")
    case None
    then have "d' = d" "m' = m" using deleted(2) by (simp_all add: delete_content_from_slots_def find_slots_by_content_id_def Let_def)
    then show ?thesis using s by blast
  next
    case (Some l)
    from delete_effect [OF assms(1) s(1) Some] show ?thesis using deleted(2) by (metis option.inject prod.inject)
  qed
qed

lemma slots_of_state: "capacity_state cr pcr H d m sm f t \<Longrightarrow> slots_of m = sm_slots sm"
  using capacity_stateD(1) [of cr pcr H d m sm f t] by (simp add: slots_of_def)

section \<open>Restart\<close>

definition json_reads :: "host \<Rightarrow> slot_map \<Rightarrow> content_map \<Rightarrow> bool" where
  "json_reads H sm c \<longleftrightarrow>
     (\<forall>s. slot_map_to_json H sm = Some s \<longrightarrow> from_utf8 (str_bytes s) = Some s \<and> slot_map_of_json H s = Some sm) \<and>
     (\<forall>s. content_map_to_json H c = Some s \<longrightarrow> from_utf8 (str_bytes s) = Some s \<and> content_map_of_json H s = Some c)"

text \<open>A manager that has just been created on the files of another one.\<close>

definition fresh_on :: "slot_allocator \<Rightarrow> capacity_manager \<Rightarrow> bool" where
  "fresh_on a m \<longleftrightarrow> cm_allocator m = a\<lparr>sa_slot_map := None, sa_content_slot_map := Map.empty\<rparr> \<and> \<not> cm_initialized m"

lemma slot_leaves_ok:
  assumes "host_ok H" "capacity_state cr pcr H d m sm f t"
    "\<forall>(i, s) \<in> set es. i < length (sm_slots sm) \<and> s = sm_slots sm ! i"
  shows "slot_leaves cr H d (sa_capacity_file (cm_allocator m)) sm es = Some (Ok (map (\<lambda>(i, s). hash_chunk cr (blocks (sm_slots sm) f ! i)) es))"
  using assms(3)
proof (induction es)
  case (Cons e es)
  note S = capacity_stateD [OF assms(2)]
  obtain i where e: "e = (i, sm_slots sm ! i)" "i < length (sm_slots sm)" using Cons.prems by (cases e) auto
  have rel: "os_reliable H" "xof_documented H" using assms(1) by (simp_all add: host_ok_def)
  note r = read_slot_ok [of H d "sa_capacity_file (cm_allocator m)" f "sm_slots sm" i, OF rel(1) S(2,4) e(2)]
  have "slot_leaf cr H d (sa_capacity_file (cm_allocator m)) sm i (sm_slots sm ! i) = Some (Ok (hash_chunk cr (blocks (sm_slots sm) f ! i)))"
    using S(7) e(2) r rel(2) layout_okD(1) [OF S(4) e(2)]
    by (cases "slot_st (sm_slots sm ! i)") (auto simp: slot_leaf_def slots_filled_def Let_def generate_chunk_data_def xof_documented_def)
  then show ?case using Cons e(1) by simp
qed simp

lemma initialize_effect:
  assumes "host_ok H" "capacity_state cr pcr H d m sm f t" "persisted H d (cm_allocator m)" "fresh_on (cm_allocator m) m0"
    "json_reads H sm (sa_content_slot_map (cm_allocator m))"
  shows "capacity_initialize cr pcr H d m0 = Some (Ok (), d, m0\<lparr>cm_allocator := cm_allocator m, cm_merkle_tree := Some t, cm_initialized := True\<rparr>)"
proof -
  note S = capacity_stateD [OF assms(2)]
  let ?a = "cm_allocator m" and ?p = "sa_capacity_file (cm_allocator m)" and ?es = "zip [0..<length (sm_slots sm)] (sm_slots sm)"
  have os: "os_ok H op p" for op p using assms(1) by (simp add: host_ok_def os_reliable_def)
  obtain s where s: "slot_map_to_json H sm = Some s" "d (sa_slots_file ?a) = Some (str_bytes s)" using assms(3) S(1) by (auto simp: persisted_def)
  have j: "from_utf8 (str_bytes s) = Some s" "slot_map_of_json H s = Some sm" using assms(5) s(1) by (simp_all add: json_reads_def)
  let ?a1 = "?a\<lparr>sa_content_slot_map := Map.empty\<rparr>"
  have "snd (load_content_slot_map H d ?a1) = ?a"
  proof (cases "d (sa_content_slot_map_file ?a)")
    case None
    then show ?thesis using assms(3) by (auto simp: persisted_def load_content_slot_map_def path_exists_def)
  next
    case (Some b)
    then show ?thesis using assms(3,5) os by (auto simp: persisted_def json_reads_def load_content_slot_map_def path_exists_def read_to_string_def)
  qed
  moreover have "cm_allocator m0\<lparr>sa_slot_map := Some sm\<rparr> = ?a1" "\<not> cm_initialized m0" "sa_slots_file (cm_allocator m0) = sa_slots_file ?a"
    using assms(4) S(1) by (simp_all add: fresh_on_def)
  ultimately have load: "load_slot_map H d (cm_allocator m0) = (Ok (), ?a)" and ex: "slot_map_exists H d (cm_allocator m0)" "\<not> cm_initialized m0"
    using s(2) j os by (simp_all add: load_slot_map_def slot_map_exists_def path_exists_def read_to_string_def)
  have "\<forall>(i, x) \<in> set ?es. i < length (sm_slots sm) \<and> x = sm_slots sm ! i" by (auto simp: set_zip)
  moreover have "map (\<lambda>(i, x). hash_chunk cr (blocks (sm_slots sm) f ! i)) ?es = map (hash_chunk cr) (blocks (sm_slots sm) f)"
    by (intro nth_equalityI) simp_all
  ultimately have "slot_leaves cr H d ?p sm ?es = Some (Ok (map (hash_chunk cr) (blocks (sm_slots sm) f)))"
    using slot_leaves_ok [OF assms(1,2), of ?es] by simp
  then have "build_merkle_tree cr pcr H d (m0\<lparr>cm_allocator := ?a\<rparr>) sm = Some (Ok t)"
    using S(2,6) os by (simp add: build_merkle_tree_def Let_def)
  then show ?thesis using load ex S(1) by (simp add: capacity_initialize_def Let_def)
qed

section \<open>Deletion\<close>

lemma delete_undoes:
  assumes H: "host_ok H" and st: "capacity_state cr pcr H d m sm f t" and n: "length chunks \<le> open_count (sm_slots sm)"
    and fit: "\<forall>c \<in> set chunks. length c \<le> MAX_CHUNK_SIZE" and new: "sa_content_slot_map (cm_allocator m) cid = None"
  shows "\<exists>js d1 m1 d2 m2. store_content_chunks cr pcr H d m cid chunks = Some (Ok js, d1, m1) \<and>
    delete_content_from_slots cr pcr H d1 m1 cid = Some (Ok (), d2, m2) \<and> cm_merkle_tree m2 = cm_merkle_tree m \<and>
    slots_of m2 = slots_of m \<and> (\<forall>k. get_content_from_slots H d2 m2 k = get_content_from_slots H d m k)"
proof (rule store_effect [OF H st n fit, of cid])
  fix d1 m1 ss f1 t1 js
  assume a: "store_content_chunks cr pcr H d m cid chunks = Some (Ok js, d1, m1)" "js = take (length chunks) (open_indices 0 (sm_slots sm))"
    "capacity_state cr pcr H d1 m1 (sm\<lparr>sm_slots := ss\<rparr>) f1 t1" "same_places (sm_slots sm) ss"
    "blocks ss f1 = set_leaves (zip js (map pad chunks)) (blocks (sm_slots sm) f)"
    "sa_content_slot_map (cm_allocator m1) = (sa_content_slot_map (cm_allocator m))(cid \<mapsto> zip js (map length chunks))"
    and st1: "\<And>j. j < length (sm_slots sm) \<Longrightarrow> slot_st (ss ! j) = SlotOpen \<longleftrightarrow> j \<notin> set js \<and> slot_st (sm_slots sm ! j) = SlotOpen"
    and keep: "\<And>j. j < length (sm_slots sm) \<Longrightarrow> j \<notin> set js \<Longrightarrow> slot_st (ss ! j) = slot_st (sm_slots sm ! j)"
  note S = capacity_stateD [OF st] and js = opens_taken [OF n, folded a(2)] and P = same_placesD [OF a(4)]
  have l: "sa_content_slot_map (cm_allocator m1) cid = Some (zip js (map length chunks))" by (simp add: a(6))
  have fz: "map fst (zip js (map length chunks)) = js" using js(1) by (intro map_fst_zip) simp
  let ?z = "map (\<lambda>i. replicate MAX_CHUNK_SIZE (0 :: u8)) js"
  show ?thesis
  proof (rule delete_effect [OF H a(3) l], unfold fz)
    fix d2 m2 ss2 f2 t2
    assume b: "delete_content_from_slots cr pcr H d1 m1 cid = Some (Ok (), d2, m2)"
      "capacity_state cr pcr H d2 m2 (sm\<lparr>sm_slots := ss, sm_slots := ss2\<rparr>) f2 t2" "same_places (sm_slots (sm\<lparr>sm_slots := ss\<rparr>)) ss2"
      "\<And>j. j < length (sm_slots (sm\<lparr>sm_slots := ss\<rparr>)) \<Longrightarrow> slot_st (ss2 ! j) = (if j \<in> set js then SlotOpen else slot_st (sm_slots (sm\<lparr>sm_slots := ss\<rparr>) ! j))"
      "blocks ss2 f2 = set_leaves (zip js ?z) (blocks (sm_slots (sm\<lparr>sm_slots := ss\<rparr>)) f1)"
      "sa_content_slot_map (cm_allocator m2) = (sa_content_slot_map (cm_allocator m1))(cid := None)"
    have pl: "same_places (sm_slots sm) ss2" using a(4) b(3) by (simp add: same_places_def)
    have bl: "blocks ss2 f2 = blocks (sm_slots sm) f"
      unfolding b(5) using js S(7) by (simp add: a(5)) (intro set_leaves_back, auto simp: slots_filled_def)
    have "slot_st (ss2 ! j) = slot_st (sm_slots sm ! j)" if "j < length (sm_slots sm)" for j
      using b(4) [of j] keep [OF that] js(3) that P(1) by auto
    then have eq: "ss2 = sm_slots sm"
      using pl same_placesD(1) [OF pl] by (intro nth_equalityI) (auto simp: same_places_def list_eq_iff_nth_eq)
    have "t2 = t" using capacity_stateD(6) [OF b(2)] S(6) bl eq by simp
    then have tr: "cm_merkle_tree m2 = cm_merkle_tree m" using capacity_stateD(5) [OF b(2)] S(5) by simp
    have "sa_content_slot_map (cm_allocator m2) = sa_content_slot_map (cm_allocator m)" using new by (auto simp: b(6) a(6) fun_upd_idem)
    then have "get_content_from_slots H d2 m2 k = get_content_from_slots H d m k" for k
      using get_content [OF _ b(2)] get_content [OF _ st] H bl eq by (simp add: host_ok_def content_of_def)
    then show ?thesis using a(1) b(1) tr slots_of_state [OF b(2)] slots_of_state [OF st] eq by auto
  qed
qed

section \<open>Sample data\<close>

text \<open>A host whose calls succeed, with hashes under which every slot starts open.\<close>

definition open_pcr :: proof_crates where
  "open_pcr = demo_pcr\<lparr>blake3 := (\<lambda>b. 99 # replicate 31 0)\<rparr>"

definition demo_manager :: capacity_manager where
  "demo_manager = (capacity_manager_new std_hex ''data'' (demo_address 1))\<lparr>cm_initialized := True\<rparr>"

definition demo_map :: slot_map where
  "demo_map = \<lparr>sm_slots = initial_slots demo_cr open_pcr (CapacitySeed []) (demo_address 1) (1 * 1024 * 1024),
     sm_capacity_bytes = 1 * 1024 * 1024, sm_seed = [], sm_provider_id = demo_address 1\<rparr>"

definition demo_host :: host where
  "demo_host = \<lparr>os_ok = (\<lambda>op p. True), os_torn = (\<lambda>p b. b), slot_map_to_json = (\<lambda>m. Some []), slot_map_of_json = (\<lambda>s. Some demo_map),
     content_map_to_json = (\<lambda>c. Some []), content_map_of_json = (\<lambda>s. Some Map.empty), blake3_xof = (\<lambda>b n. replicate n 0)\<rparr>"

lemma demo_host_ok: "host_ok demo_host"
  by (simp add: host_ok_def demo_host_def os_reliable_def xof_documented_def)

lemma demo_unallocated: "unallocated (\<lambda>p. None) demo_manager"
  using files_apart_new [of std_hex "''data''" "demo_address 1"]
  by (simp add: unallocated_def demo_manager_def capacity_manager_new_def Let_def) (simp add: slot_allocator_new_def Let_def)

lemma demo_slots: "length (sm_slots demo_map) = 1024" "open_count (sm_slots demo_map) = 1024"
proof -
  note C = capacity_bytes_of [of 1]
  have i: "initial_state demo_cr open_pcr (CapacitySeed []) (demo_address 1) i = SlotOpen" for i
  proof -
    have z: "le_val (replicate n 0) = 0" for n by (induction n) simp_all
    have "random_u64 open_pcr b = 99" for b by (simp add: random_u64_def open_pcr_def z)
    then show ?thesis by (simp add: initial_state_def)
  qed
  show l: "length (sm_slots demo_map) = 1024" using initial_slots_nth(1) [OF C(1)] by (simp add: demo_map_def)
  have "slot_st (sm_slots demo_map ! j) = SlotOpen" if "j < 1024" for j
    using initial_slots_nth(2) [OF C(1), of j demo_cr open_pcr "CapacitySeed []" "demo_address 1"] that i by (simp add: demo_map_def)
  then have "{i. i < length (sm_slots demo_map) \<and> slot_st (sm_slots demo_map ! i) = SlotOpen} = {0..<1024}" using l by auto
  then show "open_count (sm_slots demo_map) = 1024" by (simp add: open_count_card)
qed

lemma demo_provider:
  obtains d m f t where "allocate_capacity demo_cr open_pcr demo_host (\<lambda>p. None) demo_manager 1 [] = Some (Ok (), d, m)"
    "operates demo_cr open_pcr demo_host d m" "capacity_state demo_cr open_pcr demo_host d m demo_map f t" "slots_of m = sm_slots demo_map"
    "persisted demo_host d (cm_allocator m)" "cm_provider_id m = demo_address 1" "cm_initialized m" "length f = 1024 * 1024"
proof -
  have one: "0 < unat (1 :: u64)" "unat (1 :: u64) < 2 ^ 43" by simp_all
  show thesis
    by (rule allocate_effect [OF demo_host_ok demo_unallocated one, of demo_cr open_pcr "[]"])
      (rule that, auto intro: operates.allocated [OF demo_unallocated one] simp: demo_map_def slots_of_state,
       simp_all add: demo_manager_def capacity_manager_new_def)
qed

section \<open>Properties\<close>

text \<open>C22: the slots of a freshly allocated capacity tile the file.  For every size in mebibytes that fits in a file,
  allocation succeeds; there is one slot per 1024 bytes, all of that size, at distinct multiples of 1024 that exhaust the
  file; so the check for overlapping slots never fires.\<close>

theorem allocation_tiles_file:
  assumes "host_ok H" "unallocated d m" "0 < unat mb" "unat mb < 2 ^ 43"
  shows "\<exists>d' m' f. allocate_capacity cr pcr H d m mb random = Some (Ok (), d', m') \<and>
    d' (sa_capacity_file (cm_allocator m')) = Some f \<and> length f = unat mb * 1024 * 1024 \<and>
    length (slots_of m') = unat mb * 1024 \<and> (\<forall>s \<in> set (slots_of m'). slot_size s = MAX_CHUNK_SIZE) \<and>
    distinct (map slot_offset (slots_of m')) \<and> set (map slot_offset (slots_of m')) = (\<lambda>i. i * MAX_CHUNK_SIZE) ` {0..<unat mb * 1024}"
proof (rule allocate_effect [OF assms, of cr pcr random])
  fix d' m' sm f t
  assume a: "allocate_capacity cr pcr H d m mb random = Some (Ok (), d', m')" "capacity_state cr pcr H d' m' sm f t"
    "sm = \<lparr>sm_slots = initial_slots cr pcr (CapacitySeed random) (cm_provider_id m) (mb * 1024 * 1024),
       sm_capacity_bytes = mb * 1024 * 1024, sm_seed = random, sm_provider_id = cm_provider_id m\<rparr>" "length f = unat mb * 1024 * 1024"
  let ?q = "slot_order cr pcr (CapacitySeed random) (cm_provider_id m) (1024 * unat mb)"
  have k: "0 < 1024 * unat mb" using assms(3) by simp
  note I = initial_slots_nth [OF capacity_bytes_of(1) [OF assms(3,4)] k] and Q = slot_order_perm [OF k, of cr pcr "CapacitySeed random" "cm_provider_id m"]
  have s: "slots_of m' = sm_slots sm" "length (slots_of m') = unat mb * 1024" using slots_of_state [OF a(2)] I(1) a(3) by (simp_all add: mult.commute)
  have o: "map slot_offset (slots_of m') = map (\<lambda>i. i * MAX_CHUNK_SIZE) ?q"
    using s a(3) I(2) Q(4) by (intro nth_equalityI) (simp_all add: mult.commute)
  have "inj_on (\<lambda>i. i * MAX_CHUNK_SIZE) A" for A by (simp add: inj_on_def MAX_CHUNK_SIZE_def)
  then have "distinct (map slot_offset (slots_of m'))" "set (map slot_offset (slots_of m')) = (\<lambda>i. i * MAX_CHUNK_SIZE) ` {0..<unat mb * 1024}"
    unfolding o using Q(2,3) by (simp_all add: distinct_map mult.commute)
  moreover have "\<forall>s \<in> set (slots_of m'). slot_size s = MAX_CHUNK_SIZE" using s a(3) I(2) by (auto simp: in_set_conv_nth mult.commute)
  ultimately show ?thesis using a(1,4) s(2) capacity_stateD(2) [OF a(2)] by blast
qed

theorem allocation_tiles_file_witness:
  "\<exists>d' m'. allocate_capacity demo_cr open_pcr demo_host (\<lambda>p. None) demo_manager 1 [] = Some (Ok (), d', m') \<and> length (slots_of m') = 1024"
  using allocation_tiles_file [OF demo_host_ok demo_unallocated, of 1 demo_cr open_pcr "[]"] by auto

text \<open>C19: an honest provider is never caught out.  In every state that a provider reaches by allocating, storing and
  deleting content, a challenge for chunks of its capacity under its current root is answered, and the validator accepts
  the answer.\<close>

theorem honest_answers_accepted:
  assumes "host_ok H" "operates cr pcr H d m" "cm_initialized m" "get_merkle_root m = Ok root"
    and "gp_provider_id g = cm_provider_id m" "gp_expected_merkle_root g = root" "\<forall>i \<in> set (gp_chunk_indices g). i < length (slots_of m)"
  shows "\<exists>c. generate_capacity_proof cr H d m g now = Some (Ok c) \<and> map chunk_index (ch_proofs c) = gp_chunk_indices g \<and>
    ch_provider_id c = gp_provider_id g \<and> is_valid (validate_challenge_proof cr pcr (ch_proofs c) root (gp_chunk_indices g))"
proof -
  obtain sm f t where st: "capacity_state cr pcr H d m sm f t" using operates_state [OF assms(1,2)] by blast
  note S = capacity_stateD [OF st]
  have root: "mt_root t = root" using assms(4) S(5) by (simp add: get_merkle_root_def)
  have r: "\<forall>i \<in> set (gp_chunk_indices g). i < length (sm_slots sm)" using assms(7) slots_of_state [OF st] by simp
  have "os_ok H ''open'' (sa_capacity_file (cm_allocator m))" using assms(1) by (simp add: host_ok_def os_reliable_def)
  then show ?thesis
    using assms(3,5,6) root S(1,2,5) prove_chunks_ok [OF assms(1) st r] answer_valid [OF st r]
    by (simp add: generate_capacity_proof_def Let_def comp_def)
qed

theorem honest_answers_accepted_witness:
  "\<exists>d m root c. get_merkle_root m = Ok root \<and>
     generate_capacity_proof demo_cr demo_host d m \<lparr>gp_challenge_id = ChallengeId [], gp_challenger = demo_address 2,
       gp_provider_id = demo_address 1, gp_chunk_indices = [7, 1023], gp_block_height = 5, gp_expected_merkle_root = root,
       gp_expiration_block = 10, gp_timestamp = 0\<rparr> 0 = Some (Ok c) \<and> is_valid (validate_challenge_proof demo_cr open_pcr (ch_proofs c) root [7, 1023])"
proof -
  obtain d m f t where p: "operates demo_cr open_pcr demo_host d m" "capacity_state demo_cr open_pcr demo_host d m demo_map f t"
    "slots_of m = sm_slots demo_map" "cm_provider_id m = demo_address 1" "cm_initialized m" by (rule demo_provider)
  have root: "get_merkle_root m = Ok (mt_root t)" using capacity_stateD(5) [OF p(2)] by (simp add: get_merkle_root_def)
  from honest_answers_accepted [OF demo_host_ok p(1,5) root, of "\<lparr>gp_challenge_id = ChallengeId [], gp_challenger = demo_address 2,
       gp_provider_id = demo_address 1, gp_chunk_indices = [7, 1023], gp_block_height = 5, gp_expected_merkle_root = mt_root t,
       gp_expiration_block = 10, gp_timestamp = 0\<rparr>" 0]
  show ?thesis using p(3,4) demo_slots(1) root by auto
qed

text \<open>C20: what a commit mirrors into slots is read back.  With room for the chunks of all blobs, and keys that are new and
  different, every blob is afterwards read under its key byte for byte, and every other key reads as before.\<close>

theorem mirrored_content_readable:
  assumes "host_ok H" "operates cr pcr H d m" "distinct (map fst bs)" "\<forall>k \<in> fst ` set bs. get_content_from_slots H d m k = Ok None"
    and "sum_list (map (\<lambda>(k, b). length (chunks_of b)) bs) \<le> open_count (slots_of m)"
  shows "\<exists>d' m'. mirror_blobs cr pcr H bs (d, m) = Some (d', m') \<and>
    (\<forall>k. get_content_from_slots H d' m' k = (case map_of bs k of Some b \<Rightarrow> Ok (Some b) | None \<Rightarrow> get_content_from_slots H d m k))"
proof -
  have ok: "provider_ok cr pcr H (d, m)" using operates_state [OF assms(1,2)] assms(1) by (auto simp: provider_ok_def)
  have new: "\<forall>k \<in> fst ` set bs. get_content_of H (d, m) k = None" using assms(4) by (simp add: get_content_of_def)
  have room: "sum_list (map (\<lambda>(k, b). length (chunks_of b)) bs) \<le> free_slots (d, m)" using assms(5) by (simp add: free_slots_def)
  obtain d' m' where s': "slots.put_all cr pcr H bs (d, m) = (d', m')" by force
  note P = slots.put_all_stores [OF ok assms(3) room, unfolded s']
  have "get_content_from_slots H d' m' k = (case map_of bs k of Some b \<Rightarrow> Ok (Some b) | None \<Rightarrow> get_content_from_slots H d m k)" for k
    using provider_reads [OF P(1), of k] provider_reads [OF ok, of k] P(3) [of k] by (simp split: option.splits)
  then show ?thesis using mirror_puts [OF ok assms(3) room new] s' by (intro exI [of _ d'] exI [of _ m']) simp
qed

theorem mirrored_content_readable_witness:
  "\<exists>d m d' m'. mirror_blobs demo_cr open_pcr demo_host [(''a'', [1, 2, 3]), (''b'', [])] (d, m) = Some (d', m') \<and>
     get_content_from_slots demo_host d' m' ''a'' = Ok (Some [1, 2, 3]) \<and> get_content_from_slots demo_host d' m' ''b'' = Ok (Some [])"
proof -
  obtain d m f t where p: "operates demo_cr open_pcr demo_host d m" "capacity_state demo_cr open_pcr demo_host d m demo_map f t"
    "slots_of m = sm_slots demo_map" "allocate_capacity demo_cr open_pcr demo_host (\<lambda>p. None) demo_manager 1 [] = Some (Ok (), d, m)"
    by (rule demo_provider)
  have "sa_content_slot_map (cm_allocator m) = Map.empty"
    using p(4) by (auto simp: allocate_capacity_def allocate_capacity_internal_def Let_def set_slot_map_def demo_manager_def capacity_manager_new_def
      slot_allocator_new_def split: if_splits option.splits sum.splits prod.splits)
  then have "get_content_from_slots demo_host d m k = Ok None" for k
    by (simp add: get_content_from_slots_def find_slots_by_content_id_def)
  moreover have "sum_list (map (\<lambda>(k, b). length (chunks_of b)) [(''a'', [1, 2, 3]), (''b'', [])]) \<le> open_count (slots_of m)"
    using p(3) demo_slots(2) by (simp add: chunks_of.simps MAX_CHUNK_SIZE_def)
  ultimately show ?thesis
    using mirrored_content_readable [OF demo_host_ok p(1), of "[(''a'', [1, 2, 3]), (''b'', [])]"] by fastforce
qed

text \<open>C21: deleting undoes storing.  Content that fits is stored; deleting it afterwards releases the same slots and restores
  the Merkle tree, the states of all slots and what every key reads.\<close>

theorem delete_restores_store:
  assumes "host_ok H" "operates cr pcr H d m" "length chunks \<le> open_count (slots_of m)" "\<forall>c \<in> set chunks. length c \<le> MAX_CHUNK_SIZE"
    and "get_content_from_slots H d m cid = Ok None"
  shows "\<exists>js d1 m1 d2 m2. store_content_chunks cr pcr H d m cid chunks = Some (Ok js, d1, m1) \<and>
    get_content_from_slots H d1 m1 cid = Ok (Some (concat chunks)) \<and>
    delete_content_from_slots cr pcr H d1 m1 cid = Some (Ok (), d2, m2) \<and> cm_merkle_tree m2 = cm_merkle_tree m \<and>
    slots_of m2 = slots_of m \<and> (\<forall>k. get_content_from_slots H d2 m2 k = get_content_from_slots H d m k)"
proof -
  obtain sm f t where st: "capacity_state cr pcr H d m sm f t" using operates_state [OF assms(1,2)] by blast
  have n: "length chunks \<le> open_count (sm_slots sm)" using assms(3) slots_of_state [OF st] by simp
  have "sa_content_slot_map (cm_allocator m) cid = None"
    using assms(1,5) get_content [OF _ st, of cid] by (simp add: host_ok_def content_of_def)
  from delete_undoes [OF assms(1) st n assms(4) this] store_content [OF assms(1) st n assms(4), of cid] show ?thesis by (metis (lifting) option.inject prod.inject)
qed

theorem delete_restores_store_witness:
  "\<exists>d m js d1 m1 d2 m2. store_content_chunks demo_cr open_pcr demo_host d m ''a'' [[1], [2, 3]] = Some (Ok js, d1, m1) \<and>
     get_content_from_slots demo_host d1 m1 ''a'' = Ok (Some [1, 2, 3]) \<and>
     delete_content_from_slots demo_cr open_pcr demo_host d1 m1 ''a'' = Some (Ok (), d2, m2) \<and> cm_merkle_tree m2 = cm_merkle_tree m"
proof -
  obtain d m where p: "operates demo_cr open_pcr demo_host d m" "slots_of m = sm_slots demo_map"
    "allocate_capacity demo_cr open_pcr demo_host (\<lambda>p. None) demo_manager 1 [] = Some (Ok (), d, m)"
    by (rule demo_provider)
  have "sa_content_slot_map (cm_allocator m) = Map.empty"
    using p(3) by (auto simp: allocate_capacity_def allocate_capacity_internal_def Let_def set_slot_map_def demo_manager_def capacity_manager_new_def
      slot_allocator_new_def split: if_splits option.splits sum.splits prod.splits)
  then have "get_content_from_slots demo_host d m ''a'' = Ok None"
    by (simp add: get_content_from_slots_def find_slots_by_content_id_def)
  moreover have "length [[1], [2, 3 :: u8]] \<le> open_count (slots_of m)" "\<forall>c \<in> set [[1], [2, 3 :: u8]]. length c \<le> MAX_CHUNK_SIZE"
    using p(2) demo_slots(2) by (simp_all add: MAX_CHUNK_SIZE_def)
  ultimately show ?thesis using delete_restores_store [OF demo_host_ok p(1), of "[[1], [2, 3]]" "''a''"] by fastforce
qed

text \<open>C23: a restart loses nothing.  When the JSON texts of the two maps read back, a manager created on the files of a
  provider in operation comes up with the same slot map, the same content map and, rebuilt from the file and the seed, the
  same Merkle tree.\<close>

theorem provider_restart_same_tree:
  assumes "host_ok H" "operates cr pcr H d m" "fresh_on (cm_allocator m) m0"
    and "\<forall>sm. sa_slot_map (cm_allocator m) = Some sm \<longrightarrow> json_reads H sm (sa_content_slot_map (cm_allocator m))"
  shows "\<exists>m'. capacity_initialize cr pcr H d m0 = Some (Ok (), d, m') \<and> cm_initialized m' \<and> cm_allocator m' = cm_allocator m \<and>
    cm_merkle_tree m' = cm_merkle_tree m"
proof -
  obtain sm f t where st: "capacity_state cr pcr H d m sm f t" "persisted H d (cm_allocator m)" using operates_state [OF assms(1,2)] by blast
  then show ?thesis
    using initialize_effect [OF assms(1) st assms(3)] assms(4) capacity_stateD(1,5) [OF st(1)] by simp
qed

theorem provider_restart_same_tree_witness:
  "\<exists>d m m'. allocate_capacity demo_cr open_pcr demo_host (\<lambda>p. None) demo_manager 1 [] = Some (Ok (), d, m) \<and>
     capacity_initialize demo_cr open_pcr demo_host d (demo_manager\<lparr>cm_initialized := False\<rparr>) = Some (Ok (), d, m') \<and>
     cm_merkle_tree m' = cm_merkle_tree m"
proof -
  obtain d m f t where p: "operates demo_cr open_pcr demo_host d m" "capacity_state demo_cr open_pcr demo_host d m demo_map f t"
    "allocate_capacity demo_cr open_pcr demo_host (\<lambda>p. None) demo_manager 1 [] = Some (Ok (), d, m)"
    by (rule demo_provider)
  have a: "cm_allocator m = (cm_allocator demo_manager)\<lparr>sa_slot_map := Some demo_map\<rparr>"
    using p(3) capacity_stateD(1) [OF p(2)]
    by (auto simp: allocate_capacity_def allocate_capacity_internal_def Let_def set_slot_map_def split: if_splits option.splits sum.splits prod.splits)
  have "fresh_on (cm_allocator m) (demo_manager\<lparr>cm_initialized := False\<rparr>)"
    by (simp add: fresh_on_def a demo_manager_def capacity_manager_new_def slot_allocator_new_def Let_def)
  moreover have "\<forall>sm. sa_slot_map (cm_allocator m) = Some sm \<longrightarrow> json_reads demo_host sm (sa_content_slot_map (cm_allocator m))"
    by (simp add: a json_reads_def demo_host_def str_bytes_def from_utf8_def demo_manager_def capacity_manager_new_def slot_allocator_new_def Let_def)
  ultimately obtain m' where "capacity_initialize demo_cr open_pcr demo_host d (demo_manager\<lparr>cm_initialized := False\<rparr>) = Some (Ok (), d, m')"
    "cm_merkle_tree m' = cm_merkle_tree m"
    using provider_restart_same_tree [OF demo_host_ok p(1), of "demo_manager\<lparr>cm_initialized := False\<rparr>"] by blast
  then show ?thesis using p(3) by blast
qed

end
