(* ===== verification/Rate_Limit.thy ===== *)
theory Rate_Limit
  imports Tx
begin

text \<open>
  The rate limiters of the node: requests per minute and results per minute of the ABCI queries
  (\<^verbatim>\<open>info/abci_rate_limiting.rs\<close>), per client of the REST interface (\<^verbatim>\<open>api/api_rate_limiting.rs\<close>) and per prefix of the
  storage (\<^verbatim>\<open>storage/rate_limiter.rs\<close>).  Three of them keep the times of the accepted requests of a key; their common
  contract is the locale \<open>sliding_window\<close>, in which a limiter is proved equal to a reference that remembers
  everything, and from which the bound per minute follows.

  An \<^verbatim>\<open>Instant\<close> is its number of nanoseconds as \<^typ>\<open>int\<close>; the clock is an argument of each check.  Mutexes and
  atomics are not modelled: one request is checked at a time.
\<close>

section \<open>Queries\<close>

record request_query =
  rq_path :: string
  rq_data :: bytes

datatype abci_query_type = CadoListQuery | SingleKeyQuery | OtherQuery

definition RATE_LIMIT_MULTIPLIER :: u32 where "RATE_LIMIT_MULTIPLIER = 1000"

fun get_global_rate_limit :: "abci_query_type \<Rightarrow> u32" where
  "get_global_rate_limit CadoListQuery = 10 * RATE_LIMIT_MULTIPLIER"
| "get_global_rate_limit SingleKeyQuery = 100 * RATE_LIMIT_MULTIPLIER"
| "get_global_rate_limit OtherQuery = 50 * RATE_LIMIT_MULTIPLIER"

fun get_result_limit :: "abci_query_type \<Rightarrow> nat" where
  "get_result_limit CadoListQuery = 100 * unat RATE_LIMIT_MULTIPLIER"
| "get_result_limit SingleKeyQuery = 1"
| "get_result_limit OtherQuery = 30 * unat RATE_LIMIT_MULTIPLIER"

definition classify_query_type :: "string \<Rightarrow> abci_query_type" where
  "classify_query_type path =
    (if path \<in> {''cado_list'', ''cado_paths'', ''pinboard_feed''} then CadoListQuery
     else if path \<in> {''cado'', ''staking_account'', ''capacity_provider'', ''pinboard''} then SingleKeyQuery
     else OtherQuery)"

section \<open>Requests per minute of the clock\<close>

record global_abci_rate_limiter =
  cado_list_requests :: u32
  single_key_requests :: u32
  other_requests :: u32
  gl_last_reset :: u64

definition global_limiter_new :: global_abci_rate_limiter where
  "global_limiter_new = \<lparr>cado_list_requests = 0, single_key_requests = 0, other_requests = 0, gl_last_reset = 0\<rparr>"

definition reset_counters :: "global_abci_rate_limiter \<Rightarrow> global_abci_rate_limiter" where
  "reset_counters l = l\<lparr>cado_list_requests := 0, single_key_requests := 0, other_requests := 0\<rparr>"

definition window_start :: "u64 \<Rightarrow> u64" where "window_start now = now - now mod 60"

text \<open>\<^verbatim>\<open>fetch_add\<close> wraps.  The code of a refusal is 100.\<close>

definition check_rate_limit_by_type ::
    "u64 \<Rightarrow> abci_query_type \<Rightarrow> global_abci_rate_limiter \<Rightarrow> nat option \<times> global_abci_rate_limiter" where
  "check_rate_limit_by_type now ty l0 =
    (let l = (if gl_last_reset l0 < window_start now then (reset_counters l0)\<lparr>gl_last_reset := window_start now\<rparr> else l0);
         limit = get_global_rate_limit ty;
         (current, l') = (case ty of
             CadoListQuery \<Rightarrow> (cado_list_requests l, l\<lparr>cado_list_requests := cado_list_requests l + 1\<rparr>)
           | SingleKeyQuery \<Rightarrow> (single_key_requests l, l\<lparr>single_key_requests := single_key_requests l + 1\<rparr>)
           | OtherQuery \<Rightarrow> (other_requests l, l\<lparr>other_requests := other_requests l + 1\<rparr>))
     in (if current \<ge> limit then Some 100 else None, l'))"

definition global_check_rate_limit ::
    "u64 \<Rightarrow> request_query \<Rightarrow> global_abci_rate_limiter \<Rightarrow> nat option \<times> global_abci_rate_limiter" where
  "global_check_rate_limit now q l = check_rate_limit_by_type now (classify_query_type (rq_path q)) l"

section \<open>Results per minute of the clock\<close>

record result_limiter =
  total_results_returned :: u32
  rl_last_reset :: u64

definition result_limiter_new :: result_limiter where
  "result_limiter_new = \<lparr>total_results_returned = 0, rl_last_reset = 0\<rparr>"

definition GLOBAL_RESULT_LIMIT :: u32 where "GLOBAL_RESULT_LIMIT = 1000 * RATE_LIMIT_MULTIPLIER"

definition check_result_limit ::
    "u64 \<Rightarrow> nat \<Rightarrow> abci_query_type \<Rightarrow> result_limiter \<Rightarrow> nat option \<times> result_limiter" where
  "check_result_limit now result_count ty l0 =
    (let l = (if rl_last_reset l0 < window_start now then \<lparr>total_results_returned = 0, rl_last_reset = window_start now\<rparr> else l0);
         current = total_results_returned l
     in if result_count > get_result_limit ty then (Some 101, l)
        else if current + of_nat result_count > GLOBAL_RESULT_LIMIT then (Some 101, l)
        else (None, l\<lparr>total_results_returned := current + of_nat result_count\<rparr>))"

section \<open>Requests per key in the last minute\<close>

definition ONE_MINUTE :: int where "ONE_MINUTE = 60 * 1000000000"

text \<open>The two comparisons with the start of the window; \<^verbatim>\<open>duration_since\<close> is zero for a later instant.\<close>

definition within_minute :: "int \<Rightarrow> int \<Rightarrow> bool" where "within_minute now t \<longleftrightarrow> t > now - ONE_MINUTE"

definition up_to_minute :: "int \<Rightarrow> int \<Rightarrow> bool" where "up_to_minute now t \<longleftrightarrow> max 0 (now - t) \<le> ONE_MINUTE"

type_synonym request_log = "string \<rightharpoonup> int list"

text \<open>\<^verbatim>\<open>QueryBasedRateLimiter\<close>: one key per path and data.  The code of a refusal is 102.\<close>

definition hash_query :: "(bytes \<Rightarrow> bytes) \<Rightarrow> request_query \<Rightarrow> string" where
  "hash_query sha q = std_hex_encode (sha (str_bytes (rq_path q) @ rq_data q))"

fun get_limit_for_query_type :: "abci_query_type \<Rightarrow> nat" where
  "get_limit_for_query_type CadoListQuery = 5 * unat RATE_LIMIT_MULTIPLIER"
| "get_limit_for_query_type SingleKeyQuery = 20 * unat RATE_LIMIT_MULTIPLIER"
| "get_limit_for_query_type OtherQuery = 15 * unat RATE_LIMIT_MULTIPLIER"

definition query_check_rate_limit ::
    "(bytes \<Rightarrow> bytes) \<Rightarrow> int \<Rightarrow> request_query \<Rightarrow> request_log \<Rightarrow> nat option \<times> request_log" where
  "query_check_rate_limit sha now q requests =
    (let query_hash = hash_query sha q;
         timestamps = filter (within_minute now) (case requests query_hash of None \<Rightarrow> [] | Some ts \<Rightarrow> ts);
         limit = get_limit_for_query_type (classify_query_type (rq_path q))
     in if length timestamps \<ge> limit then (Some 102, requests(query_hash \<mapsto> timestamps))
        else (None, requests(query_hash \<mapsto> timestamps @ [now])))"

text \<open>\<^verbatim>\<open>RateLimitState\<close> of the REST interface: one key per client, a limit per kind of endpoint.\<close>

record api_rate_limit_config =
  general_requests_per_minute :: u32
  upload_requests_per_minute :: u32
  cado_requests_per_minute :: u32
  health_requests_per_minute :: u32
  enabled :: bool

definition api_rate_limit_config_default :: api_rate_limit_config where
  "api_rate_limit_config_default = \<lparr>general_requests_per_minute = 1000, upload_requests_per_minute = 100,
     cado_requests_per_minute = 2000, health_requests_per_minute = 5000, enabled = True\<rparr>"

text \<open>The configuration from the environment: a variable that is missing or does not parse leaves the default.\<close>

definition env_u32 :: "(string \<rightharpoonup> string) \<Rightarrow> string \<Rightarrow> u32 \<Rightarrow> u32" where
  "env_u32 vars name d = (case Option.bind (vars name) parse_uint of None \<Rightarrow> d | Some n \<Rightarrow> n)"

definition env_bool :: "(string \<rightharpoonup> string) \<Rightarrow> string \<Rightarrow> bool \<Rightarrow> bool" where
  "env_bool vars name d = (case vars name of None \<Rightarrow> d
     | Some s \<Rightarrow> if s = ''true'' then True else if s = ''false'' then False else d)"

definition create_api_rate_limit_config_from_env :: "(string \<rightharpoonup> string) \<Rightarrow> api_rate_limit_config" where
  "create_api_rate_limit_config_from_env vars = \<lparr>
     general_requests_per_minute = env_u32 vars ''ELD_API_RATE_LIMIT_GENERAL'' 1000,
     upload_requests_per_minute = env_u32 vars ''ELD_API_RATE_LIMIT_UPLOAD'' 100,
     cado_requests_per_minute = env_u32 vars ''ELD_API_RATE_LIMIT_CADO'' 2000,
     health_requests_per_minute = env_u32 vars ''ELD_API_RATE_LIMIT_HEALTH'' 5000,
     enabled = env_bool vars ''ELD_API_RATE_LIMIT_ENABLED'' True\<rparr>"

datatype api_endpoint_type = General | Upload | CadoEndpoint | Health

record rate_limit_state =
  clients :: request_log
  rls_config :: api_rate_limit_config

definition rate_limit_state_new :: "api_rate_limit_config \<Rightarrow> rate_limit_state" where
  "rate_limit_state_new c = \<lparr>clients = Map.empty, rls_config = c\<rparr>"

fun max_requests :: "api_rate_limit_config \<Rightarrow> api_endpoint_type \<Rightarrow> u32" where
  "max_requests c General = general_requests_per_minute c"
| "max_requests c Upload = upload_requests_per_minute c"
| "max_requests c CadoEndpoint = cado_requests_per_minute c"
| "max_requests c Health = health_requests_per_minute c"

definition api_is_allowed :: "int \<Rightarrow> string \<Rightarrow> api_endpoint_type \<Rightarrow> rate_limit_state \<Rightarrow> bool \<times> rate_limit_state" where
  "api_is_allowed now client_id ty s =
    (if \<not> enabled (rls_config s) then (True, s)
     else (let client_requests = filter (up_to_minute now)
                 (case clients s client_id of None \<Rightarrow> [] | Some ts \<Rightarrow> ts)
       in if length client_requests < unat (max_requests (rls_config s) ty)
          then (True, s\<lparr>clients := (clients s)(client_id \<mapsto> client_requests @ [now])\<rparr>)
          else (False, s\<lparr>clients := (clients s)(client_id \<mapsto> client_requests)\<rparr>)))"

text \<open>The values of the two headers that are text; \<^verbatim>\<open>to_str\<close> fails on the others.\<close>

record header_map =
  x_forwarded_for :: "string option"
  x_real_ip :: "string option"

definition extract_client_id :: "header_map \<Rightarrow> string" where
  "extract_client_id h = (case x_forwarded_for h of
      Some s \<Rightarrow> trim (takeWhile (\<lambda>c. c \<noteq> CHR '','') s)
    | None \<Rightarrow> (case x_real_ip h of Some ip \<Rightarrow> ip | None \<Rightarrow> ''unknown''))"

definition api_check_rate_limit :: "int \<Rightarrow> api_endpoint_type \<Rightarrow> header_map \<Rightarrow> rate_limit_state \<Rightarrow> bool \<times> rate_limit_state" where
  "api_check_rate_limit now ty h s = api_is_allowed now (extract_client_id h) ty s"

text \<open>\<^verbatim>\<open>PrefixQueryRateLimiter\<close> of the storage: one key per client and prefix.\<close>

record prefix_query_rate_limiter =
  pq_requests :: request_log
  max_requests_per_minute :: u32

definition prefix_limiter_new :: "u32 \<Rightarrow> prefix_query_rate_limiter" where
  "prefix_limiter_new m = \<lparr>pq_requests = Map.empty, max_requests_per_minute = m\<rparr>"

definition prefix_key :: "string \<Rightarrow> string \<Rightarrow> string" where "prefix_key client_id prefix = client_id @ '':'' @ prefix"

definition prefix_is_allowed ::
    "int \<Rightarrow> string \<Rightarrow> string \<Rightarrow> prefix_query_rate_limiter \<Rightarrow> bool \<times> prefix_query_rate_limiter" where
  "prefix_is_allowed now client_id prefix l =
    (let key = prefix_key client_id prefix in
     case pq_requests l key of
       Some ts \<Rightarrow>
         (let timestamps = filter (within_minute now) ts in
          if length timestamps < unat (max_requests_per_minute l)
          then (True, l\<lparr>pq_requests := (pq_requests l)(key \<mapsto> timestamps @ [now])\<rparr>)
          else (False, l\<lparr>pq_requests := (pq_requests l)(key \<mapsto> timestamps)\<rparr>))
     | None \<Rightarrow> (True, l\<lparr>pq_requests := (pq_requests l)(key \<mapsto> [now])\<rparr>))"

section \<open>Sliding windows\<close>

text \<open>The reference: \<open>h\<close> holds every accepted request with its key and time, oldest first; \<open>live now t\<close> says that time
  \<open>t\<close> still counts at \<open>now\<close>.\<close>

definition live_count :: "(int \<Rightarrow> int \<Rightarrow> bool) \<Rightarrow> int \<Rightarrow> 'k \<Rightarrow> ('k \<times> int) list \<Rightarrow> nat" where
  "live_count live now k h = length (filter (\<lambda>(j, t). j = k \<and> live now t) h)"

fun window_spec :: "('r \<Rightarrow> 'k) \<Rightarrow> ('r \<Rightarrow> nat) \<Rightarrow> (int \<Rightarrow> int \<Rightarrow> bool) \<Rightarrow> ('k \<times> int) list \<Rightarrow> (int \<times> 'r) list \<Rightarrow> bool list" where
  "window_spec key limit live h [] = []"
| "window_spec key limit live h ((now, r) # rs) =
    (if live_count live now (key r) h < limit r then True # window_spec key limit live (h @ [(key r, now)]) rs
     else False # window_spec key limit live h rs)"

fun run_checks :: "(int \<Rightarrow> 'r \<Rightarrow> 's \<Rightarrow> bool \<times> 's) \<Rightarrow> 's \<Rightarrow> (int \<times> 'r) list \<Rightarrow> bool list" where
  "run_checks check s [] = []"
| "run_checks check s ((now, r) # rs) = (case check now r s of (b, s') \<Rightarrow> b # run_checks check s' rs)"

definition accepted :: "(int \<times> 'r) list \<Rightarrow> bool list \<Rightarrow> (int \<times> 'r) list" where
  "accepted rs bs = map fst (filter snd (zip rs bs))"

lemma accepted_simps [simp]:
  "accepted [] bs = []" "accepted (r # rs) (True # bs) = r # accepted rs bs" "accepted (r # rs) (False # bs) = accepted rs bs"
  by (simp_all add: accepted_def)

definition ordered :: "(int \<times> 'r) list \<Rightarrow> bool" where "ordered rs = sorted (map fst rs)"

lemma ordered_Cons [simp]: "ordered ((now, r) # rs) \<longleftrightarrow> (\<forall>(t, q) \<in> set rs. now \<le> t) \<and> ordered rs"
  by (auto simp: ordered_def)

lemma live_count_append: "live_count live now k (h @ [(j, t)]) = live_count live now k h + (if j = k \<and> live now t then 1 else 0)"
  by (simp add: live_count_def)

lemma length_filter_mono: "(\<And>x. x \<in> set xs \<Longrightarrow> P x \<Longrightarrow> Q x) \<Longrightarrow> length (filter P xs) \<le> length (filter Q xs)"
  by (induction xs) (auto intro: le_SucI)

text \<open>At no instant do more than \<open>m\<close> accepted requests of a key count, when every request of that key has a limit of at most
  \<open>m\<close>.\<close>

lemma window_spec_bound:
  assumes "\<And>now now' t. live now' t \<Longrightarrow> now \<le> now' \<Longrightarrow> live now t"
    and "\<forall>(t, r) \<in> set rs. key r = k \<longrightarrow> limit r \<le> m"
    and "\<forall>T. length (filter (\<lambda>(j, t). j = k \<and> t \<le> T \<and> live T t) h) \<le> m"
    and "ordered rs" "\<forall>(j, t) \<in> set h. \<forall>(now, r) \<in> set rs. t \<le> now"
  shows "length (filter (\<lambda>(t, r). key r = k \<and> t \<le> T \<and> live T t) (accepted rs (window_spec key limit live h rs)))
    + length (filter (\<lambda>(j, t). j = k \<and> t \<le> T \<and> live T t) h) \<le> m"
  using assms(2-)
proof (induction rs arbitrary: h)
  case Nil
  then show ?case by (simp add: accepted_def)
next
  case (Cons q rs)
  obtain now r where q: "q = (now, r)" by force
  show ?case
  proof (cases "live_count live now (key r) h < limit r")
    case False
    have "length (filter (\<lambda>(t, r). key r = k \<and> t \<le> T \<and> live T t) (accepted rs (window_spec key limit live h rs)))
      + length (filter (\<lambda>(j, t). j = k \<and> t \<le> T \<and> live T t) h) \<le> m"
      by (rule Cons.IH) (use Cons.prems in \<open>auto simp: q\<close>)
    then show ?thesis using False by (simp add: q)
  next
    case True
    have new: "length (filter (\<lambda>(j, t). j = k \<and> t \<le> T' \<and> live T' t) (h @ [(key r, now)])) \<le> m" for T'
    proof (cases "key r = k \<and> now \<le> T' \<and> live T' now")
      case yes: True
      have "length (filter (\<lambda>(j, t). j = k \<and> t \<le> T' \<and> live T' t) h) \<le> live_count live now (key r) h"
        using assms(1) yes by (auto simp: live_count_def intro!: length_filter_mono)
      also have "\<dots> < m" using True Cons.prems(1) yes by (auto simp: q)
      finally show ?thesis using yes by simp
    next
      case no: False
      then show ?thesis using Cons.prems(2) by auto
    qed
    have "length (filter (\<lambda>(t, r). key r = k \<and> t \<le> T \<and> live T t) (accepted rs (window_spec key limit live (h @ [(key r, now)]) rs)))
      + length (filter (\<lambda>(j, t). j = k \<and> t \<le> T \<and> live T t) (h @ [(key r, now)])) \<le> m"
      by (rule Cons.IH) (use Cons.prems new in \<open>auto simp: q\<close>)
    then show ?thesis using True by (auto simp: q)
  qed
qed

text \<open>What the three limiters have in common.  \<open>log s k\<close> are the remembered times of a key; \<open>inv\<close> is a property of the
  configuration, \<open>limit\<close> the number of requests it allows.\<close>

locale sliding_window =
  fixes check :: "int \<Rightarrow> 'r \<Rightarrow> 's \<Rightarrow> bool \<times> 's"
    and key :: "'r \<Rightarrow> 'k"
    and limit :: "'s \<Rightarrow> 'r \<Rightarrow> nat"
    and live :: "int \<Rightarrow> int \<Rightarrow> bool"
    and log :: "'s \<Rightarrow> 'k \<Rightarrow> int list"
    and inv :: "'s \<Rightarrow> bool"
  assumes check_decides: "inv s \<Longrightarrow> fst (check now r s) \<longleftrightarrow> length (filter (live now) (log s (key r))) < limit s r"
    and check_logs: "inv s \<Longrightarrow> log (snd (check now r s)) k =
      (if k = key r then filter (live now) (log s k) @ (if fst (check now r s) then [now] else []) else log s k)"
    and check_keeps: "inv s \<Longrightarrow> inv (snd (check now r s)) \<and> limit (snd (check now r s)) = limit s"
    and live_antimono: "live now' t \<Longrightarrow> now \<le> now' \<Longrightarrow> live now t"
begin

lemma live_both: "now \<le> now' \<Longrightarrow> live now t \<and> live now' t \<longleftrightarrow> live now' t"
  using live_antimono by blast

definition agrees :: "'s \<Rightarrow> ('k \<times> int) list \<Rightarrow> int \<Rightarrow> bool" where
  "agrees s h now0 \<longleftrightarrow> (\<forall>now \<ge> now0. \<forall>k. filter (live now) (log s k) = filter (live now) (map snd (filter (\<lambda>(j, t). j = k) h)))"

lemma agrees_count:
  assumes "agrees s h now0" "now0 \<le> now"
  shows "length (filter (live now) (log s k)) = live_count live now k h"
proof -
  have "length (filter (live now) (map snd (filter (\<lambda>(j, t). j = k) h))) = live_count live now k h"
    by (induction h) (auto simp: live_count_def)
  then show ?thesis using assms by (simp add: agrees_def)
qed

lemma agrees_step:
  assumes "inv s" "agrees s h now0" "now0 \<le> now"
  shows "agrees (snd (check now r s)) (if fst (check now r s) then h @ [(key r, now)] else h) now"
  using assms(2,3) by (auto simp: agrees_def check_logs [OF assms(1)] live_both)

lemma run_agrees:
  assumes "inv s" "agrees s h now0" "ordered rs" "\<forall>(t, r) \<in> set rs. now0 \<le> t"
  shows "run_checks check s rs = window_spec key (limit s) live h rs"
  using assms
proof (induction rs arbitrary: s h now0)
  case Nil
  show ?case by simp
next
  case (Cons q rs)
  obtain now r b s' where q: "q = (now, r)" and c: "check now r s = (b, s')" by (metis surj_pair)
  have le: "now0 \<le> now" using Cons.prems(4) by (simp add: q)
  have s': "inv s'" "limit s' = limit s" using check_keeps [OF Cons.prems(1), of now r] by (simp_all add: c)
  have b: "b \<longleftrightarrow> live_count live now (key r) h < limit s r"
    using check_decides [OF Cons.prems(1), of now r] agrees_count [OF Cons.prems(2) le] by (simp add: c)
  have "run_checks check s' rs = window_spec key (limit s') live (if b then h @ [(key r, now)] else h) rs"
    by (rule Cons.IH [OF s'(1), of _ now]) (use agrees_step [OF Cons.prems(1,2) le, of r] Cons.prems(3) in \<open>auto simp: q c\<close>)
  then show ?case using b by (simp add: q c s'(2))
qed

text \<open>A limiter that starts empty decides as the reference does.\<close>

lemma run_is_spec:
  assumes "inv s" "\<And>k. log s k = []" "ordered rs"
  shows "run_checks check s rs = window_spec key (limit s) live [] rs"
proof (cases rs)
  case (Cons q qs)
  then show ?thesis
    using assms by (intro run_agrees [of _ _ "fst q"]) (auto simp: agrees_def ordered_def)
qed simp

lemma at_most_limit:
  assumes "inv s" "\<And>k. log s k = []" "ordered rs" "\<forall>(t, r) \<in> set rs. key r = k \<longrightarrow> limit s r \<le> m"
  shows "length (filter (\<lambda>(t, r). key r = k \<and> t \<le> T \<and> live T t) (accepted rs (run_checks check s rs))) \<le> m"
  using window_spec_bound [where h = "[]" and key = key, OF live_antimono assms(4) _ assms(3)] run_is_spec [OF assms(1-3)] by simp

end

section \<open>The limiters are sliding windows\<close>

definition query_allows :: "(bytes \<Rightarrow> bytes) \<Rightarrow> int \<Rightarrow> request_query \<Rightarrow> request_log \<Rightarrow> bool \<times> request_log" where
  "query_allows sha now q s = map_prod (\<lambda>c. c = None) id (query_check_rate_limit sha now q s)"

definition api_allows :: "int \<Rightarrow> header_map \<times> api_endpoint_type \<Rightarrow> rate_limit_state \<Rightarrow> bool \<times> rate_limit_state" where
  "api_allows now r s = api_check_rate_limit now (snd r) (fst r) s"

definition prefix_allows :: "int \<Rightarrow> string \<times> string \<Rightarrow> prefix_query_rate_limiter \<Rightarrow> bool \<times> prefix_query_rate_limiter" where
  "prefix_allows now r s = prefix_is_allowed now (fst r) (snd r) s"

abbreviation times_of :: "request_log \<Rightarrow> string \<Rightarrow> int list" where
  "times_of l k \<equiv> case l k of None \<Rightarrow> [] | Some ts \<Rightarrow> ts"

interpretation abci: sliding_window "query_allows sha" "hash_query sha" "\<lambda>_ q. get_limit_for_query_type (classify_query_type (rq_path q))"
    within_minute times_of "\<lambda>_. True" for sha
  by unfold_locales
    (auto simp: query_allows_def query_check_rate_limit_def Let_def, auto simp: within_minute_def)

interpretation rest: sliding_window api_allows "\<lambda>r. extract_client_id (fst r)" "\<lambda>s r. unat (max_requests (rls_config s) (snd r))"
    up_to_minute "\<lambda>s. times_of (clients s)" "\<lambda>s. enabled (rls_config s)"
  by unfold_locales
    (auto simp: api_allows_def api_check_rate_limit_def api_is_allowed_def Let_def, auto simp: up_to_minute_def)

interpretation prefix: sliding_window prefix_allows "\<lambda>r. prefix_key (fst r) (snd r)" "\<lambda>l _. unat (max_requests_per_minute l)"
    within_minute "\<lambda>l. times_of (pq_requests l)" "\<lambda>l. 0 < max_requests_per_minute l"
  by unfold_locales
    (auto simp: prefix_allows_def prefix_is_allowed_def Let_def word_less_nat_alt split: option.splits,
     auto simp: within_minute_def)

section \<open>Counters of the minute\<close>

fun run_global :: "global_abci_rate_limiter \<Rightarrow> (u64 \<times> abci_query_type) list \<Rightarrow> bool list" where
  "run_global l [] = []"
| "run_global l ((now, ty) # rs) = (case check_rate_limit_by_type now ty l of (c, l') \<Rightarrow> (c = None) # run_global l' rs)"

fun requests_of :: "abci_query_type \<Rightarrow> global_abci_rate_limiter \<Rightarrow> u32" where
  "requests_of CadoListQuery l = cado_list_requests l"
| "requests_of SingleKeyQuery l = single_key_requests l"
| "requests_of OtherQuery l = other_requests l"

lemma check_same_minute:
  assumes "gl_last_reset l = window_start now"
  shows "fst (check_rate_limit_by_type now ty l) = None \<longleftrightarrow> requests_of ty l < get_global_rate_limit ty"
    "gl_last_reset (snd (check_rate_limit_by_type now ty l)) = window_start now"
    "requests_of ty' (snd (check_rate_limit_by_type now ty l)) = requests_of ty' l + (if ty' = ty then 1 else 0)"
  using assms by (cases ty; cases ty'; auto simp: check_rate_limit_by_type_def)+

lemma check_new_minute:
  assumes "gl_last_reset l < window_start now"
  shows "check_rate_limit_by_type now ty l = check_rate_limit_by_type now ty ((reset_counters l)\<lparr>gl_last_reset := window_start now\<rparr>)"
  using assms by (simp add: check_rate_limit_by_type_def reset_counters_def)

lemma requests_of_reset [simp]: "requests_of ty ((reset_counters l)\<lparr>gl_last_reset := w\<rparr>) = 0"
  by (cases ty) (simp_all add: reset_counters_def)

text \<open>Among the requests of one minute, those of a type that pass are the first ones up to the limit.\<close>

definition passed :: "abci_query_type \<Rightarrow> (u64 \<times> abci_query_type) list \<Rightarrow> bool list \<Rightarrow> nat" where
  "passed ty rs bs = length (filter (\<lambda>(r, b). b \<and> snd r = ty) (zip rs bs))"

definition asked :: "abci_query_type \<Rightarrow> (u64 \<times> abci_query_type) list \<Rightarrow> nat" where
  "asked ty rs = length (filter (\<lambda>r. snd r = ty) rs)"

lemma run_global_minute:
  assumes "\<forall>(now, ty) \<in> set rs. window_start now = w" "gl_last_reset l = w" "unat (requests_of ty l) + length rs < 2 ^ 32"
  shows "passed ty rs (run_global l rs) = min (asked ty rs) (unat (get_global_rate_limit ty) - unat (requests_of ty l))"
  using assms
proof (induction rs arbitrary: l)
  case Nil
  then show ?case by (simp add: passed_def asked_def)
next
  case (Cons q rs)
  obtain now ty1 where q: "q = (now, ty1)" by force
  obtain c l' where c: "check_rate_limit_by_type now ty1 l = (c, l')" by force
  have w: "gl_last_reset l = window_start now" using Cons.prems(1,2) by (simp add: q)
  note chk = check_same_minute [OF w, where ty = ty1, unfolded c fst_conv snd_conv]
  have cnt: "unat (requests_of ty l') = unat (requests_of ty l) + (if ty = ty1 then 1 else 0)"
    using Cons.prems(3) chk(3) [of ty] by (auto simp: unat_word_ariths)
  have IH: "passed ty rs (run_global l' rs) = min (asked ty rs) (unat (get_global_rate_limit ty) - unat (requests_of ty l'))"
    by (rule Cons.IH) (use Cons.prems chk(2) cnt w in \<open>auto simp: q\<close>)
  show ?case
    using IH cnt chk(1) by (auto simp: q c passed_def asked_def word_less_nat_alt)
qed

fun run_results :: "result_limiter \<Rightarrow> (u64 \<times> nat \<times> abci_query_type) list \<Rightarrow> bool list" where
  "run_results l [] = []"
| "run_results l ((now, n, ty) # rs) = (case check_result_limit now n ty l of (c, l') \<Rightarrow> (c = None) # run_results l' rs)"

definition returned :: "(u64 \<times> nat \<times> abci_query_type) list \<Rightarrow> bool list \<Rightarrow> nat" where
  "returned rs bs = sum_list (map (\<lambda>(r, b). if b then fst (snd r) else 0) (zip rs bs))"

lemma limit_values: "unat RATE_LIMIT_MULTIPLIER = 1000" "unat GLOBAL_RESULT_LIMIT = 1000000"
  by (simp_all add: RATE_LIMIT_MULTIPLIER_def GLOBAL_RESULT_LIMIT_def)

lemma get_result_limit_le: "get_result_limit ty \<le> 100000"
  by (cases ty) (simp_all add: limit_values)

lemma result_addition:
  assumes "total_results_returned l \<le> GLOBAL_RESULT_LIMIT" "n \<le> get_result_limit ty"
  shows "unat (total_results_returned l + of_nat n) = unat (total_results_returned l) + n"
proof -
  have "unat (total_results_returned l) \<le> 1000000" using assms(1) by (simp add: word_le_nat_alt limit_values)
  moreover have "n \<le> 100000" using assms(2) get_result_limit_le [of ty] by simp
  ultimately show ?thesis by (simp add: unat_word_ariths unat_of_nat)
qed

lemma result_same_minute:
  assumes "total_results_returned l \<le> GLOBAL_RESULT_LIMIT" "rl_last_reset l = window_start now"
    and "check_result_limit now n ty l = (c, l')"
  shows "total_results_returned l' \<le> GLOBAL_RESULT_LIMIT" "rl_last_reset l' = window_start now"
    "unat (total_results_returned l') = unat (total_results_returned l) + (if c = None then n else 0)"
  using assms result_addition [OF assms(1), of n ty] by (auto simp: check_result_limit_def Let_def split: if_splits)

lemma run_results_minute:
  assumes "\<forall>(now, n, ty) \<in> set rs. window_start now = w" "total_results_returned l \<le> GLOBAL_RESULT_LIMIT" "rl_last_reset l = w"
  shows "unat (total_results_returned l) + returned rs (run_results l rs) \<le> unat GLOBAL_RESULT_LIMIT"
  using assms
proof (induction rs arbitrary: l)
  case Nil
  then show ?case by (simp add: returned_def word_le_nat_alt)
next
  case (Cons q rs)
  obtain now n ty where q: "q = (now, n, ty)" by (metis surj_pair)
  obtain c l' where c: "check_result_limit now n ty l = (c, l')" by force
  have w: "rl_last_reset l = window_start now" using Cons.prems(1,3) by (simp add: q)
  note step = result_same_minute [OF Cons.prems(2) w c]
  have "unat (total_results_returned l') + returned rs (run_results l' rs) \<le> unat GLOBAL_RESULT_LIMIT"
    by (rule Cons.IH) (use Cons.prems step w in \<open>auto simp: q\<close>)
  then show ?case using step(3) by (auto simp: q c returned_def)
qed

section \<open>Properties\<close>

text \<open>C34: the REST limiter decides as a log of every accepted request would.  A request is served exactly when fewer of
  the requests of its client, counted over all kinds of endpoints, were served in the last minute than its own kind allows;
  so within a minute a client is served at most as often as the most generous of the kinds it uses allows.\<close>

theorem rest_clients_limited:
  assumes "ordered rs" "enabled c"
  shows "run_checks api_allows (rate_limit_state_new c) rs =
      window_spec (\<lambda>r. extract_client_id (fst r)) (\<lambda>r. unat (max_requests c (snd r))) up_to_minute [] rs \<and>
    (\<forall>client m T. (\<forall>(t, r) \<in> set rs. extract_client_id (fst r) = client \<longrightarrow> unat (max_requests c (snd r)) \<le> m) \<longrightarrow>
      length (filter (\<lambda>(t, r). extract_client_id (fst r) = client \<and> t \<le> T \<and> T - t \<le> ONE_MINUTE)
        (accepted rs (run_checks api_allows (rate_limit_state_new c) rs))) \<le> m)"
proof -
  let ?s = "rate_limit_state_new c"
  have s: "enabled (rls_config ?s)" "times_of (clients ?s) k = []" for k using assms(2) by (simp_all add: rate_limit_state_new_def)
  have same: "(\<lambda>(t, r). extract_client_id (fst r) = client \<and> t \<le> T \<and> T - t \<le> ONE_MINUTE) =
      (\<lambda>(t, r). extract_client_id (fst r) = client \<and> t \<le> T \<and> up_to_minute T t)" for client T
    by (auto simp: up_to_minute_def ONE_MINUTE_def)
  show ?thesis
    using rest.run_is_spec [OF s assms(1)] rest.at_most_limit [OF s assms(1)]
    unfolding same by (simp add: rate_limit_state_new_def)
qed

definition demo_headers :: header_map where
  "demo_headers = \<lparr>x_forwarded_for = Some ''10.0.0.1, 10.0.0.2'', x_real_ip = None\<rparr>"

definition demo_config :: api_rate_limit_config where
  "demo_config = api_rate_limit_config_default\<lparr>upload_requests_per_minute := 1\<rparr>"

theorem rest_clients_limited_witness:
  "run_checks api_allows (rate_limit_state_new demo_config)
     [(0, demo_headers, CadoEndpoint), (1, demo_headers, Upload), (60000000002, demo_headers, Upload)] = [True, False, True]"
  using rest_clients_limited
    [of "[(0, demo_headers, CadoEndpoint), (1, demo_headers, Upload), (60000000002, demo_headers, Upload)]" demo_config]
  by (simp add: ordered_def demo_config_def api_rate_limit_config_default_def live_count_def up_to_minute_def ONE_MINUTE_def)

text \<open>C35: what the counters of a minute let through.  Of the ABCI queries of one minute, those of each kind pass up to the limit
  of the kind and no further, as long as they are fewer than \<open>2 ^ 32\<close>, and the results returned by all of them together
  stay within the global limit.\<close>

theorem abci_minute_limits:
  assumes "\<forall>(now, ty) \<in> set rs. window_start now = w" "gl_last_reset l < w" "length rs < 2 ^ 32"
    and "\<forall>(now, n, ty) \<in> set qs. window_start now = w" "rl_last_reset k < w"
  shows "passed ty rs (run_global l rs) = min (asked ty rs) (unat (get_global_rate_limit ty)) \<and>
    returned qs (run_results k qs) \<le> 1000000"
proof
  show "passed ty rs (run_global l rs) = min (asked ty rs) (unat (get_global_rate_limit ty))"
  proof (cases rs)
    case (Cons q qs)
    obtain now ty1 where q: "q = (now, ty1)" by force
    have "run_global l rs = run_global ((reset_counters l)\<lparr>gl_last_reset := w\<rparr>) rs"
      using assms(1,2) check_new_minute [of l now ty1] by (simp add: Cons q)
    then show ?thesis
      using run_global_minute [OF assms(1), of "(reset_counters l)\<lparr>gl_last_reset := w\<rparr>" ty] assms(3) by simp
  qed (simp add: passed_def asked_def)
  show "returned qs (run_results k qs) \<le> 1000000"
  proof (cases qs)
    case (Cons q qs')
    obtain now n ty1 where q: "q = (now, n, ty1)" by (metis surj_pair)
    have "run_results k qs = run_results \<lparr>total_results_returned = 0, rl_last_reset = w\<rparr> qs"
      using assms(4,5) by (simp add: Cons q check_result_limit_def Let_def)
    then show ?thesis
      using run_results_minute [OF assms(4), of "\<lparr>total_results_returned = 0, rl_last_reset = w\<rparr>"] by (simp add: limit_values)
  qed (simp add: returned_def)
qed

theorem abci_minute_limits_witness:
  "passed CadoListQuery [(61, CadoListQuery), (119, OtherQuery)] (run_global global_limiter_new [(61, CadoListQuery), (119, OtherQuery)]) = 1 \<and>
   returned [(61, 2, SingleKeyQuery), (62, 5, OtherQuery)] (run_results result_limiter_new [(61, 2, SingleKeyQuery), (62, 5, OtherQuery)]) \<le> 1000000"
  using abci_minute_limits [of "[(61, CadoListQuery), (119, OtherQuery)]" 60 global_limiter_new
      "[(61, 2, SingleKeyQuery), (62, 5, OtherQuery)]" result_limiter_new CadoListQuery]
  by (simp add: window_start_def global_limiter_new_def result_limiter_new_def asked_def RATE_LIMIT_MULTIPLIER_def)

end
