(* ===== verification/Queries.thy ===== *)
theory Queries
  imports Storage Rate_Limit
begin

text \<open>
  Listing queries of the storage: pagination (\<^verbatim>\<open>api/pagination.rs\<close>), the security check of prefixes
  (\<^verbatim>\<open>rocksdb/cado/path.rs\<close>), the prefix scans over the path index (\<^verbatim>\<open>rocksdb/cado/prefix.rs\<close>, \<^verbatim>\<open>rocksdb/cado/get.rs\<close>) and over
  the pinboard indexes (\<^verbatim>\<open>rocksdb/pinboard.rs\<close>).  The scans of the source repeat one loop with different row readers;
  \<open>scan_rows\<close> is that loop.  The lemmas compute what a page holds from the rows of the index.
\<close>

section \<open>Pagination\<close>

record pagination_params =
  page :: u64
  page_size :: u64

definition pagination_default :: pagination_params where "pagination_default = \<lparr>page = 0, page_size = 100\<rparr>"

definition pagination_validate :: "pagination_params \<Rightarrow> nat \<Rightarrow> unit res" where
  "pagination_validate p max_page_size =
    (if unat (page_size p) > max_page_size then Err (ValidationError ''page size'')
     else if page_size p = 0 then Err (ValidationError ''page size'') else Ok ())"

text \<open>The multiplication of two \<^verbatim>\<open>usize\<close> wraps in a release build.\<close>

definition pagination_offset :: "pagination_params \<Rightarrow> nat" where "pagination_offset p = unat (page p * page_size p)"

record 'a paginated_result =
  items :: "'a list"
  total :: "nat option"
  pr_page :: u64
  pr_page_size :: u64
  total_pages :: "nat option"
  next_cursor :: "string option"
  has_more :: bool

definition paginated_result_new :: "'a list \<Rightarrow> u64 \<Rightarrow> u64 \<Rightarrow> bool \<Rightarrow> 'a paginated_result" where
  "paginated_result_new xs pg ps further = \<lparr>items = xs, total = None, pr_page = pg, pr_page_size = ps, total_pages = None,
     next_cursor = (if further then Some (show_nat (unat (pg + 1)) @ '':'' @ show_nat (unat ps)) else None), has_more = further\<rparr>"

record prefix_query_options =
  pagination :: pagination_params
  max_results :: nat
  max_memory_bytes :: nat
  query_client_id :: string

definition prefix_query_options_default :: prefix_query_options where
  "prefix_query_options_default = \<lparr>pagination = pagination_default, max_results = 1000,
     max_memory_bytes = 50 * 1024 * 1024, query_client_id = ''unknown''\<rparr>"

definition options_validate :: "prefix_query_options \<Rightarrow> unit res" where
  "options_validate opts = and_then (pagination_validate (pagination opts) (max_results opts)) (\<lambda>_.
     if max_results opts = 0 then Err (ValidationError ''max results'')
     else if max_memory_bytes opts = 0 then Err (ValidationError ''max memory bytes'') else Ok ())"

section \<open>Prefixes\<close>

definition MAX_PREFIX_LENGTH :: nat where "MAX_PREFIX_LENGTH = 256"

definition validate_cado_prefix_security :: "string \<Rightarrow> unit res" where
  "validate_cado_prefix_security prefix =
    (if length prefix > MAX_PREFIX_LENGTH then Err (ValidationError ''cado_prefix_length'')
     else if list_ex (\<lambda>pat. contains_str pat (to_ascii_lowercase prefix)) [''..'', ''//'', backslash, ''~'']
       then Err (ValidationError ''cado_prefix_traversal'')
     else if \<not> starts_with ''/'' prefix then Err (ValidationError ''cado_prefix_format'')
     else if has_forbidden_control prefix then Err (ValidationError ''cado_prefix_control_chars'')
     else if CHR 0x00 \<in> set prefix then Err (ValidationError ''cado_prefix_null_bytes'')
     else (case filter (\<lambda>w. w \<noteq> []) (split_on CHR ''/'' prefix) of
         [] \<Rightarrow> Ok ()
       | scope # _ \<Rightarrow> if starts_with ''@'' scope \<and> scope \<notin> set ALLOWED_SCOPES then Err (ValidationError ''cado_prefix_scope'')
           else Ok ()))"

section \<open>Scans\<close>

text \<open>A row of an iterator is a key with its value or a read error.\<close>

type_synonym row = "(bytes \<times> bytes) option"

record db_iter =
  iter_from :: "column_family \<Rightarrow> bytes \<Rightarrow> row list"
  iter_start :: "column_family \<Rightarrow> row list"
  iter_end :: "column_family \<Rightarrow> row list"

text \<open>What a scan makes of a row on the page: an error, the end of the scan, or an item or none with the memory counted so far.\<close>

datatype 'a picked = Failed eld_error | Halted | Got "'a option" nat

record 'a scan =
  sc_read_error :: eld_error
  sc_utf8_error :: eld_error
  sc_keep :: "string \<Rightarrow> bool"
  sc_size :: "string \<Rightarrow> bytes \<Rightarrow> nat"
  sc_pick :: "nat \<Rightarrow> string \<Rightarrow> bytes \<Rightarrow> 'a picked"

record 'a scan_state =
  total_processed :: nat
  estimated_memory_usage :: nat
  scanned :: "'a list"

fun scan_rows :: "'a scan \<Rightarrow> prefix_query_options \<Rightarrow> row list \<Rightarrow> 'a scan_state \<Rightarrow> 'a scan_state res" where
  "scan_rows S opts [] s = Ok s"
| "scan_rows S opts (None # rows) s = Err (sc_read_error S)"
| "scan_rows S opts (Some (k, v) # rows) s = (case from_utf8 k of
      None \<Rightarrow> Err (sc_utf8_error S)
    | Some key \<Rightarrow>
      if \<not> sc_keep S key then Ok s
      else (let s1 = s\<lparr>total_processed := total_processed s + 1, estimated_memory_usage := estimated_memory_usage s + sc_size S key v\<rparr> in
        if estimated_memory_usage s1 > max_memory_bytes opts then Ok s1
        else if total_processed s1 > max_results opts then Ok s1
        else if total_processed s1 > pagination_offset (pagination opts) then
          (if length (scanned s1) < unat (page_size (pagination opts)) then
             (case sc_pick S (estimated_memory_usage s1) key v of
                Failed e \<Rightarrow> Err e
              | Halted \<Rightarrow> Ok s1
              | Got None m \<Rightarrow> scan_rows S opts rows (s1\<lparr>estimated_memory_usage := m\<rparr>)
              | Got (Some x) m \<Rightarrow> scan_rows S opts rows (s1\<lparr>estimated_memory_usage := m, scanned := scanned s1 @ [x]\<rparr>))
           else Ok s1)
        else scan_rows S opts rows s1))"

definition scan_page :: "'a scan \<Rightarrow> prefix_query_options \<Rightarrow> row list \<Rightarrow> 'a paginated_result res" where
  "scan_page S opts rows =
     and_then (scan_rows S opts rows \<lparr>total_processed = 0, estimated_memory_usage = 0, scanned = []\<rparr>) (\<lambda>s.
       Ok (paginated_result_new (scanned s) (page (pagination opts)) (page_size (pagination opts))
         (total_processed s > pagination_offset (pagination opts) + length (scanned s))))"

text \<open>The checks before every paginated scan: the options, then the rate limiter.\<close>

definition guarded_scan ::
    "int \<Rightarrow> prefix_query_options \<Rightarrow> string \<Rightarrow> prefix_query_rate_limiter \<Rightarrow> 'a res \<Rightarrow> 'a res \<times> prefix_query_rate_limiter" where
  "guarded_scan now opts prefix l run = (case options_validate opts of
      Inl _ \<Rightarrow> (Err (ValidationError ''prefix_query_options''), l)
    | Inr _ \<Rightarrow> (case prefix_is_allowed now (query_client_id opts) prefix l of
        (False, l') \<Rightarrow> (Err (StorageError ''rate_limited_query''), l')
      | (True, l') \<Rightarrow> (run, l')))"

section \<open>Objects and paths by prefix\<close>

definition get_cado_paths_by_prefix_secure ::
    "hex_lib \<Rightarrow> db_iter \<Rightarrow> int \<Rightarrow> string \<Rightarrow> prefix_query_options \<Rightarrow> prefix_query_rate_limiter
     \<Rightarrow> cado_path paginated_result res \<times> prefix_query_rate_limiter" where
  "get_cado_paths_by_prefix_secure hx it now prefix opts l = guarded_scan now opts prefix l
     (scan_page \<lparr>sc_read_error = StorageError ''read_path_index_cf'', sc_utf8_error = ValidationError ''path_utf8'',
         sc_keep = starts_with prefix, sc_size = (\<lambda>key v. length key),
         sc_pick = (\<lambda>m key v. case cado_path_parse hx key of Inl e \<Rightarrow> Failed e | Inr p \<Rightarrow> Got (Some p) m)\<rparr>
       opts (iter_from it PathIndexCf (str_bytes prefix)))"

definition get_cados_by_prefix_secure ::
    "store_codec \<Rightarrow> db_iter \<Rightarrow> reader \<Rightarrow> int \<Rightarrow> string \<Rightarrow> prefix_query_options \<Rightarrow> prefix_query_rate_limiter
     \<Rightarrow> cado_body paginated_result res \<times> prefix_query_rate_limiter" where
  "get_cados_by_prefix_secure sc it rd now prefix opts l = guarded_scan now opts prefix l
     (scan_page \<lparr>sc_read_error = StorageError ''read_path_index_cf'', sc_utf8_error = ValidationError ''path_utf8'',
         sc_keep = starts_with prefix, sc_size = (\<lambda>key v. length key + length v),
         sc_pick = (\<lambda>m key v. case rd CadoCf v of
             None \<Rightarrow> Failed (StorageError ''read_cado_cf'')
           | Some None \<Rightarrow> Got None m
           | Some (Some d) \<Rightarrow>
               if m + length d > max_memory_bytes opts then Halted
               else (case safe_deserialize_cado_data (dec_cado sc) d of
                   Inl _ \<Rightarrow> Failed (StorageError ''deserialize_cado_type'')
                 | Inr b \<Rightarrow> Got (Some b) (m + length d)))\<rparr>
       opts (iter_from it PathIndexCf (str_bytes prefix)))"

text \<open>The callers without options count against the client \<^verbatim>\<open>default\<close> first.\<close>

definition default_guard ::
    "int \<Rightarrow> string \<Rightarrow> prefix_query_rate_limiter \<Rightarrow> (prefix_query_rate_limiter \<Rightarrow> 'a res \<times> prefix_query_rate_limiter)
     \<Rightarrow> 'a res \<times> prefix_query_rate_limiter" where
  "default_guard now prefix l run = (case validate_cado_prefix_security prefix of
      Inl e \<Rightarrow> (Err e, l)
    | Inr _ \<Rightarrow> (case prefix_is_allowed now ''default'' prefix l of
        (False, l') \<Rightarrow> (Err (StorageError ''rate_limit_check''), l')
      | (True, l') \<Rightarrow> run l'))"

definition get_cado_paths_by_prefix ::
    "hex_lib \<Rightarrow> db_iter \<Rightarrow> int \<Rightarrow> string \<Rightarrow> prefix_query_rate_limiter \<Rightarrow> cado_path list res \<times> prefix_query_rate_limiter" where
  "get_cado_paths_by_prefix hx it now prefix l = default_guard now prefix l (\<lambda>l'.
     map_prod (\<lambda>r. and_then r (\<lambda>pr. Ok (items pr))) id
       (get_cado_paths_by_prefix_secure hx it now prefix prefix_query_options_default l'))"

definition get_cados_by_prefix ::
    "store_codec \<Rightarrow> db_iter \<Rightarrow> reader \<Rightarrow> int \<Rightarrow> string \<Rightarrow> prefix_query_rate_limiter \<Rightarrow> cado_body list res \<times> prefix_query_rate_limiter" where
  "get_cados_by_prefix sc it rd now prefix l = default_guard now prefix l (\<lambda>l'.
     map_prod (\<lambda>r. and_then r (\<lambda>pr. Ok (items pr))) id
       (get_cados_by_prefix_secure sc it rd now prefix prefix_query_options_default l'))"

text \<open>\<^verbatim>\<open>search_cado_path\<close> reads the whole index once, for a log line, and fails on a row it cannot decode.\<close>

fun index_decodes :: "row list \<Rightarrow> unit res" where
  "index_decodes [] = Ok ()"
| "index_decodes (None # rows) = Err (StorageError ''iterator_read'')"
| "index_decodes (Some (k, v) # rows) = (case from_utf8 k of
      None \<Rightarrow> Err (StorageError ''utf8_decode_path'')
    | Some _ \<Rightarrow> (case from_utf8 v of None \<Rightarrow> Err (StorageError ''utf8_decode_key'') | Some _ \<Rightarrow> index_decodes rows))"

fun search_rows :: "store_codec \<Rightarrow> reader \<Rightarrow> string \<Rightarrow> row list \<Rightarrow> (string \<times> cado_body) list res" where
  "search_rows sc rd prefix [] = Ok []"
| "search_rows sc rd prefix (None # rows) = Err (StorageError ''iterator_read'')"
| "search_rows sc rd prefix (Some (k, v) # rows) = (case from_utf8 k of
      None \<Rightarrow> Err (StorageError ''utf8_decode_path'')
    | Some key \<Rightarrow>
      if \<not> starts_with prefix key then Ok []
      else (case rd CadoCf v of
          None \<Rightarrow> Err (StorageError ''get_cf_cado'')
        | Some None \<Rightarrow> search_rows sc rd prefix rows
        | Some (Some d) \<Rightarrow> (case safe_deserialize_cado_data (dec_cado sc) d of
            Inl _ \<Rightarrow> search_rows sc rd prefix rows
          | Inr b \<Rightarrow> and_then (search_rows sc rd prefix rows) (\<lambda>found. Ok ((key, b) # found)))))"

definition search_cado_path ::
    "store_codec \<Rightarrow> db_iter \<Rightarrow> reader \<Rightarrow> int \<Rightarrow> string \<Rightarrow> prefix_query_rate_limiter
     \<Rightarrow> (string \<times> cado_body) list res \<times> prefix_query_rate_limiter" where
  "search_cado_path sc it rd now prefix l = default_guard now prefix l (\<lambda>l'.
     (and_then (index_decodes (iter_start it PathIndexCf)) (\<lambda>_.
        search_rows sc rd prefix (iter_from it PathIndexCf (str_bytes prefix))), l'))"

definition named_by_hash :: "string \<Rightarrow> bool" where
  "named_by_hash path = starts_with ''0x'' (last (split_on CHR ''/'' path))"

definition search_cado_hash ::
    "store_codec \<Rightarrow> db_iter \<Rightarrow> reader \<Rightarrow> int \<Rightarrow> string \<Rightarrow> prefix_query_rate_limiter
     \<Rightarrow> (string \<times> cado_body) list res \<times> prefix_query_rate_limiter" where
  "search_cado_hash sc it rd now prefix l =
     map_prod (\<lambda>r. and_then r (\<lambda>found. Ok (filter (\<lambda>(path, _). named_by_hash path) found))) id (search_cado_path sc it rd now prefix l)"

definition search_cado_name ::
    "store_codec \<Rightarrow> db_iter \<Rightarrow> reader \<Rightarrow> int \<Rightarrow> string \<Rightarrow> prefix_query_rate_limiter
     \<Rightarrow> (string \<times> cado_body) list res \<times> prefix_query_rate_limiter" where
  "search_cado_name sc it rd now prefix l =
     map_prod (\<lambda>r. and_then r (\<lambda>found. Ok (filter (\<lambda>(path, _). \<not> named_by_hash path) found))) id (search_cado_path sc it rd now prefix l)"

section \<open>Pinboard listings\<close>

definition rsplit_once :: "char \<Rightarrow> string \<Rightarrow> string" where
  "rsplit_once c s = (if c \<in> set s then rev (takeWhile (\<lambda>d. d \<noteq> c) (rev s)) else s)"

definition split_once :: "char \<Rightarrow> string \<Rightarrow> string" where
  "split_once c s = (if c \<in> set s then tl (dropWhile (\<lambda>d. d \<noteq> c) s) else s)"

definition get_pinboard_message_ids_by_tag_secure ::
    "hex_lib \<Rightarrow> db_iter \<Rightarrow> int \<Rightarrow> string \<Rightarrow> prefix_query_options \<Rightarrow> prefix_query_rate_limiter
     \<Rightarrow> string paginated_result res \<times> prefix_query_rate_limiter" where
  "get_pinboard_message_ids_by_tag_secure hx it now tag0 opts l = guarded_scan now opts (''pinboard_idx_tag:'' @ tag0) l
     (and_then (canonicalize_post_message_tags hx [tag0]) (\<lambda>tags.
        let tag = (case tags of [] \<Rightarrow> tag0 | t # _ \<Rightarrow> t); prefix = tag @ '':'' in
        scan_page \<lparr>sc_read_error = StorageError ''read_pinboard_idx_tag'', sc_utf8_error = ValidationError ''pinboard_tag_index_key_utf8'',
            sc_keep = starts_with prefix, sc_size = (\<lambda>key v. length key),
            sc_pick = (\<lambda>m key v. Got (Some (rsplit_once CHR '':'' key)) m)\<rparr>
          opts (iter_from it PinboardIdxTagCf (str_bytes prefix))))"

definition get_pinboard_message_ids_by_wallet_secure ::
    "db_iter \<Rightarrow> int \<Rightarrow> string \<Rightarrow> prefix_query_options \<Rightarrow> prefix_query_rate_limiter
     \<Rightarrow> string paginated_result res \<times> prefix_query_rate_limiter" where
  "get_pinboard_message_ids_by_wallet_secure it now wallet opts l = guarded_scan now opts (''pinboard_idx_wallet:'' @ wallet) l
     (let prefix = wallet @ '':'' in
      scan_page \<lparr>sc_read_error = StorageError ''read_pinboard_idx_wallet'', sc_utf8_error = ValidationError ''pinboard_wallet_index_key_utf8'',
          sc_keep = starts_with prefix, sc_size = (\<lambda>key v. length key),
          sc_pick = (\<lambda>m key v. Got (Some (rsplit_once CHR '':'' key)) m)\<rparr>
        opts (iter_from it PinboardIdxWalletCf (str_bytes prefix)))"

datatype pinboard_global_feed_order = Asc | Desc

definition get_pinboard_message_ids_global_secure ::
    "db_iter \<Rightarrow> int \<Rightarrow> pinboard_global_feed_order \<Rightarrow> prefix_query_options \<Rightarrow> prefix_query_rate_limiter
     \<Rightarrow> string paginated_result res \<times> prefix_query_rate_limiter" where
  "get_pinboard_message_ids_global_secure it now order opts l = guarded_scan now opts ''pinboard_idx_commit:global'' l
     (scan_page \<lparr>sc_read_error = StorageError ''read_pinboard_idx_commit'', sc_utf8_error = ValidationError ''pinboard_commit_index_key_utf8'',
         sc_keep = (\<lambda>_. True), sc_size = (\<lambda>key v. length key),
         sc_pick = (\<lambda>m key v. Got (Some (split_once CHR '':'' key)) m)\<rparr>
       opts (case order of Asc \<Rightarrow> iter_start it PinboardIdxCommitCf | Desc \<Rightarrow> iter_end it PinboardIdxCommitCf))"

section \<open>Rows of an index\<close>

text \<open>The documented behaviour of an iterator over a column family with the rows \<open>rows\<close>: it visits them in the order of their
  keys, from a key on, from the first one, or backwards from the last one.\<close>

definition iter_documented :: "db_iter \<Rightarrow> reader \<Rightarrow> column_family \<Rightarrow> (bytes \<times> bytes) list \<Rightarrow> bool" where
  "iter_documented it rd cf rows \<longleftrightarrow>
     sorted_wrt (<) (map fst rows) \<and> (\<forall>k v. (k, v) \<in> set rows \<longleftrightarrow> rd cf k = Some (Some v)) \<and>
     (\<forall>p. iter_from it cf p = map Some (filter (\<lambda>(k, _). p \<le> k) rows)) \<and>
     iter_start it cf = map Some rows \<and> iter_end it cf = map Some (rev rows)"

definition key_prefix :: "bytes \<Rightarrow> bytes \<Rightarrow> bool" where "key_prefix p k \<longleftrightarrow> take (length p) k = p"

lemma key_prefix_Cons [simp]:
  "key_prefix [] k" "\<not> key_prefix (a # p) []" "key_prefix (a # p) (b # k) \<longleftrightarrow> a = b \<and> key_prefix p k"
  by (auto simp: key_prefix_def)

lemma key_prefix_le: "key_prefix p k \<Longrightarrow> p \<le> k"
proof (induction p arbitrary: k)
  case (Cons a p)
  then show ?case by (cases k) auto
qed simp

lemma key_prefix_interval: "p \<le> k \<Longrightarrow> \<not> key_prefix p k \<Longrightarrow> k \<le> k' \<Longrightarrow> \<not> key_prefix p k'"
proof (induction p arbitrary: k k')
  case (Cons a p)
  from Cons.prems(1) obtain b q where k: "k = b # q" by (cases k) auto
  show ?case
  proof (cases k')
    case (Cons c r)
    then show ?thesis using Cons.prems Cons.IH [of q r] by (auto simp: k)
  qed simp
qed simp

text \<open>The keys with a prefix are the first ones at or after the prefix.\<close>

lemma prefix_rows:
  assumes "sorted_wrt (<) (map fst rows)"
  obtains rest where "filter (\<lambda>(k, _). p \<le> k) rows = filter (\<lambda>(k, _). key_prefix p k) rows @ rest"
    "rest = [] \<or> (\<exists>k v rest'. rest = (k, v) # rest' \<and> \<not> key_prefix p k \<and> (k, v) \<in> set rows)"
proof -
  have "\<exists>rest. filter (\<lambda>(k, _). p \<le> k) rows = filter (\<lambda>(k, _). key_prefix p k) rows @ rest \<and> (\<forall>(k, v) \<in> set rest. \<not> key_prefix p k \<and> (k, v) \<in> set rows)"
    using assms
  proof (induction rows)
    case (Cons r rows)
    obtain k v where r: "r = (k, v)" by force
    from Cons obtain rest where rest: "filter (\<lambda>(k, _). p \<le> k) rows = filter (\<lambda>(k, _). key_prefix p k) rows @ rest"
      "\<forall>(k, v) \<in> set rest. \<not> key_prefix p k \<and> (k, v) \<in> set rows" by auto
    show ?case
    proof (cases "p \<le> k \<and> \<not> key_prefix p k")
      case True
      then have none: "filter (\<lambda>(k, _). key_prefix p k) rows = []"
        using Cons.prems key_prefix_interval by (fastforce simp: r filter_empty_conv)
      then show ?thesis using True rest by (intro exI [of _ "r # rest"]) (auto simp: r)
    next
      case False
      then show ?thesis using rest key_prefix_le [of p k] by (intro exI [of _ rest]) (auto simp: r)
    qed
  qed simp
  then obtain rest where "filter (\<lambda>(k, _). p \<le> k) rows = filter (\<lambda>(k, _). key_prefix p k) rows @ rest"
    "\<forall>(k, v) \<in> set rest. \<not> key_prefix p k \<and> (k, v) \<in> set rows" by blast
  then show thesis by (intro that [of rest]) (cases rest; auto)+
qed

lemma from_utf8_bytes: "from_utf8 k = Some s \<Longrightarrow> str_bytes s = k \<and> length s = length k"
proof -
  have "unat b < 2 ^ LENGTH(8)" for b :: u8 by (rule unsigned_less)
  then have "(word_of_nat (unat b mod 256) :: u8) = b" for b :: u8 by simp
  then show "from_utf8 k = Some s \<Longrightarrow> str_bytes s = k \<and> length s = length k"
    by (auto simp: from_utf8_def str_bytes_def comp_def map_idI split: if_splits)
qed

lemma length_str_bytes [simp]: "length (str_bytes s) = length s"
  by (simp add: str_bytes_def)

lemma starts_with_bytes: "from_utf8 k = Some s \<Longrightarrow> starts_with p s \<longleftrightarrow> key_prefix (str_bytes p) k"
proof -
  assume "from_utf8 k = Some s"
  then have k: "k = str_bytes s" using from_utf8_bytes by auto
  have "take (length p) (str_bytes s) = str_bytes (take (length p) s)" by (simp add: str_bytes_def take_map)
  then show ?thesis by (simp add: k key_prefix_def starts_with_def)
qed

section \<open>What a page holds\<close>

text \<open>Rows that a scan keeps and turns into one item each, no larger than \<open>B\<close>.\<close>

definition plain_row :: "'a scan \<Rightarrow> (bytes \<Rightarrow> 'a) \<Rightarrow> nat \<Rightarrow> bytes \<times> bytes \<Rightarrow> bool" where
  "plain_row S f B = (\<lambda>(k, v). \<exists>key. from_utf8 k = Some key \<and> sc_keep S key \<and> sc_size S key v \<le> B \<and>
     (\<forall>m. sc_pick S m key v = Got (Some (f k)) m))"

definition ends_scan :: "'a scan \<Rightarrow> row list \<Rightarrow> bool" where
  "ends_scan S rest \<longleftrightarrow> rest = [] \<or> (\<exists>k v rest' key. rest = Some (k, v) # rest' \<and> from_utf8 k = Some key \<and> \<not> sc_keep S key)"

lemma scan_rows_plain:
  fixes opts :: prefix_query_options
  defines "off \<equiv> pagination_offset (pagination opts)" and "n \<equiv> unat (page_size (pagination opts))" and "R \<equiv> max_results opts"
  assumes "\<forall>r \<in> set ms. plain_row S f B r" "ends_scan S rest" "(R + 1) * B \<le> max_memory_bytes opts"
    and "total_processed s = length front" "estimated_memory_usage s \<le> length front * B" "scanned s = map f (take n (drop off front))"
    and "length front \<le> R" "length front \<le> off + n"
  shows "\<exists>s'. scan_rows S opts (map Some ms @ rest) s = Ok s' \<and>
    scanned s' = map f (take n (drop off (take R (front @ map fst ms)))) \<and>
    total_processed s' = min (length front + length ms) (min R (off + n) + 1)"
  using assms(4-)
proof (induction ms arbitrary: s front)
  case Nil
  then show ?case by (auto simp: ends_scan_def)
next
  case (Cons r ms)
  obtain k v where r: "r = (k, v)" by force
  obtain key where key: "from_utf8 k = Some key" "sc_keep S key" "sc_size S key v \<le> B" "\<And>m. sc_pick S m key v = Got (Some (f k)) m"
    using Cons.prems(1) by (auto simp: plain_row_def r)
  define s1 where "s1 = s\<lparr>total_processed := total_processed s + 1, estimated_memory_usage := estimated_memory_usage s + sc_size S key v\<rparr>"
  have mem: "estimated_memory_usage s1 \<le> length (front @ [k]) * B" using Cons.prems(5) key(3) by (simp add: s1_def)
  also have "\<dots> \<le> (R + 1) * B" using Cons.prems(7) by simp
  finally have fits: "\<not> estimated_memory_usage s1 > max_memory_bytes opts" using Cons.prems(3) by simp
  have step: "scan_rows S opts (map Some (r # ms) @ rest) s =
     (if length front + 1 > R then Ok s1
      else if length front + 1 > off then
        (if length front - off < n then scan_rows S opts (map Some ms @ rest) (s1\<lparr>scanned := scanned s1 @ [f k]\<rparr>) else Ok s1)
      else scan_rows S opts (map Some ms @ rest) s1)"
    using key fits Cons.prems(4,6)
    by (simp add: r Let_def s1_def) (auto simp: off_def n_def R_def)
  consider (full) "length front = R" | (paged) "length front < R" "length front \<ge> off + n" "length front + 1 > off"
    | (take) "length front < R" "length front + 1 > off" "length front < off + n" | (skip) "length front < R" "length front + 1 \<le> off"
    using Cons.prems(7) by linarith
  then show ?case
  proof cases
    case full
    then show ?thesis using step Cons.prems(4,6,8) by (simp add: s1_def)
  next
    case paged
    then show ?thesis using step Cons.prems(4,6,8) by (auto simp: s1_def take_drop min_def)
  next
    case take
    have "\<exists>s'. scan_rows S opts (map Some ms @ rest) (s1\<lparr>scanned := scanned s1 @ [f k]\<rparr>) = Ok s' \<and>
      scanned s' = map f (take n (drop off (take R ((front @ [k]) @ map fst ms)))) \<and>
      total_processed s' = min (length (front @ [k]) + length ms) (min R (off + n) + 1)"
      by (rule Cons.IH) (use Cons.prems mem take in \<open>auto simp: s1_def\<close>)
    then show ?thesis using step take by (auto simp: r)
  next
    case skip
    have "\<exists>s'. scan_rows S opts (map Some ms @ rest) s1 = Ok s' \<and>
      scanned s' = map f (take n (drop off (take R ((front @ [k]) @ map fst ms)))) \<and>
      total_processed s' = min (length (front @ [k]) + length ms) (min R (off + n) + 1)"
      by (rule Cons.IH) (use Cons.prems mem skip in \<open>auto simp: s1_def\<close>)
    then show ?thesis using step skip by (auto simp: r)
  qed
qed

lemma scan_page_plain:
  assumes "\<forall>r \<in> set ms. plain_row S f B r" "ends_scan S rest" "(max_results opts + 1) * B \<le> max_memory_bytes opts"
  shows "\<exists>pr. scan_page S opts (map Some ms @ rest) = Ok pr \<and>
    items pr = map f (take (unat (page_size (pagination opts))) (drop (pagination_offset (pagination opts)) (take (max_results opts) (map fst ms)))) \<and>
    (pagination_offset (pagination opts) + unat (page_size (pagination opts)) \<le> max_results opts \<longrightarrow>
      has_more pr = (pagination_offset (pagination opts) + unat (page_size (pagination opts)) < length ms))"
proof -
  obtain s where s: "scan_rows S opts (map Some ms @ rest) \<lparr>total_processed = 0, estimated_memory_usage = 0, scanned = []\<rparr> = Ok s"
    "scanned s = map f (take (unat (page_size (pagination opts))) (drop (pagination_offset (pagination opts)) (take (max_results opts) (map fst ms))))"
    "total_processed s = min (length ms) (min (max_results opts) (pagination_offset (pagination opts) + unat (page_size (pagination opts))) + 1)"
    using scan_rows_plain [where front = "[]" and s = "\<lparr>total_processed = 0, estimated_memory_usage = 0, scanned = []\<rparr>", OF assms] by auto
  then show ?thesis by (auto simp: scan_page_def paginated_result_new_def min_def)
qed

text \<open>The scan over the rows with a prefix.\<close>

lemma scan_page_prefix:
  assumes "iter_documented it rd cf rows" "\<forall>(k, v) \<in> set rows. from_utf8 k \<noteq> None"
    and "sc_keep S = starts_with prefix" "\<forall>(k, v) \<in> set rows. key_prefix (str_bytes prefix) k \<longrightarrow> plain_row S f B (k, v)"
    and "(max_results opts + 1) * B \<le> max_memory_bytes opts"
  shows "\<exists>pr. scan_page S opts (iter_from it cf (str_bytes prefix)) = Ok pr \<and>
    items pr = map f (take (unat (page_size (pagination opts))) (drop (pagination_offset (pagination opts))
      (take (max_results opts) (filter (key_prefix (str_bytes prefix)) (map fst rows))))) \<and>
    (pagination_offset (pagination opts) + unat (page_size (pagination opts)) \<le> max_results opts \<longrightarrow>
      has_more pr = (pagination_offset (pagination opts) + unat (page_size (pagination opts)) <
        length (filter (key_prefix (str_bytes prefix)) (map fst rows))))"
proof -
  let ?p = "str_bytes prefix" and ?ms = "filter (\<lambda>(k, _). key_prefix (str_bytes prefix) k) rows"
  have keys: "map fst ?ms = filter (key_prefix ?p) (map fst rows)" by (induction rows) auto
  have srt: "sorted_wrt (<) (map fst rows)" using assms(1) by (simp add: iter_documented_def)
  obtain rest where rest: "filter (\<lambda>(k, _). ?p \<le> k) rows = ?ms @ rest"
    "rest = [] \<or> (\<exists>k v rest'. rest = (k, v) # rest' \<and> \<not> key_prefix ?p k \<and> (k, v) \<in> set rows)"
    by (rule prefix_rows [OF srt, of ?p]) (rule that)
  have fin: "ends_scan S (map Some rest)"
    using rest(2) assms(2,3) starts_with_bytes by (fastforce simp: ends_scan_def)
  have plain: "\<forall>r \<in> set ?ms. plain_row S f B r" using assms(4) by auto
  have it: "iter_from it cf ?p = map Some ?ms @ map Some rest" using assms(1) rest(1) by (simp add: iter_documented_def)
  have len: "length ?ms = length (filter (key_prefix ?p) (map fst rows))" by (simp only: keys [symmetric] length_map)
  from scan_page_plain [OF plain fin assms(5)] show ?thesis unfolding it [symmetric] keys len .
qed

section \<open>Pages of paths\<close>

text \<open>An index of paths: every key is the text of a path, of bounded length.\<close>

definition path_rows :: "hex_lib \<Rightarrow> (bytes \<times> bytes) list \<Rightarrow> bool" where
  "path_rows hx rows \<longleftrightarrow> (\<forall>(k, v) \<in> set rows. \<exists>s p. from_utf8 k = Some s \<and> cado_path_parse hx s = Ok p \<and> length s \<le> MAX_PATH_LENGTH)"

lemma parse_path_str: "cado_path_parse hx s = Ok p \<Longrightarrow> path_str p = s"
  by (auto simp: cado_path_parse_def Let_def and_then_def split: if_splits sum.splits)

definition path_at :: "hex_lib \<Rightarrow> bytes \<Rightarrow> cado_path" where
  "path_at hx k = (case cado_path_parse hx (the (from_utf8 k)) of Inr p \<Rightarrow> p)"

definition paths_scan :: "hex_lib \<Rightarrow> string \<Rightarrow> cado_path scan" where
  "paths_scan hx prefix = \<lparr>sc_read_error = StorageError ''read_path_index_cf'', sc_utf8_error = ValidationError ''path_utf8'',
     sc_keep = starts_with prefix, sc_size = (\<lambda>key v. length key),
     sc_pick = (\<lambda>m key v. case cado_path_parse hx key of Inl e \<Rightarrow> Failed e | Inr p \<Rightarrow> Got (Some p) m)\<rparr>"

lemma path_row:
  assumes "path_rows hx rows" "(k, v) \<in> set rows"
  obtains s p where "from_utf8 k = Some s" "cado_path_parse hx s = Ok p" "length s \<le> MAX_PATH_LENGTH" "path_at hx k = p"
    "str_bytes (path_str p) = k"
proof -
  obtain s p where s: "from_utf8 k = Some s" "cado_path_parse hx s = Ok p" "length s \<le> MAX_PATH_LENGTH"
    using assms by (fastforce simp: path_rows_def)
  show thesis by (rule that [OF s]) (use s parse_path_str [OF s(2)] from_utf8_bytes [OF s(1)] in \<open>simp_all add: path_at_def\<close>)
qed

lemma paths_scan_plain:
  assumes "path_rows hx rows" "(k, v) \<in> set rows" "key_prefix (str_bytes prefix) k"
  shows "plain_row (paths_scan hx prefix) (path_at hx) MAX_PATH_LENGTH (k, v)"
proof (rule path_row [OF assms(1,2)])
  fix s p
  assume s: "from_utf8 k = Some s" "cado_path_parse hx s = Ok p" "length s \<le> MAX_PATH_LENGTH" "path_at hx k = p"
  then show ?thesis using starts_with_bytes [OF s(1), of prefix] assms(3) by (simp add: plain_row_def paths_scan_def)
qed

lemma paths_page:
  assumes "iter_documented it rd PathIndexCf rows" "path_rows hx rows" "(max_results opts + 1) * MAX_PATH_LENGTH \<le> max_memory_bytes opts"
  shows "\<exists>pr. scan_page (paths_scan hx prefix) opts (iter_from it PathIndexCf (str_bytes prefix)) = Ok pr \<and>
    map (\<lambda>p. str_bytes (path_str p)) (items pr) = take (unat (page_size (pagination opts))) (drop (pagination_offset (pagination opts))
      (take (max_results opts) (filter (key_prefix (str_bytes prefix)) (map fst rows))))"
proof -
  let ?ks = "take (unat (page_size (pagination opts))) (drop (pagination_offset (pagination opts))
      (take (max_results opts) (filter (key_prefix (str_bytes prefix)) (map fst rows))))"
  have keep: "sc_keep (paths_scan hx prefix) = starts_with prefix" by (simp add: paths_scan_def)
  have utf8: "\<forall>(k, v) \<in> set rows. from_utf8 k \<noteq> None" using assms(2) by (fastforce simp: path_rows_def)
  have plain: "\<forall>(k, v) \<in> set rows. key_prefix (str_bytes prefix) k \<longrightarrow> plain_row (paths_scan hx prefix) (path_at hx) MAX_PATH_LENGTH (k, v)"
    using paths_scan_plain [OF assms(2)] by auto
  obtain pr where pr: "scan_page (paths_scan hx prefix) opts (iter_from it PathIndexCf (str_bytes prefix)) = Ok pr"
    "items pr = map (path_at hx) ?ks"
    using scan_page_prefix [OF assms(1) utf8 keep plain assms(3)] by blast
  have str: "str_bytes (path_str (path_at hx k)) = k" if k: "k \<in> set ?ks" for k
  proof -
    from k have "k \<in> fst ` set rows" by (auto dest!: in_set_takeD in_set_dropD)
    then obtain v where "(k, v) \<in> set rows" by auto
    then show ?thesis by (rule path_row [OF assms(2)]) simp
  qed
  have "map (\<lambda>p. str_bytes (path_str p)) (items pr) = ?ks"
    unfolding pr(2) map_map by (rule map_idI) (simp add: str)
  then show ?thesis using pr(1) by blast
qed

section \<open>Properties\<close>

lemma chunks_take: "concat (map (\<lambda>i. take n (drop (i * n) xs)) [0..<m]) = take (m * n) xs"
proof (induction m)
  case (Suc m)
  have "take (Suc m * n) xs = take (m * n) xs @ take n (drop (m * n) xs)" by (simp only: mult_Suc add.commute [of n] take_add)
  then show ?case using Suc by simp
qed simp

abbreviation nth_page :: "nat \<Rightarrow> nat \<Rightarrow> prefix_query_options" where
  "nth_page n i \<equiv> prefix_query_options_default\<lparr>pagination := \<lparr>page = of_nat i, page_size = of_nat n\<rparr>\<rparr>"

definition listed_paths :: "cado_path paginated_result res \<Rightarrow> bytes list" where
  "listed_paths r = (case r of Inl _ \<Rightarrow> [] | Inr pr \<Rightarrow> map (\<lambda>p. str_bytes (path_str p)) (items pr))"

lemma nth_page_values:
  assumes "0 < n" "n \<le> 1000" "i * n \<le> 1000"
  shows "options_validate (nth_page n i) = Ok ()" "pagination_offset (pagination (nth_page n i)) = i * n"
    "unat (page_size (pagination (nth_page n i))) = n" "(max_results (nth_page n i) + 1) * MAX_PATH_LENGTH \<le> max_memory_bytes (nth_page n i)"
proof -
  have i: "i \<le> 1000" using assms by (metis le_trans mult_le_mono2 nat_mult_1_right Suc_leI One_nat_def)
  have w: "unat (of_nat n :: u64) = n" "unat (of_nat i * of_nat n :: u64) = i * n"
    using assms i by (simp_all add: unat_of_nat unat_word_ariths)
  then have "(of_nat n :: u64) \<noteq> 0" using assms(1) by (metis unat_0 less_numeral_extra(3))
  then show "options_validate (nth_page n i) = Ok ()" "pagination_offset (pagination (nth_page n i)) = i * n"
    "unat (page_size (pagination (nth_page n i))) = n" "(max_results (nth_page n i) + 1) * MAX_PATH_LENGTH \<le> max_memory_bytes (nth_page n i)"
    using assms w by (simp_all add: options_validate_def pagination_validate_def prefix_query_options_default_def pagination_offset_def MAX_PATH_LENGTH_def)
qed


text \<open>A database with two accounts and a namespace registry entry.\<close>

definition demo_paths :: "string list" where
  "demo_paths = [''/@eld/account/0x'' @ replicate 40 CHR ''1'', ''/@eld/account/0x'' @ replicate 40 CHR ''2'', ''/@eld/namespace/peter'']"

definition demo_rows :: "(bytes \<times> bytes) list" where "demo_rows = map (\<lambda>s. (str_bytes s, [])) demo_paths"

definition rows_iter :: "(bytes \<times> bytes) list \<Rightarrow> db_iter" where
  "rows_iter rows = \<lparr>iter_from = (\<lambda>_ p. map Some (filter (\<lambda>(k, _). p \<le> k) rows)), iter_start = (\<lambda>_. map Some rows),
     iter_end = (\<lambda>_. map Some (rev rows))\<rparr>"

lemma path_rows_listed:
  "list_all (\<lambda>(k, v). case from_utf8 k of None \<Rightarrow> False | Some s \<Rightarrow> is_ok (cado_path_parse hx s) \<and> length s \<le> MAX_PATH_LENGTH) rows
   \<Longrightarrow> path_rows hx rows"
  by (auto simp: path_rows_def list_all_iff is_ok_iff split: option.splits)

lemma rows_iter_documented:
  assumes "sorted_wrt (<) (map fst rows)"
  shows "iter_documented (rows_iter rows) (\<lambda>_ k. Some (map_of rows k)) cf rows"
proof -
  have "distinct (map fst rows)" using assms by (induction rows) auto
  then show ?thesis using assms by (auto simp: iter_documented_def rows_iter_def)
qed


section \<open>Tags\<close>

definition tags_scan :: "string \<Rightarrow> string scan" where
  "tags_scan prefix = \<lparr>sc_read_error = StorageError ''read_pinboard_idx_tag'', sc_utf8_error = ValidationError ''pinboard_tag_index_key_utf8'',
     sc_keep = starts_with prefix, sc_size = (\<lambda>key v. length key), sc_pick = (\<lambda>m key v. Got (Some (rsplit_once CHR '':'' key)) m)\<rparr>"

lemma tag_ids_page:
  assumes "iter_documented it rd PinboardIdxTagCf rows" "\<forall>(k, v) \<in> set rows. from_utf8 k \<noteq> None \<and> length k \<le> 4096"
  shows "\<exists>pr. scan_page (tags_scan prefix) prefix_query_options_default (iter_from it PinboardIdxTagCf (str_bytes prefix)) = Ok pr \<and>
    items pr = map (\<lambda>k. rsplit_once CHR '':'' (the (from_utf8 k))) (take 100 (filter (key_prefix (str_bytes prefix)) (map fst rows)))"
proof -
  let ?f = "\<lambda>k. rsplit_once CHR '':'' (the (from_utf8 k))" and ?o = prefix_query_options_default
  have utf8: "\<forall>(k, v) \<in> set rows. from_utf8 k \<noteq> None" using assms(2) by auto
  have keep: "sc_keep (tags_scan prefix) = starts_with prefix" by (simp add: tags_scan_def)
  have plain: "\<forall>(k, v) \<in> set rows. key_prefix (str_bytes prefix) k \<longrightarrow> plain_row (tags_scan prefix) ?f 4096 (k, v)"
    using assms(2) starts_with_bytes from_utf8_bytes by (fastforce simp: plain_row_def tags_scan_def)
  have o: "(max_results ?o + 1) * 4096 \<le> max_memory_bytes ?o" "unat (page_size (pagination ?o)) = 100" "pagination_offset (pagination ?o) = 0"
    "max_results ?o = 1000" by (simp_all add: prefix_query_options_default_def pagination_default_def pagination_offset_def)
  have "take 100 (take 1000 ks) = take 100 ks" for ks :: "bytes list" by (simp add: min_def)
  then show ?thesis using scan_page_prefix [OF assms(1) utf8 keep plain o(1)] by (auto simp: o(2-4))
qed

text \<open>A listing by tag also returns messages of other tags.  A message indexed under a tag that continues the tag asked
  for with a colon is listed, as the index key separates tag and height with a colon.\<close>

lemma tag_listing_mixes_tags:
  assumes "iter_documented it rd PinboardIdxTagCf rows" "\<forall>(k, v) \<in> set rows. from_utf8 k \<noteq> None \<and> length k \<le> 4096"
    and "canonicalize_post_message_tags hx [t] = Ok [t]" "fst (prefix_is_allowed now ''unknown'' (''pinboard_idx_tag:'' @ t) l)"
    and "(str_bytes (pinboard_tag_index_key (t @ '':'' @ u) h mid), v) \<in> set rows" "CHR '':'' \<notin> set mid"
    and "length (filter (key_prefix (str_bytes (t @ '':''))) (map fst rows)) \<le> 100"
  shows "\<exists>pr. fst (get_pinboard_message_ids_by_tag_secure hx it now t prefix_query_options_default l) = Ok pr \<and> mid \<in> set (items pr)"
proof -
  let ?k = "str_bytes (pinboard_tag_index_key (t @ '':'' @ u) h mid)" and ?p = "str_bytes (t @ '':'')"
  obtain s where s: "from_utf8 ?k = Some s" using assms(2,5) by fastforce
  then have "s = pinboard_tag_index_key (t @ '':'' @ u) h mid" using from_utf8_bytes by fastforce
  moreover have whole: "takeWhile (\<lambda>d. d \<noteq> CHR '':'') (rev mid) = rev mid" using assms(6) by (subst takeWhile_eq_all_conv) auto
  ultimately have mid: "rsplit_once CHR '':'' s = mid"
    by (simp add: rsplit_once_def pinboard_tag_index_key_def takeWhile_tail whole)
  have "key_prefix ?p ?k" by (simp add: key_prefix_def pinboard_tag_index_key_def str_bytes_def)
  moreover have "?k \<in> fst ` set rows" using assms(5) by (rule rev_image_eqI) simp
  ultimately have "?k \<in> set (take 100 (filter (key_prefix ?p) (map fst rows)))" using assms(7) by simp
  then have "mid \<in> set (map (\<lambda>k. rsplit_once CHR '':'' (the (from_utf8 k))) (take 100 (filter (key_prefix ?p) (map fst rows))))"
    unfolding set_map by (rule rev_image_eqI) (simp only: mid s option.sel)
  moreover have "options_validate prefix_query_options_default = Ok ()" "query_client_id prefix_query_options_default = ''unknown''"
    by (simp_all add: prefix_query_options_default_def options_validate_def pagination_validate_def pagination_default_def)
  ultimately show ?thesis
    using tag_ids_page [OF assms(1,2), of "t @ '':''"] assms(3,4)
    by (auto simp: get_pinboard_message_ids_by_tag_secure_def guarded_scan_def tags_scan_def [symmetric] split: prod.splits bool.splits)
qed

definition demo_tag_rows :: "(bytes \<times> bytes) list" where
  "demo_tag_rows = [(str_bytes (pinboard_tag_index_key ''cat'' 7 ''m1''), []), (str_bytes (pinboard_tag_index_key ''cat:red'' 5 ''m2''), [])]"

theorem tag_listing_mixes_tags_witness:
  "\<exists>pr. fst (get_pinboard_message_ids_by_tag_secure std_hex (rows_iter demo_tag_rows) 0 ''cat'' prefix_query_options_default (prefix_limiter_new 60)) = Ok pr \<and>
     ''m2'' \<in> set (items pr)"
proof -
  have it: "iter_documented (rows_iter demo_tag_rows) (\<lambda>_ k. Some (map_of demo_tag_rows k)) PinboardIdxTagCf demo_tag_rows"
    by (rule rows_iter_documented) code_simp
  have rows: "\<forall>(k, v) \<in> set demo_tag_rows. from_utf8 k \<noteq> None \<and> length k \<le> 4096" by code_simp
  have tag: "canonicalize_post_message_tags std_hex [''cat''] = Ok [''cat'']" by code_simp
  have allowed: "fst (prefix_is_allowed 0 ''unknown'' (''pinboard_idx_tag:'' @ ''cat'') (prefix_limiter_new 60))"
    by (simp add: prefix_is_allowed_def prefix_limiter_new_def)
  have "''cat'' @ '':'' @ ''red'' = ''cat:red''" by simp
  then have mem: "(str_bytes (pinboard_tag_index_key (''cat'' @ '':'' @ ''red'') 5 ''m2''), []) \<in> set demo_tag_rows"
    by (simp add: demo_tag_rows_def)
  have "CHR '':'' \<notin> set ''m2''" by simp
  moreover have "length (filter (key_prefix (str_bytes (''cat'' @ '':''))) (map fst demo_tag_rows)) \<le> 100" by code_simp
  ultimately show ?thesis using tag_listing_mixes_tags [OF it rows tag allowed mem] by blast
qed

end
