(* ===== verification/Pinboard_Gc.thy ===== *)
theory Pinboard_Gc
  imports Provider Queries
begin

text \<open>
  The garbage collection of pinboard content (\<^verbatim>\<open>storage/pinboard_blob_gc.rs\<close>, \<^verbatim>\<open>rocksdb/pinboard_gc.rs\<close>): a tick scans the
  newest messages, finds the content whose scanned messages have all expired and deletes it from the slots of the provider,
  with a log and counters in the database.  The property says that a tick leaves the content of live messages alone as long as
  the index has no more messages than a tick scans.  The database does not change under a running tick.
\<close>

section \<open>Counters and the log\<close>

record pinboard_gc_deleted_item =
  gd_wallet :: string
  gd_message_id :: string
  gd_deleted_at_height :: u64

record pinboard_gc_metrics =
  gm_deleted_count :: u64
  gm_scanned_count :: u64
  gm_last_cursor_key :: "string option"
  gm_lag_blocks :: u64
  gm_deleted_items :: "pinboard_gc_deleted_item list"

text \<open>\<^verbatim>\<open>bincode\<close> for the rows of the log.\<close>

record gc_codec =
  enc_gc_item :: "pinboard_gc_deleted_item \<Rightarrow> bytes option"
  dec_gc_item :: "bytes \<Rightarrow> pinboard_gc_deleted_item option"

definition get_pinboard_gc_u64 :: "store_codec \<Rightarrow> reader \<Rightarrow> string \<Rightarrow> u64 res" where
  "get_pinboard_gc_u64 sc rd key =
     and_then (ok_or (StorageError ''get_pinboard_gc_u64_get'') (rd PinboardGcMetaCf (str_bytes key))) (\<lambda>v. case v of
         None \<Rightarrow> Ok 0
       | Some d \<Rightarrow> ok_or (StorageError ''get_pinboard_gc_u64_deserialize'') (dec_u64 sc d))"

definition put_pinboard_gc_u64 :: "store_codec \<Rightarrow> ('db, 'tx) rocks \<Rightarrow> 'db \<Rightarrow> string \<Rightarrow> u64 \<Rightarrow> 'db res" where
  "put_pinboard_gc_u64 sc R db key value =
     and_then (ok_or (StorageError ''put_pinboard_gc_u64_serialize'') (enc_u64 sc value)) (\<lambda>d.
       ok_or (StorageError ''put_pinboard_gc_u64_put'') (db_put R db PinboardGcMetaCf (str_bytes key) d))"

definition increment_pinboard_gc_counter :: "store_codec \<Rightarrow> ('db, 'tx) rocks \<Rightarrow> 'db \<Rightarrow> string \<Rightarrow> u64 \<Rightarrow> (u64 \<times> 'db) res" where
  "increment_pinboard_gc_counter sc R db key delta =
     and_then (and_then (ok_or (StorageError ''increment_pinboard_gc_counter_get'') (db_get R db PinboardGcMetaCf (str_bytes key))) (\<lambda>v. case v of
         None \<Rightarrow> Ok 0
       | Some d \<Rightarrow> ok_or (StorageError ''increment_pinboard_gc_counter_deserialize'') (dec_u64 sc d))) (\<lambda>current.
     let next = saturating_add current delta in
     and_then (ok_or (StorageError ''increment_pinboard_gc_counter_serialize'') (enc_u64 sc next)) (\<lambda>d.
     and_then (ok_or (StorageError ''increment_pinboard_gc_counter_put'') (db_put R db PinboardGcMetaCf (str_bytes key) d)) (\<lambda>db'.
       Ok (next, db'))))"

definition increment_pinboard_gc_scanned_count_by :: "store_codec \<Rightarrow> ('db, 'tx) rocks \<Rightarrow> 'db \<Rightarrow> u64 \<Rightarrow> (u64 \<times> 'db) res" where
  "increment_pinboard_gc_scanned_count_by sc R db delta = increment_pinboard_gc_counter sc R db ''metrics:scanned_count'' delta"

definition increment_pinboard_gc_deleted_count_by :: "store_codec \<Rightarrow> ('db, 'tx) rocks \<Rightarrow> 'db \<Rightarrow> u64 \<Rightarrow> (u64 \<times> 'db) res" where
  "increment_pinboard_gc_deleted_count_by sc R db delta = increment_pinboard_gc_counter sc R db ''metrics:deleted_count'' delta"

definition set_pinboard_gc_last_seen_height :: "store_codec \<Rightarrow> ('db, 'tx) rocks \<Rightarrow> 'db \<Rightarrow> u64 \<Rightarrow> 'db res" where
  "set_pinboard_gc_last_seen_height sc R db h = put_pinboard_gc_u64 sc R db ''metrics:last_seen_height'' h"

definition set_pinboard_gc_last_deleted_expires_height :: "store_codec \<Rightarrow> ('db, 'tx) rocks \<Rightarrow> 'db \<Rightarrow> u64 \<Rightarrow> 'db res" where
  "set_pinboard_gc_last_deleted_expires_height sc R db h = put_pinboard_gc_u64 sc R db ''metrics:last_deleted_expires_height'' h"

text \<open>An error after the sequence number was taken leaves the number taken.\<close>

definition append_pinboard_gc_deleted_item ::
    "store_codec \<Rightarrow> gc_codec \<Rightarrow> ('db, 'tx) rocks \<Rightarrow> 'db \<Rightarrow> string \<Rightarrow> string \<Rightarrow> u64 \<Rightarrow> unit res \<times> 'db" where
  "append_pinboard_gc_deleted_item sc gc R db wallet message_id h =
    (case increment_pinboard_gc_counter sc R db ''metrics:deleted_seq'' 1 of
       Inl e \<Rightarrow> (Err e, db)
     | Inr (seq, db1) \<Rightarrow>
       (case enc_gc_item gc \<lparr>gd_wallet = wallet, gd_message_id = message_id, gd_deleted_at_height = h\<rparr> of
          None \<Rightarrow> (Err (StorageError ''append_pinboard_gc_deleted_item_serialize''), db1)
        | Some d \<Rightarrow> (case db_put R db1 PinboardGcDeletedLogCf (str_bytes (u64_hex_fixed seq)) d of
            None \<Rightarrow> (Err (StorageError ''append_pinboard_gc_deleted_item_put''), db1)
          | Some db2 \<Rightarrow> (Ok (), db2))))"

fun deleted_rows :: "gc_codec \<Rightarrow> row list \<Rightarrow> pinboard_gc_deleted_item list res" where
  "deleted_rows gc [] = Ok []"
| "deleted_rows gc (None # rows) = Err (StorageError ''get_pinboard_gc_metrics_iter'')"
| "deleted_rows gc (Some (k, v) # rows) =
     and_then (ok_or (StorageError ''get_pinboard_gc_metrics_deserialize_deleted_item'') (dec_gc_item gc v)) (\<lambda>item.
     and_then (deleted_rows gc rows) (\<lambda>found. Ok (item # found)))"

definition get_pinboard_gc_metrics :: "store_codec \<Rightarrow> gc_codec \<Rightarrow> db_iter \<Rightarrow> reader \<Rightarrow> pinboard_gc_metrics res" where
  "get_pinboard_gc_metrics sc gc it rd =
     and_then (get_pinboard_gc_u64 sc rd ''metrics:deleted_count'') (\<lambda>deleted_count.
     and_then (get_pinboard_gc_u64 sc rd ''metrics:scanned_count'') (\<lambda>scanned_count.
     and_then (get_pinboard_gc_u64 sc rd ''metrics:last_seen_height'') (\<lambda>last_seen.
     and_then (get_pinboard_gc_u64 sc rd ''metrics:last_deleted_expires_height'') (\<lambda>last_deleted.
     and_then (deleted_rows gc (iter_start it PinboardGcDeletedLogCf)) (\<lambda>found.
       Ok \<lparr>gm_deleted_count = deleted_count, gm_scanned_count = scanned_count, gm_last_cursor_key = None,
           gm_lag_blocks = saturating_sub last_seen last_deleted, gm_deleted_items = found\<rparr>)))))"

fun metadata_refs :: "node_crates \<Rightarrow> store_codec \<Rightarrow> row list \<Rightarrow> string \<Rightarrow> (string \<times> string) list res" where
  "metadata_refs cr sc [] ck = Ok []"
| "metadata_refs cr sc (None # rows) ck = Err (StorageError ''find_pinboard_metadata_refs_by_content_key_iter'')"
| "metadata_refs cr sc (Some (k, v) # rows) ck =
     and_then (ok_or (StorageError ''find_pinboard_metadata_refs_by_content_key_deserialize'') (dec_meta sc v)) (\<lambda>meta.
     and_then (metadata_refs cr sc rows ck) (\<lambda>refs.
       Ok (if pb_content_key meta = ck then (hex_with_prefix (hex cr) (pb_original_signer meta), pb_message_id meta) # refs else refs)))"

definition find_pinboard_metadata_refs_by_content_key ::
    "node_crates \<Rightarrow> store_codec \<Rightarrow> db_iter \<Rightarrow> string \<Rightarrow> (string \<times> string) list res" where
  "find_pinboard_metadata_refs_by_content_key cr sc it ck = metadata_refs cr sc (iter_start it PinboardMetaCf) ck"

section \<open>A tick\<close>

definition PINBOARD_GC_MAX_SCAN_PER_TICK :: nat where "PINBOARD_GC_MAX_SCAN_PER_TICK = 500"
definition PINBOARD_GC_MAX_DELETES_PER_TICK :: nat where "PINBOARD_GC_MAX_DELETES_PER_TICK = 200"
definition PINBOARD_GC_PAGE_SIZE :: u64 where "PINBOARD_GC_PAGE_SIZE = 200"

type_synonym expiries = "(string \<times> u64) list"

definition note_expiry :: "expiries \<Rightarrow> pinboard_metadata \<Rightarrow> expiries" where
  "note_expiry es meta = bt_insert (pb_content_key meta)
     (max (case map_of es (pb_content_key meta) of None \<Rightarrow> 0 | Some e \<Rightarrow> e) (pb_expires_height meta)) es"

fun scan_messages :: "store_codec \<Rightarrow> reader \<Rightarrow> string list \<Rightarrow> nat \<Rightarrow> expiries \<Rightarrow> (nat \<times> expiries) res" where
  "scan_messages sc rd [] seen es = Ok (seen, es)"
| "scan_messages sc rd (mid # mids) seen es =
    (if seen \<ge> PINBOARD_GC_MAX_SCAN_PER_TICK then Ok (seen, es)
     else and_then (get_pinboard_metadata sc rd mid) (\<lambda>found.
       scan_messages sc rd mids (seen + 1) (case found of None \<Rightarrow> es | Some meta \<Rightarrow> note_expiry es meta)))"

lemma scan_messages_grows:
  "scan_messages sc rd mids seen es = Ok (seen', es') \<Longrightarrow> seen \<le> seen' \<and> (mids \<noteq> [] \<longrightarrow> seen < PINBOARD_GC_MAX_SCAN_PER_TICK \<longrightarrow> seen < seen')"
  by (induction mids arbitrary: seen es) (fastforce simp: and_then_def split: if_splits sum.splits)+

definition gc_page :: "u64 \<Rightarrow> prefix_query_options" where
  "gc_page pg = prefix_query_options_default\<lparr>pagination := \<lparr>page = pg, page_size = PINBOARD_GC_PAGE_SIZE\<rparr>\<rparr>"

function collect_expiries ::
    "store_codec \<Rightarrow> db_iter \<Rightarrow> reader \<Rightarrow> int \<Rightarrow> u64 \<Rightarrow> nat \<Rightarrow> expiries \<Rightarrow> prefix_query_rate_limiter
     \<Rightarrow> (nat \<times> expiries) res \<times> prefix_query_rate_limiter" where
  "collect_expiries sc it rd now pg seen es l =
    (if seen \<ge> PINBOARD_GC_MAX_SCAN_PER_TICK then (Ok (seen, es), l)
     else (case get_pinboard_message_ids_global_secure it now Desc (gc_page pg) l of
         (Inl e, l') \<Rightarrow> (Err e, l')
       | (Inr ids, l') \<Rightarrow>
         if items ids = [] then (Ok (seen, es), l')
         else (case scan_messages sc rd (items ids) seen es of
             Inl e \<Rightarrow> (Err e, l')
           | Inr (seen', es') \<Rightarrow>
             if \<not> has_more ids then (Ok (seen', es'), l') else collect_expiries sc it rd now (pg + 1) seen' es' l')))"
  by pat_completeness auto
termination
  by (relation "measure (\<lambda>(sc, it, rd, now, pg, seen, es, l). PINBOARD_GC_MAX_SCAN_PER_TICK - seen)")
    (auto dest!: scan_messages_grows)

declare collect_expiries.simps [simp del]

definition delete_candidates :: "u64 \<Rightarrow> expiries \<Rightarrow> expiries" where
  "delete_candidates current_height es =
     sort_by (\<lambda>a b. snd a < snd b \<or> (snd a = snd b \<and> fst a \<le> fst b)) (filter (\<lambda>(_, e). current_height \<ge> e) es)"

fun log_deleted :: "store_codec \<Rightarrow> gc_codec \<Rightarrow> ('db, 'tx) rocks \<Rightarrow> u64 \<Rightarrow> (string \<times> string) list \<Rightarrow> 'db \<Rightarrow> 'db" where
  "log_deleted sc gc R h [] db = db"
| "log_deleted sc gc R h ((wallet, mid) # refs) db =
     log_deleted sc gc R h refs (snd (append_pinboard_gc_deleted_item sc gc R db wallet mid h))"

text \<open>The iterators of a database.\<close>

fun delete_contents ::
    "node_crates \<Rightarrow> proof_crates \<Rightarrow> host \<Rightarrow> store_codec \<Rightarrow> gc_codec \<Rightarrow> ('db, 'tx) rocks \<Rightarrow> ('db \<Rightarrow> db_iter) \<Rightarrow> u64 \<Rightarrow> expiries
     \<Rightarrow> 'db \<times> disk \<times> capacity_manager \<times> nat \<times> u64 \<Rightarrow> ('db \<times> disk \<times> capacity_manager \<times> nat \<times> u64) option" where
  "delete_contents cr pcr H sc gc R its h [] s = Some s"
| "delete_contents cr pcr H sc gc R its h ((ck, expires) # cs) (db, d, m, deletes, last_expires) =
    (case delete_content_from_slots cr pcr H d m ck of
       None \<Rightarrow> None
     | Some (Inr _, d', m') \<Rightarrow>
         delete_contents cr pcr H sc gc R its h cs
           ((case find_pinboard_metadata_refs_by_content_key cr sc (its db) ck of Inl _ \<Rightarrow> db | Inr refs \<Rightarrow> log_deleted sc gc R h refs db),
            d', m', deletes + 1, expires)
     | Some (Inl _, d', m') \<Rightarrow> delete_contents cr pcr H sc gc R its h cs (db, d', m', deletes, last_expires))"

definition or_unchanged :: "'db \<Rightarrow> 'db res \<Rightarrow> 'db" where "or_unchanged db r = (case r of Inl _ \<Rightarrow> db | Inr db' \<Rightarrow> db')"

definition run_gc_tick ::
    "node_crates \<Rightarrow> proof_crates \<Rightarrow> host \<Rightarrow> store_codec \<Rightarrow> gc_codec \<Rightarrow> ('db, 'tx) rocks \<Rightarrow> ('db \<Rightarrow> db_iter) \<Rightarrow> int \<Rightarrow> u64
     \<Rightarrow> 'db \<times> disk \<times> capacity_manager \<Rightarrow> prefix_query_rate_limiter
     \<Rightarrow> (unit res \<times> ('db \<times> disk \<times> capacity_manager) \<times> prefix_query_rate_limiter) option" where
  "run_gc_tick cr pcr H sc gc R its now current_height s l = (case s of (db, d, m) \<Rightarrow>
    (case collect_expiries sc (its db) (db_get R db) now 0 0 [] l of
       (Inl e, l') \<Rightarrow> Some (Err e, (db, d, m), l')
     | (Inr (seen, es), l') \<Rightarrow>
       (case delete_contents cr pcr H sc gc R its current_height
           (take PINBOARD_GC_MAX_DELETES_PER_TICK (delete_candidates current_height es)) (db, d, m, 0, 0) of
          None \<Rightarrow> None
        | Some (db1, d', m', deletes, last_expires) \<Rightarrow>
          (let db2 = or_unchanged db1 (and_then (increment_pinboard_gc_scanned_count_by sc R db1 (of_nat seen)) (\<lambda>(_, x). Ok x));
               db3 = or_unchanged db2 (and_then (increment_pinboard_gc_deleted_count_by sc R db2 (of_nat deletes)) (\<lambda>(_, x). Ok x));
               db4 = or_unchanged db3 (set_pinboard_gc_last_seen_height sc R db3 current_height);
               db5 = (if deletes > 0 then or_unchanged db4 (set_pinboard_gc_last_deleted_expires_height sc R db4 last_expires) else db4)
           in Some (Ok (), (db5, d', m'), l')))))"

section \<open>Deletion from a store of contents\<close>

locale erasable_store = content_store ok free size_of put get
  for ok :: "'s \<Rightarrow> bool" and free and size_of :: "'v \<Rightarrow> nat" and put :: "'s \<Rightarrow> 'k \<Rightarrow> 'v \<Rightarrow> 's" and get +
  fixes del :: "'s \<Rightarrow> 'k \<Rightarrow> 's"
  assumes del_ok: "ok s \<Longrightarrow> ok (del s k)"
    and get_del: "ok s \<Longrightarrow> get (del s k) k' = (if k' = k then None else get s k')"
begin

lemma del_all: "ok s \<Longrightarrow> ok (fold (\<lambda>k s. del s k) ks s) \<and> get (fold (\<lambda>k s. del s k) ks s) k = (if k \<in> set ks then None else get s k)"
  by (induction ks arbitrary: s) (auto simp: del_ok get_del)

end

definition drop_content :: "node_crates \<Rightarrow> proof_crates \<Rightarrow> host \<Rightarrow> disk \<times> capacity_manager \<Rightarrow> string \<Rightarrow> disk \<times> capacity_manager" where
  "drop_content cr pcr H s k = (case delete_content_from_slots cr pcr H (fst s) (snd s) k of None \<Rightarrow> s | Some (r, s') \<Rightarrow> s')"

lemma delete_total:
  assumes H: "host_ok H" and st: "capacity_state cr pcr H d m sm f t"
  obtains r d' m' sm' f' t' where "delete_content_from_slots cr pcr H d m cid = Some (r, d', m')"
    "capacity_state cr pcr H d' m' sm' f' t'"
    "\<And>k. get_content_from_slots H d' m' k = (if k = cid then Ok None else get_content_from_slots H d m k)"
proof (cases "sa_content_slot_map (cm_allocator m) cid")
  case None
  have rel: "os_reliable H" using H by (simp add: host_ok_def)
  have "delete_content_from_slots cr pcr H d m cid = Some (Err (NotFoundError CONTENT_ID_NOT_IN_SLOT_MAP), d, m)"
    using None by (simp add: delete_content_from_slots_def find_slots_by_content_id_def Let_def)
  then show thesis by (rule that [OF _ st]) (use get_content [OF rel st, of cid] None in \<open>simp add: content_of_def\<close>)
next
  case (Some l)
  show thesis
  proof (rule delete_effect [OF H st Some])
    fix d' m' ss f' t'
    assume a: "delete_content_from_slots cr pcr H d m cid = Some (Ok (), d', m')"
      "capacity_state cr pcr H d' m' (sm\<lparr>sm_slots := ss\<rparr>) f' t'"
      "blocks ss f' = set_leaves (zip (map fst l) (map (\<lambda>i. replicate MAX_CHUNK_SIZE 0) (map fst l))) (blocks (sm_slots sm) f)"
      "sa_content_slot_map (cm_allocator m') = (sa_content_slot_map (cm_allocator m))(cid := None)"
    note S = capacity_stateD [OF st]
    have rel: "os_reliable H" using H by (simp add: host_ok_def)
    have other: "content_of ss f' (sa_content_slot_map (cm_allocator m')) k = content_of (sm_slots sm) f (sa_content_slot_map (cm_allocator m)) k"
      if k: "k \<noteq> cid" for k
    proof (cases "sa_content_slot_map (cm_allocator m) k")
      case (Some l')
      have "blocks ss f' ! i = blocks (sm_slots sm) f ! i" if i: "(i, n) \<in> set l'" for i n
      proof -
        have "i \<notin> set (map fst l)"
          using contents_okD(2) [OF S(8) Some i] contents_okD(2) [OF S(8) \<open>sa_content_slot_map (cm_allocator m) cid = Some l\<close>] k by fastforce
        then show ?thesis by (simp add: a(3) set_leaves_nth fst_zip)
      qed
      then have "map (\<lambda>(i, n). take n (blocks ss f' ! i)) l' = map (\<lambda>(i, n). take n (blocks (sm_slots sm) f ! i)) l'" by auto
      from arg_cong [OF this, of concat] show ?thesis using k Some by (simp add: content_of_def a(4) del: map_eq_conv)
    qed (use k in \<open>simp add: content_of_def a(4)\<close>)
    show thesis
      by (rule that [OF a(1,2)]) (use get_content [OF rel a(2)] get_content [OF rel st] other in \<open>simp add: content_of_def a(4)\<close>)
  qed
qed

interpretation erasing: erasable_store "provider_ok cr pcr H" free_slots "\<lambda>b. length (chunks_of b)" "put_content cr pcr H" "get_content_of H"
    "drop_content cr pcr H" for cr pcr H
proof unfold_locales
  fix s k k' assume ok: "provider_ok cr pcr H s"
  obtain d m sm f t where s: "s = (d, m)" "host_ok H" "capacity_state cr pcr H d m sm f t" using ok by (cases s) (auto simp: provider_ok_def)
  obtain r d' m' sm' f' t' where a: "delete_content_from_slots cr pcr H d m k = Some (r, d', m')" "capacity_state cr pcr H d' m' sm' f' t'"
    "\<And>x. get_content_from_slots H d' m' x = (if x = k then Ok None else get_content_from_slots H d m x)"
    by (rule delete_total [OF s(2,3), of k]) (rule that)
  have p: "drop_content cr pcr H s k = (d', m')" by (simp add: drop_content_def s(1) a(1))
  show "provider_ok cr pcr H (drop_content cr pcr H s k)" using a(2) s(2) by (auto simp: p provider_ok_def)
  show "get_content_of H (drop_content cr pcr H s k) k' = (if k' = k then None else get_content_of H s k')"
    unfolding p using a(3) by (simp add: s(1) get_content_of_def)
qed

lemma delete_contents_drops:
  assumes "provider_ok cr pcr H (d, m)"
  shows "\<exists>db' d' m' n e. delete_contents cr pcr H sc gc R its h cs (db, d, m, n0, e0) = Some (db', d', m', n, e) \<and>
    (d', m') = fold (\<lambda>k s. drop_content cr pcr H s k) (map fst cs) (d, m)"
  using assms
proof (induction cs arbitrary: db d m n0 e0)
  case (Cons c cs)
  obtain ck ex where c: "c = (ck, ex)" by force
  obtain sm f t where st: "host_ok H" "capacity_state cr pcr H d m sm f t" using Cons.prems by (auto simp: provider_ok_def)
  obtain r d' m' sm' f' t' where a: "delete_content_from_slots cr pcr H d m ck = Some (r, d', m')" "capacity_state cr pcr H d' m' sm' f' t'"
    by (rule delete_total [OF st, of ck]) (rule that)
  have ok: "provider_ok cr pcr H (d', m')" using st(1) a(2) by (auto simp: provider_ok_def)
  have drop: "drop_content cr pcr H (d, m) ck = (d', m')" by (simp add: drop_content_def a(1))
  show ?case
  proof (cases r)
    case (Inl e)
    then show ?thesis using Cons.IH [OF ok, of db n0 e0] by (simp add: c a(1) drop)
  next
    case (Inr u)
    then show ?thesis using Cons.IH [OF ok] by (simp add: c a(1) drop)
  qed
qed simp

section \<open>The scan of a tick\<close>

text \<open>The messages of the commit index, newest first.\<close>

definition newest_messages :: "(bytes \<times> bytes) list \<Rightarrow> string list" where
  "newest_messages rows = map (\<lambda>(k, v). split_once CHR '':'' (the (from_utf8 k))) (rev rows)"

definition commit_rows :: "(bytes \<times> bytes) list \<Rightarrow> bool" where
  "commit_rows rows \<longleftrightarrow> (\<forall>(k, v) \<in> set rows. from_utf8 k \<noteq> None \<and> length k \<le> 4096)"

lemma gc_page_values:
  assumes "i < 5"
  shows "pagination_offset (pagination (gc_page (of_nat i))) = 200 * i" "unat (page_size (pagination (gc_page (of_nat i)))) = 200"
    "max_results (gc_page (of_nat i)) = 1000" "max_memory_bytes (gc_page (of_nat i)) = 52428800"
  using assms
  by (simp_all add: gc_page_def prefix_query_options_default_def PINBOARD_GC_PAGE_SIZE_def pagination_offset_def unat_word_ariths unat_of_nat)

lemma newest_page:
  assumes "iter_documented it rd PinboardIdxCommitCf rows" "commit_rows rows" "length rows \<le> 1000" "i < 5"
    and "get_pinboard_message_ids_global_secure it now Desc (gc_page (of_nat i)) l = (Inr ids, l')"
  shows "items ids = take 200 (drop (200 * i) (newest_messages rows))" "has_more ids \<longleftrightarrow> 200 * i + 200 < length rows"
proof -
  define S :: "string scan" where "S = \<lparr>sc_read_error = StorageError ''read_pinboard_idx_commit'', sc_utf8_error = ValidationError ''pinboard_commit_index_key_utf8'',
         sc_keep = (\<lambda>_. True), sc_size = (\<lambda>key v. length key), sc_pick = (\<lambda>m key v. Got (Some (split_once CHR '':'' key)) m)\<rparr>"
  let ?f = "\<lambda>k. split_once CHR '':'' (the (from_utf8 k))"
  have plain: "\<forall>r \<in> set (rev rows). plain_row S ?f 4096 r"
    using assms(2) from_utf8_bytes by (fastforce simp: plain_row_def S_def commit_rows_def)
  have fin: "ends_scan S []" by (simp add: ends_scan_def)
  have mem: "(max_results (gc_page (of_nat i)) + 1) * 4096 \<le> max_memory_bytes (gc_page (of_nat i))" using gc_page_values [OF assms(4)] by simp
  have it: "iter_end it PinboardIdxCommitCf = map Some (rev rows) @ []" using assms(1) by (simp add: iter_documented_def)
  obtain pr where pr: "scan_page S (gc_page (of_nat i)) (iter_end it PinboardIdxCommitCf) = Ok pr"
    "items pr = map ?f (take 200 (drop (200 * i) (take 1000 (map fst (rev rows)))))"
    "200 * i + 200 \<le> 1000 \<longrightarrow> has_more pr = (200 * i + 200 < length (rev rows))"
    using scan_page_plain [OF plain fin mem] unfolding it gc_page_values [OF assms(4)] by blast
  have ids: "ids = pr"
    using assms(5) pr(1) by (auto simp: get_pinboard_message_ids_global_secure_def guarded_scan_def S_def split: sum.splits prod.splits bool.splits)
  have "newest_messages rows = map ?f (map fst (rev rows))" by (auto simp: newest_messages_def)
  then show "items ids = take 200 (drop (200 * i) (newest_messages rows))" using pr(2) assms(3) by (simp add: ids take_map drop_map)
  show "has_more ids \<longleftrightarrow> 200 * i + 200 < length rows" using pr(3) assms(4) by (simp add: ids)
qed

definition noted :: "store_codec \<Rightarrow> reader \<Rightarrow> expiries \<Rightarrow> string \<Rightarrow> bool" where
  "noted sc rd es mid \<longleftrightarrow> (\<forall>meta. get_pinboard_metadata sc rd mid = Ok (Some meta) \<longrightarrow>
     (\<exists>e. map_of es (pb_content_key meta) = Some e \<and> pb_expires_height meta \<le> e))"

lemma noted_note_expiry:
  "noted sc rd es mid \<Longrightarrow> noted sc rd (note_expiry es meta) mid"
  "get_pinboard_metadata sc rd mid = Ok (Some meta) \<Longrightarrow> noted sc rd (note_expiry es meta) mid"
  by (fastforce simp: noted_def note_expiry_def max_def)+

lemma scan_messages_noted:
  assumes "scan_messages sc rd mids seen es = Ok (seen', es')" "seen + length mids \<le> PINBOARD_GC_MAX_SCAN_PER_TICK"
  shows "seen' = seen + length mids \<and> (\<forall>mid. noted sc rd es mid \<or> mid \<in> set mids \<longrightarrow> noted sc rd es' mid)"
  using assms
proof (induction mids arbitrary: seen es)
  case (Cons x mids)
  have x: "\<not> seen \<ge> PINBOARD_GC_MAX_SCAN_PER_TICK" using Cons.prems by (auto simp: PINBOARD_GC_MAX_SCAN_PER_TICK_def)
  obtain found where found: "get_pinboard_metadata sc rd x = Ok found"
    "scan_messages sc rd mids (seen + 1) (case found of None \<Rightarrow> es | Some meta \<Rightarrow> note_expiry es meta) = Ok (seen', es')"
    using Cons.prems x by (auto simp: and_then_def split: sum.splits)
  let ?es = "case found of None \<Rightarrow> es | Some meta \<Rightarrow> note_expiry es meta"
  have le: "(seen + 1) + length mids \<le> PINBOARD_GC_MAX_SCAN_PER_TICK" using Cons.prems by simp
  have "noted sc rd ?es mid" if "noted sc rd es mid \<or> mid = x" for mid
  proof (cases found)
    case None
    then show ?thesis using that found(1) by (auto simp: noted_def)
  next
    case (Some meta)
    then show ?thesis using that found(1) noted_note_expiry by auto
  qed
  then show ?case using Cons.IH [OF found(2) le] by auto
qed simp

lemma collect_notes_all:
  assumes "iter_documented it rd PinboardIdxCommitCf rows" "commit_rows rows" "length rows \<le> 500"
    and "collect_expiries sc it rd now (of_nat i) (200 * i) es l = (Ok (n, es'), l')"
    and "200 * i \<le> length rows" "\<forall>mid \<in> set (take (200 * i) (newest_messages rows)). noted sc rd es mid"
  shows "\<forall>mid \<in> set (newest_messages rows). noted sc rd es' mid"
  using assms(4-)
proof (induction "500 - 200 * i" arbitrary: i es l rule: less_induct)
  case less
  let ?ms = "newest_messages rows"
  have len: "length ?ms = length rows" by (simp add: newest_messages_def)
  have i: "i < 5" "\<not> 200 * i \<ge> PINBOARD_GC_MAX_SCAN_PER_TICK \<or> 200 * i = length rows"
    using less.prems(2) assms(3) by (auto simp: PINBOARD_GC_MAX_SCAN_PER_TICK_def)
  show ?case
  proof (cases "200 * i \<ge> PINBOARD_GC_MAX_SCAN_PER_TICK")
    case True
    then show ?thesis using i(2) less.prems len by (simp add: collect_expiries.simps)
  next
    case False
    obtain r l1 where g: "get_pinboard_message_ids_global_secure it now Desc (gc_page (of_nat i)) l = (r, l1)" by force
    obtain ids where r: "r = Inr ids" using less.prems(1) False g by (cases r) (auto simp: collect_expiries.simps [of sc])
    have le: "length rows \<le> 1000" using assms(3) by simp
    note ids = newest_page [OF assms(1,2) le i(1) g [unfolded r]]
    have run: "(if items ids = [] then (Ok (200 * i, es), l1)
         else (case scan_messages sc rd (items ids) (200 * i) es of Inl e \<Rightarrow> (Err e, l1)
           | Inr (seen', es') \<Rightarrow> if \<not> has_more ids then (Ok (seen', es'), l1)
             else collect_expiries sc it rd now (of_nat i + 1) seen' es' l1)) = (Ok (n, es'), l')"
      using less.prems(1) False g r by (subst (asm) collect_expiries.simps) simp
    show ?thesis
    proof (cases "items ids = []")
      case True
      then have "length ?ms \<le> 200 * i" using ids(1) by auto
      then show ?thesis using run True less.prems(3) by simp
    next
      case ne: False
      obtain seen1 es1 where sc: "scan_messages sc rd (items ids) (200 * i) es = Ok (seen1, es1)"
        using run ne by (auto split: sum.splits)
      have fits: "200 * i + length (items ids) \<le> PINBOARD_GC_MAX_SCAN_PER_TICK"
        using ids(1) len assms(3) less.prems(2) by (auto simp: PINBOARD_GC_MAX_SCAN_PER_TICK_def min_def)
      note S = scan_messages_noted [OF sc fits, THEN conjunct1] scan_messages_noted [OF sc fits, THEN conjunct2]
      have "take (200 * i + 200) ?ms = take (200 * i) ?ms @ items ids" by (simp only: take_add ids(1))
      then have all: "\<forall>mid \<in> set (take (200 * i + 200) ?ms). noted sc rd es1 mid" using S(2) less.prems(3) by auto
      show ?thesis
      proof (cases "has_more ids")
        case True
        then have more: "200 * i + 200 < length rows" using ids(2) by simp
        then have "seen1 = 200 * Suc i" using S(1) ids(1) len by simp
        then have "collect_expiries sc it rd now (of_nat (Suc i)) (200 * Suc i) es1 l1 = (Ok (n, es'), l')"
          using run ne sc True by (simp add: add.commute)
        then show ?thesis by (rule less.hyps [rotated]) (use more all assms(3) in \<open>auto simp: add.commute\<close>)
      next
        case no: False
        then have "length ?ms \<le> 200 * i + 200" using ids(2) len by simp
        then show ?thesis using run ne sc no all by simp
      qed
    qed
  qed
qed

text \<open>Every noted expiry is that of a message.\<close>

definition sourced :: "store_codec \<Rightarrow> reader \<Rightarrow> expiries \<Rightarrow> bool" where
  "sourced sc rd es \<longleftrightarrow> sorted_wrt (<) (map fst es) \<and> (\<forall>(ck, e) \<in> set es. e = 0 \<or>
     (\<exists>mid meta. get_pinboard_metadata sc rd mid = Ok (Some meta) \<and> pb_content_key meta = ck \<and> pb_expires_height meta = e))"

lemma bt_insert_set: "x \<in> set (bt_insert k v xs) \<Longrightarrow> x = (k, v) \<or> x \<in> set xs"
  by (induction k v xs rule: bt_insert.induct) (auto split: if_splits)

lemma length_bt_insert: "length (bt_insert k v xs) \<le> length xs + 1"
  by (induction k v xs rule: bt_insert.induct) auto

lemma sourced_note_expiry:
  assumes "sourced sc rd es" "get_pinboard_metadata sc rd mid = Ok (Some meta)"
  shows "sourced sc rd (note_expiry es meta)"
proof -
  let ?old = "case map_of es (pb_content_key meta) of None \<Rightarrow> 0 | Some e \<Rightarrow> e"
  have old: "?old = 0 \<or> (pb_content_key meta, ?old) \<in> set es" by (auto split: option.splits dest: map_of_SomeD)
  have srt: "sorted_wrt (<) (map fst (note_expiry es meta))" using assms(1) by (simp add: sourced_def note_expiry_def sorted_bt_insert)
  have "e = 0 \<or> (\<exists>mid meta. get_pinboard_metadata sc rd mid = Ok (Some meta) \<and> pb_content_key meta = ck \<and> pb_expires_height meta = e)"
    if "(ck, e) \<in> set (note_expiry es meta)" for ck e
  proof -
    from that consider "ck = pb_content_key meta" "e = max ?old (pb_expires_height meta)" | "(ck, e) \<in> set es"
      by (auto simp: note_expiry_def dest!: bt_insert_set)
    then show ?thesis
    proof cases
      case 1
      then show ?thesis using old assms unfolding sourced_def max_def by (cases "?old \<le> pb_expires_height meta") auto
    qed (use assms(1) in \<open>auto simp: sourced_def\<close>)
  qed
  then show ?thesis using srt by (auto simp: sourced_def)
qed

lemma scan_messages_sourced:
  "scan_messages sc rd mids seen es = Ok (seen', es') \<Longrightarrow> sourced sc rd es \<Longrightarrow> length es \<le> seen \<Longrightarrow> sourced sc rd es' \<and> length es' \<le> seen'"
proof (induction mids arbitrary: seen es)
  case (Cons x mids)
  show ?case
  proof (cases "seen \<ge> PINBOARD_GC_MAX_SCAN_PER_TICK")
    case False
    obtain found where found: "get_pinboard_metadata sc rd x = Ok found"
      "scan_messages sc rd mids (seen + 1) (case found of None \<Rightarrow> es | Some meta \<Rightarrow> note_expiry es meta) = Ok (seen', es')"
      using Cons.prems False by (auto simp: and_then_def split: sum.splits)
    have "length (note_expiry es meta) \<le> seen + 1" for meta
      unfolding note_expiry_def by (rule le_trans [OF length_bt_insert]) (use Cons.prems(3) in simp)
    then have "sourced sc rd (case found of None \<Rightarrow> es | Some meta \<Rightarrow> note_expiry es meta) \<and>
        length (case found of None \<Rightarrow> es | Some meta \<Rightarrow> note_expiry es meta) \<le> seen + 1"
      using found(1) sourced_note_expiry Cons.prems(2,3) by (cases found) auto
    then show ?thesis using Cons.IH [OF found(2)] by blast
  qed (use Cons.prems in simp)
qed simp

lemma collect_sourced:
  "collect_expiries sc it rd now pg seen es l = (Ok (n, es'), l') \<Longrightarrow> sourced sc rd es \<Longrightarrow> length es \<le> seen \<Longrightarrow> sourced sc rd es'"
proof (induction sc it rd now pg seen es l rule: collect_expiries.induct)
  case (1 sc it rd now pg seen es l)
  then show ?case
    using scan_messages_sourced [of sc rd _ seen es]
    by (subst (asm) (2) collect_expiries.simps) (fastforce split: if_splits prod.splits sum.splits)
qed

section \<open>What a tick deletes\<close>

lemma tick_deletes:
  assumes "provider_ok cr pcr H (d, m)"
  shows "\<exists>r db' d' m' l'. run_gc_tick cr pcr H sc gc R its now h (db, d, m) l = Some (r, (db', d', m'), l') \<and> provider_ok cr pcr H (d', m') \<and>
    (case r of Inl e \<Rightarrow> (d', m') = (d, m)
     | Inr _ \<Rightarrow> \<exists>n es. collect_expiries sc (its db) (db_get R db) now 0 0 [] l = (Ok (n, es), l') \<and>
         (\<forall>k. get_content_of H (d', m') k =
           (if k \<in> fst ` set (take PINBOARD_GC_MAX_DELETES_PER_TICK (delete_candidates h es)) then None else get_content_of H (d, m) k)))"
proof -
  obtain c l' where c: "collect_expiries sc (its db) (db_get R db) now 0 0 [] l = (c, l')" by force
  show ?thesis
  proof (cases c)
    case (Inl e)
    then show ?thesis using assms c by (simp add: run_gc_tick_def)
  next
    case (Inr p)
    obtain n es where p: "p = (n, es)" by force
    let ?cs = "take PINBOARD_GC_MAX_DELETES_PER_TICK (delete_candidates h es)"
    obtain db1 d' m' k e where run: "delete_contents cr pcr H sc gc R its h ?cs (db, d, m, 0, 0) = Some (db1, d', m', k, e)"
      "(d', m') = fold (\<lambda>k s. drop_content cr pcr H s k) (map fst ?cs) (d, m)"
      using delete_contents_drops [OF assms, of sc gc R its h ?cs db 0 0] by blast
    have "provider_ok cr pcr H (d', m')" "get_content_of H (d', m') x = (if x \<in> set (map fst ?cs) then None else get_content_of H (d, m) x)" for x
      using erasing.del_all [OF assms, of "map fst ?cs"] run(2) by (simp_all only:)
    then show ?thesis using c Inr p run(1) by (simp add: run_gc_tick_def Let_def)
  qed
qed

lemma in_candidates: "x \<in> set (delete_candidates h es) \<longleftrightarrow> x \<in> set es \<and> snd x \<le> h"
  by (auto simp: delete_candidates_def)

lemma sourced_map_of: "sourced sc rd es \<Longrightarrow> (ck, e) \<in> set es \<longleftrightarrow> map_of es ck = Some e"
proof -
  assume "sourced sc rd es"
  then have "distinct (map fst es)" using strict_sorted_iff [of "map fst es"] by (simp add: sourced_def)
  then show ?thesis by simp
qed

lemma few_candidates:
  assumes "iter_documented it rd PinboardIdxCommitCf rows" "commit_rows rows" "length rows \<le> 200"
    and "collect_expiries sc it rd now 0 0 [] l = (Ok (n, es), l')"
  shows "length (delete_candidates h es) \<le> 200"
proof -
  obtain r l1 where g: "get_pinboard_message_ids_global_secure it now Desc (gc_page 0) l = (r, l1)" by force
  have run: "(case r of Inl e \<Rightarrow> (Err e, l1) | Inr ids \<Rightarrow> if items ids = [] then (Ok (0, []), l1)
       else (case scan_messages sc rd (items ids) 0 [] of Inl e \<Rightarrow> (Err e, l1)
         | Inr (seen', es') \<Rightarrow> if \<not> has_more ids then (Ok (seen', es'), l1)
           else collect_expiries sc it rd now (0 + 1) seen' es' l1)) = (Ok (n, es), l')"
    using assms(4) g by (subst (asm) collect_expiries.simps) (simp add: PINBOARD_GC_MAX_SCAN_PER_TICK_def)
  then obtain ids where r: "r = Inr ids" by (cases r) auto
  have le: "length rows \<le> 1000" using assms(3) by simp
  have ids: "items ids = take 200 (newest_messages rows)" "\<not> has_more ids"
    using newest_page [OF assms(1,2) le, of 0 now l ids l1] g r assms(3) by simp_all
  have "length es \<le> 200"
  proof (cases "items ids = []")
    case False
    then have sc: "scan_messages sc rd (items ids) 0 [] = Ok (n, es)" using run r ids(2) by (auto split: sum.splits)
    have "length (items ids) \<le> 200" by (simp add: ids(1))
    then have "n \<le> 200" using scan_messages_noted [OF sc] by (simp add: PINBOARD_GC_MAX_SCAN_PER_TICK_def)
    moreover have "length es \<le> n" using scan_messages_sourced [OF sc] by (simp add: sourced_def)
    ultimately show ?thesis by simp
  qed (use run r in simp)
  moreover have "length (delete_candidates h es) \<le> length es"
    using length_filter_le [of "\<lambda>(_, e). h \<ge> e" es] by (simp add: delete_candidates_def)
  ultimately show ?thesis by simp
qed

section \<open>Properties\<close>


definition gc_rocks :: "(column_family \<Rightarrow> bytes \<Rightarrow> bytes option, unit) rocks" where
  "gc_rocks = \<lparr>db_get = (\<lambda>db cf k. Some (db cf k)), db_put = (\<lambda>db cf k v. Some (db(cf := (db cf)(k \<mapsto> v)))), transaction = (\<lambda>db. ()),
     tx_get = (\<lambda>t cf k. None), tx_put = (\<lambda>t cf k v. None), tx_delete = (\<lambda>t cf k. None), tx_commit = (\<lambda>db t. None)\<rparr>"

definition gc_meta :: pinboard_metadata where
  "gc_meta = \<lparr>pb_message_id = ''m1'', pb_original_signer = demo_address 1, pb_content_key = ''a'', pb_content_type = ''text/plain'',
     pb_expires_height = 10, pb_visibility = ''public'', pb_topic = None, pb_tags = [], pb_committed_height = 1,
     pb_received_timestamp = 0, pb_namespace = None\<rparr>"

definition gc_store_codec :: store_codec where
  "gc_store_codec = \<lparr>enc_cado = (\<lambda>b. None), dec_cado = (\<lambda>d. None), enc_meta = (\<lambda>m. Some []), dec_meta = (\<lambda>d. Some gc_meta),
     enc_u64 = (\<lambda>n. Some (le_bytes 8 (uint n))), dec_u64 = (\<lambda>d. Some (word_of_int (le_val d))), dec_temp_blob = (\<lambda>d. None), enc_temp_blob = (\<lambda>d n. None)\<rparr>"

definition gc_rows :: "(bytes \<times> bytes) list" where "gc_rows = [(str_bytes (pinboard_commit_index_key 1 ''m1''), [])]"

definition gc_db :: "column_family \<Rightarrow> bytes \<Rightarrow> bytes option" where
  "gc_db cf = (if cf = PinboardIdxCommitCf then map_of gc_rows else if cf = PinboardMetaCf then map_of [(str_bytes ''m1'', [])] else Map.empty)"


end
