(* ===== verification/Info_Connection.thy ===== *)
theory Info_Connection
  imports Pinboard_Gc Snapshot
begin

text \<open>
  The Info connection (\<^verbatim>\<open>abci_interface/info\<close>): \<^verbatim>\<open>info\<close>, with which Tendermint asks for the head of the application, and
  \<^verbatim>\<open>query\<close> with its processors, behind the rate limiters.  An answer is kept as a value and rendered by the
  serializer, a parameter; the text of log lines is not kept.  \<^term>\<open>None\<close> is a panic.
\<close>

section \<open>The head of the application\<close>

record stored_app_state =
  st_block_height :: int
  st_chain_id :: string
  st_current_epoch :: int
  st_app_hash :: string
  st_cado_root_hash :: string

record state_data =
  sd_eld_app_version :: string
  sd_stored_state :: "stored_app_state option"

text \<open>\<^verbatim>\<open>serde_json\<close> for \<^verbatim>\<open>StateData\<close>.\<close>

record state_json =
  state_to_json :: "state_data \<Rightarrow> string option"
  state_of_json :: "string \<Rightarrow> state_data option"

definition state_data_new :: "string \<Rightarrow> state_data" where
  "state_data_new v = \<lparr>sd_eld_app_version = v, sd_stored_state = None\<rparr>"

definition decode_hash :: "hex_lib \<Rightarrow> string \<Rightarrow> string \<Rightarrow> bytes res" where
  "decode_hash hx s field = (case hex_decode hx s of
      None \<Rightarrow> Err (ValidationError field)
    | Some b \<Rightarrow> if length b = 32 then Ok b else Err (ValidationError field))"

definition state_data_parse :: "hex_lib \<Rightarrow> state_json \<Rightarrow> string \<Rightarrow> state_data res" where
  "state_data_parse hx J s =
     and_then (ok_or (ValidationError ''state_data'') (state_of_json J s)) (\<lambda>parsed.
       case sd_stored_state parsed of
         None \<Rightarrow> Ok parsed
       | Some stored \<Rightarrow> and_then (decode_hash hx (st_app_hash stored) ''app_hash'') (\<lambda>_.
           and_then (decode_hash hx (st_cado_root_hash stored) ''cado_root_hash'') (\<lambda>_. Ok parsed)))"

definition hold_stored_state :: "node_crates \<Rightarrow> app_state \<Rightarrow> state_data \<Rightarrow> state_data" where
  "hold_stored_state cr s sd = sd\<lparr>sd_stored_state := map_option (\<lambda>h.
     \<lparr>st_block_height = block_height (app_envelope s), st_chain_id = chain_id s, st_current_epoch = current_epoch (app_envelope s),
      st_app_hash = hex_encode (hex cr) h, st_cado_root_hash = hex_encode (hex cr) (trie_root cr (state_trie (app_envelope s)))\<rparr>) (app_hash s)\<rparr>"

definition to_info_json :: "node_crates \<Rightarrow> state_json \<Rightarrow> string \<Rightarrow> app_state \<Rightarrow> string option" where
  "to_info_json cr J v s = (case state_to_json J (hold_stored_state cr s (state_data_new v)) of
      None \<Rightarrow> None
    | Some json \<Rightarrow> if is_ok (state_data_parse (hex cr) J json) then Some json else None)"

text \<open>\<^verbatim>\<open>ELD_APP_VERSION\<close>, as far as it is Unicode.\<close>

definition resolve_eld_app_version :: "string option \<Rightarrow> string" where
  "resolve_eld_app_version var = (case var of Some v \<Rightarrow> if trim v \<noteq> [] then v else ''0.0.0'' | None \<Rightarrow> ''0.0.0'')"

section \<open>Answers\<close>

datatype info_answer =
    EstimatedFee u128
  | StakingAccountAnswer staking_account
  | ActiveValidatorsInfo "validator_info list" coin int
  | CapacityValidatorsInfo "capacity_validator_info list" coin u64 int
  | CapacityProviderInfo capacity_validator_info
  | EpochInfo int int int nat int
  | AccountCount nat
  | CadoAnswer cado_body
  | CadoListAnswer "cado_body list"
  | CadoPathsAnswer "string list"
  | AccountView string u128 u32
  | PinboardList "pinboard_metadata list" u64 u64 bool
  | PinboardFeed "pinboard_metadata list" pinboard_global_feed_order u64 u64 bool
  | GcMetrics pinboard_gc_metrics

record query_response_payload =
  qp_value :: bytes
  qp_info :: string

record pinboard_feed_request =
  fr_order :: "pinboard_global_feed_order option"
  fr_page :: "u64 option"
  fr_page_size :: "u64 option"

text \<open>What a query sees besides the connection: the crates, the database with its iterators, the JSON decoders and
  encoder, and the two clocks.\<close>

record query_env =
  qe_crates :: node_crates
  qe_codec :: store_codec
  qe_gc :: gc_codec
  qe_iter :: db_iter
  qe_reader :: reader
  qe_tx_of_json :: "string \<Rightarrow> tx option"
  qe_feed_of_json :: "bytes \<Rightarrow> pinboard_feed_request option"
  qe_to_json :: "info_answer \<Rightarrow> string option"
  qe_secs :: u64
  qe_instant :: int

record info_connection =
  in_state :: app_state
  in_protocol :: "protocol_constants option"
  eld_app_version :: string
  global_rate_limiter :: global_abci_rate_limiter
  in_result_limiter :: result_limiter
  query_rate_limiter :: request_log
  storage_rate_limiter :: prefix_query_rate_limiter

definition to_json_string :: "query_env \<Rightarrow> info_answer \<Rightarrow> string res" where
  "to_json_string E a = ok_or BasicValidationError (qe_to_json E a)"

definition payload_ok :: "bytes \<Rightarrow> query_response_payload" where "payload_ok v = \<lparr>qp_value = v, qp_info = []\<rparr>"

definition answer_info :: "query_env \<Rightarrow> info_answer \<Rightarrow> query_response_payload res" where
  "answer_info E a = and_then (to_json_string E a) (\<lambda>s. Ok \<lparr>qp_value = [], qp_info = s\<rparr>)"

section \<open>Processors over the state\<close>

definition process_estimate_fee_query :: "query_env \<Rightarrow> protocol_constants option \<Rightarrow> bytes \<Rightarrow> query_response_payload res" where
  "process_estimate_fee_query E protocol data =
     and_then (ok_or (ValidationError ''fee_query_hex_utf8'') (from_utf8 data)) (\<lambda>hex_str.
     and_then (ok_or (ValidationError ''fee_query_hex'') (hex_decode (hex (qe_crates E)) hex_str)) (\<lambda>tx_bytes.
     and_then (ok_or (ValidationError ''fee_query_decoded_utf8'') (from_utf8 tx_bytes)) (\<lambda>tx_json.
     and_then (ok_or (ValidationError ''fee_query_tx_json'') (qe_tx_of_json E tx_json)) (\<lambda>t.
     and_then (ok_or (InitializationError ''protocol_constants'') protocol) (\<lambda>pc.
     and_then (calculate_dynamic_fee (qe_crates E) t (pc_fee_config pc)) (\<lambda>fee.
     and_then (to_json_string E (EstimatedFee (amount fee))) (\<lambda>s. Ok (payload_ok (str_bytes s)))))))))"

definition process_active_validators_query :: "query_env \<Rightarrow> app_state \<Rightarrow> query_response_payload res" where
  "process_active_validators_query E s = (let e = app_envelope s in
     and_then (sum_coins_from coin_zero (map vi_stake (active_validators e))) (\<lambda>total_stake.
       answer_info E (ActiveValidatorsInfo (sort_by (\<lambda>a b. amount (vi_stake b) \<le> amount (vi_stake a)) (active_validators e))
         total_stake (current_epoch e))))"

definition process_capacity_validators_query :: "query_env \<Rightarrow> app_state \<Rightarrow> query_response_payload res" where
  "process_capacity_validators_query E s = (let e = app_envelope s; cs = capacity_validators e in
     and_then (sum_coins_from coin_zero (map cv_stake cs)) (\<lambda>total_stake.
       answer_info E (CapacityValidatorsInfo (sort_by (\<lambda>a b. storage_capacity b \<le> storage_capacity a) cs) total_stake
         (sum_list (map storage_capacity cs)) (current_epoch e))))"

definition process_capacity_provider_query :: "query_env \<Rightarrow> app_state \<Rightarrow> bytes \<Rightarrow> query_response_payload res" where
  "process_capacity_provider_query E s data =
     and_then (ok_or (ValidationError ''capacity_provider_address_utf8'') (from_utf8 data)) (\<lambda>addr.
     and_then (address_parse (hex (qe_crates E)) addr) (\<lambda>a.
       case List.find (\<lambda>p. cv_address p = a) (capacity_validators (app_envelope s)) of
         Some p \<Rightarrow> answer_info E (CapacityProviderInfo p)
       | None \<Rightarrow> Err (NotFoundError ''capacity_provider'')))"

text \<open>The remainder by zero panics.\<close>

definition process_epoch_info_query :: "query_env \<Rightarrow> app_state \<Rightarrow> int \<Rightarrow> nat \<Rightarrow> query_response_payload res option" where
  "process_epoch_info_query E s bpe n = (let e = app_envelope s in
     if bpe = 0 then None
     else Some (answer_info E (EpochInfo (current_epoch e) (block_height e) bpe n (bpe - block_height e smod bpe))))"

section \<open>Processors over the database\<close>

definition process_staking_account_query :: "query_env \<Rightarrow> bytes \<Rightarrow> query_response_payload res" where
  "process_staking_account_query E data =
     and_then (ok_or (ValidationError ''staking_address_utf8'') (from_utf8 data)) (\<lambda>addr.
     and_then (address_parse (hex (qe_crates E)) addr) (\<lambda>a.
     and_then (cado_path_new (hex (qe_crates E)) StakingAccountType (KeyAddress a)) (\<lambda>p.
       case get_deserialized_cado_by_path (qe_crates E) (qe_codec E) (qe_reader E) (dec_staking (qe_crates E)) p of
         Inr acc \<Rightarrow> answer_info E (StakingAccountAnswer acc)
       | Inl (NotFoundError _) \<Rightarrow> Ok (payload_ok [])
       | Inl e \<Rightarrow> Err e)))"

definition process_account_view_query :: "query_env \<Rightarrow> bytes \<Rightarrow> query_response_payload res" where
  "process_account_view_query E data =
     and_then (ok_or (ValidationError ''account_address_utf8'') (from_utf8 data)) (\<lambda>addr.
     and_then (address_parse (hex (qe_crates E)) addr) (\<lambda>a.
     and_then (cado_path_new (hex (qe_crates E)) AccountType (KeyAddress a)) (\<lambda>p.
     and_then (get_deserialized_cado_by_path (qe_crates E) (qe_codec E) (qe_reader E) (dec_account (qe_crates E)) p) (\<lambda>acc.
       answer_info E (AccountView (hex_with_prefix (hex (qe_crates E)) a) (amount (acc_balance acc)) (nonce_value (acc_nonce acc)))))))"

definition process_cado_query :: "query_env \<Rightarrow> bytes \<Rightarrow> query_response_payload res" where
  "process_cado_query E data =
     and_then (ok_or (ValidationError ''cado_path_utf8'') (from_utf8 data)) (\<lambda>s.
     and_then (cado_path_parse (hex (qe_crates E)) s) (\<lambda>p.
     and_then (get_cado_by_path (qe_crates E) (qe_codec E) (qe_reader E) p) (\<lambda>found.
       case found of Some b \<Rightarrow> answer_info E (CadoAnswer b) | None \<Rightarrow> Ok (payload_ok []))))"

definition PATH_PREFIX_ACCOUNT :: string where "PATH_PREFIX_ACCOUNT = ''/@eld/account/''"

definition process_account_count_query ::
    "query_env \<Rightarrow> prefix_query_rate_limiter \<Rightarrow> query_response_payload res \<times> prefix_query_rate_limiter" where
  "process_account_count_query E l =
     map_prod (\<lambda>r. and_then r (\<lambda>ps. answer_info E (AccountCount (length ps)))) id
       (get_cado_paths_by_prefix (hex (qe_crates E)) (qe_iter E) (qe_instant E) PATH_PREFIX_ACCOUNT l)"

text \<open>The results of a list are counted before it is answered.\<close>

definition limited_answer ::
    "query_env \<Rightarrow> abci_query_type \<Rightarrow> ('a list \<Rightarrow> info_answer) \<Rightarrow> 'a list res \<Rightarrow> result_limiter \<Rightarrow> query_response_payload res \<times> result_limiter" where
  "limited_answer E ty mk r rl = (case r of
      Inl e \<Rightarrow> (Err e, rl)
    | Inr xs \<Rightarrow> (case check_result_limit (qe_secs E) (length xs) ty rl of
        (Some _, rl') \<Rightarrow> (Err (ValidationError ''result_limit''), rl')
      | (None, rl') \<Rightarrow> (answer_info E (mk xs), rl')))"

definition process_cado_list_query ::
    "query_env \<Rightarrow> result_limiter \<Rightarrow> prefix_query_rate_limiter \<Rightarrow> bytes
     \<Rightarrow> query_response_payload res \<times> result_limiter \<times> prefix_query_rate_limiter" where
  "process_cado_list_query E rl l data = (case from_utf8 data of
      None \<Rightarrow> (Err (ValidationError ''prefix_utf8''), rl, l)
    | Some prefix \<Rightarrow> (case get_cados_by_prefix (qe_codec E) (qe_iter E) (qe_reader E) (qe_instant E) prefix l of
        (r, l') \<Rightarrow> (case limited_answer E CadoListQuery CadoListAnswer r rl of (a, rl') \<Rightarrow> (a, rl', l'))))"

definition process_cado_paths_query ::
    "query_env \<Rightarrow> result_limiter \<Rightarrow> prefix_query_rate_limiter \<Rightarrow> bytes
     \<Rightarrow> query_response_payload res \<times> result_limiter \<times> prefix_query_rate_limiter" where
  "process_cado_paths_query E rl l data = (case from_utf8 data of
      None \<Rightarrow> (Err (ValidationError ''search_utf8''), rl, l)
    | Some search \<Rightarrow> (case get_cado_paths_by_prefix (hex (qe_crates E)) (qe_iter E) (qe_instant E) search l of
        (r, l') \<Rightarrow> (case limited_answer E CadoListQuery (\<lambda>ps. CadoPathsAnswer (map path_str ps)) r rl of (a, rl') \<Rightarrow> (a, rl', l'))))"

section \<open>Pinboard processors\<close>

fun metadata_of_ids :: "query_env \<Rightarrow> string list \<Rightarrow> pinboard_metadata list res" where
  "metadata_of_ids E [] = Ok []"
| "metadata_of_ids E (mid # mids) = and_then (get_pinboard_metadata (qe_codec E) (qe_reader E) mid) (\<lambda>found.
     and_then (metadata_of_ids E mids) (\<lambda>metas. Ok (case found of None \<Rightarrow> metas | Some meta \<Rightarrow> meta # metas)))"

definition options_page :: "u64 \<Rightarrow> u64 \<Rightarrow> prefix_query_options" where
  "options_page pg n = prefix_query_options_default\<lparr>pagination := \<lparr>page = pg, page_size = n\<rparr>\<rparr>"

definition process_pinboard_feed_query ::
    "query_env \<Rightarrow> prefix_query_rate_limiter \<Rightarrow> bytes \<Rightarrow> query_response_payload res \<times> prefix_query_rate_limiter" where
  "process_pinboard_feed_query E l data =
    (case (if data = [] then Some \<lparr>fr_order = Some Desc, fr_page = Some 0, fr_page_size = Some 100\<rparr> else qe_feed_of_json E data) of
       None \<Rightarrow> (Err (ValidationError ''pinboard_feed_query_json''), l)
     | Some req \<Rightarrow>
       (let order = (case fr_order req of None \<Rightarrow> Desc | Some ord \<Rightarrow> ord);
            pg = (case fr_page req of None \<Rightarrow> 0 | Some p \<Rightarrow> p);
            n = (case fr_page_size req of None \<Rightarrow> 100 | Some n \<Rightarrow> n)
        in map_prod (\<lambda>r. and_then r (\<lambda>ids. and_then (metadata_of_ids E (items ids)) (\<lambda>metas.
               answer_info E (PinboardFeed metas order pg n (has_more ids))))) id
             (get_pinboard_message_ids_global_secure (qe_iter E) (qe_instant E) order (options_page pg n) l)))"

definition page_parts :: "string list \<Rightarrow> u64 \<times> u64" where
  "page_parts parts = (if length parts = 6
     then ((case parse_uint (parts ! 4) of None \<Rightarrow> 0 | Some p \<Rightarrow> p), (case parse_uint (parts ! 5) of None \<Rightarrow> 100 | Some n \<Rightarrow> n))
     else (0, 100))"

definition pinboard_list :: "query_env \<Rightarrow> u64 \<times> u64 \<Rightarrow> string paginated_result res \<Rightarrow> query_response_payload res" where
  "pinboard_list E pages r = and_then r (\<lambda>ids. and_then (metadata_of_ids E (items ids)) (\<lambda>metas.
     answer_info E (PinboardList metas (fst pages) (snd pages) (has_more ids))))"

definition process_pinboard_query ::
    "query_env \<Rightarrow> prefix_query_rate_limiter \<Rightarrow> bytes \<Rightarrow> query_response_payload res \<times> prefix_query_rate_limiter" where
  "process_pinboard_query E l data = (case from_utf8 data of
      None \<Rightarrow> (Err (ValidationError ''pinboard_query_path_utf8''), l)
    | Some path_string \<Rightarrow>
      (let parts = filter (\<lambda>p. p \<noteq> []) (split_on CHR ''/'' path_string); pages = page_parts parts in
       if length parts < 3 \<or> parts ! 0 \<noteq> SCOPE_ELD_ROOT \<or> parts ! 1 \<noteq> ''pinboard'' then (Err (ValidationError ''pinboard_query_path''), l)
       else if parts ! 2 = ''post'' then (Err (ValidationError ''pinboard_query_path''), l)
       else if parts ! 2 = ''wallet'' then
         (if length parts \<noteq> 4 \<and> length parts \<noteq> 6 then (Err (ValidationError ''pinboard_query_path''), l)
          else map_prod (pinboard_list E pages) id
            (get_pinboard_message_ids_by_wallet_secure (qe_iter E) (qe_instant E) (parts ! 3) (options_page (fst pages) (snd pages)) l))
       else if parts ! 2 = ''tag'' then
         (if length parts \<noteq> 4 \<and> length parts \<noteq> 6 then (Err (ValidationError ''pinboard_query_path''), l)
          else map_prod (pinboard_list E pages) id
            (get_pinboard_message_ids_by_tag_secure (hex (qe_crates E)) (qe_iter E) (qe_instant E) (parts ! 3) (options_page (fst pages) (snd pages)) l))
       else if parts ! 2 = ''gc_metrics'' then
         (if length parts \<noteq> 3 then (Err (ValidationError ''pinboard_query_path''), l)
          else (and_then (get_pinboard_gc_metrics (qe_codec E) (qe_gc E) (qe_iter E) (qe_reader E)) (\<lambda>ms. answer_info E (GcMetrics ms)), l))
       else (Err (ValidationError ''pinboard_query_kind''), l)))"

section \<open>Dispatch\<close>

datatype eld_abci_query =
    EstimateFeeQ bytes | StakingAccountQ bytes | ActiveValidatorsQ bytes | CapacityValidatorsQ bytes | CapacityProviderQ bytes
  | EpochInfoQ bytes | AccountCountQ bytes | CadoQ bytes | CadoListQ bytes | CadoPathsQ bytes | AccountViewQ bytes
  | PinboardQ bytes | PinboardFeedQ bytes | UnknownQ bytes

definition from_abci_query_request :: "request_query \<Rightarrow> eld_abci_query" where
  "from_abci_query_request q = (let path = rq_path q; data = rq_data q in
     if path = ''estimate_fee'' then EstimateFeeQ data
     else if path = ''staking_account'' then StakingAccountQ data
     else if path = ''active_validators'' then ActiveValidatorsQ data
     else if path = ''capacity_validators'' then CapacityValidatorsQ data
     else if path = ''capacity_provider'' then CapacityProviderQ data
     else if path = ''epoch_info'' then EpochInfoQ data
     else if path = ''account_count'' then AccountCountQ data
     else if path = ''cado'' then CadoQ data
     else if path = ''cado_list'' then CadoListQ data
     else if path = ''cado_paths'' then CadoPathsQ data
     else if path = ''account_view'' then AccountViewQ data
     else if path = ''pinboard'' then PinboardQ data
     else if path = ''pinboard_feed'' then PinboardFeedQ data
     else UnknownQ data)"

definition with_storage_limiter ::
    "info_connection \<Rightarrow> query_response_payload res \<times> prefix_query_rate_limiter \<Rightarrow> query_response_payload res \<times> info_connection" where
  "with_storage_limiter c = map_prod id (\<lambda>l. c\<lparr>storage_rate_limiter := l\<rparr>)"

definition with_result_limiter ::
    "info_connection \<Rightarrow> query_response_payload res \<times> result_limiter \<times> prefix_query_rate_limiter \<Rightarrow> query_response_payload res \<times> info_connection" where
  "with_result_limiter c = (\<lambda>(r, rl, l). (r, c\<lparr>in_result_limiter := rl, storage_rate_limiter := l\<rparr>))"

definition process_query :: "query_env \<Rightarrow> info_connection \<Rightarrow> eld_abci_query \<Rightarrow> (query_response_payload res \<times> info_connection) option" where
  "process_query E c q = (let l = storage_rate_limiter c; rl = in_result_limiter c in case q of
      EstimateFeeQ data \<Rightarrow> Some (process_estimate_fee_query E (in_protocol c) data, c)
    | StakingAccountQ data \<Rightarrow> Some (process_staking_account_query E data, c)
    | ActiveValidatorsQ data \<Rightarrow> Some (process_active_validators_query E (in_state c), c)
    | CapacityValidatorsQ data \<Rightarrow> Some (process_capacity_validators_query E (in_state c), c)
    | CapacityProviderQ data \<Rightarrow> Some (process_capacity_provider_query E (in_state c) data, c)
    | EpochInfoQ data \<Rightarrow> (case in_protocol c of
          None \<Rightarrow> Some (Err (InitializationError ''protocol_constants''), c)
        | Some pc \<Rightarrow> map_option (\<lambda>r. (r, c)) (process_epoch_info_query E (in_state c) (blocks_per_epoch pc) (validators_per_epoch pc)))
    | AccountCountQ data \<Rightarrow> Some (with_storage_limiter c (process_account_count_query E l))
    | CadoQ data \<Rightarrow> Some (process_cado_query E data, c)
    | CadoListQ data \<Rightarrow> Some (with_result_limiter c (process_cado_list_query E rl l data))
    | CadoPathsQ data \<Rightarrow> Some (with_result_limiter c (process_cado_paths_query E rl l data))
    | AccountViewQ data \<Rightarrow> Some (process_account_view_query E data, c)
    | PinboardQ data \<Rightarrow> Some (with_storage_limiter c (process_pinboard_query E l data))
    | PinboardFeedQ data \<Rightarrow> Some (with_storage_limiter c (process_pinboard_feed_query E l data))
    | UnknownQ data \<Rightarrow> Some (Err (ValidationError ''query_path''), c))"

record response_query =
  rs_code :: nat
  rs_key :: bytes
  rs_value :: bytes
  rs_codespace :: string
  rs_info :: string

definition ELD_CODESPACE :: string where "ELD_CODESPACE = ''eld''"

text \<open>The limiters repeat their log line in the \<^verbatim>\<open>info\<close> of a refusal; neither text is kept.\<close>

definition limit_response :: "nat \<Rightarrow> response_query" where
  "limit_response cd = \<lparr>rs_code = cd, rs_key = [], rs_value = [], rs_codespace = ELD_CODESPACE, rs_info = []\<rparr>"

definition to_query_response :: "string \<Rightarrow> bytes \<Rightarrow> query_response_payload \<Rightarrow> response_query" where
  "to_query_response path key p = \<lparr>rs_code = 0, rs_key = key, rs_value = qp_value p, rs_codespace = path, rs_info = qp_info p\<rparr>"

definition map_query_error :: "string \<Rightarrow> bytes \<Rightarrow> response_query" where
  "map_query_error path key = \<lparr>rs_code = 1, rs_key = key, rs_value = [], rs_codespace = path, rs_info = []\<rparr>"

definition info_query :: "query_env \<Rightarrow> info_connection \<Rightarrow> request_query \<Rightarrow> (response_query \<times> info_connection) option" where
  "info_query E c q = (case global_check_rate_limit (qe_secs E) q (global_rate_limiter c) of
      (Some cd, gl) \<Rightarrow> Some (limit_response cd, c\<lparr>global_rate_limiter := gl\<rparr>)
    | (None, gl) \<Rightarrow> (case query_check_rate_limit (sha256 (qe_crates E)) (qe_instant E) q (query_rate_limiter c) of
        (Some cd, ql) \<Rightarrow> Some (limit_response cd, c\<lparr>global_rate_limiter := gl, query_rate_limiter := ql\<rparr>)
      | (None, ql) \<Rightarrow> (case process_query E (c\<lparr>global_rate_limiter := gl, query_rate_limiter := ql\<rparr>) (from_abci_query_request q) of
          None \<Rightarrow> None
        | Some (Inr p, c') \<Rightarrow> Some (to_query_response (rq_path q) (rq_data q) p, c')
        | Some (Inl e, c') \<Rightarrow> Some (map_query_error (rq_path q) (rq_data q), c'))))"

record response_info =
  ri_data :: string
  ri_version :: string
  ri_last_block_height :: int
  ri_last_block_app_hash :: bytes

definition abci_info :: "node_crates \<Rightarrow> state_json \<Rightarrow> info_connection \<Rightarrow> response_info option" where
  "abci_info cr J c = map_option (\<lambda>json. \<lparr>ri_data = json, ri_version = eld_app_version c,
     ri_last_block_height = block_height (app_envelope (in_state c)),
     ri_last_block_app_hash = (case app_hash (in_state c) of None \<Rightarrow> [] | Some h \<Rightarrow> h)\<rparr>) (to_info_json cr J (eld_app_version c) (in_state c))"

section \<open>Properties\<close>

lemma decode_hash_encoded:
  assumes "hex_documented hx" "length b = 32"
  shows "decode_hash hx (hex_encode hx b) field = Ok b"
  using assms hex_documentedD [OF assms(1)] by (simp add: decode_hash_def)

lemma state_data_parse_held:
  assumes "hex_documented (hex cr)" "length (trie_root cr (state_trie (app_envelope s))) = 32" "\<forall>h. app_hash s = Some h \<longrightarrow> length h = 32"
    and "state_of_json J j = Some (hold_stored_state cr s d)"
  shows "state_data_parse (hex cr) J j = Ok (hold_stored_state cr s d)"
  using assms(2-) decode_hash_encoded [OF assms(1)]
  by (cases "app_hash s") (auto simp: state_data_parse_def hold_stored_state_def result_simps)

text \<open>C38: what the node tells Tendermint about its head reads back.  When the serializer reads back the document it wrote
  and both hashes have 32 bytes, \<^verbatim>\<open>info\<close> does not panic on its own check, and a reader that parses the document
  finds the version, and, exactly when there is an application hash, a stored state with the answered height, the chain,
  the epoch, and texts that decode to the answered hash and to the root of the state trie.\<close>

theorem info_head_roundtrip:
  assumes "hex_documented (hex cr)" "length (trie_root cr (state_trie (app_envelope (in_state c)))) = 32"
    and "\<forall>h. app_hash (in_state c) = Some h \<longrightarrow> length h = 32"
    and "state_to_json J (hold_stored_state cr (in_state c) (state_data_new (eld_app_version c))) = Some j"
    and "state_of_json J j = Some (hold_stored_state cr (in_state c) (state_data_new (eld_app_version c)))"
  shows "\<exists>r d. abci_info cr J c = Some r \<and> state_data_parse (hex cr) J (ri_data r) = Ok d \<and> sd_eld_app_version d = eld_app_version c \<and>
    (case app_hash (in_state c) of
       None \<Rightarrow> sd_stored_state d = None \<and> ri_last_block_app_hash r = []
     | Some h \<Rightarrow> \<exists>st. sd_stored_state d = Some st \<and> ri_last_block_app_hash r = h \<and> st_block_height st = ri_last_block_height r \<and>
         st_chain_id st = chain_id (in_state c) \<and> st_current_epoch st = current_epoch (app_envelope (in_state c)) \<and>
         decode_hash (hex cr) (st_app_hash st) ''app_hash'' = Ok h \<and>
         decode_hash (hex cr) (st_cado_root_hash st) ''cado_root_hash'' = Ok (trie_root cr (state_trie (app_envelope (in_state c)))))"
proof -
  let ?d = "hold_stored_state cr (in_state c) (state_data_new (eld_app_version c))"
  have parse: "state_data_parse (hex cr) J j = Ok ?d" by (rule state_data_parse_held [OF assms(1-3,5)])
  then have "to_info_json cr J (eld_app_version c) (in_state c) = Some j" using assms(4) by (simp add: to_info_json_def is_ok_iff)
  then show ?thesis using parse assms(2,3) decode_hash_encoded [OF assms(1)]
    by (auto simp: abci_info_def hold_stored_state_def state_data_new_def split: option.splits)
qed

text \<open>The account count saturates.  Whatever the number of accounts, a query that the limiters let pass is answered with
  at most 100, the size of the first page of the default listing.\<close>

lemma account_count_capped:
  assumes "iter_documented (qe_iter E) rd PathIndexCf rows" "path_rows (hex (qe_crates E)) rows"
    and "prefix_is_allowed (qe_instant E) ''default'' PATH_PREFIX_ACCOUNT l = (True, l')"
    and "fst (prefix_is_allowed (qe_instant E) ''unknown'' PATH_PREFIX_ACCOUNT l')"
  shows "fst (process_account_count_query E l) =
    answer_info E (AccountCount (min 100 (length (filter (key_prefix (str_bytes PATH_PREFIX_ACCOUNT)) (map fst rows)))))"
proof -
  let ?ks = "filter (key_prefix (str_bytes PATH_PREFIX_ACCOUNT)) (map fst rows)"
  have o: "prefix_query_options_default = nth_page 100 0" by (simp add: prefix_query_options_default_def pagination_default_def)
  have "(0::nat) < 100" "(100::nat) \<le> 1000" "0 * 100 \<le> (1000::nat)" by simp_all
  note v = nth_page_values [OF this, folded o, unfolded mult_zero_left]
  have m: "max_results prefix_query_options_default = 1000" "query_client_id prefix_query_options_default = ''unknown''"
    by (simp_all add: prefix_query_options_default_def)
  obtain pr where pr: "scan_page (paths_scan (hex (qe_crates E)) PATH_PREFIX_ACCOUNT) prefix_query_options_default
      (iter_from (qe_iter E) PathIndexCf (str_bytes PATH_PREFIX_ACCOUNT)) = Ok pr"
    "map (\<lambda>p. str_bytes (path_str p)) (items pr) = take 100 (drop 0 (take 1000 ?ks))"
    using paths_page [OF assms(1,2) v(4), of PATH_PREFIX_ACCOUNT, unfolded v(2,3) m(1)] by blast
  from arg_cong [where f = length, OF pr(2)] have "length (items pr) = min 100 (length ?ks)" by simp
  moreover have "validate_cado_prefix_security PATH_PREFIX_ACCOUNT = Ok ()" by code_simp
  moreover obtain l'' where "prefix_is_allowed (qe_instant E) ''unknown'' PATH_PREFIX_ACCOUNT l' = (True, l'')"
    using assms(4) by (metis prod.collapse)
  ultimately show ?thesis using assms(3) pr(1) v(1) m(2)
    by (simp add: process_account_count_query_def get_cado_paths_by_prefix_def default_guard_def get_cado_paths_by_prefix_secure_def
        guarded_scan_def paths_scan_def [symmetric] result_simps)
qed

text \<open>Witnesses: a committed head with 32-byte hashes, and the database with two accounts.\<close>

definition model_query_env :: query_env where
  "model_query_env = \<lparr>qe_crates = model_crates, qe_codec = gc_store_codec, qe_gc = \<lparr>enc_gc_item = (\<lambda>_. Some []), dec_gc_item = (\<lambda>_. None)\<rparr>, qe_iter = rows_iter demo_rows,
     qe_reader = (\<lambda>_ k. Some (map_of demo_rows k)), qe_tx_of_json = (\<lambda>_. None), qe_feed_of_json = (\<lambda>_. None),
     qe_to_json = (\<lambda>a. case a of AccountCount n \<Rightarrow> Some (replicate n CHR ''1'') | _ \<Rightarrow> None), qe_secs = 0, qe_instant = 0\<rparr>"

definition model_info :: info_connection where
  "model_info = \<lparr>in_state = \<lparr>app_hash = Some (replicate 32 7), app_envelope = empty_envelope\<lparr>state_trie := [(''k'', replicate 32 1)], block_height := 40\<rparr>,
     chain_id = ''eld''\<rparr>, in_protocol = Some local_dev, eld_app_version = ''0.0.39'', global_rate_limiter = global_limiter_new,
     in_result_limiter = result_limiter_new, query_rate_limiter = Map.empty, storage_rate_limiter = prefix_limiter_new 60\<rparr>"

theorem info_head_roundtrip_witness:
  "\<exists>J r d st. abci_info model_crates J model_info = Some r \<and> state_data_parse (hex model_crates) J (ri_data r) = Ok d \<and>
     sd_stored_state d = Some st \<and> st_block_height st = 40 \<and> ri_last_block_app_hash r = replicate 32 7"
proof -
  let ?d = "hold_stored_state model_crates (in_state model_info) (state_data_new (eld_app_version model_info))"
  let ?J = "\<lparr>state_to_json = (\<lambda>_. Some ''{}''), state_of_json = (\<lambda>_. Some ?d)\<rparr>"
  have "hex_documented (hex model_crates)" by (simp add: model_crates_def std_hex_documented)
  moreover have "length (trie_root model_crates (state_trie (app_envelope (in_state model_info)))) = 32"
    "\<forall>h. app_hash (in_state model_info) = Some h \<longrightarrow> length h = 32"
    by (simp_all add: model_crates_def model_info_def)
  ultimately obtain r d where rd: "abci_info model_crates ?J model_info = Some r" "state_data_parse (hex model_crates) ?J (ri_data r) = Ok d"
    and st: "case app_hash (in_state model_info) of
       None \<Rightarrow> sd_stored_state d = None \<and> ri_last_block_app_hash r = []
     | Some h \<Rightarrow> \<exists>st. sd_stored_state d = Some st \<and> ri_last_block_app_hash r = h \<and> st_block_height st = ri_last_block_height r"
    using info_head_roundtrip [of model_crates model_info ?J "''{}''"] by (fastforce split: option.splits)
  moreover have "ri_last_block_height r = 40" using rd(1) by (auto simp: abci_info_def model_info_def)
  moreover have "app_hash (in_state model_info) = Some (replicate 32 7)" by (simp add: model_info_def)
  ultimately show ?thesis by (auto simp: model_info_def)
qed

lemma account_count_two:
  "fst (process_account_count_query model_query_env (prefix_limiter_new 60)) = Ok \<lparr>qp_value = [], qp_info = ''11''\<rparr>"
proof -
  have it: "iter_documented (rows_iter demo_rows) (\<lambda>_ k. Some (map_of demo_rows k)) PathIndexCf demo_rows"
    by (rule rows_iter_documented) code_simp
  have ok: "path_rows std_hex demo_rows" by (rule path_rows_listed) code_simp
  have n: "length (filter (key_prefix (str_bytes PATH_PREFIX_ACCOUNT)) (map fst demo_rows)) = 2" by code_simp
  obtain l' where l': "prefix_is_allowed (qe_instant model_query_env) ''default'' PATH_PREFIX_ACCOUNT (prefix_limiter_new 60) = (True, l')"
    "fst (prefix_is_allowed (qe_instant model_query_env) ''unknown'' PATH_PREFIX_ACCOUNT l')"
    by (auto simp: model_query_env_def prefix_is_allowed_def prefix_limiter_new_def prefix_key_def)
  have E: "qe_iter model_query_env = rows_iter demo_rows" "hex (qe_crates model_query_env) = std_hex"
    by (simp_all add: model_query_env_def model_crates_def)
  have "fst (process_account_count_query model_query_env (prefix_limiter_new 60)) = answer_info model_query_env (AccountCount (min 100 2))"
    using account_count_capped [of model_query_env, unfolded E, OF it ok l'] unfolding n .
  then show ?thesis by (simp add: answer_info_def to_json_string_def model_query_env_def result_simps numeral_2_eq_2)
qed

end
