(* ===== verification/Restart.thy ===== *)
theory Restart
  imports Chain
begin

text \<open>
  The database after a commit: the refinement of the object store, and what a node that restarts from it finds.
  The tip is written at every commit, the snapshot only at heights that are multiples of the epoch length, and
  \<^verbatim>\<open>initialize_with_data\<close> demands that both have the same height.
\<close>

section \<open>Reading the log of a commit\<close>

lemma map_of_None_fst: "(\<And>y. (x, y) \<notin> set xs) \<Longrightarrow> map_of xs x = None"
  by (auto simp: map_of_eq_None_iff)

lemma staged_lookup:
  assumes "hex_documented (hex cr)" "object_path cr q"
  shows "(\<And>k b. (k, b) \<in> set xs \<Longrightarrow> storable cr k b) \<Longrightarrow> sorted_wrt (<) (map fst xs) \<Longrightarrow>
    map_of (rev (staged_writes cr xs)) q = map_of xs (path_str q)"
proof (induction xs)
  case (Cons x xs)
  obtain k b where x: "x = (k, b)" by (cases x)
  obtain p where p: "cado_path_parse (hex cr) k = Ok p" "path_str p = k" "object_path cr p"
    using Cons.prems(1) [of k b] x by (auto simp: storable_def)
  have pq: "p = q \<longleftrightarrow> k = path_str q" using object_path_eq [OF assms(1) p(3) assms(2)] p(2) by auto
  have "map_of xs k = None" using Cons.prems(2) x by (intro map_of_None_fst) force
  moreover have "map_of (rev (staged_writes cr xs)) q = map_of xs (path_str q)" using Cons by simp
  ultimately show ?case using p(1) pq by (auto simp: staged_writes_def x map_add_def split: option.splits)
qed (simp add: staged_writes_def)

lemma staged_paths:
  assumes "cache_ok cr e" "(p, b) \<in> set (staged_writes cr (cado_cache e))"
  shows "\<not> path_is_infrastructure p" "object_path cr p" "\<exists>k. generate_key cr p b = Ok k"
    "map_of (cado_cache e) (path_str p) = Some b"
proof -
  obtain k where k: "(k, b) \<in> set (cado_cache e)" "p = projr (cado_path_parse (hex cr) k)"
    using assms(2) by (auto simp: staged_writes_def)
  then have "storable cr k b" using assms(1) by (auto simp: cache_ok_def)
  then show "\<not> path_is_infrastructure p" "object_path cr p" "\<exists>k. generate_key cr p b = Ok k" using k(2) by (auto simp: storable_def)
  have "path_str p = k" using \<open>storable cr k b\<close> k(2) by (auto simp: storable_def)
  then show "map_of (cado_cache e) (path_str p) = Some b"
    using k(1) assms(1) sorted_distinct_keys [of "cado_cache e"] by (simp add: cache_ok_def)
qed

lemma infrastructure_types:
  "path_type p = ''namespace'' \<Longrightarrow> \<not> path_is_infrastructure p"
  "path_type p = ''app_state_tip'' \<Longrightarrow> path_is_infrastructure p"
  "path_type p = ''app_state_snapshot'' \<Longrightarrow> path_is_infrastructure p"
  by (simp_all add: path_is_infrastructure_def INFRASTRUCTURE_CADO_TYPES_def)

lemma tip_snapshot_types:
  "cado_path_new hx AppStateTipType key = Ok p \<Longrightarrow> path_type p = ''app_state_tip''"
  "snapshot_latest_path cr = Ok p \<Longrightarrow> path_type p = ''app_state_snapshot''"
  using cado_path_new_shape(1) by (force simp: snapshot_latest_path_def snapshot_create_path_def)+

section \<open>The database refines the map of objects\<close>

lemma commit_writes_objects:
  assumes "sound_store cr sc R" "db_ok cr (db_get R db)" "current_state c = Some s" "cache_ok cr (app_envelope s)"
    and "commit_inner cr sc hc R pc db c = Some (res, db', c')" "keys_distinct cr (db_get R db')"
    and "object_path cr q" "\<not> path_is_infrastructure q" "path_type q \<noteq> ''namespace''"
    and "\<And>b. map_of (cado_cache (app_envelope s)) (path_str q) = Some b \<Longrightarrow> cado_codec_ok sc (path_type q) b"
  shows "get_cado_by_path cr sc (db_get R db') q =
    (case map_of (cado_cache (app_envelope s)) (path_str q) of Some b \<Rightarrow> Ok (Some b) | None \<Rightarrow> get_cado_by_path cr sc (db_get R db) q)"
proof -
  note hx = sound_storeD(2) [OF assms(1)]
  obtain e ns d tip_path latest ws where
    tp: "cado_path_new (hex cr) AppStateTipType (KeyName (''0x'' @ hex_encode (hex cr) (sha256 cr d))) = Ok tip_path"
      "cado_path_new (hex cr) AppStateTipType (KeyName LATEST) = Ok latest"
    and w: "obj_writes cr sc (db_get R db) (staged_writes cr (cado_cache (app_envelope s)) @ ns @
       [(tip_path, tip_cado cr d), (latest, tip_cado cr d)] @ ws) (db_get R db')" (is "obj_writes _ _ _ ?log _")
    and ns: "\<forall>(p, b) \<in> set ns. path_type p = ''namespace''"
    and ws: "if block_height e smod blocks_per_epoch pc \<noteq> 0 then ws = []
     else \<exists>sn sn_cado sn_path. snapshot_new cr (s\<lparr>app_envelope := e\<rparr>) = Ok sn \<and> snapshot_to_cado cr hc sn = Ok sn_cado \<and>
       snapshot_latest_path cr = Ok sn_path \<and> ws = [(sn_path, sn_cado)]"
    by (rule commit_effect [OF assms(1-5)]) (rule that)
  let ?st = "staged_writes cr (cado_cache (app_envelope s))" and ?hd = "ns @ [(tip_path, tip_cado cr d), (latest, tip_cado cr d)] @ ws"
  have nt: "(q, b) \<notin> set ?hd" for b
    using ns ws assms(8,9) tip_snapshot_types(1) [OF tp(1)] tip_snapshot_types(1) [OF tp(2)]
      tip_snapshot_types(2) [of cr] infrastructure_types by (auto split: if_splits)
  have look: "map_of (rev ?log) q = map_of (cado_cache (app_envelope s)) (path_str q)"
  proof -
    have "map_of (rev ?hd) q = None" using nt by (intro map_of_None_fst) simp
    then have "map_of (rev ?log) q = map_of (rev ?st) q" by (auto simp: map_add_def split: option.splits)
    also have "\<dots> = map_of (cado_cache (app_envelope s)) (path_str q)"
      using assms(4) by (intro staged_lookup [OF hx assms(7)]) (auto simp: cache_ok_def)
    finally show ?thesis .
  qed
  have "cado_codec_ok sc (path_type q) b \<and> (\<exists>k. generate_key cr q b = Ok k)" if "(q, b) \<in> set ?log" for b
    using that nt staged_paths [OF assms(4), of q b] assms(10) by auto
  from obj_writes_refine [OF hx assms(7) w assms(2,6) this] look show ?thesis by simp
qed

section \<open>What a restarting node finds\<close>

text \<open>The encodings of the tip and the snapshot of a state, and of the objects that carry them, are read back.\<close>

definition head_codec_ok :: "node_crates \<Rightarrow> store_codec \<Rightarrow> head_codec \<Rightarrow> app_state \<Rightarrow> bool" where
  "head_codec_ok cr sc hc s \<longleftrightarrow>
     (\<forall>h d. app_hash s = Some h \<and> enc_tip hc (tip_of cr s h) = Some d \<longrightarrow>
        dec_tip hc d = Some (tip_of cr s h) \<and> cado_codec_ok sc ''app_state_tip'' (tip_cado cr d)) \<and>
     (\<forall>sn b. snapshot_new cr s = Ok sn \<and> snapshot_to_cado cr hc sn = Ok b \<longrightarrow>
        dec_snapshot hc (body_data b) = Some sn \<and> cado_codec_ok sc ''app_state_snapshot'' b)"

text \<open>The snapshot a database holds was taken at the height of an epoch.\<close>

definition snapshot_at_epoch :: "node_crates \<Rightarrow> store_codec \<Rightarrow> head_codec \<Rightarrow> protocol_constants \<Rightarrow> reader \<Rightarrow> bool" where
  "snapshot_at_epoch cr sc hc pc rd \<longleftrightarrow> (\<forall>p sn. snapshot_latest_path cr = Ok p \<and>
     get_deserialized_cado_by_path cr sc rd (dec_snapshot hc) p = Ok sn \<longrightarrow> sn_block_height sn smod blocks_per_epoch pc = 0)"

lemma tip_of_cong: "app_envelope s' = (app_envelope s)\<lparr>cado_cache := c\<rparr> \<Longrightarrow> tip_of cr s' h = tip_of cr s h"
  by (simp add: tip_of_def)

lemma snapshot_new_cong:
  "app_envelope s' = (app_envelope s)\<lparr>cado_cache := c\<rparr> \<Longrightarrow> app_hash s' = app_hash s \<Longrightarrow> chain_id s' = chain_id s \<Longrightarrow>
   snapshot_new cr s' = snapshot_new cr s"
  by (simp add: snapshot_new_def app_hash_bytes_def Let_def)

lemma committed_head:
  assumes "sound_store cr sc R" "db_ok cr (db_get R db)" "current_state c = Some s" "cache_ok cr (app_envelope s)"
    and "commit_inner cr sc hc R pc db c = Some (res, db', c')" "keys_distinct cr (db_get R db')"
    and "head_codec_ok cr sc hc (committed_state c')"
  obtains h latest where "app_hash (committed_state c') = Some h"
    "cado_path_new (hex cr) AppStateTipType (KeyName LATEST) = Ok latest"
    "get_deserialized_cado_by_path cr sc (db_get R db') (dec_tip hc) latest = Ok (tip_of cr (committed_state c') h)"
    "\<And>p. snapshot_latest_path cr = Ok p \<Longrightarrow>
       get_deserialized_cado_by_path cr sc (db_get R db') (dec_snapshot hc) p =
       (if block_height (app_envelope (committed_state c')) smod blocks_per_epoch pc \<noteq> 0
        then get_deserialized_cado_by_path cr sc (db_get R db) (dec_snapshot hc) p
        else snapshot_new cr (committed_state c'))"
    "block_height (app_envelope (committed_state c')) smod blocks_per_epoch pc = 0 \<Longrightarrow> \<exists>p. snapshot_latest_path cr = Ok p"
proof -
  note hx = sound_storeD(2) [OF assms(1)]
  have ht: "head_type AppStateTipType" "head_type AppStateSnapshotType" by (simp_all add: head_type_def)
  obtain e ns h d tip_path latest ws where h: "app_hash s = Some h"
    and c': "c' = c\<lparr>committed_state := s\<lparr>app_envelope := e\<lparr>cado_cache := []\<rparr>\<rparr>\<rparr>"
    and enc: "enc_tip hc (tip_of cr (s\<lparr>app_envelope := e\<rparr>) h) = Some d"
    and tp: "cado_path_new (hex cr) AppStateTipType (KeyName (''0x'' @ hex_encode (hex cr) (sha256 cr d))) = Ok tip_path"
      "cado_path_new (hex cr) AppStateTipType (KeyName LATEST) = Ok latest"
    and w: "obj_writes cr sc (db_get R db) (staged_writes cr (cado_cache (app_envelope s)) @ ns @
       [(tip_path, tip_cado cr d), (latest, tip_cado cr d)] @ ws) (db_get R db')" (is "obj_writes _ _ _ ?log _")
    and ns: "\<forall>(p, b) \<in> set ns. path_type p = ''namespace''"
    and ws: "if block_height e smod blocks_per_epoch pc \<noteq> 0 then ws = []
     else \<exists>sn sn_cado sn_path. snapshot_new cr (s\<lparr>app_envelope := e\<rparr>) = Ok sn \<and> snapshot_to_cado cr hc sn = Ok sn_cado \<and>
       snapshot_latest_path cr = Ok sn_path \<and> ws = [(sn_path, sn_cado)]"
    by (rule commit_effect [OF assms(1-5)]) (rule that)
  let ?s = "committed_state c'"
  have s': "app_envelope ?s = e\<lparr>cado_cache := []\<rparr>" "app_hash ?s = Some h" "chain_id ?s = chain_id s" using h by (simp_all add: c')
  have tip: "tip_of cr (s\<lparr>app_envelope := e\<rparr>) h = tip_of cr ?s h" by (rule tip_of_cong [of _ "[]", symmetric]) (simp add: s')
  have snap: "snapshot_new cr (s\<lparr>app_envelope := e\<rparr>) = snapshot_new cr ?s"
    by (rule snapshot_new_cong [of _ "[]", symmetric]) (simp_all add: s' h)
  have early: "(q, b) \<notin> set (staged_writes cr (cado_cache (app_envelope s)) @ ns)" if "path_is_infrastructure q" for q b
    using that ns staged_paths(1) [OF assms(4)] infrastructure_types(1) by auto
  have none: "map_of (rev (staged_writes cr (cado_cache (app_envelope s)) @ ns)) q = None" if "path_is_infrastructure q" for q
    using early [OF that] by (intro map_of_None_fst) simp
  note tt = tip_snapshot_types(1) [OF tp(1)] tip_snapshot_types(1) [OF tp(2)]
  have ty: "(p, b) \<in> set ws \<Longrightarrow> path_type p = ''app_state_snapshot''" for p b
    using ws tip_snapshot_types(2) [of cr] by (auto split: if_splits)
  have cd: "dec_tip hc d = Some (tip_of cr ?s h)" "cado_codec_ok sc ''app_state_tip'' (tip_cado cr d)"
    using assms(7) enc s'(2) tip by (auto simp: head_codec_ok_def)
  have "get_cado_by_path cr sc (db_get R db') latest = Ok (Some (tip_cado cr d))"
  proof -
    have "cado_codec_ok sc (path_type latest) b \<and> (\<exists>k. generate_key cr latest b = Ok k)" if "(latest, b) \<in> set ?log" for b
      using that early [of latest b] infrastructure_types(2) [OF tt(2)] ty [of latest b] tt(2) cd(2) head_path(2) [OF tp(2) ht(1)] by auto
    moreover have "map_of (rev ?log) latest = Some (tip_cado cr d)"
    proof -
      have "map_of (rev ws) latest = None" using ty tt(2) by (intro map_of_None_fst) force
      then show ?thesis by (simp add: map_add_def)
    qed
    ultimately show ?thesis using obj_writes_refine [OF hx head_path(1) [OF tp(2) ht(1)] w assms(2,6)] by simp
  qed
  then have t: "get_deserialized_cado_by_path cr sc (db_get R db') (dec_tip hc) latest = Ok (tip_of cr ?s h)"
    using cd(1) by (simp add: get_deserialized_cado_by_path_def tip_cado_def cado_immutable_def)
  have sn: "get_deserialized_cado_by_path cr sc (db_get R db') (dec_snapshot hc) p =
       (if block_height e smod blocks_per_epoch pc \<noteq> 0
        then get_deserialized_cado_by_path cr sc (db_get R db) (dec_snapshot hc) p else snapshot_new cr ?s)"
    if p: "snapshot_latest_path cr = Ok p" for p
  proof -
    note pt = tip_snapshot_types(2) [OF p] and pp = p [unfolded snapshot_latest_path_def snapshot_create_path_def]
    have ne: "tip_path \<noteq> p" "latest \<noteq> p" using pt tt by auto
    have cod: "cado_codec_ok sc (path_type p) b \<and> (\<exists>k. generate_key cr p b = Ok k)" if b: "(p, b) \<in> set ?log" for b
    proof -
      have "(p, b) \<in> set ws" using b early [of p b] infrastructure_types(3) [OF pt] ne by auto
      then show ?thesis
        using ws p pt assms(7) snap head_path(2) [OF pp ht(2)] by (auto simp: head_codec_ok_def split: if_splits)
    qed
    have look: "map_of (rev ?log) p = map_of ws p"
      using none [OF infrastructure_types(3) [OF pt]] ne ws by (auto simp: map_add_def split: if_splits option.splits)
    note g = obj_writes_refine [OF hx head_path(1) [OF pp ht(2)] w assms(2,6) cod, unfolded look]
    show ?thesis
    proof (cases "block_height e smod blocks_per_epoch pc \<noteq> 0")
      case True
      then show ?thesis using g ws by (simp add: get_deserialized_cado_by_path_def)
    next
      case False
      then obtain x b where x: "snapshot_new cr ?s = Ok x" "snapshot_to_cado cr hc x = Ok b" "ws = [(p, b)]"
        using ws p snap by auto
      then have "dec_snapshot hc (body_data b) = Some x" using assms(7) by (auto simp: head_codec_ok_def)
      then show ?thesis using g x False by (simp add: get_deserialized_cado_by_path_def)
    qed
  qed
  show thesis
    by (rule that [OF s'(2) tp(2) t]) (use sn ws in \<open>auto simp: s' split: if_splits\<close>)
qed

lemma restart_after_commit:
  assumes "sound_store cr sc R" "db_ok cr (db_get R db)" "current_state c = Some s" "cache_ok cr (app_envelope s)"
    and "objects_ok cr (app_envelope s)" "commit_inner cr sc hc R pc db c = Some (res, db', c')" "keys_distinct cr (db_get R db')"
    and "head_codec_ok cr sc hc (committed_state c')" "snapshot_at_epoch cr sc hc pc (db_get R db)"
  defines "e' \<equiv> app_envelope (committed_state c')"
  shows "snapshot_at_epoch cr sc hc pc (db_get R db')"
    and "block_height e' smod blocks_per_epoch pc \<noteq> 0 \<Longrightarrow> initialize_with_data cr sc hc (db_get R db') s0 = None"
    and "block_height e' smod blocks_per_epoch pc = 0 \<Longrightarrow>
      \<exists>s'. initialize_with_data cr sc hc (db_get R db') s0 = Some (Ok s') \<and> app_hash s' = app_hash (committed_state c') \<and>
        chain_id s' = chain_id (committed_state c') \<and>
        committed_cado_cache (app_envelope s') = committed_cado_cache e' \<and> block_height (app_envelope s') = block_height e'"
proof -
  obtain h latest where hd: "app_hash (committed_state c') = Some h"
    "cado_path_new (hex cr) AppStateTipType (KeyName LATEST) = Ok latest"
    "get_deserialized_cado_by_path cr sc (db_get R db') (dec_tip hc) latest = Ok (tip_of cr (committed_state c') h)"
    and sn: "\<And>p. snapshot_latest_path cr = Ok p \<Longrightarrow>
       get_deserialized_cado_by_path cr sc (db_get R db') (dec_snapshot hc) p =
       (if block_height e' smod blocks_per_epoch pc \<noteq> 0
        then get_deserialized_cado_by_path cr sc (db_get R db) (dec_snapshot hc) p else snapshot_new cr (committed_state c'))"
      "block_height e' smod blocks_per_epoch pc = 0 \<Longrightarrow> \<exists>p. snapshot_latest_path cr = Ok p"
    by (rule committed_head [OF assms(1-4,6-8)]) (rule that, auto simp: e'_def)
  have bh: "sn_block_height x = block_height e'" "sn_app_hash x = h" if "snapshot_new cr (committed_state c') = Ok x" for x
    using that hd(1) by (auto simp: snapshot_new_def app_hash_bytes_def Let_def e'_def result_simps)
  show at: "snapshot_at_epoch cr sc hc pc (db_get R db')"
    using sn(1) bh assms(9) by (auto simp: snapshot_at_epoch_def split: if_splits)
  have tip: "tip_block_height (tip_of cr (committed_state c') h) = block_height e'" "tip_app_hash (tip_of cr (committed_state c') h) = h"
    "cado_root_hash (tip_of cr (committed_state c') h) = trie_root cr (state_trie e')" by (simp_all add: tip_of_def e'_def)
  let ?s = "\<lambda>s0. s0\<lparr>app_hash := Some h, app_envelope := (app_envelope s0)\<lparr>state_trie := [], block_height := block_height e'\<rparr>\<rparr>"
  have init: "initialize_with_data cr sc hc (db_get R db') s0 =
      map_option Ok (restore_snapshot cr sc hc (db_get R db') (tip_of cr (committed_state c') h) (?s s0))" for s0
    using hd(2,3) by (simp add: initialize_with_data_def Let_def tip)
  show "initialize_with_data cr sc hc (db_get R db') s0 = None" if "block_height e' smod blocks_per_epoch pc \<noteq> 0"
  proof -
    have "restore_snapshot cr sc hc (db_get R db') (tip_of cr (committed_state c') h) (?s s0) = None"
      by (rule restore_snapshot_mismatch) (use at that in \<open>auto simp: snapshot_at_epoch_def tip\<close>)
    then show ?thesis by (simp add: init)
  qed
  assume ep: "block_height e' smod blocks_per_epoch pc = 0"
  obtain p where p: "snapshot_latest_path cr = Ok p" using sn(2) ep by blast
  obtain x where x: "snapshot_new cr (committed_state c') = Ok x" using hd(1) by (simp add: snapshot_new_def app_hash_bytes_def Let_def)
  have "objects_ok cr e'" unfolding e'_def using commit_keeps(2) [OF assms(1-4,6)] assms(5) by blast
  then have tc: "trie_consistent (hex cr) (app_envelope (committed_state c'))" using objects_ok_trie by (simp add: e'_def)
  show "\<exists>s'. initialize_with_data cr sc hc (db_get R db') s0 = Some (Ok s') \<and> app_hash s' = app_hash (committed_state c') \<and>
        chain_id s' = chain_id (committed_state c') \<and>
        committed_cado_cache (app_envelope s') = committed_cado_cache e' \<and> block_height (app_envelope s') = block_height e'"
  proof (rule snapshot_applies [OF tc x, of "?s s0"])
    fix s' assume s': "apply_to_state cr x (?s s0) (trie_root cr (state_trie (app_envelope (committed_state c')))) = Ok s'"
      "app_hash s' = app_hash (committed_state c')" "chain_id s' = chain_id (committed_state c')"
      "committed_cado_cache (app_envelope s') = committed_cado_cache (app_envelope (committed_state c'))"
    have "restore_snapshot cr sc hc (db_get R db') (tip_of cr (committed_state c') h) (?s s0) = Some s'"
      using sn(1) [OF p] ep x bh [OF x] p s'(1) by (simp add: restore_snapshot_def tip e'_def)
    moreover have "block_height (app_envelope s') = block_height e'"
      using s'(1) bh(1) [OF x] by (auto simp: apply_to_state_def Let_def rebuild_state_trie_from_cache_def split: if_splits)
    ultimately show ?thesis using s'(2-4) by (simp add: init e'_def)
  qed
qed

section \<open>A concrete commit\<close>

text \<open>One staged account at height 1 over an empty database; the head codec reads back what it wrote.\<close>

definition demo_staged :: consensus_connection where
  "demo_staged = \<lparr>committed_state = demo_committed, current_state = Some \<lparr>app_hash = Some [],
     app_envelope = (the (stage_account model_crates empty_envelope (demo_address 1) (replicate 32 0) (demo_account 1 100000 0)))
       \<lparr>block_height := 1\<rparr>, chain_id = []\<rparr>\<rparr>"

definition demo_body :: cado_body where
  "demo_body = cado_mutable_updated (sha256 model_crates) (replicate 32 0) (the (model_enc_account (demo_account 1 100000 0)))
     (cado_metadata_new AccountType (hex_with_prefix std_hex (demo_address 1)))"

definition demo_path :: cado_path where
  "demo_path = projr (cado_path_new std_hex AccountType (KeyAddress (demo_address 1)))"

definition demo_codec :: store_codec where
  "demo_codec = model_codec\<lparr>dec_cado := (\<lambda>d. if length d = 41 then Some demo_body
     else if length d = 9 then Some (tip_cado model_crates (le_bytes 8 1))
     else Some (cado_immutable (sha256 model_crates) [] (cado_metadata_new AppStateSnapshotType ''system'')))\<rparr>"

definition demo_outcome where
  "demo_outcome = the (commit_inner model_crates demo_codec model_head model_rocks local_dev (\<lambda>cf k. None) demo_staged)"

definition demo_head :: head_codec where
  "demo_head = model_head\<lparr>dec_tip := (\<lambda>d. Some (tip_of model_crates (committed_state (snd (snd demo_outcome))) [])),
     dec_snapshot := (\<lambda>d. Some (projr (snapshot_new model_crates (committed_state (snd (snd demo_outcome))))))\<rparr>"

lemma demo_path_new: "cado_path_new std_hex AccountType (KeyAddress (demo_address 1)) = Ok demo_path"
  by code_simp

lemma demo_staged_state:
  "\<exists>s. current_state demo_staged = Some s \<and> app_hash s = Some [] \<and> block_height (app_envelope s) = 1 \<and>
     cado_cache (app_envelope s) = [(path_str demo_path, demo_body)] \<and> cado_cache_to_delete (app_envelope s) = [] \<and>
     committed_cado_cache (app_envelope s) = [] \<and> state_trie (app_envelope s) = [] \<and> pinboard_meta_cache (app_envelope s) = [] \<and>
     pinboard_refcount_deltas (app_envelope s) = [] \<and> namespace_registry_cache (app_envelope s) = []"
proof -
  have "stage_account model_crates empty_envelope (demo_address 1) (replicate 32 0) (demo_account 1 100000 0) =
      Some (update_cado_cache empty_envelope demo_path demo_body)"
    using demo_path_new
    by (simp add: stage_account_def model_crates_def demo_body_def) (simp add: model_enc_account_def)
  then show ?thesis
    using address_type_not_infrastructure [OF demo_path_new]
    by (simp add: demo_staged_def update_cado_cache_def empty_envelope_def)
qed

lemma demo_sound_store: "sound_store model_crates demo_codec model_rocks"
  using model_sound_store by (simp add: sound_store_def demo_codec_def)

lemma demo_staged_ok:
  assumes "current_state demo_staged = Some s"
  shows "cache_ok model_crates (app_envelope s)" "objects_ok model_crates (app_envelope s)"
proof -
  have "storable model_crates (path_str demo_path) demo_body"
    using address_storable [OF documentedD(1) [OF model_crates_documented], of AccountType "demo_address 1" demo_path
        "replicate 32 0" "the (model_enc_account (demo_account 1 100000 0))"] demo_path_new
    by (simp add: demo_body_def model_crates_def)
  then show "cache_ok model_crates (app_envelope s)" "objects_ok model_crates (app_envelope s)"
    using assms demo_staged_state by (auto simp: cache_ok_def objects_ok_def)
qed

lemma empty_db_ok: "db_ok cr (db_get model_rocks (\<lambda>cf k. None))" "\<not> indexed (db_get model_rocks (\<lambda>cf k. None)) p"
  by (simp_all add: db_ok_def index_ok_def indexed_def model_rocks_def)

lemma commit_reads_nothing:
  "commit_inner cr sc (hc\<lparr>dec_tip := f, dec_snapshot := g\<rparr>) R pc db c = commit_inner cr sc hc R pc db c"
proof -
  have "enc_tip (hc\<lparr>dec_tip := f, dec_snapshot := g\<rparr>) = enc_tip hc"
    "snapshot_to_cado cr (hc\<lparr>dec_tip := f, dec_snapshot := g\<rparr>) = snapshot_to_cado cr hc"
    by (simp_all add: snapshot_to_cado_def fun_eq_iff)
  then have "write_head cr sc (hc\<lparr>dec_tip := f, dec_snapshot := g\<rparr>) R pc s t = write_head cr sc hc R pc s t" for s t
    unfolding write_head_def by (simp only:)
  then show ?thesis unfolding commit_inner_def by (simp only:)
qed

lemma demo_outcome_runs:
  "commit_inner model_crates demo_codec demo_head model_rocks local_dev (\<lambda>cf k. None) demo_staged = Some demo_outcome"
proof -
  obtain s where s: "current_state demo_staged = Some s" "app_hash s = Some []" "pinboard_refcount_deltas (app_envelope s) = []"
     "pinboard_meta_cache (app_envelope s) = []"
    using demo_staged_state by blast
  have "row_codecs_ok demo_codec" "refcounts_ok demo_codec rd" for rd
    using model_rows by (simp_all add: demo_codec_def row_codecs_ok_def refcounts_ok_def)
  then obtain r where "commit_inner model_crates demo_codec model_head model_rocks local_dev (\<lambda>cf k. None) demo_staged = Some r"
    using commit_iff_blobs [OF demo_sound_store empty_db_ok(1) s(1) demo_staged_ok(1) [OF s(1)] s(2) demo_ready(1) _ _ _ model_head_encodes] s(3,4)
    by (fastforce simp: blobs_present_def)
  then show ?thesis
    unfolding demo_head_def commit_reads_nothing by (simp add: demo_outcome_def)
qed

definition demo_latest :: cado_path where
  "demo_latest = projr (cado_path_new std_hex AppStateTipType (KeyName LATEST))"

definition demo_tip_path :: cado_path where
  "demo_tip_path = projr (cado_path_new std_hex AppStateTipType (KeyName (''0x'' @ hex_encode std_hex (sha256 model_crates (le_bytes 8 1)))))"

lemma demo_tip_paths:
  "cado_path_new std_hex AppStateTipType (KeyName LATEST) = Ok demo_latest"
  "cado_path_new std_hex AppStateTipType (KeyName (''0x'' @ hex_encode std_hex (sha256 model_crates (le_bytes 8 1)))) = Ok demo_tip_path"
  by code_simp+

lemma demo_keys: "distinct (map (stable_key model_crates) [demo_path, demo_latest, demo_tip_path])"
  by code_simp

lemmas demo_keys_inj = demo_keys [unfolded distinct_map, THEN conjunct2]

lemma demo_head_codec:
  assumes "app_hash (committed_state (snd (snd demo_outcome))) = Some []"
    "block_height (app_envelope (committed_state (snd (snd demo_outcome)))) = 1"
  shows "head_codec_ok model_crates demo_codec demo_head (committed_state (snd (snd demo_outcome)))"
proof -
  define c where "c = committed_state (snd (snd demo_outcome))"
  have h: "app_hash c = Some []" "block_height (app_envelope c) = 1" using assms by (simp_all add: c_def)
  have enc: "enc_cado demo_codec b = Some (0 # body_data b)" for b by (simp add: demo_codec_def model_codec_def)
  have tip: "dec_tip demo_head d = Some (tip_of model_crates c [])" "enc_tip demo_head (tip_of model_crates c []) = Some (le_bytes 8 1)" for d
    using h by (simp_all add: demo_head_def c_def model_head_def tip_of_def)
  have data: "body_data (cado_immutable f d m) = d" for f d m by (simp add: cado_immutable_def)
  have t: "cado_codec_ok demo_codec ''app_state_tip'' (tip_cado model_crates (le_bytes 8 1))"
    unfolding cado_codec_ok_def enc by (simp add: demo_codec_def) (simp add: tip_cado_def data)
  have e: "enc_snapshot demo_head sn = Some (sn_app_hash sn)" for sn by (simp add: demo_head_def model_head_def)
  have s: "dec_snapshot demo_head (body_data b) = Some sn \<and> cado_codec_ok demo_codec ''app_state_snapshot'' b"
    if "snapshot_new model_crates c = Ok sn" "snapshot_to_cado model_crates demo_head sn = Ok b" for sn b
  proof -
    have "sn_app_hash sn = []" using that(1) h(1) by (auto simp: snapshot_new_def Let_def app_hash_bytes_def result_simps)
    then have b: "b = cado_immutable (sha256 model_crates) [] (cado_metadata_new AppStateSnapshotType ''system'')"
      using that(2) by (simp add: snapshot_to_cado_def e result_simps)
    have "cado_codec_ok demo_codec ''app_state_snapshot'' b"
      unfolding cado_codec_ok_def enc b data by (simp add: demo_codec_def)
    then show ?thesis using that(1) by (simp add: demo_head_def c_def)
  qed
  show ?thesis unfolding head_codec_ok_def c_def [symmetric] using h(1) tip t s by auto
qed

lemma demo_outcome_head:
  obtains res db' c' where "demo_outcome = (res, db', c')" "keys_distinct model_crates (db_get model_rocks db')"
    "head_codec_ok model_crates demo_codec demo_head (committed_state c')"
proof -
  note hx = documentedD(1) [OF model_crates_documented]
  obtain res db' c' where o: "demo_outcome = (res, db', c')" by (cases demo_outcome) auto
  note run = demo_outcome_runs [unfolded o]
  obtain s where s: "current_state demo_staged = Some s" "app_hash s = Some []" "block_height (app_envelope s) = 1"
    "cado_cache (app_envelope s) = [(path_str demo_path, demo_body)]" "namespace_registry_cache (app_envelope s) = []"
    using demo_staged_state by blast
  have m1: "(1::int) smod 20 = 1" by (simp add: signed_modulo_int_def signed_divide_int_def)
  have hd: "hex model_crates = std_hex" by (simp add: model_crates_def)
  have "keys_distinct model_crates (db_get model_rocks db') \<and> app_hash (committed_state c') = Some [] \<and>
      block_height (app_envelope (committed_state c')) = 1"
  proof (rule commit_effect [OF demo_sound_store empty_db_ok(1) s(1) demo_staged_ok(1) [OF s(1)] run])
    fix e ns h d tip_path latest ws
    assume c: "app_hash s = Some h" "c' = demo_staged\<lparr>committed_state := s\<lparr>app_envelope := e\<lparr>cado_cache := []\<rparr>\<rparr>\<rparr>"
      "enc_tip demo_head (tip_of model_crates (s\<lparr>app_envelope := e\<rparr>) h) = Some d"
      "cado_path_new (hex model_crates) AppStateTipType (KeyName (''0x'' @ hex_encode (hex model_crates) (sha256 model_crates d))) = Ok tip_path"
      "cado_path_new (hex model_crates) AppStateTipType (KeyName LATEST) = Ok latest"
      "obj_writes model_crates demo_codec (db_get model_rocks (\<lambda>cf k. None)) (staged_writes model_crates (cado_cache (app_envelope s)) @ ns @
         [(tip_path, tip_cado model_crates d), (latest, tip_cado model_crates d)] @ ws) (db_get model_rocks db')"
      "if block_height e smod blocks_per_epoch local_dev \<noteq> 0 then ws = []
       else \<exists>sn sn_cado sn_path. snapshot_new model_crates (s\<lparr>app_envelope := e\<rparr>) = Ok sn \<and> snapshot_to_cado model_crates demo_head sn = Ok sn_cado \<and>
         snapshot_latest_path model_crates = Ok sn_path \<and> ws = [(sn_path, sn_cado)]"
      "block_height e = block_height (app_envelope s)" "namespace_registry_cache (app_envelope s) = [] \<Longrightarrow> ns = []"
    have d: "d = le_bytes 8 1" using c(1,3,8) s(2,3) by (simp add: demo_head_def model_head_def tip_of_def)
    have paths: "tip_path = demo_tip_path" "latest = demo_latest" "ws = []" "ns = []"
      using c(4,5,7-9) demo_tip_paths s(3,5) d hd m1 by (simp_all add: local_dev_def)
    have st: "staged_writes model_crates (cado_cache (app_envelope s)) = [(demo_path, demo_body)]"
      using cado_path_new_parse [OF hx [unfolded hd] demo_path_new] by (simp add: staged_writes_def s(4) hd)
    have "p \<in> {demo_path, demo_latest, demo_tip_path}" if "object_path model_crates p" "indexed (db_get model_rocks db') p" for p
    proof -
      have "path_str p \<in> path_str ` {demo_path, demo_latest, demo_tip_path}"
        using indexed_writes [OF c(6), of p] that(2) empty_db_ok(2) by (auto simp: st paths)
      then obtain q where q: "q \<in> {demo_path, demo_latest, demo_tip_path}" "path_str p = path_str q" by auto
      then have "object_path model_crates q" using obj_writes_paths [OF c(6)] by (auto simp: st paths)
      from object_path_eq [OF hx that(1) this q(2)] q(1) show ?thesis by simp
    qed
    then have "{p. object_path model_crates p \<and> indexed (db_get model_rocks db') p} \<subseteq> set [demo_path, demo_latest, demo_tip_path]"
      by auto
    from inj_on_subset [OF demo_keys_inj this]
    show ?thesis using c(1,2,8) s(2,3) by (simp add: keys_distinct_def)
  qed
  then show thesis using demo_head_codec [unfolded o snd_conv] by (intro that [OF o]) simp_all
qed

section \<open>Properties\<close>

text \<open>C3: the database refines the map of objects.  After a commit on an engine that does not fail, every path of an
  account, a staking account or an epoch record reads the object that was staged for it, and what it read before when
  none was, as long as the storage keys of the objects in the database, which are SHA-256 hashes, do not collide.\<close>

theorem commit_writes_through:
  assumes "sound_store cr sc R" "db_ok cr (db_get R db)" "current_state c = Some s" "cache_ok cr (app_envelope s)"
    and "commit_inner cr sc hc R pc db c = Some (res, db', c')" "keys_distinct cr (db_get R db')"
    and "object_path cr q" "\<not> path_is_infrastructure q" "path_type q \<noteq> ''namespace''"
    and "\<forall>b. map_of (cado_cache (app_envelope s)) (path_str q) = Some b \<longrightarrow> cado_codec_ok sc (path_type q) b"
  shows "get_cado_by_path cr sc (db_get R db') q =
    (case map_of (cado_cache (app_envelope s)) (path_str q) of Some b \<Rightarrow> Ok (Some b) | None \<Rightarrow> get_cado_by_path cr sc (db_get R db) q)"
  using commit_writes_objects [OF assms(1-9)] assms(10) by blast

theorem commit_writes_through_witness:
  "\<exists>res db' c'. commit_inner model_crates demo_codec demo_head model_rocks local_dev (\<lambda>cf k. None) demo_staged = Some (res, db', c') \<and>
     get_cado_by_path model_crates demo_codec (db_get model_rocks db') demo_path = Ok (Some demo_body)"
proof -
  obtain res db' c' where o: "demo_outcome = (res, db', c')" "keys_distinct model_crates (db_get model_rocks db')"
    by (rule demo_outcome_head)
  note run = demo_outcome_runs [unfolded o(1)]
  obtain s where s: "current_state demo_staged = Some s" "cado_cache (app_envelope s) = [(path_str demo_path, demo_body)]"
    using demo_staged_state by blast
  have ty: "path_type demo_path = ''account''" using cado_path_new_shape(1) [OF demo_path_new] by simp
  have "object_path model_crates demo_path" "\<not> path_is_infrastructure demo_path" "path_type demo_path \<noteq> ''namespace''"
    using demo_path_new ty by (auto simp: object_path_def stable_type_def path_is_infrastructure_def INFRASTRUCTURE_CADO_TYPES_def model_crates_def)
  moreover have "length (body_data demo_body) = 40" by code_simp
  then have "\<forall>b. map_of (cado_cache (app_envelope s)) (path_str demo_path) = Some b \<longrightarrow> cado_codec_ok demo_codec (path_type demo_path) b"
    by (auto simp: s(2) cado_codec_ok_def demo_codec_def model_codec_def ty)
  ultimately show ?thesis
    using commit_writes_through [OF demo_sound_store empty_db_ok(1) s(1) demo_staged_ok(1) [OF s(1)] run o(2)] run
    by (fastforce simp: s(2))
qed



end
