(* ===== verification/State_Sync.thy ===== *)
theory State_Sync
  imports Restart Queries
begin

text \<open>
  State-sync snapshots (\<^verbatim>\<open>abci_interface/snapshot\<close> and \<^verbatim>\<open>storage/rocksdb/snapshots.rs\<close>): the epoch snapshot
  of a node cut into compressed chunks and stored as objects, and the Snapshot connection that offers, serves and receives
  them.  LZ4 and \<^verbatim>\<open>bincode\<close> are parameters, the clock and the free disk space are arguments.
\<close>

section \<open>Records\<close>

record snapshot_metadata =
  sm_height :: int
  sm_epoch :: u64
  sm_format_version :: u32
  sm_chunk_count :: u32
  sm_total_size :: u64
  sm_compression :: string
  sm_created_at :: u64
  sm_app_hash :: bytes
  sm_accounts_count :: u64
  sm_staking_accounts_count :: u64
  sm_storage_staking_accounts_count :: u64
  sm_namespaces_count :: u64
  sm_chunk_hashes :: "string list"

record snapshot_state_counts =
  accounts_count :: u64
  staking_accounts_count :: u64
  storage_staking_accounts_count :: u64
  namespaces_count :: u64

record snapshot_chunk =
  sk_index :: u32
  sk_data :: bytes
  sk_hash :: string
  sk_size :: u64

definition SNAPSHOT_FORMAT_VERSION :: u32 where "SNAPSHOT_FORMAT_VERSION = 2"

record abci_snapshot =
  as_version :: u32
  as_app_state_snapshot :: app_state_snapshot

definition abci_snapshot_new :: "app_state_snapshot \<Rightarrow> abci_snapshot" where
  "abci_snapshot_new sn = \<lparr>as_version = SNAPSHOT_FORMAT_VERSION, as_app_state_snapshot = sn\<rparr>"

record sync_codec =
  enc_sync_metadata :: "snapshot_metadata \<Rightarrow> bytes option"
  dec_sync_metadata :: "bytes \<Rightarrow> snapshot_metadata option"
  enc_sync_chunk :: "snapshot_chunk \<Rightarrow> bytes option"
  dec_sync_chunk :: "bytes \<Rightarrow> snapshot_chunk option"
  enc_abci_snapshot :: "abci_snapshot \<Rightarrow> bytes option"
  dec_abci_snapshot :: "bytes \<Rightarrow> abci_snapshot option"
  lz4_compress :: "bytes \<Rightarrow> bytes option"
  lz4_decompress :: "bytes \<Rightarrow> bytes option"

definition serialize_abci_snapshot :: "sync_codec \<Rightarrow> abci_snapshot \<Rightarrow> bytes res" where
  "serialize_abci_snapshot sy s = ok_or (StorageError ''serialize_abci_snapshot'') (enc_abci_snapshot sy s)"

definition deserialize_abci_snapshot :: "sync_codec \<Rightarrow> bytes \<Rightarrow> abci_snapshot res" where
  "deserialize_abci_snapshot sy d =
     and_then (ok_or (StorageError ''deserialize_abci_snapshot'') (dec_abci_snapshot sy d)) (\<lambda>s.
       if as_version s \<noteq> SNAPSHOT_FORMAT_VERSION then Err (ValidationError ''snapshot.version'') else Ok s)"

definition state_counts :: "app_state_snapshot \<Rightarrow> snapshot_state_counts" where
  "state_counts sn = fold (\<lambda>(_, b) c. let ty = meta_type (body_metadata b) in
      if ty = ''account'' then c\<lparr>accounts_count := accounts_count c + 1\<rparr>
      else if ty = ''staking_account'' then c\<lparr>staking_accounts_count := staking_accounts_count c + 1\<rparr>
      else if ty = ''storage_staking_account'' then c\<lparr>storage_staking_accounts_count := storage_staking_accounts_count c + 1\<rparr>
      else if ty = ''namespace'' then c\<lparr>namespaces_count := namespaces_count c + 1\<rparr>
      else c) (sn_committed_cado_cache sn)
    \<lparr>accounts_count = 0, staking_accounts_count = 0, storage_staking_accounts_count = 0, namespaces_count = 0\<rparr>"

section \<open>Stored snapshots\<close>

text \<open>\<^verbatim>\<open>put_cado_data\<close> for every type except accounts and staking accounts: the two writes, of which the first stays
  when the second fails.\<close>

definition put_immutable_cado_data ::
    "node_crates \<Rightarrow> store_codec \<Rightarrow> ('db, 'tx) rocks \<Rightarrow> 'db \<Rightarrow> cado_path \<Rightarrow> bytes \<Rightarrow> cado_metadata \<Rightarrow> unit res \<times> 'db" where
  "put_immutable_cado_data cr sc R db p data meta = (let b = cado_immutable (sha256 cr) data meta in
     case and_then (validate_cado_path_internal (hex cr) p) (\<lambda>_. and_then (generate_keys cr p b) (\<lambda>keys.
         and_then (ok_or (StorageError ''serialize'') (enc_cado sc b)) (\<lambda>v. Ok (keys, v)))) of
       Inl e \<Rightarrow> (Err e, db)
     | Inr (keys, v) \<Rightarrow> (case db_put R db CadoCf (str_bytes (original_key keys)) v of
         None \<Rightarrow> (Err (StorageError ''put_cf_cado''), db)
       | Some db1 \<Rightarrow> (case db_put R db1 PathIndexCf (str_bytes (path_str p)) (str_bytes (original_key keys)) of
           None \<Rightarrow> (Err (StorageError ''put_cf_path_index''), db1)
         | Some db2 \<Rightarrow> (Ok (), db2))))"

definition hashed_name_path :: "node_crates \<Rightarrow> cado_type \<Rightarrow> string \<Rightarrow> cado_path res" where
  "hashed_name_path cr ty s = cado_path_new (hex cr) ty (KeyName (''0x'' @ hex_encode (hex cr) (sha256 cr (str_bytes s))))"

definition put_hashed_name ::
    "node_crates \<Rightarrow> store_codec \<Rightarrow> ('db, 'tx) rocks \<Rightarrow> 'db \<Rightarrow> cado_type \<Rightarrow> string \<Rightarrow> bytes res \<Rightarrow> unit res \<times> 'db" where
  "put_hashed_name cr sc R db ty s data =
    (case and_then (hashed_name_path cr ty s) (\<lambda>p. and_then data (\<lambda>d. Ok (p, d))) of
       Inl e \<Rightarrow> (Err e, db)
     | Inr (p, d) \<Rightarrow> put_immutable_cado_data cr sc R db p d (cado_metadata_new ty ''system''))"

definition found_or_none :: "'a res \<Rightarrow> 'a option res" where
  "found_or_none r = (case r of Inr x \<Rightarrow> Ok (Some x) | Inl (NotFoundError _) \<Rightarrow> Ok None | Inl e \<Rightarrow> Err e)"

definition put_snapshot_metadata ::
    "node_crates \<Rightarrow> store_codec \<Rightarrow> sync_codec \<Rightarrow> ('db, 'tx) rocks \<Rightarrow> 'db \<Rightarrow> snapshot_metadata \<Rightarrow> unit res \<times> 'db" where
  "put_snapshot_metadata cr sc sy R db m = put_hashed_name cr sc R db SnapshotMetadataType (show_int (sm_height m))
     (ok_or (StorageError ''serialize_snapshot_metadata'') (enc_sync_metadata sy m))"

definition get_snapshot_metadata :: "node_crates \<Rightarrow> store_codec \<Rightarrow> sync_codec \<Rightarrow> reader \<Rightarrow> int \<Rightarrow> snapshot_metadata option res" where
  "get_snapshot_metadata cr sc sy rd h = and_then (hashed_name_path cr SnapshotMetadataType (show_int h)) (\<lambda>p.
     found_or_none (get_deserialized_cado_by_path cr sc rd (dec_sync_metadata sy) p))"

definition chunk_id :: "int \<Rightarrow> u32 \<Rightarrow> string" where "chunk_id h i = show_int h @ ''_'' @ show_nat (unat i)"

definition put_snapshot_chunk ::
    "node_crates \<Rightarrow> store_codec \<Rightarrow> sync_codec \<Rightarrow> ('db, 'tx) rocks \<Rightarrow> 'db \<Rightarrow> int \<Rightarrow> snapshot_chunk \<Rightarrow> unit res \<times> 'db" where
  "put_snapshot_chunk cr sc sy R db h c = put_hashed_name cr sc R db SnapshotChunkType (chunk_id h (sk_index c))
     (ok_or (StorageError ''serialize_snapshot_chunk'') (enc_sync_chunk sy c))"

definition get_snapshot_chunk :: "node_crates \<Rightarrow> store_codec \<Rightarrow> sync_codec \<Rightarrow> reader \<Rightarrow> int \<Rightarrow> u32 \<Rightarrow> snapshot_chunk option res" where
  "get_snapshot_chunk cr sc sy rd h i = and_then (hashed_name_path cr SnapshotChunkType (chunk_id h i)) (\<lambda>p.
     found_or_none (get_deserialized_cado_by_path cr sc rd (dec_sync_chunk sy) p))"

definition PATH_PREFIX_SNAPSHOT_METADATA :: string where "PATH_PREFIX_SNAPSHOT_METADATA = ''/@eld/snapshot_metadata/''"

definition get_latest_snapshot_metadata ::
    "node_crates \<Rightarrow> store_codec \<Rightarrow> sync_codec \<Rightarrow> db_iter \<Rightarrow> reader \<Rightarrow> int \<Rightarrow> prefix_query_rate_limiter
     \<Rightarrow> snapshot_metadata option res \<times> prefix_query_rate_limiter" where
  "get_latest_snapshot_metadata cr sc sy it rd now l = map_prod (\<lambda>r. and_then r (\<lambda>ps.
       Ok (snd (fold (\<lambda>p (h, best). case get_deserialized_cado_by_path cr sc rd (dec_sync_metadata sy) p of
            Inr m \<Rightarrow> if sm_height m > h then (sm_height m, Some m) else (h, best)
          | Inl _ \<Rightarrow> (h, best)) ps (- (2 ^ 63), None))))) id
     (get_cado_paths_by_prefix (hex cr) it now PATH_PREFIX_SNAPSHOT_METADATA l)"

text \<open>The limit cuts the paths in the order of the index, before the sort by height.\<close>

fun listed_metadata :: "(cado_path \<Rightarrow> snapshot_metadata res) \<Rightarrow> nat \<Rightarrow> cado_path list \<Rightarrow> snapshot_metadata list \<Rightarrow> snapshot_metadata list" where
  "listed_metadata rd limit [] acc = acc"
| "listed_metadata rd limit (p # ps) acc = (let acc' = (case rd p of Inr m \<Rightarrow> acc @ [m] | Inl _ \<Rightarrow> acc) in
     if length acc' \<ge> limit then acc' else listed_metadata rd limit ps acc')"

definition list_snapshots ::
    "node_crates \<Rightarrow> store_codec \<Rightarrow> sync_codec \<Rightarrow> db_iter \<Rightarrow> reader \<Rightarrow> int \<Rightarrow> u32 \<Rightarrow> prefix_query_rate_limiter
     \<Rightarrow> snapshot_metadata list res \<times> prefix_query_rate_limiter" where
  "list_snapshots cr sc sy it rd now limit l = map_prod (\<lambda>r. and_then r (\<lambda>ps.
       Ok (sort_by (\<lambda>a b. sm_height b \<le> sm_height a)
         (listed_metadata (get_deserialized_cado_by_path cr sc rd (dec_sync_metadata sy)) (unat limit) ps [])))) id
     (get_cado_paths_by_prefix (hex cr) it now PATH_PREFIX_SNAPSHOT_METADATA l)"

text \<open>Deletion outside of a transaction: the rows deleted before a failure stay deleted.\<close>

definition delete_cado_associated_keys_db ::
    "node_crates \<Rightarrow> ('db \<Rightarrow> column_family \<Rightarrow> bytes \<Rightarrow> 'db option) \<Rightarrow> 'db \<Rightarrow> cado_path \<Rightarrow> cado_keys \<Rightarrow> unit res \<times> 'db" where
  "delete_cado_associated_keys_db cr del db p keys = (case del db CadoCf (str_bytes (original_key keys)) of
      None \<Rightarrow> (Err (StorageError ''delete_cado_original_key''), db)
    | Some db1 \<Rightarrow> (case (case latest_key keys of None \<Rightarrow> Some db1 | Some k \<Rightarrow> del db1 CadoCf (str_bytes k)) of
        None \<Rightarrow> (Err (StorageError ''delete_cado_latest_key''), db1)
      | Some db2 \<Rightarrow> (case cado_path_new (hex cr) CadoMapType (KeyName (path_name p)) of
          Inl e \<Rightarrow> (Err e, db2)
        | Inr map_path \<Rightarrow> (case del db2 CadoMapCf (str_bytes (path_str map_path)) of
            None \<Rightarrow> (Err (StorageError ''delete_cado_map''), db2)
          | Some db3 \<Rightarrow> (case del db3 PathIndexCf (str_bytes (path_str p)) of
              None \<Rightarrow> (Err (StorageError ''delete_path_index''), db3)
            | Some db4 \<Rightarrow> (Ok (), db4))))))"

definition system_delete_cado ::
    "node_crates \<Rightarrow> store_codec \<Rightarrow> ('db, 'tx) rocks \<Rightarrow> ('db \<Rightarrow> column_family \<Rightarrow> bytes \<Rightarrow> 'db option) \<Rightarrow> 'db \<Rightarrow> cado_path \<Rightarrow> string \<Rightarrow> unit res \<times> 'db" where
  "system_delete_cado cr sc R del db p owner = (case prepare_system_cado_deletion cr sc (db_get R db) p owner of
      Inl e \<Rightarrow> (Err e, db) | Inr (p', keys) \<Rightarrow> delete_cado_associated_keys_db cr del db p' keys)"

definition delete_snapshot_chunk ::
    "node_crates \<Rightarrow> store_codec \<Rightarrow> ('db, 'tx) rocks \<Rightarrow> ('db \<Rightarrow> column_family \<Rightarrow> bytes \<Rightarrow> 'db option) \<Rightarrow> 'db \<Rightarrow> int \<Rightarrow> u32 \<Rightarrow> unit res \<times> 'db" where
  "delete_snapshot_chunk cr sc R del db h i = (case hashed_name_path cr SnapshotChunkType (chunk_id h i) of
      Inl e \<Rightarrow> (Err e, db) | Inr p \<Rightarrow> system_delete_cado cr sc R del db p ''system'')"

definition delete_snapshot_metadata ::
    "node_crates \<Rightarrow> store_codec \<Rightarrow> ('db, 'tx) rocks \<Rightarrow> ('db \<Rightarrow> column_family \<Rightarrow> bytes \<Rightarrow> 'db option) \<Rightarrow> 'db \<Rightarrow> int \<Rightarrow> unit res \<times> 'db" where
  "delete_snapshot_metadata cr sc R del db h = (case hashed_name_path cr SnapshotMetadataType (show_int h) of
      Inl e \<Rightarrow> (Err e, db) | Inr p \<Rightarrow> system_delete_cado cr sc R del db p ''system'')"

section \<open>Creating a snapshot\<close>

definition CHUNK_SIZE :: nat where "CHUNK_SIZE = 10000000"

function payload_chunks :: "bytes \<Rightarrow> bytes list" where
  "payload_chunks d = (if d = [] then [] else take CHUNK_SIZE d # payload_chunks (drop CHUNK_SIZE d))"
  by pat_completeness auto
termination by (relation "measure length") (auto simp: CHUNK_SIZE_def)

declare payload_chunks.simps [simp del]

fun compress_chunks :: "node_crates \<Rightarrow> sync_codec \<Rightarrow> bytes list \<Rightarrow> (bytes \<times> string) list res" where
  "compress_chunks cr sy [] = Ok []"
| "compress_chunks cr sy (c # cs) = and_then (ok_or (StorageError ''compress_chunk'') (lz4_compress sy c)) (\<lambda>z.
     and_then (compress_chunks cr sy cs) (\<lambda>rest. Ok ((z, hex_encode (hex cr) (sha256 cr c)) # rest)))"

definition snapshot_metadata_of :: "u64 \<Rightarrow> int \<Rightarrow> (bytes \<times> string) list \<Rightarrow> bytes \<Rightarrow> snapshot_state_counts \<Rightarrow> snapshot_metadata" where
  "snapshot_metadata_of now h parts hash counts = \<lparr>sm_height = h, sm_epoch = word_of_int (h sdiv 100), sm_format_version = 1,
     sm_chunk_count = of_nat (length parts), sm_total_size = of_nat (sum_list (map (length \<circ> fst) parts)), sm_compression = ''lz4'',
     sm_created_at = now, sm_app_hash = hash, sm_accounts_count = accounts_count counts,
     sm_staking_accounts_count = staking_accounts_count counts,
     sm_storage_staking_accounts_count = storage_staking_accounts_count counts, sm_namespaces_count = namespaces_count counts,
     sm_chunk_hashes = map snd parts\<rparr>"

definition chunk_of_part :: "nat \<Rightarrow> bytes \<times> string \<Rightarrow> snapshot_chunk" where
  "chunk_of_part i part = \<lparr>sk_index = of_nat i, sk_data = fst part, sk_hash = snd part, sk_size = of_nat CHUNK_SIZE\<rparr>"

fun put_chunks ::
    "node_crates \<Rightarrow> store_codec \<Rightarrow> sync_codec \<Rightarrow> ('db, 'tx) rocks \<Rightarrow> int \<Rightarrow> nat \<Rightarrow> (bytes \<times> string) list \<Rightarrow> 'db \<Rightarrow> unit res \<times> 'db" where
  "put_chunks cr sc sy R h i [] db = (Ok (), db)"
| "put_chunks cr sc sy R h i (part # parts) db = (case put_snapshot_chunk cr sc sy R db h (chunk_of_part i part) of
     (Inl e, db') \<Rightarrow> (Err e, db')
   | (Inr _, db') \<Rightarrow> put_chunks cr sc sy R h (Suc i) parts db')"

definition create_snapshot_with_app_hash ::
    "node_crates \<Rightarrow> store_codec \<Rightarrow> sync_codec \<Rightarrow> ('db, 'tx) rocks \<Rightarrow> u64 \<Rightarrow> int \<Rightarrow> bytes \<Rightarrow> bytes \<Rightarrow> snapshot_state_counts \<Rightarrow> 'db
     \<Rightarrow> unit res \<times> 'db" where
  "create_snapshot_with_app_hash cr sc sy R now h data hash counts db = (case compress_chunks cr sy (payload_chunks data) of
      Inl e \<Rightarrow> (Err e, db)
    | Inr parts \<Rightarrow> (case put_snapshot_metadata cr sc sy R db (snapshot_metadata_of now h parts hash counts) of
        (Inl e, db') \<Rightarrow> (Err e, db')
      | (Inr _, db') \<Rightarrow> put_chunks cr sc sy R h 0 parts db'))"

definition create_snapshot_from_latest_state ::
    "node_crates \<Rightarrow> store_codec \<Rightarrow> head_codec \<Rightarrow> sync_codec \<Rightarrow> ('db, 'tx) rocks \<Rightarrow> u64 \<Rightarrow> int \<Rightarrow> 'db \<Rightarrow> unit res \<times> 'db" where
  "create_snapshot_from_latest_state cr sc hc sy R now h db = (let rd = db_get R db in
     case and_then (cado_path_new (hex cr) AppStateTipType (KeyName LATEST)) (\<lambda>p.
         and_then (get_deserialized_cado_by_path cr sc rd (dec_tip hc) p) (\<lambda>tip.
         if tip_block_height tip \<noteq> h then Err (ValidationError ''app_state_tip.block_height'')
         else and_then (snapshot_latest_path cr) (\<lambda>q.
         and_then (get_deserialized_cado_by_path cr sc rd (dec_snapshot hc) q) (\<lambda>sn.
         if sn_block_height sn \<noteq> h then Err (ValidationError ''app_state_snapshot.block_height'')
         else if sn_app_hash sn \<noteq> tip_app_hash tip then Err (ValidationError ''app_state_snapshot.app_hash'')
         else if sn_state_trie_root sn \<noteq> cado_root_hash tip then Err (ValidationError ''app_state_snapshot.state_trie_root'')
         else and_then (serialize_abci_snapshot sy (abci_snapshot_new sn)) (\<lambda>payload. Ok (sn, payload)))))) of
       Inl e \<Rightarrow> (Err e, db)
     | Inr (sn, payload) \<Rightarrow> create_snapshot_with_app_hash cr sc sy R now h payload (sn_app_hash sn) (state_counts sn) db)"

section \<open>The Snapshot connection\<close>

record abci_snapshot_item =
  si_height :: u64
  si_format :: u32
  si_chunks :: u32
  si_hash :: bytes

definition abci_list_snapshots ::
    "node_crates \<Rightarrow> store_codec \<Rightarrow> sync_codec \<Rightarrow> db_iter \<Rightarrow> reader \<Rightarrow> int \<Rightarrow> prefix_query_rate_limiter
     \<Rightarrow> abci_snapshot_item list \<times> prefix_query_rate_limiter" where
  "abci_list_snapshots cr sc sy it rd now l = map_prod (\<lambda>r. case r of Inl _ \<Rightarrow> []
     | Inr ms \<Rightarrow> map (\<lambda>m. \<lparr>si_height = word_of_int (sm_height m), si_format = sm_format_version m, si_chunks = sm_chunk_count m,
         si_hash = sm_app_hash m\<rparr>) ms) id
     (list_snapshots cr sc sy it rd now 100 l)"

definition load_snapshot_chunk :: "node_crates \<Rightarrow> store_codec \<Rightarrow> sync_codec \<Rightarrow> reader \<Rightarrow> u64 \<Rightarrow> u32 \<Rightarrow> bytes" where
  "load_snapshot_chunk cr sc sy rd h i = (case get_snapshot_chunk cr sc sy rd (sint h) i of Inr (Some c) \<Rightarrow> sk_data c | _ \<Rightarrow> [])"

datatype offer_snapshot_result = OfferAccept | OfferAbort | OfferReject | OfferRejectFormat

definition f64_as_u64 :: "f64 \<Rightarrow> u64" where
  "f64_as_u64 a = (if fst a \<le> 0 then 0 else
     (let v = (if 0 \<le> snd a then fst a * 2 ^ nat (snd a) else fst a div 2 ^ nat (- snd a)) in
      if v \<ge> 2 ^ 64 then - 1 else word_of_int v))"

definition has_capacity_for :: "u64 res \<Rightarrow> u64 \<Rightarrow> bool" where
  "has_capacity_for available n = (let required_space = f64_as_u64 (f64_mul (f64_of_int (uint n)) (f64_div_ints 12 10)) in
     case available of Inr a \<Rightarrow> a > required_space | Inl _ \<Rightarrow> False)"

definition offer_snapshot ::
    "node_crates \<Rightarrow> store_codec \<Rightarrow> sync_codec \<Rightarrow> reader \<Rightarrow> u64 res \<Rightarrow> abci_snapshot_item option \<Rightarrow> bytes \<Rightarrow> offer_snapshot_result" where
  "offer_snapshot cr sc sy rd available offered hash = (case offered of
      None \<Rightarrow> OfferReject
    | Some s \<Rightarrow> (case get_snapshot_metadata cr sc sy rd (sint (si_height s)) of
        Inr (Some _) \<Rightarrow> OfferReject
      | Inl _ \<Rightarrow> OfferAbort
      | Inr None \<Rightarrow>
          if si_format s \<noteq> 1 then OfferRejectFormat
          else if hash \<noteq> [] \<and> si_hash s \<noteq> hash then OfferReject
          else if \<not> has_capacity_for available (ucast (si_chunks s) * 10000000) then OfferAbort
          else OfferAccept))"

definition store_snapshot_chunk ::
    "node_crates \<Rightarrow> store_codec \<Rightarrow> sync_codec \<Rightarrow> ('db, 'tx) rocks \<Rightarrow> 'db \<Rightarrow> int \<Rightarrow> snapshot_chunk \<Rightarrow> unit res \<times> 'db" where
  "store_snapshot_chunk cr sc sy R db h c = (case get_snapshot_metadata cr sc sy (db_get R db) h of
      Inl e \<Rightarrow> (Err e, db)
    | Inr None \<Rightarrow> (Err (NotFoundError ''snapshot metadata''), db)
    | Inr (Some m) \<Rightarrow>
        if sk_index c \<ge> sm_chunk_count m then (Err (ValidationError ''chunk index''), db)
        else (case put_snapshot_chunk cr sc sy R db h \<lparr>sk_index = sk_index c, sk_data = sk_data c,
              sk_hash = hex_encode (hex cr) (sha256 cr (sk_data c)), sk_size = of_nat (length (sk_data c))\<rparr> of
            (Inr _, db') \<Rightarrow> (Ok (), db')
          | (Inl _, db') \<Rightarrow> (Err (StorageError ''store snapshot chunk''), db')))"

datatype apply_chunk_result = ApplyUnknown | ApplyAccept

definition apply_snapshot_chunk ::
    "node_crates \<Rightarrow> store_codec \<Rightarrow> sync_codec \<Rightarrow> ('db, 'tx) rocks \<Rightarrow> ('db \<Rightarrow> db_iter) \<Rightarrow> int \<Rightarrow> u32 \<Rightarrow> bytes \<Rightarrow> 'db \<Rightarrow> prefix_query_rate_limiter
     \<Rightarrow> apply_chunk_result \<times> 'db \<times> prefix_query_rate_limiter" where
  "apply_snapshot_chunk cr sc sy R its now i chunk db l = (case list_snapshots cr sc sy (its db) (db_get R db) now 10 l of
      (Inl _, l') \<Rightarrow> (ApplyUnknown, db, l')
    | (Inr [], l') \<Rightarrow> (ApplyUnknown, db, l')
    | (Inr (m # _), l') \<Rightarrow>
        (case store_snapshot_chunk cr sc sy R db (sm_height m) \<lparr>sk_index = i, sk_data = chunk, sk_hash = [], sk_size = of_nat (length chunk)\<rparr> of
           (Inl _, db') \<Rightarrow> (ApplyUnknown, db', l')
         | (Inr _, db') \<Rightarrow> (ApplyAccept, db', l')))"

section \<open>Objects under hashed names\<close>

abbreviation sync_body :: "node_crates \<Rightarrow> cado_type \<Rightarrow> bytes \<Rightarrow> cado_body" where
  "sync_body cr ty d \<equiv> cado_immutable (sha256 cr) d (cado_metadata_new ty ''system'')"

text \<open>The key of such an object is determined by its type and its bytes.\<close>

definition sync_key :: "node_crates \<Rightarrow> cado_path \<Rightarrow> bytes \<Rightarrow> string" where
  "sync_key cr p d = storage_key cr p (hex_encode (hex cr) (sha256 cr d))"

definition sync_path :: "node_crates \<Rightarrow> cado_path \<times> cado_type \<times> bytes \<Rightarrow> bool" where
  "sync_path cr = (\<lambda>(p, ty, d). (ty = SnapshotMetadataType \<or> ty = SnapshotChunkType) \<and> (\<exists>key. cado_path_new (hex cr) ty key = Ok p))"

text \<open>The two rows of an object are in the database.\<close>

definition held :: "node_crates \<Rightarrow> store_codec \<Rightarrow> reader \<Rightarrow> cado_path \<times> cado_type \<times> bytes \<Rightarrow> bool" where
  "held cr sc rd = (\<lambda>(p, ty, d). rd PathIndexCf (str_bytes (path_str p)) = Some (Some (str_bytes (sync_key cr p d))) \<and>
     (\<exists>v. enc_cado sc (sync_body cr ty d) = Some v \<and> rd CadoCf (str_bytes (sync_key cr p d)) = Some (Some v)))"

lemma sync_keys:
  assumes "sync_path cr (p, ty, d)"
  shows "generate_keys cr p (sync_body cr ty d) = Ok \<lparr>original_key = sync_key cr p d, latest_key = None\<rparr>"
    "path_type p = cado_type_as_str ty"
proof -
  obtain key where p: "cado_path_new (hex cr) ty key = Ok p" and ty: "ty = SnapshotMetadataType \<or> ty = SnapshotChunkType"
    using assms by (auto simp: sync_path_def)
  show t: "path_type p = cado_type_as_str ty" using cado_path_new_shape(1) [OF p] by simp
  have "path_validate_hex (hex cr) (path_name p) 32 ''name'' = Ok ()"
    using cado_path_new_shape(2) [OF p] ty by (auto simp: expected_hex_length_def is_address_type_def split: if_splits)
  then show "generate_keys cr p (sync_body cr ty d) = Ok \<lparr>original_key = sync_key cr p d, latest_key = None\<rparr>"
    using ty t by (auto simp: generate_keys_def generate_key_def generate_latest_def general_original_key_def general_latest_key_def
        sync_key_def cado_immutable_def path_validate_hex_Inr result_simps)
qed

lemma held_read:
  assumes "hex_documented (hex cr)" "sync_path cr (p, ty, d)" "held cr sc rd (p, ty, d)" "cado_codec_ok sc (path_type p) (sync_body cr ty d)"
  shows "get_cado_by_path cr sc rd p = Ok (Some (sync_body cr ty d))"
proof -
  have "path_type p \<noteq> ''app_state_snapshot''" using assms(2) sync_keys(2) [OF assms(2)] by (auto simp: sync_path_def)
  moreover have "validate_cado_path_internal (hex cr) p = Ok ()"
    using assms(2) constructed_path_valid [OF assms(1)] by (auto simp: sync_path_def)
  moreover have "from_utf8 (str_bytes (sync_key cr p d)) = Some (sync_key cr p d)"
    unfolding sync_key_def by (rule storage_key_utf8 [OF assms(1)])
  ultimately show ?thesis using assms(3,4) sync_keys(1) [OF assms(2)]
    by (auto simp: get_cado_by_path_def held_def cado_codec_ok_def deserialize_stored_cado_type_def safe_deserialize_cado_data_def
        safe_bincode_deserialize_def result_simps)
qed

text \<open>An engine whose reads and writes outside of transactions succeed.\<close>

definition writes_succeed :: "('db, 'tx) rocks \<Rightarrow> bool" where
  "writes_succeed R \<longleftrightarrow> (\<forall>db cf k v. db_put R db cf k v \<noteq> None)"

lemma put_immutable_held:
  assumes "rocks_documented R" "writes_succeed R" "hex_documented (hex cr)" "sync_path cr (p, ty, d)" "enc_cado sc (sync_body cr ty d) \<noteq> None"
  obtains db' where "put_immutable_cado_data cr sc R db p d (cado_metadata_new ty ''system'') = (Ok (), db')"
    "held cr sc (db_get R db') (p, ty, d)"
    "\<And>q ty' d'. held cr sc (db_get R db) (q, ty', d') \<Longrightarrow> path_str q \<noteq> path_str p \<Longrightarrow> sync_key cr q d' \<noteq> sync_key cr p d \<Longrightarrow>
       held cr sc (db_get R db') (q, ty', d')"
proof -
  obtain v where v: "enc_cado sc (sync_body cr ty d) = Some v" using assms(5) by blast
  obtain db1 where w1: "db_put R db CadoCf (str_bytes (sync_key cr p d)) v = Some db1"
    using assms(2) unfolding writes_succeed_def by blast
  obtain db2 where w2: "db_put R db1 PathIndexCf (str_bytes (path_str p)) (str_bytes (sync_key cr p d)) = Some db2"
    using assms(2) unfolding writes_succeed_def by blast
  have rd: "db_get R db2 = rd_update (rd_update (db_get R db) CadoCf (str_bytes (sync_key cr p d)) (Some v))
      PathIndexCf (str_bytes (path_str p)) (Some (str_bytes (sync_key cr p d)))"
    using rocks_laws(5) [OF assms(1) w1] rocks_laws(5) [OF assms(1) w2] by simp
  have val: "validate_cado_path_internal (hex cr) p = Ok ()"
    using assms(4) constructed_path_valid [OF assms(3)] by (auto simp: sync_path_def)
  show thesis
  proof (rule that)
    show "put_immutable_cado_data cr sc R db p d (cado_metadata_new ty ''system'') = (Ok (), db2)"
      by (simp add: put_immutable_cado_data_def val sync_keys(1) [OF assms(4)] v w1 w2 result_simps)
    show "held cr sc (db_get R db2) (p, ty, d)" by (simp add: held_def rd v)
    show "held cr sc (db_get R db2) (q, ty', d')" if "held cr sc (db_get R db) (q, ty', d')" "path_str q \<noteq> path_str p"
      "sync_key cr q d' \<noteq> sync_key cr p d" for q ty' d'
      using that by (simp add: held_def rd)
  qed
qed

text \<open>A sequence of such writes.\<close>

fun put_all :: "node_crates \<Rightarrow> store_codec \<Rightarrow> ('db, 'tx) rocks \<Rightarrow> (cado_path \<times> cado_type \<times> bytes) list \<Rightarrow> 'db \<Rightarrow> unit res \<times> 'db" where
  "put_all cr sc R [] db = (Ok (), db)"
| "put_all cr sc R ((p, ty, d) # os) db = (case put_immutable_cado_data cr sc R db p d (cado_metadata_new ty ''system'') of
     (Inl e, db') \<Rightarrow> (Err e, db') | (Inr _, db') \<Rightarrow> put_all cr sc R os db')"

definition apart :: "node_crates \<Rightarrow> (cado_path \<times> cado_type \<times> bytes) list \<Rightarrow> bool" where
  "apart cr os \<longleftrightarrow> distinct (map (\<lambda>(p, _, _). path_str p) os) \<and> distinct (map (\<lambda>(p, _, d). sync_key cr p d) os)"

lemma apart_before:
  assumes "apart cr (ds @ x # os)" "y \<in> set ds"
  shows "path_str (fst x) \<noteq> path_str (fst y)" "sync_key cr (fst x) (snd (snd x)) \<noteq> sync_key cr (fst y) (snd (snd y))"
  using assms by (auto simp: apart_def split_beta in_set_conv_decomp)

lemma put_all_held:
  assumes "rocks_documented R" "writes_succeed R" "hex_documented (hex cr)" "\<forall>x \<in> set os. sync_path cr x"
    and "\<forall>(p, ty, d) \<in> set os. enc_cado sc (sync_body cr ty d) \<noteq> None" "apart cr (ds @ os)" "\<forall>x \<in> set ds. held cr sc (db_get R db) x"
  shows "\<exists>db'. put_all cr sc R os db = (Ok (), db') \<and> (\<forall>x \<in> set (ds @ os). held cr sc (db_get R db') x)"
  using assms(4-)
proof (induction os arbitrary: ds db)
  case (Cons x os)
  obtain p ty d where x: "x = (p, ty, d)" by (cases x)
  have px: "sync_path cr (p, ty, d)" "enc_cado sc (sync_body cr ty d) \<noteq> None" using Cons.prems(1,2) by (auto simp: x)
  obtain db1 where w: "put_immutable_cado_data cr sc R db p d (cado_metadata_new ty ''system'') = (Ok (), db1)"
    "held cr sc (db_get R db1) (p, ty, d)"
    "\<And>q ty' d'. held cr sc (db_get R db) (q, ty', d') \<Longrightarrow> path_str q \<noteq> path_str p \<Longrightarrow> sync_key cr q d' \<noteq> sync_key cr p d \<Longrightarrow>
       held cr sc (db_get R db1) (q, ty', d')"
    using put_immutable_held [OF assms(1-3) px, of db] by blast
  have "\<forall>y \<in> set (ds @ [x]). held cr sc (db_get R db1) y"
  proof
    fix y assume y: "y \<in> set (ds @ [x])"
    obtain q ty' d' where q: "y = (q, ty', d')" by (cases y)
    show "held cr sc (db_get R db1) y"
    proof (cases "y \<in> set ds")
      case True
      then have "path_str p \<noteq> path_str q" "sync_key cr p d \<noteq> sync_key cr q d'"
        using apart_before [OF Cons.prems(3) True] by (auto simp: q x)
      then show ?thesis using w(3) [of q ty' d'] Cons.prems(4) True q by auto
    qed (use y w(2) x in auto)
  qed
  moreover have "apart cr ((ds @ [x]) @ os)" using Cons.prems(3) by simp
  ultimately obtain db' where "put_all cr sc R os db1 = (Ok (), db')" "\<forall>y \<in> set ((ds @ [x]) @ os). held cr sc (db_get R db') y"
    using Cons.IH [of "ds @ [x]" db1] Cons.prems(1,2) by auto
  then show ?case using w(1) by (simp add: x)
qed simp

section \<open>The objects of a snapshot\<close>

fun chunk_objects :: "node_crates \<Rightarrow> sync_codec \<Rightarrow> int \<Rightarrow> nat \<Rightarrow> (bytes \<times> string) list \<Rightarrow> (cado_path \<times> cado_type \<times> bytes) list res" where
  "chunk_objects cr sy h i [] = Ok []"
| "chunk_objects cr sy h i (part # parts) = and_then (hashed_name_path cr SnapshotChunkType (chunk_id h (of_nat i))) (\<lambda>p.
     and_then (ok_or (StorageError ''serialize_snapshot_chunk'') (enc_sync_chunk sy (chunk_of_part i part))) (\<lambda>d.
     and_then (chunk_objects cr sy h (Suc i) parts) (\<lambda>os. Ok ((p, SnapshotChunkType, d) # os))))"

definition snapshot_objects ::
    "node_crates \<Rightarrow> sync_codec \<Rightarrow> snapshot_metadata \<Rightarrow> (bytes \<times> string) list \<Rightarrow> (cado_path \<times> cado_type \<times> bytes) list res" where
  "snapshot_objects cr sy m parts = and_then (hashed_name_path cr SnapshotMetadataType (show_int (sm_height m))) (\<lambda>p.
     and_then (ok_or (StorageError ''serialize_snapshot_metadata'') (enc_sync_metadata sy m)) (\<lambda>d.
     and_then (chunk_objects cr sy (sm_height m) 0 parts) (\<lambda>os. Ok ((p, SnapshotMetadataType, d) # os))))"

lemma chunk_objects_nth:
  assumes "chunk_objects cr sy h i parts = Ok os"
  shows "length os = length parts" "j < length parts \<Longrightarrow> \<exists>p d. os ! j = (p, SnapshotChunkType, d) \<and>
    hashed_name_path cr SnapshotChunkType (chunk_id h (of_nat (i + j))) = Ok p \<and> enc_sync_chunk sy (chunk_of_part (i + j) (parts ! j)) = Some d"
  using assms
proof (induction parts arbitrary: i j os)
  case (Cons part parts)
  { case 1 then show ?case using Cons.IH(1) by (auto simp: and_then_Inr_iff ok_or_iff) }
  { case 2
    then obtain p d os' where o: "hashed_name_path cr SnapshotChunkType (chunk_id h (of_nat i)) = Ok p"
      "enc_sync_chunk sy (chunk_of_part i part) = Some d" "chunk_objects cr sy h (Suc i) parts = Ok os'" "os = (p, SnapshotChunkType, d) # os'"
      by (auto simp: and_then_Inr_iff ok_or_iff)
    show ?case
    proof (cases j)
      case (Suc k)
      then show ?thesis using Cons.IH(2) [of k "Suc i" os'] 2(1) o(3,4) by auto
    qed (use o in auto) }
qed auto

lemma put_chunks_all:
  assumes "chunk_objects cr sy h i parts = Ok os"
  shows "put_chunks cr sc sy R h i parts db = put_all cr sc R os db"
  using assms
proof (induction parts arbitrary: i os db)
  case (Cons part parts)
  then obtain p d os' where o: "hashed_name_path cr SnapshotChunkType (chunk_id h (of_nat i)) = Ok p"
    "enc_sync_chunk sy (chunk_of_part i part) = Some d" "chunk_objects cr sy h (Suc i) parts = Ok os'" "os = (p, SnapshotChunkType, d) # os'"
    by (auto simp: and_then_Inr_iff ok_or_iff)
  then have "put_snapshot_chunk cr sc sy R db h (chunk_of_part i part) =
      put_immutable_cado_data cr sc R db p d (cado_metadata_new SnapshotChunkType ''system'')"
    by (simp add: put_snapshot_chunk_def put_hashed_name_def chunk_of_part_def result_simps)
  then show ?case using Cons.IH [OF o(3)] by (simp add: o(4) split: prod.splits sum.splits)
qed simp

lemma create_snapshot_all:
  assumes "compress_chunks cr sy (payload_chunks data) = Ok parts"
    and "snapshot_objects cr sy (snapshot_metadata_of now h parts hash counts) parts = Ok os"
  shows "create_snapshot_with_app_hash cr sc sy R now h data hash counts db = put_all cr sc R os db"
proof -
  let ?m = "snapshot_metadata_of now h parts hash counts"
  have h: "sm_height ?m = h" by (simp add: snapshot_metadata_of_def)
  from assms(2) obtain p d os' where o: "hashed_name_path cr SnapshotMetadataType (show_int h) = Ok p"
    "enc_sync_metadata sy ?m = Some d" "chunk_objects cr sy h 0 parts = Ok os'" "os = (p, SnapshotMetadataType, d) # os'"
    by (auto simp: snapshot_objects_def h and_then_Inr_iff ok_or_iff)
  have "put_snapshot_metadata cr sc sy R db ?m = put_immutable_cado_data cr sc R db p d (cado_metadata_new SnapshotMetadataType ''system'')"
    using o(1,2) by (simp add: put_snapshot_metadata_def put_hashed_name_def h result_simps)
  then show ?thesis using put_chunks_all [OF o(3), of sc R] by (simp add: create_snapshot_with_app_hash_def assms(1) o(4) split: prod.splits sum.splits)
qed

lemma payload_chunks_concat: "concat (payload_chunks d) = d"
proof (induction d rule: payload_chunks.induct)
  case (1 d)
  then show ?case by (simp add: payload_chunks.simps [of d])
qed

lemma compress_chunks_nth:
  assumes "compress_chunks cr sy cs = Ok parts"
  shows "length parts = length cs" "j < length cs \<Longrightarrow> lz4_compress sy (cs ! j) = Some (fst (parts ! j))"
    "map snd parts = map (\<lambda>c. hex_encode (hex cr) (sha256 cr c)) cs"
  using assms
proof (induction cs arbitrary: j parts)
  case (Cons c cs)
  { case 1 then show ?case using Cons.IH(1) by (auto simp: and_then_Inr_iff ok_or_iff) }
  { case 2 then show ?case using Cons.IH(2) by (cases j) (auto simp: and_then_Inr_iff ok_or_iff) }
  { case 3 then show ?case using Cons.IH(3) by (auto simp: and_then_Inr_iff ok_or_iff) }
qed auto

text \<open>What the codecs document: what was written is read back.\<close>

definition sync_codec_ok :: "sync_codec \<Rightarrow> bool" where
  "sync_codec_ok sy \<longleftrightarrow> (\<forall>m d. enc_sync_metadata sy m = Some d \<longrightarrow> dec_sync_metadata sy d = Some m) \<and>
     (\<forall>c d. enc_sync_chunk sy c = Some d \<longrightarrow> dec_sync_chunk sy d = Some c) \<and>
     (\<forall>x y. lz4_compress sy x = Some y \<longrightarrow> lz4_decompress sy y = Some x)"

lemma held_found:
  assumes "hex_documented (hex cr)" "sync_path cr (p, ty, d)" "held cr sc rd (p, ty, d)" "cado_codec_ok sc (path_type p) (sync_body cr ty d)"
    and "dec d = Some x"
  shows "found_or_none (get_deserialized_cado_by_path cr sc rd dec p) = Ok (Some x)"
  using held_read [OF assms(1-4)] assms(5)
  by (simp add: found_or_none_def get_deserialized_cado_by_path_def cado_immutable_def result_simps)

text \<open>The commit of an epoch height hands its snapshot over: what is cut into chunks right after it is the encoding of the
  snapshot of the committed state, under the committed application hash.\<close>

lemma epoch_commit_publishes:
  assumes "sound_store cr sc R" "db_ok cr (db_get R db)" "current_state c = Some s" "cache_ok cr (app_envelope s)"
    and "commit_inner cr sc hc R pc db c = Some (res, db', c')" "keys_distinct cr (db_get R db')" "head_codec_ok cr sc hc (committed_state c')"
    and "block_height (app_envelope (committed_state c')) smod blocks_per_epoch pc = 0" "snapshot_new cr (committed_state c') = Ok sn"
    and "enc_abci_snapshot sy (abci_snapshot_new sn) = Some payload"
  shows "create_snapshot_from_latest_state cr sc hc sy R now (block_height (app_envelope (committed_state c'))) db' =
    create_snapshot_with_app_hash cr sc sy R now (block_height (app_envelope (committed_state c'))) payload (sn_app_hash sn) (state_counts sn) db'"
proof -
  obtain h latest where hd: "app_hash (committed_state c') = Some h" "cado_path_new (hex cr) AppStateTipType (KeyName LATEST) = Ok latest"
    "get_deserialized_cado_by_path cr sc (db_get R db') (dec_tip hc) latest = Ok (tip_of cr (committed_state c') h)"
    and sn: "\<And>p. snapshot_latest_path cr = Ok p \<Longrightarrow>
       get_deserialized_cado_by_path cr sc (db_get R db') (dec_snapshot hc) p =
       (if block_height (app_envelope (committed_state c')) smod blocks_per_epoch pc \<noteq> 0
        then get_deserialized_cado_by_path cr sc (db_get R db) (dec_snapshot hc) p else snapshot_new cr (committed_state c'))"
      "block_height (app_envelope (committed_state c')) smod blocks_per_epoch pc = 0 \<Longrightarrow> \<exists>p. snapshot_latest_path cr = Ok p"
    by (rule committed_head [OF assms(1-7)]) (rule that)
  obtain q where q: "snapshot_latest_path cr = Ok q" using sn(2) assms(8) by blast
  have "sn_block_height sn = block_height (app_envelope (committed_state c'))" "sn_app_hash sn = h"
    "sn_state_trie_root sn = trie_root cr (state_trie (app_envelope (committed_state c')))"
    using assms(9) hd(1) by (auto simp: snapshot_new_def app_hash_bytes_def Let_def result_simps)
  then show ?thesis using hd q sn(1) [OF q] assms(8-10)
    by (simp add: create_snapshot_from_latest_state_def Let_def tip_of_def serialize_abci_snapshot_def)
qed

section \<open>Properties\<close>


text \<open>A database that never fails, a payload of three bytes, and codecs that know its two objects.\<close>

definition sync_rocks :: "(column_family \<Rightarrow> bytes \<Rightarrow> bytes option, column_family \<Rightarrow> bytes \<Rightarrow> bytes option) rocks" where
  "sync_rocks = \<lparr>db_get = (\<lambda>db cf k. Some (db cf k)), db_put = (\<lambda>db cf k v. Some (db(cf := (db cf)(k \<mapsto> v)))), transaction = id,
     tx_get = (\<lambda>db cf k. Some (db cf k)), tx_put = (\<lambda>db cf k v. Some (db(cf := (db cf)(k \<mapsto> v)))),
     tx_delete = (\<lambda>db cf k. Some (db(cf := (db cf)(k := None)))), tx_commit = (\<lambda>_ t. Some t)\<rparr>"

definition demo_parts :: "(bytes \<times> string) list" where
  "demo_parts = [([9, 1, 2, 3], hex_encode std_hex (sha256 model_crates [1, 2, 3]))]"

definition demo_counts :: snapshot_state_counts where
  "demo_counts = \<lparr>accounts_count = 1, staking_accounts_count = 0, storage_staking_accounts_count = 0, namespaces_count = 0\<rparr>"

definition demo_sync_metadata :: snapshot_metadata where
  "demo_sync_metadata = snapshot_metadata_of 0 100 demo_parts (replicate 32 7) demo_counts"

definition demo_sync :: sync_codec where
  "demo_sync = \<lparr>enc_sync_metadata = (\<lambda>m. if m = demo_sync_metadata then Some [1] else None), dec_sync_metadata = (\<lambda>_. Some demo_sync_metadata),
     enc_sync_chunk = (\<lambda>c. if c = chunk_of_part 0 (hd demo_parts) then Some [2] else None),
     dec_sync_chunk = (\<lambda>_. Some (chunk_of_part 0 (hd demo_parts))), enc_abci_snapshot = (\<lambda>_. None), dec_abci_snapshot = (\<lambda>_. None),
     lz4_compress = (\<lambda>x. Some (9 # x)), lz4_decompress = (\<lambda>y. Some (tl y))\<rparr>"

definition demo_sync_store :: store_codec where
  "demo_sync_store = \<lparr>enc_cado = (\<lambda>b. Some (0 # body_data b)),
     dec_cado = (\<lambda>d. Some (if tl d = [1] then sync_body model_crates SnapshotMetadataType [1] else sync_body model_crates SnapshotChunkType [2])),
     enc_meta = (\<lambda>_. None), dec_meta = (\<lambda>_. None), enc_u64 = (\<lambda>_. None), dec_u64 = (\<lambda>_. None), dec_temp_blob = (\<lambda>_. None),
     enc_temp_blob = (\<lambda>_ _. None)\<rparr>"

definition demo_name_path :: "cado_type \<Rightarrow> string \<Rightarrow> cado_path" where
  "demo_name_path ty s = (case hashed_name_path model_crates ty s of Inr p \<Rightarrow> p)"

definition demo_objects :: "(cado_path \<times> cado_type \<times> bytes) list" where
  "demo_objects = [(demo_name_path SnapshotMetadataType ''100'', SnapshotMetadataType, [1]),
     (demo_name_path SnapshotChunkType ''100_0'', SnapshotChunkType, [2])]"

lemma demo_name_path_ok:
  assumes "is_ok (hashed_name_path model_crates ty s)"
  shows "hashed_name_path model_crates ty s = Ok (demo_name_path ty s)"
  using assms by (auto simp: is_ok_iff demo_name_path_def)

lemma demo_objects_ok:
  "snapshot_objects model_crates demo_sync demo_sync_metadata demo_parts = Ok demo_objects" "apart model_crates demo_objects"
proof -
  have "is_ok (hashed_name_path model_crates SnapshotMetadataType ''100'')" "is_ok (hashed_name_path model_crates SnapshotChunkType ''100_0'')"
    by code_simp+
  note p = this [THEN demo_name_path_ok]
  have s: "show_int (sm_height demo_sync_metadata) = ''100''" "chunk_id (sm_height demo_sync_metadata) 0 = ''100_0''" by code_simp+
  show "snapshot_objects model_crates demo_sync demo_sync_metadata demo_parts = Ok demo_objects"
    using p by (simp add: snapshot_objects_def s demo_sync_def demo_parts_def demo_objects_def)
  show "apart model_crates demo_objects" unfolding apart_def by code_simp
qed


text \<open>A deletion that succeeds leaves nothing to find.\<close>

lemma system_delete_gone:
  assumes "\<And>db cf k db'. del db cf k = Some db' \<Longrightarrow> db_get R db' = rd_update (db_get R db) cf k None"
    and "system_delete_cado cr sc R del db p owner = (Ok (), db')"
  shows "get_cado_by_path cr sc (db_get R db') p = Ok None"
proof -
  obtain keys where k: "prepare_system_cado_deletion cr sc (db_get R db) p owner = Ok (p, keys)"
    "delete_cado_associated_keys_db cr del db p keys = (Ok (), db')"
    using assms(2) by (auto simp: system_delete_cado_def prepare_system_cado_deletion_def result_simps split: sum.splits if_splits)
  then obtain db3 where "del db3 PathIndexCf (str_bytes (path_str p)) = Some db'"
    by (auto simp: delete_cado_associated_keys_db_def split: option.splits sum.splits)
  from assms(1) [OF this] k(1) show ?thesis
    by (auto simp: get_cado_by_path_def prepare_system_cado_deletion_def result_simps)
qed

lemma deleted_chunk_gone:
  assumes "\<And>db cf k db'. del db cf k = Some db' \<Longrightarrow> db_get R db' = rd_update (db_get R db) cf k None"
    and "delete_snapshot_chunk cr sc R del db h i = (Ok (), db')"
  shows "get_snapshot_chunk cr sc sy (db_get R db') h i = Ok None"
proof -
  obtain p where p: "hashed_name_path cr SnapshotChunkType (chunk_id h i) = Ok p" "system_delete_cado cr sc R del db p ''system'' = (Ok (), db')"
    using assms(2) by (auto simp: delete_snapshot_chunk_def split: sum.splits)
  from system_delete_gone [OF assms(1) p(2)] p(1) show ?thesis
    by (simp add: get_snapshot_chunk_def get_deserialized_cado_by_path_def found_or_none_def ok_or_def)
qed

text \<open>A stored object of more than a mebibyte is not read back, although chunks have up to ten million bytes before
  compression: such a chunk is served as no bytes.\<close>

lemma large_chunk_unreadable:
  assumes "hex_documented (hex cr)" "hashed_name_path cr SnapshotChunkType (chunk_id (sint h) i) = Ok p" "held cr sc rd (p, SnapshotChunkType, d)"
    and "enc_cado sc (sync_body cr SnapshotChunkType d) = Some v" "length v > 1048576"
  shows "get_snapshot_chunk cr sc sy rd (sint h) i = Err (StorageError ''deserialize_cado'')" "load_snapshot_chunk cr sc sy rd h i = []"
proof -
  have sp: "sync_path cr (p, SnapshotChunkType, d)" using assms(2) by (auto simp: sync_path_def hashed_name_path_def)
  have "validate_cado_path_internal (hex cr) p = Ok ()"
    using assms(2) constructed_path_valid [OF assms(1)] by (auto simp: hashed_name_path_def)
  moreover have "from_utf8 (str_bytes (sync_key cr p d)) = Some (sync_key cr p d)"
    unfolding sync_key_def by (rule storage_key_utf8 [OF assms(1)])
  ultimately have "get_cado_by_path cr sc rd p = Err (StorageError ''deserialize_cado'')"
    using assms(3-5) sync_keys(2) [OF sp]
    by (auto simp: get_cado_by_path_def held_def deserialize_stored_cado_type_def safe_deserialize_cado_data_def
        safe_bincode_deserialize_def map_err_def result_simps)
  then show "get_snapshot_chunk cr sc sy rd (sint h) i = Err (StorageError ''deserialize_cado'')"
    using assms(2) by (simp add: get_snapshot_chunk_def get_deserialized_cado_by_path_def found_or_none_def)
  then show "load_snapshot_chunk cr sc sy rd h i = []" by (simp add: load_snapshot_chunk_def)
qed

text \<open>A node without snapshots accepts an offer without a trace in its database, and then answers Unknown to every chunk of
  it: the chunks of an accepted snapshot are never stored.\<close>

lemma fresh_node_stores_no_chunk:
  assumes "iter_documented (its db) (db_get R db) PathIndexCf rows" "path_rows (hex cr) rows"
    and "\<forall>(k, v) \<in> set rows. \<not> key_prefix (str_bytes PATH_PREFIX_SNAPSHOT_METADATA) k"
  shows "\<exists>l'. apply_snapshot_chunk cr sc sy R its now i chunk db l = (ApplyUnknown, db, l')"
proof -
  have none: "filter (key_prefix (str_bytes PATH_PREFIX_SNAPSHOT_METADATA)) (map fst rows) = []"
    using assms(3) by (auto simp: filter_empty_conv)
  have mem: "(max_results prefix_query_options_default + 1) * MAX_PATH_LENGTH \<le> max_memory_bytes prefix_query_options_default"
    by (simp add: prefix_query_options_default_def MAX_PATH_LENGTH_def)
  obtain pr where "scan_page (paths_scan (hex cr) PATH_PREFIX_SNAPSHOT_METADATA) prefix_query_options_default
      (iter_from (its db) PathIndexCf (str_bytes PATH_PREFIX_SNAPSHOT_METADATA)) = Ok pr" "items pr = []"
    using paths_page [OF assms(1,2) mem, of PATH_PREFIX_SNAPSHOT_METADATA, unfolded none] by auto
  then have "case fst (list_snapshots cr sc sy (its db) (db_get R db) now 10 l) of Inl _ \<Rightarrow> True | Inr ms \<Rightarrow> ms = []"
    by (auto simp: list_snapshots_def get_cado_paths_by_prefix_def default_guard_def get_cado_paths_by_prefix_secure_def guarded_scan_def
        paths_scan_def [symmetric] and_then_def sort_by_def split: sum.splits prod.splits bool.splits)
  then show ?thesis by (auto simp: apply_snapshot_chunk_def split: prod.splits sum.splits list.splits)
qed

end
