(* ===== verification/Indexer.thy ===== *)
theory Indexer
  imports Queries Deliver
begin

text \<open>
  The transaction index (\<^verbatim>\<open>storage/rocksdb/indexer.rs\<close>, \<^verbatim>\<open>indexer\<close>): the rows of transactions, events and
  proof rewards, the listings over them, and the thread that follows Tendermint block by block behind a stored cursor.
  Tendermint's RPC is an argument of each step, \<^verbatim>\<open>serde_json\<close> and \<^verbatim>\<open>base64\<close> are parameters.  A call that does not
  return, or panics, is the outer \<^term>\<open>None\<close>.
\<close>

section \<open>Text\<close>

text \<open>\<^verbatim>\<open>String::from_utf8_lossy\<close>: how many bytes the next character or the next ill-formed part has.\<close>

fun utf8_step :: "bytes \<Rightarrow> nat \<times> bool" where
  "utf8_step [] = (1, False)"
| "utf8_step (a # r) =
    (if a \<le> 0x7F then (1, True)
     else if 0xC2 \<le> a \<and> a \<le> 0xDF then (case r of b # _ \<Rightarrow> if is_cont b then (2, True) else (1, False) | [] \<Rightarrow> (1, False))
     else if 0xE0 \<le> a \<and> a \<le> 0xEF then
       (case r of b # r' \<Rightarrow> if is_cont b \<and> (a = 0xE0 \<longrightarrow> 0xA0 \<le> b) \<and> (a = 0xED \<longrightarrow> b \<le> 0x9F)
           then (case r' of c # _ \<Rightarrow> if is_cont c then (3, True) else (2, False) | [] \<Rightarrow> (2, False)) else (1, False)
        | [] \<Rightarrow> (1, False))
     else if 0xF0 \<le> a \<and> a \<le> 0xF4 then
       (case r of b # r' \<Rightarrow> if is_cont b \<and> (a = 0xF0 \<longrightarrow> 0x90 \<le> b) \<and> (a = 0xF4 \<longrightarrow> b \<le> 0x8F)
           then (case r' of c # r'' \<Rightarrow> if is_cont c
               then (case r'' of d # _ \<Rightarrow> if is_cont d then (4, True) else (3, False) | [] \<Rightarrow> (3, False)) else (2, False)
             | [] \<Rightarrow> (2, False)) else (1, False)
        | [] \<Rightarrow> (1, False))
     else (1, False))"

lemma utf8_step_pos [simp]: "0 < fst (utf8_step b)"
  by (cases b) (auto split: list.splits)

function lossy :: "bytes \<Rightarrow> bytes" where
  "lossy bs = (if bs = [] then [] else
     (if snd (utf8_step bs) then take (fst (utf8_step bs)) bs else [0xEF, 0xBF, 0xBD]) @ lossy (drop (fst (utf8_step bs)) bs))"
  by pat_completeness auto
termination by (relation "measure length") auto

declare lossy.simps [simp del]

definition from_utf8_lossy :: "bytes \<Rightarrow> string" where "from_utf8_lossy bs = map (\<lambda>b. char_of (unat b)) (lossy bs)"

definition from_str_radix_16 :: "string \<Rightarrow> 'a::len word option" where
  "from_str_radix_16 s = (if strip_plus s = [] then None else
     (case hex_val 0 (strip_plus s) of None \<Rightarrow> None | Some n \<Rightarrow> if n < 2 ^ LENGTH('a) then Some (of_nat n) else None))"

definition u32_hex_fixed :: "u32 \<Rightarrow> string" where "u32_hex_fixed i = pad_zero 8 (show_hex (unat i))"

section \<open>Records and keys\<close>

datatype transaction_status = TxSuccess | TxFailed

type_synonym abci_event = "string \<times> (bytes \<times> bytes) list"

record indexed_event =
  ie_tx_id :: string
  ie_event_index :: u32
  ie_event_type :: string
  ie_attributes :: "(string \<times> string) list"
  ie_block_height :: u64
  ie_block_index :: u32
  ie_timestamp :: u64

record indexed_transaction =
  it_id :: string
  it_block_height :: u64
  it_block_index :: u32
  it_timestamp :: u64
  it_tx :: tx
  it_status :: transaction_status
  it_gas_used :: "u64 option"
  it_events :: "indexed_event list"

record index_codec =
  enc_indexed_tx :: "indexed_transaction \<Rightarrow> bytes option"
  dec_indexed_tx :: "bytes \<Rightarrow> indexed_transaction option"
  enc_indexed_event :: "indexed_event \<Rightarrow> bytes option"
  dec_indexed_event :: "bytes \<Rightarrow> indexed_event option"

definition INDEXED_TRANSACTIONS_PRIMARY_TOTAL_COUNT_KEY :: bytes where
  "INDEXED_TRANSACTIONS_PRIMARY_TOTAL_COUNT_KEY = str_bytes ''_meta:indexed_transactions_primary_total''"

definition VERIFIED_PROOF_GLOBAL_REWARDS_COUNT_KEY :: bytes where
  "VERIFIED_PROOF_GLOBAL_REWARDS_COUNT_KEY = str_bytes ''_meta:verified_proof_global_rewards_count''"

definition block_position_chron_index_key_bytes :: "u64 \<Rightarrow> u32 \<Rightarrow> bytes" where
  "block_position_chron_index_key_bytes h i = str_bytes (''block_pos:'' @ u64_hex_fixed h @ '':'' @ u32_hex_fixed i)"

definition split_once :: "char \<Rightarrow> string \<Rightarrow> (string \<times> string) option" where
  "split_once c s = (if c \<in> set s then Some (takeWhile (\<lambda>x. x \<noteq> c) s, drop 1 (dropWhile (\<lambda>x. x \<noteq> c) s)) else None)"

definition strip_prefix :: "string \<Rightarrow> string \<Rightarrow> string option" where
  "strip_prefix p s = (if starts_with p s then Some (drop (length p) s) else None)"

definition parse_block_position_chron_key :: "string \<Rightarrow> (u64 \<times> u32) option" where
  "parse_block_position_chron_key s = (case strip_prefix ''block_pos:'' s of None \<Rightarrow> None | Some rest \<Rightarrow>
     (case split_once CHR '':'' rest of None \<Rightarrow> None | Some (h, i) \<Rightarrow>
       (case from_str_radix_16 h of None \<Rightarrow> None | Some bh \<Rightarrow> map_option (\<lambda>bi. (bh, bi)) (from_str_radix_16 i))))"

definition verified_proof_reward_index_key :: "string \<Rightarrow> u64 \<Rightarrow> u32 \<Rightarrow> bytes" where
  "verified_proof_reward_index_key provider h i = str_bytes (''vp:'' @ provider @ '':'' @ u64_hex_fixed h @ '':'' @ u32_hex_fixed i)"

definition parse_verified_proof_reward_index_key :: "string \<Rightarrow> (string \<times> u64 \<times> u32) option" where
  "parse_verified_proof_reward_index_key s = (case strip_prefix ''vp:'' s of None \<Rightarrow> None | Some rest \<Rightarrow>
     (case split_on CHR '':'' rest of
        [a, h, i] \<Rightarrow> (case from_str_radix_16 h of None \<Rightarrow> None | Some bh \<Rightarrow> map_option (\<lambda>bi. (a, bh, bi)) (from_str_radix_16 i))
      | _ \<Rightarrow> None))"

definition indexed_event_from_abci :: "string \<Rightarrow> u32 \<Rightarrow> abci_event \<Rightarrow> u64 \<Rightarrow> u32 \<Rightarrow> u64 \<Rightarrow> indexed_event" where
  "indexed_event_from_abci tx_id event_index ev h i now = \<lparr>ie_tx_id = tx_id, ie_event_index = event_index, ie_event_type = fst ev,
     ie_attributes = map (map_prod from_utf8_lossy from_utf8_lossy) (snd ev), ie_block_height = h, ie_block_index = i, ie_timestamp = now\<rparr>"

section \<open>Counters\<close>

fun count_primary_rows :: "row list \<Rightarrow> u64 res" where
  "count_primary_rows [] = Ok 0"
| "count_primary_rows (None # rows) = Err (StorageError ''count_primary_indexed_transactions'')"
| "count_primary_rows (Some (k, v) # rows) = and_then (count_primary_rows rows) (\<lambda>n. let key = from_utf8_lossy k in
     Ok (if starts_with ''0x'' key \<and> CHR '':'' \<notin> set key then n + 1 else n))"

definition count_primary_indexed_transaction_keys :: "db_iter \<Rightarrow> u64 res" where
  "count_primary_indexed_transaction_keys it = count_primary_rows (iter_start it IndexedTransactionsCf)"

definition decode_u64_meta :: "bytes \<Rightarrow> u64 res" where
  "decode_u64_meta b = (if length b \<noteq> 8 then Err (StorageError ''decode_indexed_transaction_total_count_meta'') else Ok (word_of_int (le_val b)))"

definition put_row :: "('db, 'tx) rocks \<Rightarrow> string \<Rightarrow> bytes \<Rightarrow> bytes \<Rightarrow> 'db \<Rightarrow> unit res \<times> 'db" where
  "put_row R op k v db = (case db_put R db IndexedTransactionsCf k v of None \<Rightarrow> (Err (StorageError op), db) | Some db' \<Rightarrow> (Ok (), db'))"

definition and_put :: "unit res \<times> 'db \<Rightarrow> ('db \<Rightarrow> unit res \<times> 'db) \<Rightarrow> unit res \<times> 'db" where
  "and_put r f = (case r of (Inl e, db) \<Rightarrow> (Err e, db) | (Inr _, db) \<Rightarrow> f db)"

definition indexed_transaction_primary_total_count :: "('db, 'tx) rocks \<Rightarrow> ('db \<Rightarrow> db_iter) \<Rightarrow> 'db \<Rightarrow> u64 res \<times> 'db" where
  "indexed_transaction_primary_total_count R its db = (case db_get R db IndexedTransactionsCf INDEXED_TRANSACTIONS_PRIMARY_TOTAL_COUNT_KEY of
      None \<Rightarrow> (Err (StorageError ''get_indexed_transaction_total_count_meta''), db)
    | Some (Some b) \<Rightarrow> (decode_u64_meta b, db)
    | Some None \<Rightarrow> (case count_primary_indexed_transaction_keys (its db) of
        Inl e \<Rightarrow> (Err e, db)
      | Inr n \<Rightarrow> (case put_row R ''put_indexed_transaction_total_count_meta'' INDEXED_TRANSACTIONS_PRIMARY_TOTAL_COUNT_KEY (le_bytes 8 (uint n)) db of
          (Inl e, db') \<Rightarrow> (Err e, db') | (Inr _, db') \<Rightarrow> (Ok n, db'))))"

definition bump_indexed_transaction_primary_total_count :: "('db, 'tx) rocks \<Rightarrow> ('db \<Rightarrow> db_iter) \<Rightarrow> 'db \<Rightarrow> unit res \<times> 'db" where
  "bump_indexed_transaction_primary_total_count R its db =
    (case and_then (ok_or (StorageError ''get_indexed_transaction_total_count_meta'')
           (db_get R db IndexedTransactionsCf INDEXED_TRANSACTIONS_PRIMARY_TOTAL_COUNT_KEY)) (\<lambda>found.
        case found of
          Some b \<Rightarrow> and_then (decode_u64_meta b) (\<lambda>cur.
            if cur = - 1 then Err (StorageError ''bump_indexed_transaction_total_count'') else Ok (cur + 1))
        | None \<Rightarrow> count_primary_indexed_transaction_keys (its db)) of
       Inl e \<Rightarrow> (Err e, db)
     | Inr n \<Rightarrow> put_row R ''put_indexed_transaction_total_count_meta'' INDEXED_TRANSACTIONS_PRIMARY_TOTAL_COUNT_KEY (le_bytes 8 (uint n)) db)"

definition read_verified_proof_global_rewards_count :: "reader \<Rightarrow> u64 res" where
  "read_verified_proof_global_rewards_count rd = and_then (ok_or (StorageError ''get_verified_proof_global_rewards_count'')
     (rd IndexedTransactionsCf VERIFIED_PROOF_GLOBAL_REWARDS_COUNT_KEY)) (\<lambda>found.
       Ok (case found of None \<Rightarrow> 0 | Some b \<Rightarrow> if length b = 8 then word_of_int (le_val b) else 0))"

definition bump_verified_proof_global_rewards_count :: "('db, 'tx) rocks \<Rightarrow> 'db \<Rightarrow> unit res \<times> 'db" where
  "bump_verified_proof_global_rewards_count R db = (case read_verified_proof_global_rewards_count (db_get R db) of
      Inl e \<Rightarrow> (Err e, db)
    | Inr n \<Rightarrow> put_row R ''put_verified_proof_global_rewards_count'' VERIFIED_PROOF_GLOBAL_REWARDS_COUNT_KEY
        (le_bytes 8 (uint (if n = - 1 then n else n + 1))) db)"

section \<open>Writing\<close>

text \<open>\<^verbatim>\<open>to_vec\<close> followed by \<^verbatim>\<open>expect\<close>.\<close>

definition calculate_tx_id :: "node_crates \<Rightarrow> tx \<Rightarrow> string option" where
  "calculate_tx_id cr t = map_option (\<lambda>json. ''0x'' @ hex_encode (hex cr) (sha256 cr (str_bytes json))) (tx_to_json cr t)"

definition indexed_transaction_of ::
    "string \<Rightarrow> u64 \<Rightarrow> u32 \<Rightarrow> u64 \<Rightarrow> tx \<Rightarrow> transaction_status \<Rightarrow> u64 option \<Rightarrow> abci_event list \<Rightarrow> indexed_transaction" where
  "indexed_transaction_of tx_id h i now t status gas evs = \<lparr>it_id = tx_id, it_block_height = h, it_block_index = i, it_timestamp = now, it_tx = t,
     it_status = status, it_gas_used = gas,
     it_events = map (\<lambda>(n, ev). indexed_event_from_abci tx_id (of_nat n) ev h i now) (enumerate 0 evs)\<rparr>"

definition index_reward_row :: "node_crates \<Rightarrow> ('db, 'tx) rocks \<Rightarrow> tx \<Rightarrow> transaction_status \<Rightarrow> u64 \<Rightarrow> u32 \<Rightarrow> 'db \<Rightarrow> unit res \<times> 'db" where
  "index_reward_row cr R t status h i db = (if status \<noteq> TxSuccess then (Ok (), db)
     else (case inner (tx_payload t) of
        VerifiedProof vp \<Rightarrow> if vp_failed vp then (Ok (), db)
          else and_put (put_row R ''put_verified_proof_reward_index''
              (verified_proof_reward_index_key (to_ascii_lowercase (hex_with_prefix (hex cr) (vp_capacity_provider vp))) h i) [] db)
            (bump_verified_proof_global_rewards_count R)
      | _ \<Rightarrow> (Ok (), db)))"

definition index_secondary_rows :: "node_crates \<Rightarrow> ('db, 'tx) rocks \<Rightarrow> string \<Rightarrow> tx \<Rightarrow> transaction_status \<Rightarrow> u64 \<Rightarrow> u32 \<Rightarrow> 'db \<Rightarrow> unit res \<times> 'db" where
  "index_secondary_rows cr R tx_id t status h i db =
     and_put (put_row R ''put_sender_index_key''
         (str_bytes (''sender:'' @ hex_with_prefix (hex cr) (payload_sender (inner (tx_payload t))) @ '':nonce:'' @
           show_nat (unat (nonce_value (tx_nonce t))))) (str_bytes tx_id) db) (\<lambda>db4.
     and_put (put_row R ''put_type_index_key''
         (str_bytes (''type:'' @ payload_type (tx_payload t) @ '':'' @ tx_id)) (str_bytes tx_id) db4) (\<lambda>db5.
       index_reward_row cr R t status h i db5))"

definition index_transaction ::
    "node_crates \<Rightarrow> index_codec \<Rightarrow> ('db, 'tx) rocks \<Rightarrow> ('db \<Rightarrow> db_iter) \<Rightarrow> u64 \<Rightarrow> tx \<Rightarrow> u64 \<Rightarrow> u32 \<Rightarrow> transaction_status \<Rightarrow> u64 option
     \<Rightarrow> abci_event list \<Rightarrow> 'db \<Rightarrow> (unit res \<times> 'db) option" where
  "index_transaction cr ic R its now t h i status gas evs db = (case calculate_tx_id cr t of
      None \<Rightarrow> None
    | Some tx_id \<Rightarrow> Some (case enc_indexed_tx ic (indexed_transaction_of tx_id h i now t status gas evs) of
        None \<Rightarrow> (Err (StorageError ''serialize_indexed_transaction''), db)
      | Some d \<Rightarrow> (case db_get R db IndexedTransactionsCf (str_bytes tx_id) of
          None \<Rightarrow> (Err (StorageError ''get_indexed_transaction_primary_exists''), db)
        | Some found \<Rightarrow>
            and_put (put_row R ''put_indexed_transaction'' (str_bytes tx_id) d db) (\<lambda>db1.
            and_put (put_row R ''put_block_index_key''
                (str_bytes (''block_height:'' @ show_nat (unat h) @ '':tx_index:'' @ show_nat (unat i))) (str_bytes tx_id) db1) (\<lambda>db2.
            and_put (put_row R ''put_block_pos_chron_index_key'' (block_position_chron_index_key_bytes h i) (str_bytes tx_id) db2) (\<lambda>db3.
            and_put (index_secondary_rows cr R tx_id t status h i db3) (\<lambda>db6.
              if found = None then bump_indexed_transaction_primary_total_count R its db6 else (Ok (), db6))))))))"

definition put_event_row :: "('db, 'tx) rocks \<Rightarrow> string \<Rightarrow> bytes \<Rightarrow> bytes \<Rightarrow> 'db \<Rightarrow> unit res \<times> 'db" where
  "put_event_row R op k v db = (case db_put R db IndexedEventsCf k v of None \<Rightarrow> (Err (StorageError op), db) | Some db' \<Rightarrow> (Ok (), db'))"

definition index_event ::
    "index_codec \<Rightarrow> ('db, 'tx) rocks \<Rightarrow> u64 \<Rightarrow> string \<Rightarrow> u32 \<Rightarrow> abci_event \<Rightarrow> u64 \<Rightarrow> u32 \<Rightarrow> 'db \<Rightarrow> unit res \<times> 'db" where
  "index_event ic R now tx_id n ev h i db = (let e = indexed_event_from_abci tx_id n ev h i now;
       primary = str_bytes (''tx_id:'' @ tx_id @ '':event_index:'' @ show_nat (unat n));
       position = ''block_height:'' @ show_nat (unat h) @ '':block_index:'' @ show_nat (unat i) @ '':event_index:'' @ show_nat (unat n) in
     case enc_indexed_event ic e of
       None \<Rightarrow> (Err (StorageError ''serialize_indexed_event''), db)
     | Some d \<Rightarrow> and_put (put_event_row R ''put_indexed_event'' primary d db) (\<lambda>db1.
         and_put (put_event_row R ''put_type_index_key'' (str_bytes (''type:'' @ ie_event_type e @ '':'' @ position)) primary db1) (\<lambda>db2.
           put_event_row R ''put_block_index_key'' (str_bytes position) primary db2)))"

definition INDEXER_CURSOR_KEY :: bytes where "INDEXER_CURSOR_KEY = str_bytes ''meta:indexer:last_synced_height''"

definition get_indexer_cursor :: "reader \<Rightarrow> u64 option res" where
  "get_indexer_cursor rd = and_then (ok_or (StorageError ''get_indexer_cursor'') (rd IndexedTransactionsCf INDEXER_CURSOR_KEY)) (\<lambda>found. case found of
      None \<Rightarrow> Ok None
    | Some b \<Rightarrow> and_then (ok_or (StorageError ''get_indexer_cursor'') (from_utf8 b)) (\<lambda>s.
        and_then (ok_or (StorageError ''get_indexer_cursor'') (parse_uint s)) (\<lambda>h. Ok (Some h))))"

definition set_indexer_cursor :: "('db, 'tx) rocks \<Rightarrow> u64 \<Rightarrow> 'db \<Rightarrow> unit res \<times> 'db" where
  "set_indexer_cursor R h db = put_row R ''set_indexer_cursor'' INDEXER_CURSOR_KEY (str_bytes (show_nat (unat h))) db"

definition block_position_indexed :: "reader \<Rightarrow> u64 \<Rightarrow> u32 \<Rightarrow> bool res" where
  "block_position_indexed rd h i = and_then (ok_or (StorageError ''block_position_indexed'')
     (rd IndexedTransactionsCf (block_position_chron_index_key_bytes h i))) (\<lambda>found. Ok (found \<noteq> None))"

section \<open>Reading\<close>

definition normalized_tx_id :: "string \<Rightarrow> string" where
  "normalized_tx_id tx_id = (if starts_with ''0x'' tx_id then tx_id else ''0x'' @ tx_id)"

definition get_indexed_transaction :: "index_codec \<Rightarrow> reader \<Rightarrow> string \<Rightarrow> indexed_transaction option res" where
  "get_indexed_transaction ic rd tx_id = and_then (ok_or (StorageError ''get_indexed_transaction'')
     (rd IndexedTransactionsCf (str_bytes (normalized_tx_id tx_id)))) (\<lambda>found. case found of
       None \<Rightarrow> Ok None
     | Some d \<Rightarrow> and_then (ok_or (StorageError ''deserialize_indexed_transaction'') (dec_indexed_tx ic d)) (\<lambda>x. Ok (Some x)))"

record indexed_tx_chron_filters =
  cf_block_height :: "u64 option"
  cf_sender :: "address option"
  cf_payload_type :: "string option"

definition indexed_transaction_matches_optional_filters :: "indexed_transaction \<Rightarrow> indexed_tx_chron_filters \<Rightarrow> bool" where
  "indexed_transaction_matches_optional_filters ix f \<longleftrightarrow>
     (case cf_block_height f of None \<Rightarrow> True | Some h \<Rightarrow> it_block_height ix = h) \<and>
     (case cf_sender f of None \<Rightarrow> True | Some a \<Rightarrow> payload_sender (inner (tx_payload (it_tx ix))) = a) \<and>
     (case cf_payload_type f of None \<Rightarrow> True | Some ty \<Rightarrow> payload_type (tx_payload (it_tx ix)) = ty)"

definition load_primary_indexed_transaction_by_cf :: "index_codec \<Rightarrow> reader \<Rightarrow> bytes \<Rightarrow> indexed_transaction res" where
  "load_primary_indexed_transaction_by_cf ic rd b = and_then (ok_or (StorageError ''indexed_tx_secondary_tx_id_utf8'') (from_utf8 b)) (\<lambda>tx_id.
     and_then (ok_or (StorageError ''get_indexed_transaction_by_secondary'') (rd IndexedTransactionsCf (str_bytes tx_id))) (\<lambda>found. case found of
       Some d \<Rightarrow> ok_or (StorageError ''deserialize_indexed_transaction_by_secondary'') (dec_indexed_tx ic d)
     | None \<Rightarrow> Err (StorageError ''missing_primary_for_block_pos_row'')))"

text \<open>The rows between the bounds of the position index are an argument: backwards from the cursor for the list, forwards for the
  count.\<close>

fun chron_rows ::
    "index_codec \<Rightarrow> reader \<Rightarrow> (u64 \<times> u32) option \<Rightarrow> indexed_tx_chron_filters \<Rightarrow> nat \<Rightarrow> row list \<Rightarrow> indexed_transaction list \<Rightarrow> indexed_transaction list res" where
  "chron_rows ic rd cursor f limit [] acc = Ok acc"
| "chron_rows ic rd cursor f limit (None # rows) acc = Err (StorageError ''iterate_block_pos_tx_chron_desc'')"
| "chron_rows ic rd cursor f limit (Some (k, v) # rows) acc = (case from_utf8 k of
      None \<Rightarrow> Err (StorageError ''block_pos_index_key_utf8'')
    | Some key \<Rightarrow>
        if \<not> starts_with ''block_pos:'' key then chron_rows ic rd cursor f limit rows acc
        else (case parse_block_position_chron_key key of
            None \<Rightarrow> Err (StorageError ''parse_block_pos_key'')
          | Some (kh, ki) \<Rightarrow>
              if (case cursor of None \<Rightarrow> False | Some (ch, ci) \<Rightarrow> kh > ch \<or> (kh = ch \<and> ki \<ge> ci)) then chron_rows ic rd cursor f limit rows acc
              else (case load_primary_indexed_transaction_by_cf ic rd v of
                  Inl e \<Rightarrow> Err e
                | Inr ix \<Rightarrow>
                    if \<not> indexed_transaction_matches_optional_filters ix f then chron_rows ic rd cursor f limit rows acc
                    else if length (acc @ [ix]) \<ge> limit then Ok (acc @ [ix])
                    else chron_rows ic rd cursor f limit rows (acc @ [ix]))))"

definition list_indexed_transactions_chron_desc_scanned ::
    "index_codec \<Rightarrow> (bytes option \<Rightarrow> row list) \<Rightarrow> reader \<Rightarrow> (u64 \<times> u32) option \<Rightarrow> indexed_tx_chron_filters \<Rightarrow> nat \<Rightarrow> indexed_transaction list res" where
  "list_indexed_transactions_chron_desc_scanned ic back rd cursor f limit =
     chron_rows ic rd cursor f limit (back (map_option (\<lambda>(h, i). block_position_chron_index_key_bytes h i) cursor)) []"

definition list_indexed_transactions_chron_desc ::
    "index_codec \<Rightarrow> (bytes option \<Rightarrow> row list) \<Rightarrow> reader \<Rightarrow> (u64 \<times> u32) option \<Rightarrow> u32 \<Rightarrow> bool \<Rightarrow> indexed_tx_chron_filters \<Rightarrow> indexed_transaction list res" where
  "list_indexed_transactions_chron_desc ic back rd cursor limit further f =
     list_indexed_transactions_chron_desc_scanned ic back rd cursor f
       (max (min (unat limit + (if further then 1 else 0)) (2 ^ 32 - 1)) 1)"

fun count_matching_rows :: "index_codec \<Rightarrow> reader \<Rightarrow> indexed_tx_chron_filters \<Rightarrow> row list \<Rightarrow> u64 \<Rightarrow> u64 res" where
  "count_matching_rows ic rd f [] n = Ok n"
| "count_matching_rows ic rd f (None # rows) n = Err (StorageError ''count_filtered_chron_scan'')"
| "count_matching_rows ic rd f (Some (k, v) # rows) n = and_then (load_primary_indexed_transaction_by_cf ic rd v) (\<lambda>ix.
     count_matching_rows ic rd f rows (if indexed_transaction_matches_optional_filters ix f then n + 1 else n))"

definition count_indexed_transactions_matching_chron_filters :: "index_codec \<Rightarrow> row list \<Rightarrow> reader \<Rightarrow> indexed_tx_chron_filters \<Rightarrow> u64 res" where
  "count_indexed_transactions_matching_chron_filters ic rows rd f = count_matching_rows ic rd f rows 0"

fun event_rows :: "index_codec \<Rightarrow> string \<Rightarrow> row list \<Rightarrow> indexed_event list res" where
  "event_rows ic prefix [] = Ok []"
| "event_rows ic prefix (None # rows) = Err (StorageError ''iterate_events_by_tx_id'')"
| "event_rows ic prefix (Some (k, v) # rows) = (let key = from_utf8_lossy k in
     if starts_with prefix key then and_then (ok_or (StorageError ''deserialize_indexed_event'') (dec_indexed_event ic v)) (\<lambda>e.
       and_then (event_rows ic prefix rows) (\<lambda>es. Ok (e # es)))
     else if str_bytes key > str_bytes prefix then Ok []
     else event_rows ic prefix rows)"

definition get_events_by_tx_id :: "index_codec \<Rightarrow> db_iter \<Rightarrow> string \<Rightarrow> indexed_event list res" where
  "get_events_by_tx_id ic it tx_id = and_then (event_rows ic (''tx_id:'' @ normalized_tx_id tx_id @ '':event_index:'') (iter_start it IndexedEventsCf))
     (\<lambda>es. Ok (sort_by (\<lambda>a b. ie_event_index a \<le> ie_event_index b) es))"

text \<open>The offset is computed in 32 bits.\<close>

fun all_event_rows ::
    "index_codec \<Rightarrow> reader \<Rightarrow> u64 \<Rightarrow> nat \<Rightarrow> row list \<Rightarrow> u64 \<Rightarrow> u64 \<Rightarrow> indexed_event list \<Rightarrow> (indexed_event list \<times> u64) res" where
  "all_event_rows ic rd offset limit [] count skipped acc = Ok (acc, count)"
| "all_event_rows ic rd offset limit (None # rows) count skipped acc = Err (StorageError ''iterate_all_events'')"
| "all_event_rows ic rd offset limit (Some (k, v) # rows) count skipped acc = (let key = from_utf8_lossy k in
     if starts_with ''block_height:'' key \<and> contains_str '':block_index:'' key \<and> contains_str '':event_index:'' key then
       (if skipped < offset then all_event_rows ic rd offset limit rows (count + 1) (skipped + 1) acc
        else if length acc < limit then
          (case rd IndexedEventsCf (str_bytes (from_utf8_lossy v)) of
             None \<Rightarrow> Err (StorageError ''get_event_by_primary_key'')
           | Some None \<Rightarrow> all_event_rows ic rd offset limit rows (count + 1) skipped acc
           | Some (Some d) \<Rightarrow> (case dec_indexed_event ic d of
               None \<Rightarrow> Err (StorageError ''deserialize_indexed_event'')
             | Some e \<Rightarrow> all_event_rows ic rd offset limit rows (count + 1) skipped (acc @ [e])))
        else all_event_rows ic rd offset limit rows (count + 1) skipped acc)
     else all_event_rows ic rd offset limit rows count skipped acc)"

definition get_all_events :: "index_codec \<Rightarrow> db_iter \<Rightarrow> reader \<Rightarrow> u32 \<Rightarrow> u32 \<Rightarrow> (indexed_event list \<times> u64) res" where
  "get_all_events ic it rd pg limit = all_event_rows ic rd (ucast ((pg - 1) * limit)) (unat limit) (iter_end it IndexedEventsCf) 0 0 []"

fun reward_rows :: "bytes \<Rightarrow> u64 \<Rightarrow> u64 \<Rightarrow> row list \<Rightarrow> u64 \<Rightarrow> u64 res" where
  "reward_rows prefix from_h to_h [] n = Ok n"
| "reward_rows prefix from_h to_h (None # rows) n = Err (StorageError ''aggregate_verified_proof_rewards_iterate'')"
| "reward_rows prefix from_h to_h (Some (k, v) # rows) n =
    (if \<not> key_prefix prefix k then Ok n
     else (case parse_verified_proof_reward_index_key (from_utf8_lossy k) of
         None \<Rightarrow> reward_rows prefix from_h to_h rows n
       | Some (a, h, i) \<Rightarrow>
           if h < from_h then reward_rows prefix from_h to_h rows n
           else if h > to_h then Ok n
           else reward_rows prefix from_h to_h rows (n + 1)))"

definition saturating_total :: "u64 \<Rightarrow> u128 \<Rightarrow> u128" where
  "saturating_total n r = (if uint n * uint r \<ge> 2 ^ 128 then - 1 else word_of_int (uint n * uint r))"

definition aggregate_verified_proof_rewards :: "hex_lib \<Rightarrow> db_iter \<Rightarrow> string \<Rightarrow> u64 \<Rightarrow> u64 \<Rightarrow> u128 \<Rightarrow> (u64 \<times> u128) res" where
  "aggregate_verified_proof_rewards hx it provider from_h to_h reward = and_then (address_parse hx provider) (\<lambda>a.
     let p = to_ascii_lowercase (hex_with_prefix hx a) in
     and_then (reward_rows (str_bytes (''vp:'' @ p @ '':'')) from_h to_h
         (iter_from it IndexedTransactionsCf (verified_proof_reward_index_key p from_h 0)) 0) (\<lambda>n. Ok (n, saturating_total n reward)))"

definition global_verified_proof_rewards :: "reader \<Rightarrow> u128 \<Rightarrow> (u64 \<times> u128) res" where
  "global_verified_proof_rewards rd reward = and_then (read_verified_proof_global_rewards_count rd) (\<lambda>n. Ok (n, saturating_total n reward))"

section \<open>Transactions in blocks\<close>

record block_codec =
  tx_of_str :: "string \<Rightarrow> tx option"
  tx_of_slice :: "bytes \<Rightarrow> tx option"
  base64_decode :: "string \<Rightarrow> bytes option"

definition decode_eld_tx_from_wire :: "node_crates \<Rightarrow> block_codec \<Rightarrow> bytes \<Rightarrow> tx res" where
  "decode_eld_tx_from_wire cr bc b = and_then (ok_or (ValidationError ''tx_bytes'') (from_utf8 b)) (\<lambda>hex_str.
     and_then (ok_or (ValidationError ''tx_hex'') (hex_decode (hex cr) hex_str)) (\<lambda>json_bytes.
     and_then (ok_or (ValidationError ''tx_json'') (from_utf8 json_bytes)) (\<lambda>json_str. ok_or (ValidationError ''tx'') (tx_of_str bc json_str))))"

text \<open>The decoder calls itself on what base64 makes of the bytes.\<close>

partial_function (option) decode_eld_tx_from_block_tx_bytes :: "node_crates \<Rightarrow> block_codec \<Rightarrow> bytes \<Rightarrow> tx res option" where
  "decode_eld_tx_from_block_tx_bytes cr bc b = (case decode_eld_tx_from_wire cr bc b of
      Inr t \<Rightarrow> Some (Ok t)
    | Inl _ \<Rightarrow> (case from_utf8 b of
        None \<Rightarrow> Some (ok_or (ValidationError ''tx'') (tx_of_slice bc b))
      | Some s \<Rightarrow> (case tx_of_str bc s of
          Some t \<Rightarrow> Some (Ok t)
        | None \<Rightarrow> (case base64_decode bc (trim s) of
            None \<Rightarrow> Some (ok_or (ValidationError ''tx'') (tx_of_slice bc b))
          | Some nested \<Rightarrow> Option.bind (decode_eld_tx_from_block_tx_bytes cr bc nested) (\<lambda>r. case r of
              Inr t \<Rightarrow> Some (Ok t) | Inl _ \<Rightarrow> Some (ok_or (ValidationError ''tx'') (tx_of_slice bc b)))))))"

definition tm_tx_result_is_success :: "nat \<Rightarrow> bool" where "tm_tx_result_is_success cd \<longleftrightarrow> cd = 0"

definition tm_tx_gas_used :: "int \<Rightarrow> u64 option" where
  "tm_tx_gas_used g = (if 0 \<le> g \<and> (word_of_int g :: u64) > 0 then Some (word_of_int g) else None)"

text \<open>The index flag of an attribute is not read again.\<close>

definition tm_events_to_abci_events :: "(string \<times> (bytes \<times> bytes \<times> bool) list) list \<Rightarrow> abci_event list" where
  "tm_events_to_abci_events evs = map (\<lambda>(kind, attrs). (kind, map (\<lambda>(k, v, _). (k, v)) attrs)) evs"

record tm_tx_response =
  tt_tx :: bytes
  tt_code :: nat
  tt_gas_used :: int
  tt_events :: "(string \<times> (bytes \<times> bytes \<times> bool) list) list"

record tm_rpc =
  get_block :: "u64 \<Rightarrow> bytes list res"
  get_tx_by_hash :: "bytes \<Rightarrow> tm_tx_response res"

section \<open>Following the chain\<close>

record index_env =
  ix_crates :: node_crates
  ix_codec :: index_codec
  ix_block_codec :: block_codec

text \<open>The clock is read once for the transaction and once for each event.\<close>

fun index_events ::
    "index_codec \<Rightarrow> ('db, 'tx) rocks \<Rightarrow> (nat \<Rightarrow> u64) \<Rightarrow> string \<Rightarrow> nat \<Rightarrow> abci_event list \<Rightarrow> u64 \<Rightarrow> u32 \<Rightarrow> 'db \<Rightarrow> 'db" where
  "index_events ic R clock tx_id n [] h i db = db"
| "index_events ic R clock tx_id n (ev # evs) h i db =
     index_events ic R clock tx_id (Suc n) evs h i (snd (index_event ic R (clock (Suc n)) tx_id (of_nat n) ev h i db))"

definition index_tx_from_block_and_tm_tx ::
    "index_env \<Rightarrow> ('db, 'tx) rocks \<Rightarrow> ('db \<Rightarrow> db_iter) \<Rightarrow> (nat \<Rightarrow> u64) \<Rightarrow> tm_rpc \<Rightarrow> bytes \<Rightarrow> u64 \<Rightarrow> u32 \<Rightarrow> 'db \<Rightarrow> (unit res \<times> 'db) option" where
  "index_tx_from_block_and_tm_tx E R its clock api wire h i db = (case get_tx_by_hash api (sha256 (ix_crates E) wire) of
      Inl e \<Rightarrow> Some (Err e, db)
    | Inr resp \<Rightarrow> (case decode_eld_tx_from_block_tx_bytes (ix_crates E) (ix_block_codec E) (tt_tx resp) of
        None \<Rightarrow> None
      | Some (Inl e) \<Rightarrow> Some (Err e, db)
      | Some (Inr t) \<Rightarrow>
          (let evs = tm_events_to_abci_events (tt_events resp) in
           case index_transaction (ix_crates E) (ix_codec E) R its (clock 0) t h i
               (if tm_tx_result_is_success (tt_code resp) then TxSuccess else TxFailed) (tm_tx_gas_used (tt_gas_used resp)) evs db of
             None \<Rightarrow> None
           | Some (Inl e, db1) \<Rightarrow> Some (Err e, db1)
           | Some (Inr _, db1) \<Rightarrow> (case calculate_tx_id (ix_crates E) t of
               None \<Rightarrow> None
             | Some tx_id \<Rightarrow> Some (Ok (), index_events (ix_codec E) R clock tx_id 0 evs h i db1)))))"

text \<open>A block is fully written when none of its transactions failed.\<close>

fun index_block ::
    "index_env \<Rightarrow> ('db, 'tx) rocks \<Rightarrow> ('db \<Rightarrow> db_iter) \<Rightarrow> (nat \<Rightarrow> nat \<Rightarrow> u64) \<Rightarrow> tm_rpc \<Rightarrow> u64 \<Rightarrow> nat \<Rightarrow> bytes list \<Rightarrow> 'db \<Rightarrow> (bool \<times> 'db) option" where
  "index_block E R its clock api h i [] db = Some (True, db)"
| "index_block E R its clock api h i (wire # wires) db = (case index_tx_from_block_and_tm_tx E R its (clock i) api wire h (of_nat i) db of
      None \<Rightarrow> None
    | Some (r, db1) \<Rightarrow> map_option (\<lambda>(full, db2). (is_ok r \<and> full, db2)) (index_block E R its clock api h (Suc i) wires db1))"

text \<open>One turn of the loop.\<close>

definition sync_step ::
    "index_env \<Rightarrow> ('db, 'tx) rocks \<Rightarrow> ('db \<Rightarrow> db_iter) \<Rightarrow> (nat \<Rightarrow> nat \<Rightarrow> u64) \<Rightarrow> tm_rpc \<Rightarrow> 'db \<Rightarrow> 'db option" where
  "sync_step E R its clock api db = (case get_indexer_cursor (db_get R db) of
      Inl _ \<Rightarrow> Some db
    | Inr cursor \<Rightarrow>
        (let next_height = (case cursor of None \<Rightarrow> 1 | Some h \<Rightarrow> if h = - 1 then h else h + 1) in
         case get_block api next_height of
           Inl _ \<Rightarrow> Some db
         | Inr wires \<Rightarrow> (case index_block E R its clock api next_height 0 wires db of
             None \<Rightarrow> None
           | Some (full, db1) \<Rightarrow> Some (if full then snd (set_indexer_cursor R next_height db1) else db1))))"

fun repair_block ::
    "index_env \<Rightarrow> ('db, 'tx) rocks \<Rightarrow> ('db \<Rightarrow> db_iter) \<Rightarrow> (nat \<Rightarrow> nat \<Rightarrow> u64) \<Rightarrow> tm_rpc \<Rightarrow> u64 \<Rightarrow> nat \<Rightarrow> bytes list \<Rightarrow> 'db \<Rightarrow> (unit res \<times> 'db) option" where
  "repair_block E R its clock api h i [] db = Some (Ok (), db)"
| "repair_block E R its clock api h i (wire # wires) db = (case block_position_indexed (db_get R db) h (of_nat i) of
      Inl e \<Rightarrow> Some (Err e, db)
    | Inr True \<Rightarrow> repair_block E R its clock api h (Suc i) wires db
    | Inr False \<Rightarrow> (case index_tx_from_block_and_tm_tx E R its (clock i) api wire h (of_nat i) db of
        None \<Rightarrow> None | Some (_, db1) \<Rightarrow> repair_block E R its clock api h (Suc i) wires db1))"

definition startup_repair_cursor_block ::
    "index_env \<Rightarrow> ('db, 'tx) rocks \<Rightarrow> ('db \<Rightarrow> db_iter) \<Rightarrow> (nat \<Rightarrow> nat \<Rightarrow> u64) \<Rightarrow> tm_rpc \<Rightarrow> 'db \<Rightarrow> (unit res \<times> 'db) option" where
  "startup_repair_cursor_block E R its clock api db = (case get_indexer_cursor (db_get R db) of
      Inl e \<Rightarrow> Some (Err e, db)
    | Inr None \<Rightarrow> Some (Ok (), db)
    | Inr (Some h) \<Rightarrow> if h = 0 then Some (Ok (), db)
        else (case get_block api h of Inl e \<Rightarrow> Some (Err e, db) | Inr wires \<Rightarrow> repair_block E R its clock api h 0 wires db))"

text \<open>The life of the indexer: starts and turns of the loop, against a Tendermint that answers with the blocks of one chain or with an
  error.\<close>

definition serves_chain :: "tm_rpc \<Rightarrow> (u64 \<Rightarrow> bytes list) \<Rightarrow> bool" where
  "serves_chain api chain \<longleftrightarrow> (\<forall>h wires. get_block api h = Ok wires \<longrightarrow> wires = chain h)"

inductive indexer_step :: "index_env \<Rightarrow> ('db, 'tx) rocks \<Rightarrow> ('db \<Rightarrow> db_iter) \<Rightarrow> (u64 \<Rightarrow> bytes list) \<Rightarrow> 'db \<Rightarrow> 'db \<Rightarrow> bool"
  for E R its chain where
  turn: "serves_chain api chain \<Longrightarrow> sync_step E R its clock api db = Some db' \<Longrightarrow> indexer_step E R its chain db db'"
| start: "serves_chain api chain \<Longrightarrow> startup_repair_cursor_block E R its clock api db = Some (r, db') \<Longrightarrow> indexer_step E R its chain db db'"

inductive indexer_run :: "index_env \<Rightarrow> ('db, 'tx) rocks \<Rightarrow> ('db \<Rightarrow> db_iter) \<Rightarrow> (u64 \<Rightarrow> bytes list) \<Rightarrow> 'db \<Rightarrow> 'db \<Rightarrow> bool"
  for E R its chain where
  stay: "indexer_run E R its chain db db"
| go: "indexer_run E R its chain db db1 \<Longrightarrow> indexer_step E R its chain db1 db2 \<Longrightarrow> indexer_run E R its chain db db2"

section \<open>Rows are added, the cursor is kept\<close>

definition keeps :: "reader \<Rightarrow> reader \<Rightarrow> bool" where
  "keeps rd rd' \<longleftrightarrow> (\<forall>cf k v. rd cf k = Some (Some v) \<longrightarrow> (\<exists>v'. rd' cf k = Some (Some v'))) \<and>
     rd' IndexedTransactionsCf INDEXER_CURSOR_KEY = rd IndexedTransactionsCf INDEXER_CURSOR_KEY"

abbreviation kept :: "('db, 'tx) rocks \<Rightarrow> 'db \<Rightarrow> unit res \<times> 'db \<Rightarrow> bool" where
  "kept R db out \<equiv> keeps (db_get R db) (db_get R (snd out))"

lemma keeps_refl [simp]: "keeps rd rd" by (simp add: keeps_def)

lemma keeps_trans: "keeps rd rd1 \<Longrightarrow> keeps rd1 rd2 \<Longrightarrow> keeps rd rd2" unfolding keeps_def by metis

lemma and_put_kept:
  assumes "kept R db x" "\<And>db1. kept R db1 (f db1)"
  shows "kept R db (and_put x f)"
proof (cases x)
  case (Pair r db1)
  show ?thesis
  proof (cases r)
    case (Inr u)
    have "keeps (db_get R db) (db_get R db1)" using assms(1) Pair by simp
    from keeps_trans [OF this assms(2) [of db1]] show ?thesis using Pair Inr by (simp add: and_put_def)
  qed (use assms(1) Pair in \<open>simp add: and_put_def\<close>)
qed

lemma and_put_Ok: "and_put x f = (Ok u, db') \<longleftrightarrow> (\<exists>db1. x = (Ok (), db1) \<and> f db1 = (Ok u, db'))"
  by (auto simp: and_put_def split: prod.splits sum.splits)

text \<open>No row is written under the key of the cursor.\<close>

definition other_key :: "bytes \<Rightarrow> bool" where "other_key k \<longleftrightarrow> k \<noteq> INDEXER_CURSOR_KEY"

lemma other_key_char [simp]: "c \<noteq> CHR ''m'' \<Longrightarrow> other_key (str_bytes (c # s))"
  by (simp add: other_key_def INDEXER_CURSOR_KEY_def)

lemma other_keys [simp]:
  "other_key (block_position_chron_index_key_bytes h i)" "other_key (verified_proof_reward_index_key p h i)"
  "other_key INDEXED_TRANSACTIONS_PRIMARY_TOTAL_COUNT_KEY" "other_key VERIFIED_PROOF_GLOBAL_REWARDS_COUNT_KEY"
  by (simp_all add: block_position_chron_index_key_bytes_def verified_proof_reward_index_key_def
      INDEXED_TRANSACTIONS_PRIMARY_TOTAL_COUNT_KEY_def VERIFIED_PROOF_GLOBAL_REWARDS_COUNT_KEY_def)

lemma put_row_kept:
  assumes "rocks_documented R" "other_key k"
  shows "kept R db (put_row R op k v db)"
  using rocks_laws(5) [OF assms(1)] assms(2) by (auto simp: put_row_def keeps_def other_key_def split: option.splits)

lemma put_event_row_kept: "rocks_documented R \<Longrightarrow> kept R db (put_event_row R op k v db)"
  using rocks_laws(5) [of R] by (auto simp: put_event_row_def keeps_def split: option.splits)

lemma bumps_kept:
  assumes "rocks_documented R"
  shows "kept R db (bump_indexed_transaction_primary_total_count R its db)" "kept R db (bump_verified_proof_global_rewards_count R db)"
  using put_row_kept [OF assms]
  by (auto simp: bump_indexed_transaction_primary_total_count_def bump_verified_proof_global_rewards_count_def split: sum.splits)

lemma index_reward_row_kept:
  assumes "rocks_documented R"
  shows "kept R db (index_reward_row cr R t status h i db)"
  by (auto simp: index_reward_row_def split: payload_inner.splits intro!: and_put_kept put_row_kept [OF assms] bumps_kept [OF assms])

lemma index_secondary_rows_kept:
  assumes "rocks_documented R"
  shows "kept R db (index_secondary_rows cr R tx_id t status h i db)"
  unfolding index_secondary_rows_def by (intro and_put_kept index_reward_row_kept [OF assms] put_row_kept [OF assms]) simp_all

lemma index_event_kept:
  assumes "rocks_documented R"
  shows "kept R db (index_event ic R now tx_id n ev h i db)"
  by (auto simp: index_event_def Let_def split: option.splits intro!: and_put_kept put_event_row_kept [OF assms])

lemma index_events_kept: "rocks_documented R \<Longrightarrow> keeps (db_get R db) (db_get R (index_events ic R clock tx_id n evs h i db))"
proof (induction evs arbitrary: n db)
  case (Cons ev evs)
  show ?case using keeps_trans [OF index_event_kept [OF Cons.prems] Cons.IH [OF Cons.prems]] by simp
qed simp

definition present :: "reader \<Rightarrow> u64 \<Rightarrow> u32 \<Rightarrow> bool" where
  "present rd h i \<longleftrightarrow> (\<exists>v. rd IndexedTransactionsCf (block_position_chron_index_key_bytes h i) = Some (Some v))"

lemma present_keeps: "present rd h i \<Longrightarrow> keeps rd rd' \<Longrightarrow> present rd' h i" unfolding present_def keeps_def by blast

lemma present_indexed: "present rd h i \<longleftrightarrow> block_position_indexed rd h i = Ok True"
  by (auto simp: present_def block_position_indexed_def result_simps)

lemma put_row_present:
  assumes "rocks_documented R" "put_row R op (block_position_chron_index_key_bytes h i) v db = (Ok u, db')"
  shows "present (db_get R db') h i"
  using assms rocks_laws(5) [OF assms(1)] by (auto simp: put_row_def present_def split: option.splits)

lemma calculate_tx_id_0x: "calculate_tx_id cr t = Some tx_id \<Longrightarrow> \<exists>s. tx_id = ''0x'' @ s"
  by (auto simp: calculate_tx_id_def)

lemma index_transaction_kept:
  assumes "rocks_documented R" "index_transaction cr ic R its now t h i status gas evs db = Some (r, db')"
  shows "keeps (db_get R db) (db_get R db')" "r = Ok () \<Longrightarrow> present (db_get R db') h i"
proof -
  obtain tx_id s where id: "calculate_tx_id cr t = Some tx_id" "tx_id = ''0x'' @ s"
    using assms(2) calculate_tx_id_0x by (fastforce simp: index_transaction_def split: option.splits)
  let ?rest = "\<lambda>found db3. and_put (index_secondary_rows cr R tx_id t status h i db3) (\<lambda>db6.
              if found = None then bump_indexed_transaction_primary_total_count R its db6 else (Ok (), db6))"
  let ?pos = "\<lambda>db2. put_row R ''put_block_pos_chron_index_key'' (block_position_chron_index_key_bytes h i) (str_bytes tx_id) db2"
  let ?pre = "\<lambda>d f. and_put (put_row R ''put_indexed_transaction'' (str_bytes tx_id) d db) (\<lambda>db1.
            and_put (put_row R ''put_block_index_key''
                (str_bytes (''block_height:'' @ show_nat (unat h) @ '':tx_index:'' @ show_nat (unat i))) (str_bytes tx_id) db1) f)"
  have rest: "kept R db3 (?rest found db3)" for db3 and found :: "bytes option"
    by (intro and_put_kept) (auto intro!: index_secondary_rows_kept [OF assms(1)] bumps_kept(1) [OF assms(1)])
  have pre: "kept R db (?pre d (\<lambda>db2. and_put (?pos db2) (?rest found)))" for d and found :: "bytes option"
    by (intro and_put_kept rest) (auto simp: id(2) intro!: put_row_kept [OF assms(1)])
  consider (failed) "db' = db" "r \<noteq> Ok ()" | (written) d and found :: "bytes option" where "?pre d (\<lambda>db2. and_put (?pos db2) (?rest found)) = (r, db')"
    using assms(2) id(1) by (auto simp: index_transaction_def split: option.splits)
  then have "keeps (db_get R db) (db_get R db') \<and> (r = Ok () \<longrightarrow> present (db_get R db') h i)"
  proof cases
    case (written d found)
    have "present (db_get R db') h i" if ok: "r = Ok ()"
    proof -
      obtain db2 db3 where p: "?pos db2 = (Ok (), db3)" "?rest found db3 = (Ok (), db')" using written ok by (auto simp: and_put_Ok)
      show ?thesis using present_keeps [OF put_row_present [OF assms(1) p(1)]] rest [of db3 found] p(2) by simp
    qed
    then show ?thesis using pre [of d found] written by simp
  qed simp
  then show "keeps (db_get R db) (db_get R db')" "r = Ok () \<Longrightarrow> present (db_get R db') h i" by auto
qed

lemma index_tx_kept:
  assumes "rocks_documented R" "index_tx_from_block_and_tm_tx E R its clock api wire h i db = Some (r, db')"
  shows "keeps (db_get R db) (db_get R db')" "r = Ok () \<Longrightarrow> present (db_get R db') h i"
proof -
  have "keeps (db_get R db) (db_get R db') \<and> (r = Ok () \<longrightarrow> present (db_get R db') h i)"
  proof (cases "(r, db') = (r, db) \<and> r \<noteq> Ok ()")
    case False
    then obtain t status gas evs db1 r1 where t: "index_transaction (ix_crates E) (ix_codec E) R its (clock 0) t h i status gas evs db = Some (r1, db1)"
      "r1 = Ok () \<and> (\<exists>tx_id. db' = index_events (ix_codec E) R clock tx_id 0 evs h i db1) \<or> r1 = r \<and> r \<noteq> Ok () \<and> db' = db1"
      using assms(2) by (auto simp: index_tx_from_block_and_tm_tx_def Let_def split: sum.splits option.splits prod.splits) blast
    note k = index_transaction_kept [OF assms(1) t(1)]
    from t(2) show ?thesis
      using k keeps_trans [OF k(1) index_events_kept [OF assms(1)]] present_keeps [OF k(2) index_events_kept [OF assms(1)]] by auto
  qed auto
  then show "keeps (db_get R db) (db_get R db')" "r = Ok () \<Longrightarrow> present (db_get R db') h i" by auto
qed

lemma index_block_kept:
  assumes "rocks_documented R" "index_block E R its clock api h i wires db = Some (full, db')"
  shows "keeps (db_get R db) (db_get R db') \<and> (full \<longrightarrow> (\<forall>j < length wires. present (db_get R db') h (of_nat (i + j))))"
  using assms(2)
proof (induction wires arbitrary: i db full db')
  case (Cons wire wires)
  obtain r db1 full1 where s: "index_tx_from_block_and_tm_tx E R its (clock i) api wire h (of_nat i) db = Some (r, db1)"
    "index_block E R its clock api h (Suc i) wires db1 = Some (full1, db')" "full = (is_ok r \<and> full1)"
    using Cons.prems by (auto split: option.splits prod.splits)
  note k = index_tx_kept [OF assms(1) s(1)] and ih = Cons.IH [OF s(2)]
  have "present (db_get R db') h (of_nat (i + j))" if "full" "j < length (wire # wires)" for j
  proof (cases j)
    case 0
    then show ?thesis using k(2) present_keeps ih that s(3) by (auto simp: is_ok_iff)
  next
    case (Suc l)
    then show ?thesis using ih that s(3) by auto
  qed
  then show ?case using keeps_trans [OF k(1)] ih by auto
qed auto

lemma repair_block_kept:
  assumes "rocks_documented R" "repair_block E R its clock api h i wires db = Some (r, db')"
  shows "keeps (db_get R db) (db_get R db')"
  using assms(2)
proof (induction wires arbitrary: i db)
  case (Cons wire wires)
  then show ?case using keeps_trans [OF index_tx_kept(1) [OF assms(1)]]
    by (auto split: sum.splits bool.splits option.splits prod.splits)
qed simp

section \<open>Properties\<close>

text \<open>Every block up to the cursor has a row for each of its transactions.\<close>

definition indexed_up_to :: "(u64 \<Rightarrow> bytes list) \<Rightarrow> reader \<Rightarrow> bool" where
  "indexed_up_to chain rd \<longleftrightarrow> (\<forall>c h i. get_indexer_cursor rd = Ok (Some c) \<longrightarrow> 0 < h \<longrightarrow> h \<le> c \<longrightarrow> i < length (chain h) \<longrightarrow>
     block_position_indexed rd h (of_nat i) = Ok True)"

lemma keeps_cursor: "keeps rd rd' \<Longrightarrow> get_indexer_cursor rd' = get_indexer_cursor rd"
  by (simp add: keeps_def get_indexer_cursor_def)

lemma indexed_up_to_keeps: "indexed_up_to chain rd \<Longrightarrow> keeps rd rd' \<Longrightarrow> indexed_up_to chain rd'"
  unfolding indexed_up_to_def present_indexed [symmetric] using keeps_cursor [of rd rd'] present_keeps [of rd _ _ rd'] by simp

lemma show_nat_utf8 [simp]: "from_utf8 (str_bytes (show_nat n)) = Some (show_nat n)"
proof (rule from_utf8_ascii, unfold list_all_iff, intro ballI)
  fix c assume "c \<in> set (show_nat n)"
  then obtain d where "d < 10" "c = digit_char d" using set_show_nat by blast
  then show "(of_char c :: nat) < 128" by (auto simp: digit_char_def)
qed

lemma cursor_after_set:
  assumes "rocks_documented R" "set_indexer_cursor R h db = (r, db')"
  shows "get_indexer_cursor (db_get R db') = (case r of Inl _ \<Rightarrow> get_indexer_cursor (db_get R db) | Inr _ \<Rightarrow> Ok (Some h))"
    "present (db_get R db') h' i \<longleftrightarrow> present (db_get R db) h' i"
proof -
  have "block_position_chron_index_key_bytes h' i \<noteq> INDEXER_CURSOR_KEY" using other_keys(1) unfolding other_key_def .
  then show "get_indexer_cursor (db_get R db') = (case r of Inl _ \<Rightarrow> get_indexer_cursor (db_get R db) | Inr _ \<Rightarrow> Ok (Some h))"
    "present (db_get R db') h' i \<longleftrightarrow> present (db_get R db) h' i"
    using assms(2) rocks_laws(5) [OF assms(1)]
    by (auto simp: set_indexer_cursor_def put_row_def get_indexer_cursor_def present_def split: option.splits)
qed

lemma next_height_cases:
  assumes "(h :: u64) \<le> (case cursor of None \<Rightarrow> 1 | Some c \<Rightarrow> if c = - 1 then c else c + 1)" "0 < h"
  shows "h = (case cursor of None \<Rightarrow> 1 | Some c \<Rightarrow> if c = - 1 then c else c + 1) \<or> (\<exists>c. cursor = Some c \<and> h \<le> c)"
proof (cases cursor)
  case None
  then have "unat h = unat (1 :: u64)" using assms by (simp add: word_le_nat_alt word_less_nat_alt)
  then have "h = 1" by (simp only: word_unat_eq_iff)
  then show ?thesis using None by simp
next
  case (Some c)
  show ?thesis
  proof (cases "c = - 1")
    case False
    then have "1 + c \<noteq> 0" by (metis add.commute eq_neg_iff_add_eq_0)
    from unatSuc [OF this] have "unat (c + 1) = Suc (unat c)" by (simp add: add.commute)
    then show ?thesis using assms(1) Some False by (auto simp: word_le_nat_alt word_unat_eq_iff)
  qed (use Some in simp)
qed

lemma sync_step_indexed:
  assumes "rocks_documented R" "indexed_up_to chain (db_get R db)" "serves_chain api chain" "sync_step E R its clock api db = Some db'"
  shows "indexed_up_to chain (db_get R db')"
proof (cases "db' = db")
  case False
  then obtain cursor wires full db1 where c: "get_indexer_cursor (db_get R db) = Ok cursor"
    and s: "get_block api (case cursor of None \<Rightarrow> 1 | Some h \<Rightarrow> if h = - 1 then h else h + 1) = Ok wires"
      "index_block E R its clock api (case cursor of None \<Rightarrow> 1 | Some h \<Rightarrow> if h = - 1 then h else h + 1) 0 wires db = Some (full, db1)"
      "db' = (if full then snd (set_indexer_cursor R (case cursor of None \<Rightarrow> 1 | Some h \<Rightarrow> if h = - 1 then h else h + 1) db1) else db1)"
    using assms(4) by (auto simp: sync_step_def Let_def split: sum.splits option.splits prod.splits)
  define n where "n = (case cursor of None \<Rightarrow> 1 | Some h \<Rightarrow> if h = - 1 then h else h + 1)"
  note k = index_block_kept [OF assms(1) s(2) [folded n_def]]
  have w: "wires = chain n" using assms(3) s(1) by (simp add: serves_chain_def n_def)
  have up: "indexed_up_to chain (db_get R db1)" using indexed_up_to_keeps [OF assms(2)] k by blast
  show ?thesis
  proof (cases full)
    case True
    obtain r where set: "set_indexer_cursor R n db1 = (r, db')" using s(3) True by (cases "set_indexer_cursor R n db1") (simp add: n_def)
    note cs = cursor_after_set [OF assms(1) set]
    have cur: "get_indexer_cursor (db_get R db1) = Ok cursor" using keeps_cursor [of "db_get R db" "db_get R db1"] k c by simp
    have below: "h = n \<or> (\<exists>c. cursor = Some c \<and> h \<le> c)" if "h \<le> n" "0 < h" for h
      using next_height_cases [OF that(1) [unfolded n_def] that(2)] by (simp add: n_def)
    show ?thesis using up k below w True
      by (auto simp: indexed_up_to_def present_indexed [symmetric] cs cur split: sum.splits) blast
  qed (use up s(3) in simp)
qed (use assms(2) in simp)

lemma repair_indexed:
  assumes "rocks_documented R" "indexed_up_to chain (db_get R db)" "startup_repair_cursor_block E R its clock api db = Some (r, db')"
  shows "indexed_up_to chain (db_get R db')"
  using assms(2,3) indexed_up_to_keeps [OF assms(2) repair_block_kept [OF assms(1)]]
  by (auto simp: startup_repair_cursor_block_def split: sum.splits option.splits if_splits)

text \<open>C40: the index has no gaps below its cursor.  Whatever the indexer does, over any number of starts and turns of its loop, with
  answers of Tendermint and writes that may fail at any point, every transaction of every block up to the stored cursor has its
  row in the position index, as long as this was so at the beginning, for instance with an empty database.\<close>

theorem blocks_up_to_cursor_indexed:
  assumes "rocks_documented R" "indexer_run E R its chain db db'" "indexed_up_to chain (db_get R db)"
  shows "indexed_up_to chain (db_get R db')"
  using assms(2,3)
proof (induction rule: indexer_run.induct)
  case (go db db1 db2)
  from go.hyps(2) go.IH [OF go.prems] show ?case
    by cases (auto intro: sync_step_indexed [OF assms(1)] repair_indexed [OF assms(1)])
qed

text \<open>An empty transaction in a block: base64 decodes no bytes to no bytes, so the decoder calls itself on the same input for ever,
  and the turn of the loop that meets it does not return.\<close>

lemma empty_tx_never_decodes:
  assumes "hex_decode (hex cr) [] = Some []" "tx_of_str bc [] = None" "base64_decode bc [] = Some []"
  shows "decode_eld_tx_from_block_tx_bytes cr bc [] = None"
proof -
  have "\<not> (cr' = cr \<and> bc' = bc \<and> b = [])" if r: "decode_eld_tx_from_block_tx_bytes cr' bc' b = Some r" for cr' bc' b r
  proof (rule decode_eld_tx_from_block_tx_bytes.raw_induct [where P = "\<lambda>cr' bc' b r. \<not> (cr' = cr \<and> bc' = bc \<and> b = [])", OF _ r])
    fix f :: "node_crates \<Rightarrow> block_codec \<Rightarrow> bytes \<Rightarrow> tx res option" and cr' bc' b y
    assume f: "\<And>cr' bc' b y. f cr' bc' b = Some y \<Longrightarrow> \<not> (cr' = cr \<and> bc' = bc \<and> b = [])"
    assume body: "(case decode_eld_tx_from_wire cr' bc' b of
      Inr t \<Rightarrow> Some (Ok t)
    | Inl _ \<Rightarrow> (case from_utf8 b of
        None \<Rightarrow> Some (ok_or (ValidationError ''tx'') (tx_of_slice bc' b))
      | Some s \<Rightarrow> (case tx_of_str bc' s of
          Some t \<Rightarrow> Some (Ok t)
        | None \<Rightarrow> (case base64_decode bc' (trim s) of
            None \<Rightarrow> Some (ok_or (ValidationError ''tx'') (tx_of_slice bc' b))
          | Some nested \<Rightarrow> Option.bind (f cr' bc' nested) (\<lambda>r. case r of
              Inr t \<Rightarrow> Some (Ok t) | Inl _ \<Rightarrow> Some (ok_or (ValidationError ''tx'') (tx_of_slice bc' b))))))) = Some y"
    have none: "f cr bc [] = None" using f by (cases "f cr bc []") auto
    show "\<not> (cr' = cr \<and> bc' = bc \<and> b = [])"
      using body assms none by (auto simp: decode_eld_tx_from_wire_def from_utf8_def ok_or_def trim_def trim_start_def trim_end_def)
  qed
  then show ?thesis by (cases "decode_eld_tx_from_block_tx_bytes cr bc []") auto
qed

lemma empty_tx_stops_indexer:
  assumes "hex_decode (hex (ix_crates E)) [] = Some []" "tx_of_str (ix_block_codec E) [] = None" "base64_decode (ix_block_codec E) [] = Some []"
    and "get_tx_by_hash api (sha256 (ix_crates E) []) = Ok resp" "tt_tx resp = []"
  shows "index_tx_from_block_and_tm_tx E R its clock api [] h i db = None"
  using empty_tx_never_decodes [OF assms(1-3)] assms(4,5) by (simp add: index_tx_from_block_and_tm_tx_def)

text \<open>A first block with one transfer, on a database that never fails.\<close>

definition index_rocks :: "(column_family \<Rightarrow> bytes \<Rightarrow> bytes option, column_family \<Rightarrow> bytes \<Rightarrow> bytes option) rocks" where
  "index_rocks = \<lparr>db_get = (\<lambda>db cf k. Some (db cf k)), db_put = (\<lambda>db cf k v. Some (db(cf := (db cf)(k \<mapsto> v)))), transaction = id,
     tx_get = (\<lambda>db cf k. Some (db cf k)), tx_put = (\<lambda>db cf k v. Some (db(cf := (db cf)(k \<mapsto> v)))),
     tx_delete = (\<lambda>db cf k. Some (db(cf := (db cf)(k := None)))), tx_commit = (\<lambda>_ t. Some t)\<rparr>"

lemma index_rocks_documented: "rocks_documented index_rocks"
  by (auto simp: rocks_documented_def index_rocks_def rd_update_def intro!: ext)

definition demo_index_env :: index_env where
  "demo_index_env = \<lparr>ix_crates = model_crates, ix_codec = \<lparr>enc_indexed_tx = (\<lambda>_. Some []), dec_indexed_tx = (\<lambda>_. None),
       enc_indexed_event = (\<lambda>_. Some []), dec_indexed_event = (\<lambda>_. None)\<rparr>,
     ix_block_codec = \<lparr>tx_of_str = (\<lambda>_. Some demo_transfer), tx_of_slice = (\<lambda>_. None), base64_decode = (\<lambda>_. None)\<rparr>\<rparr>"

definition demo_chain :: "u64 \<Rightarrow> bytes list" where "demo_chain h = (if h = 1 then [str_bytes ''00''] else [])"

definition demo_rpc :: tm_rpc where
  "demo_rpc = \<lparr>get_block = (\<lambda>h. Ok (demo_chain h)),
     get_tx_by_hash = (\<lambda>_. Ok \<lparr>tt_tx = str_bytes ''00'', tt_code = 0, tt_gas_used = 0, tt_events = []\<rparr>)\<rparr>"

abbreviation no_rows :: "'db \<Rightarrow> db_iter" where
  "no_rows \<equiv> \<lambda>_. \<lparr>iter_from = (\<lambda>_ _. []), iter_start = (\<lambda>_. []), iter_end = (\<lambda>_. [])\<rparr>"

lemma demo_turn:
  obtains db' where "sync_step demo_index_env index_rocks no_rows (\<lambda>_ _. 0) demo_rpc (\<lambda>_ _. None) = Some db'"
    "get_indexer_cursor (db_get index_rocks db') = Ok (Some 1)"
proof -
  have dec: "decode_eld_tx_from_wire model_crates (ix_block_codec demo_index_env) (str_bytes ''00'') = Ok demo_transfer"
  proof -
    have "from_utf8 (str_bytes ''00'') = Some ''00''" "hex_decode std_hex ''00'' = Some [0]" "from_utf8 [0] = Some [CHR 0x00]" by code_simp+
    then show ?thesis by (simp add: decode_eld_tx_from_wire_def demo_index_env_def model_crates_def)
  qed
  have "\<exists>db1. index_tx_from_block_and_tm_tx demo_index_env index_rocks no_rows (\<lambda>_. 0) demo_rpc (str_bytes ''00'') 1 0 (\<lambda>_ _. None) = Some (Ok (), db1)"
    using dec by (simp add: index_tx_from_block_and_tm_tx_def demo_rpc_def decode_eld_tx_from_block_tx_bytes.simps [of _ _ "str_bytes ''00''"] Let_def)
      (simp add: demo_index_env_def index_transaction_def calculate_tx_id_def model_crates_def index_rocks_def and_put_def put_row_def
        index_secondary_rows_def index_reward_row_def demo_transfer_def payload_new_def bump_indexed_transaction_primary_total_count_def
        INDEXED_TRANSACTIONS_PRIMARY_TOTAL_COUNT_KEY_def count_primary_indexed_transaction_keys_def block_position_chron_index_key_bytes_def
        tm_events_to_abci_events_def)
  then obtain db1 where i: "index_tx_from_block_and_tm_tx demo_index_env index_rocks no_rows (\<lambda>_. 0) demo_rpc (str_bytes ''00'') 1 0 (\<lambda>_ _. None) = Some (Ok (), db1)"
    by blast
  obtain db' where s: "set_indexer_cursor index_rocks 1 db1 = (Ok (), db')" by (simp add: set_indexer_cursor_def put_row_def index_rocks_def)
  have "get_indexer_cursor (db_get index_rocks (\<lambda>_ _. None)) = Ok None" by (simp add: get_indexer_cursor_def index_rocks_def)
  moreover have "get_block demo_rpc 1 = Ok [str_bytes ''00'']" by (simp add: demo_rpc_def demo_chain_def)
  ultimately have "sync_step demo_index_env index_rocks no_rows (\<lambda>_ _. 0) demo_rpc (\<lambda>_ _. None) = Some db'"
    using i s by (simp add: sync_step_def)
  then show thesis using that cursor_after_set(1) [OF index_rocks_documented s] by simp
qed

theorem blocks_up_to_cursor_indexed_witness:
  "\<exists>db'. sync_step demo_index_env index_rocks no_rows (\<lambda>_ _. 0) demo_rpc (\<lambda>_ _. None) = Some db' \<and>
     block_position_indexed (db_get index_rocks db') 1 0 = Ok True"
proof -
  obtain db' where s: "sync_step demo_index_env index_rocks no_rows (\<lambda>_ _. 0) demo_rpc (\<lambda>_ _. None) = Some db'"
    "get_indexer_cursor (db_get index_rocks db') = Ok (Some 1)" by (rule demo_turn)
  have "serves_chain demo_rpc demo_chain" by (simp add: serves_chain_def demo_rpc_def)
  from indexer_step.turn [OF this s(1)] have "indexer_run demo_index_env index_rocks no_rows demo_chain (\<lambda>_ _. None) db'"
    by (rule indexer_run.go [OF indexer_run.stay])
  moreover have "indexed_up_to demo_chain (db_get index_rocks (\<lambda>_ _. None))"
    by (simp add: indexed_up_to_def get_indexer_cursor_def index_rocks_def)
  ultimately have "indexed_up_to demo_chain (db_get index_rocks db')" by (rule blocks_up_to_cursor_indexed [OF index_rocks_documented])
  then have "block_position_indexed (db_get index_rocks db') 1 (of_nat 0) = Ok True"
    by (rule indexed_up_to_def [THEN iffD1, rule_format, OF _ s(2)]) (simp_all add: demo_chain_def)
  then show ?thesis using s(1) by auto
qed

end
