(* ===== verification/Spec2Isabelle.thy ===== *)
theory Spec2Isabelle
  imports Genesis Mempool Info_Connection State_Sync Indexer
begin

text \<open>
  \<^bold>\<open>Verification of the Eld chain node.\<close>  The repository is a Tendermint application in Rust: the protocol library
  \<^verbatim>\<open>src/common\<close>, the node \<^verbatim>\<open>src/node_app\<close> and a client.  Accounts, staking accounts, namespaces, epoch records and capacity
  registrations are objects (CADOs) addressed by paths; transactions change them; providers reserve disk space in a capacity
  file, commit to it with a Merkle root and are paid for answering the challenges of each epoch.

  \<^bold>\<open>Parts and their theories.\<close>
  \<^item> Vocabulary: \<^verbatim>\<open>Prelude\<close> (words, errors, checked arithmetic, printing and parsing, stable sorting), \<^verbatim>\<open>Coin_Nonce\<close>
    (\<^verbatim>\<open>coin.rs\<close>, \<^verbatim>\<open>nonce.rs\<close>), \<^verbatim>\<open>Hex_Ids\<close> (addresses and other identifiers), \<^verbatim>\<open>Cado\<close> (\<^verbatim>\<open>cado.rs\<close>, \<^verbatim>\<open>namespace.rs\<close>), \<^verbatim>\<open>Tx\<close> (the
    records and payloads under \<^verbatim>\<open>common/src/tx\<close>, signing and verification), \<^verbatim>\<open>Fees\<close> (\<^verbatim>\<open>fee.rs\<close>, \<^verbatim>\<open>protocol_constants.rs\<close>).
  \<^item> Transactions on the wire: \<^verbatim>\<open>Json_Validation\<close> (\<^verbatim>\<open>validation.rs\<close>), \<^verbatim>\<open>Tx_Decode\<close> (the serde declarations).
  \<^item> State and handlers: \<^verbatim>\<open>App_State\<close> (\<^verbatim>\<open>app_state/envelope.rs\<close>, \<^verbatim>\<open>app.rs\<close>: layered lookup, staging, application hash),
    \<^verbatim>\<open>Handlers\<close> (\<^verbatim>\<open>tx_processor\<close>), \<^verbatim>\<open>Merkle\<close> and \<^verbatim>\<open>Verified_Proof\<close> (capacity proofs, challenges, rewards), \<^verbatim>\<open>Deliver\<close>
    (\<^verbatim>\<open>deliver_tx.rs\<close>, from the raw bytes to the response), with \<^verbatim>\<open>Ledger_Effects\<close> and \<^verbatim>\<open>Staging\<close> as the facts about every handler.
  \<^item> Blocks: \<^verbatim>\<open>Genesis\<close> (\<^verbatim>\<open>init_chain.rs\<close>), \<^verbatim>\<open>Epoch\<close> (\<^verbatim>\<open>epoch.rs\<close>, \<^verbatim>\<open>challenges.rs\<close>), \<^verbatim>\<open>Block\<close> (\<^verbatim>\<open>begin_block.rs\<close>, \<^verbatim>\<open>end_block.rs\<close>,
    \<^verbatim>\<open>commit.rs\<close>), \<^verbatim>\<open>Block_Effects\<close>, \<^verbatim>\<open>Commit_Effects\<close>, \<^verbatim>\<open>Commit_Liveness\<close> and \<^verbatim>\<open>Chain\<close> (any number of blocks), \<^verbatim>\<open>Mempool\<close>
    (\<^verbatim>\<open>mempool/mod.rs\<close>).
  \<^item> Persistence: \<^verbatim>\<open>Storage\<close> (\<^verbatim>\<open>storage/rocksdb\<close>), \<^verbatim>\<open>Object_Log\<close> (the object store as a map), \<^verbatim>\<open>Snapshot\<close> (\<^verbatim>\<open>tip.rs\<close>,
    \<^verbatim>\<open>app_state_snapshot.rs\<close>), \<^verbatim>\<open>Restart\<close>.
  \<^item> Providers: \<^verbatim>\<open>Slots\<close> (\<^verbatim>\<open>slot_allocator.rs\<close>), \<^verbatim>\<open>Capacity_Manager\<close> (\<^verbatim>\<open>capacity_manager\<close>), \<^verbatim>\<open>Capacity_Store\<close>,
    \<^verbatim>\<open>Capacity_Alloc\<close>, \<^verbatim>\<open>Capacity_Answers\<close>, \<^verbatim>\<open>Provider\<close>.
  \<^item> Queries: \<^verbatim>\<open>Rate_Limit\<close> (the limiters of the ABCI, REST and storage interfaces), \<^verbatim>\<open>Queries\<close> (pagination and the prefix scans),
    \<^verbatim>\<open>Info_Connection\<close> (the reported head and the query processors).
  \<^item> State sync: \<^verbatim>\<open>State_Sync\<close> (snapshots cut into chunks, stored, listed, served, offered and received).
  \<^item> Index: \<^verbatim>\<open>Indexer\<close> (\<^verbatim>\<open>rocksdb/indexer.rs\<close>, \<^verbatim>\<open>indexer/sync.rs\<close>: the rows of transactions and the thread that follows the chain).
  \<^item> Upkeep: \<^verbatim>\<open>Pinboard_Gc\<close> (a tick of the collection of expired pinboard content from the capacity slots).

  \<^bold>\<open>How the code is modelled.\<close>  A Rust function is a HOL function of the same name with the state it locks passed in and
  returned; a \<^verbatim>\<open>Result\<close> is a sum with the error on the left; a panic, a failed \<^verbatim>\<open>expect\<close> and a fatal error are
  \<^term>\<open>None\<close>.  Integers keep their width, the unchecked operators wrap as in a release build, \<^verbatim>\<open>i64\<close> heights are
  \<^typ>\<open>int\<close>, \<^verbatim>\<open>usize\<close> lengths are \<^typ>\<open>nat\<close>.  Hash maps are maps, B-tree maps sorted association lists.  Log lines, metrics of the logger
  and the free text of errors are not kept.  Locks and asynchronous tasks are not modelled: the calls of one connection come
  one after the other, as Tendermint makes them.  All loops are structural or have a termination proof; the decoder of block transactions, which may not return, is a partial function; no fuel is used.

  \<^bold>\<open>What is a parameter.\<close>  The crates the sources call are records of functions; what the theorems need of them is a
  named hypothesis with a concrete instance in the witnesses: \<open>documented\<close> (hexadecimal and the bincode
  round trips of accounts), \<open>hex_documented\<close>, \<open>shuffle_documented\<close> and \<open>rng_documented\<close> (the seeded shuffle is a
  permutation, the generator stays in range), \<open>rocks_documented\<close> and \<open>rocks_reliable\<close> (RocksDB transactions; calls
  that succeed), \<open>iter_documented\<close> (an iterator visits the rows in key order), \<open>host_ok\<close>, \<open>os_reliable\<close>,
  \<open>xof_documented\<close>, \<open>json_reads\<close> (file system, extendable hash and JSON files of a provider), \<open>sound_store\<close> and the codec
  predicates next to it.  Signature verification, SHA-256, JSON parsing and the state trie root are uninterpreted functions;
  binding of the Merkle root is stated with the collision it would take to break it.

  \<^bold>\<open>Interfaces.\<close>  Locales state the contracts between parts and are interpreted on the model: printable identifiers
  (\<open>hex_id\<close>, six kinds), the layered lookup (\<open>working_set\<close>), balances and stakes (\<open>ledger\<close>), delivery as a guard against
  replays (\<open>replay_guard\<close>), Merkle roots (\<open>vector_commitment\<close>), the content store a commit mirrors blobs into
  (\<open>content_store\<close> and its extension \<open>erasable_store\<close>, by the slot manager) and the limiters over the last minute (\<open>sliding_window\<close>, by the ABCI, REST
  and storage limiters).

  \<^bold>\<open>What is shown.\<close>
  \<^item> Delivery: it is total; a transaction is refused without any change or its sender is charged the fee and the nonce advances;
    a funded, well-formed transfer is accepted; coins are not created except by rewards; no transaction is charged twice in
    the life of the chain; each handler does exactly what its payload says.
  \<^item> Blocks: genesis installs exactly the listed accounts; a commit writes every staged object through to the
    database, so that the object store refines the map of objects; it completes exactly when the blobs of its posts
    are present; a node restarts from its database at epoch heights only.
  \<^item> Capacity: incremental tree updates equal a rebuild; roots bind the leaves; rewards are paid only for the published
    challenge with a valid proof, in the exact amount; in every state of a provider its answers are accepted; stored
    content is read back, deletion undoes storing, a restart rebuilds the same tree.
  \<^item> Selection: validators by stake and the capacity validator are chosen deterministically among the eligible.
  \<^item> Queries: the limiters decide as a reference that remembers everything and let at most the configured number through;
    the pages of a listing together are the listing; the head reported to Tendermint parses back.
  \<^item> State sync: the commit of an epoch height hands over the snapshot of the committed state, and the chunks a peer loads
    decompress to it; a node without snapshots stores none of the chunks it accepted.
  \<^item> Index: in every state the indexer reaches, each transaction of each block up to the cursor has its row; an empty
    transaction in a block stops it.
  \<^item> Upkeep: a tick of the garbage collection keeps the provider in order, keeps the content of live messages and removes
    expired content, within the number of messages it scans.
  \<^item> Where the code does not do what it means to, the theorem says what it does (for instance a challenge respelled with a
    prefix is rewarded again, balances are not part of the application hash, the mempool ignores balances).

  \<^bold>\<open>Bounds.\<close>  Supply is bounded by the largest coin; block and chain properties hold for any number of blocks and
  transactions; the capacity properties for any allocation whose slots fit the file.  Listings are bounded by the thousand
  results the code allows.

  \<^bold>\<open>Not modelled.\<close>  The HTTP routes of the REST interface and the client crate are glue over the operations above; libp2p
  synchronisation is asynchronous and outside consensus; configuration, logging, key files and the submission of
  transactions by the node are input and output.
\<close>

end
